(* ===== verification/Prelude.thy ===== *)
theory Prelude
  imports Complex_Main "HOL-Library.Sublist"
begin

text \<open>
  The library the component theories share: the exceptions of the Python code as values, the
  results of fallible calls, Python's truth value and \<open>or\<close> on the data the services
  exchange, the bounded retry loop that three agents repeat around a database write, and the
  generic lemmas and fact collections the component proofs use.

  Conventions of the whole development.  A Python function that may raise returns a value of
  type \<open>'a result\<close>, that is \<open>exc + 'a\<close>: \<open>Inl\<close> is the exception that
  leaves the function, \<open>Inr\<close> the value it returns.  A coroutine that changes state takes
  the state and returns the result together with the new state.  Floats are modelled as exact
  reals (no rounding, no NaN or infinity), Python's unbounded integers as \<open>int\<close> or
  \<open>nat\<close>, and a point in time as an \<open>int\<close> number of microseconds.
\<close>

named_theorems store_simps \<open>how the operations of the store act on its tables\<close>
named_theorems frame_simps \<open>what an operation leaves alone\<close>

type_synonym time = int

section \<open>Exceptions and results\<close>

text \<open>
  The exceptions the modelled code raises or catches.  \<open>CmmsError\<close> carries the method, the
  path and the last error (\<open>cmms_client.CmmsError\<close>), \<open>HttpError\<close> the status code and
  the detail of a FastAPI \<open>HTTPException\<close>.
\<close>

datatype exc =
    ValueError string
  | KeyError string
  | TypeError string
  | RuntimeError string
  | ZeroDivisionError
  | CmmsError string string string
  | HttpError nat string
  | OtherError string

type_synonym 'a result = "exc + 'a"

definition bindR :: "'a result \<Rightarrow> ('a \<Rightarrow> 'b result) \<Rightarrow> 'b result" where
  "bindR r f = (case r of Inl e \<Rightarrow> Inl e | Inr x \<Rightarrow> f x)"

lemma bindR_simps [simp]:
  "bindR (Inl e) f = Inl e"
  "bindR (Inr x) f = f x"
  by (simp_all add: bindR_def)

lemma bindR_Inr_iff: "bindR r f = Inr y \<longleftrightarrow> (\<exists>x. r = Inr x \<and> f x = Inr y)"
  by (cases r) simp_all

lemma bindR_Inl_iff: "bindR r f = Inl e \<longleftrightarrow> r = Inl e \<or> (\<exists>x. r = Inr x \<and> f x = Inl e)"
  by (cases r) simp_all

section \<open>Truth values and \<open>or\<close>\<close>

text \<open>
  Python's \<open>x or y\<close> returns \<open>y\<close> when \<open>x\<close> is falsy.  A value that may be
  \<open>None\<close> is an \<open>option\<close>; for strings and integers the empty string and 0 are
  falsy too.
\<close>

definition or_str :: "string option \<Rightarrow> string \<Rightarrow> string" where
  "or_str x d = (case x of None \<Rightarrow> d | Some s \<Rightarrow> if s = [] then d else s)"

definition or_int :: "int option \<Rightarrow> int \<Rightarrow> int" where
  "or_int x d = (case x of None \<Rightarrow> d | Some n \<Rightarrow> if n = 0 then d else n)"

definition or_list :: "'a list option \<Rightarrow> 'a list" where
  "or_list x = (case x of None \<Rightarrow> [] | Some xs \<Rightarrow> xs)"

definition truthy_str :: "string option \<Rightarrow> bool" where
  "truthy_str x = (case x of None \<Rightarrow> False | Some s \<Rightarrow> s \<noteq> [])"

lemma or_simps [simp]:
  "or_str None d = d" "or_str (Some []) d = d" "s \<noteq> [] \<Longrightarrow> or_str (Some s) d = s"
  "or_int None n = n" "or_int (Some 0) n = n" "k \<noteq> 0 \<Longrightarrow> or_int (Some k) n = k"
  "or_list None = []" "or_list (Some xs) = xs"
  "\<not> truthy_str None" "truthy_str (Some s) \<longleftrightarrow> s \<noteq> []"
  by (simp_all add: or_str_def or_int_def or_list_def truthy_str_def)

section \<open>Running maxima\<close>

text \<open>
  The scoring code keeps a running maximum over optional scores
  (\<open>if m is not None: worst = max(worst, m / k)\<close>).
\<close>

fun worst_of :: "real \<Rightarrow> real option list \<Rightarrow> real" where
  "worst_of w [] = w"
| "worst_of w (None # xs) = worst_of w xs"
| "worst_of w (Some x # xs) = worst_of (max w x) xs"

lemma worst_of_ge_start: "w \<le> worst_of w xs"
proof (induction w xs rule: worst_of.induct)
  case (3 w x xs)
  then show ?case by simp
qed simp_all

lemma worst_of_le_iff:
  "worst_of w xs \<le> b \<longleftrightarrow> w \<le> b \<and> (\<forall>x. Some x \<in> set xs \<longrightarrow> x \<le> b)"
  by (induction w xs rule: worst_of.induct) auto

lemma worst_of_less_iff:
  "worst_of w xs < b \<longleftrightarrow> w < b \<and> (\<forall>x. Some x \<in> set xs \<longrightarrow> x < b)"
  by (induction w xs rule: worst_of.induct) auto

lemma worst_of_ge_iff:
  "b \<le> worst_of w xs \<longleftrightarrow> b \<le> w \<or> (\<exists>x. Some x \<in> set xs \<and> b \<le> x)"
  using worst_of_less_iff [of w xs b] by (auto simp: not_less [symmetric])

section \<open>The bounded retry around a database write\<close>

text \<open>
  The Knowledge, Root-Cause and Recommendation agents each carry the same method
  \<open>_persist_with_retry\<close>: up to \<open>retry_attempts\<close> calls of a write that returns
  whether the row existed; an exception or a \<open>False\<close> leads to the next attempt, and after
  the last one a \<open>RuntimeError\<close> is raised.  The write is a function of the attempt number,
  so that the database may fail on one attempt and work on the next.
\<close>

fun retry_from ::
  "nat \<Rightarrow> nat \<Rightarrow> (nat \<Rightarrow> 's \<Rightarrow> bool result \<times> 's) \<Rightarrow> string \<Rightarrow> 's \<Rightarrow> unit result \<times> 's" where
  "retry_from 0 k w msg s = (Inl (RuntimeError msg), s)"
| "retry_from (Suc n) k w msg s =
     (case w k s of
        (Inr True, s') \<Rightarrow> (Inr (), s')
      | (Inr False, s') \<Rightarrow> retry_from n (Suc k) w msg s'
      | (Inl e, s') \<Rightarrow> retry_from n (Suc k) w msg s')"

text \<open>
  A write under faults: \<open>faults k\<close> is the exception the database raises on attempt
  \<open>k\<close>, if any.  All the writes run in one transaction, so a failed attempt leaves the
  store as it was.
\<close>

definition with_faults ::
  "(nat \<Rightarrow> exc option) \<Rightarrow> ('s \<Rightarrow> bool result \<times> 's) \<Rightarrow> nat \<Rightarrow> 's \<Rightarrow> bool result \<times> 's" where
  "with_faults faults w k s = (case faults k of Some e \<Rightarrow> (Inl e, s) | None \<Rightarrow> w s)"

text \<open>
  The contract of such a write: an attempt that does not report success changed nothing.
  Under it the loop is all or nothing.
\<close>

locale atomic_write =
  fixes save :: "nat \<Rightarrow> 's \<Rightarrow> bool result \<times> 's"
  assumes no_success_no_change: "save k s = (r, s') \<Longrightarrow> r \<noteq> Inr True \<Longrightarrow> s' = s"
begin

lemma retry_all_or_nothing:
  "retry_from n k save msg s = (r, s') \<Longrightarrow>
     (r = Inr () \<and> (\<exists>j. k \<le> j \<and> j < k + n \<and> save j s = (Inr True, s')))
   \<or> (r = Inl (RuntimeError msg) \<and> s' = s)"
proof (induction n arbitrary: k)
  case 0
  then show ?case by simp
next
  case (Suc n)
  obtain r1 s1 where w: "save k s = (r1, s1)" by (cases "save k s")
  show ?case
  proof (cases "r1 = Inr True")
    case True
    with w Suc.prems show ?thesis by auto
  next
    case False
    with w have "s1 = s" by (rule no_success_no_change)
    with False w Suc.prems have "retry_from n (Suc k) save msg s = (r, s')"
      by (cases r1) (auto split: bool.splits)
    from Suc.IH [OF this] show ?thesis by (metis Suc_leD add_Suc_shift)
  qed
qed

lemma retry_succeeds:
  assumes "save j s = (Inr True, s')" "k \<le> j" "j < k + n"
  shows "\<exists>s''. retry_from n k save msg s = (Inr (), s'')"
  using assms
proof (induction n arbitrary: k)
  case 0
  then show ?case by simp
next
  case (Suc n)
  obtain r1 s1 where w: "save k s = (r1, s1)" by (cases "save k s")
  show ?case
  proof (cases "r1 = Inr True")
    case True
    with w show ?thesis by simp
  next
    case False
    with w have s1: "s1 = s" by (rule no_success_no_change)
    with False w Suc.prems(1) have "k \<noteq> j" by auto
    with Suc.prems Suc.IH [of "Suc k"] have "\<exists>s''. retry_from n (Suc k) save msg s = (Inr (), s'')"
      by simp
    with False w s1 show ?thesis by (cases r1) (auto split: bool.splits)
  qed
qed

end

lemma atomic_with_faults:
  assumes "\<And>s r s'. w s = (r, s') \<Longrightarrow> r \<noteq> Inr True \<Longrightarrow> s' = s"
  shows "atomic_write (with_faults faults w)"
  by unfold_locales (use assms in \<open>auto simp: with_faults_def split: option.splits\<close>)

end
