(* ===== verification/PyText.thy ===== *)
theory PyText
  imports Prelude
begin

text \<open>
  The string operations of Python that the modelled code uses: \<open>lower\<close>, \<open>upper\<close>,
  \<open>strip\<close>, \<open>startswith\<close>, substring tests, \<open>splitlines\<close>, \<open>join\<close> and the
  rendering of integers.  A string is a list of code points below 256, which is what
  Isabelle's \<open>char\<close> holds; text with code points above that (the bullet sign of two
  regular expressions, for example) is outside the model.
\<close>

section \<open>Characters\<close>

text \<open>\<open>str.isspace\<close> for code points below 256; the regular expressions' \<open>\s\<close> is the same set.\<close>

definition is_space :: "char \<Rightarrow> bool" where
  "is_space c = (let n = of_char c :: nat in
     (9 \<le> n \<and> n \<le> 13) \<or> (28 \<le> n \<and> n \<le> 32) \<or> n = 133 \<or> n = 160)"

definition is_digit :: "char \<Rightarrow> bool" where
  "is_digit c = (let n = of_char c :: nat in 48 \<le> n \<and> n \<le> 57)"

definition digit_val :: "char \<Rightarrow> nat" where
  "digit_val c = of_char c - 48"

definition lower_char :: "char \<Rightarrow> char" where
  "lower_char c = (let n = of_char c :: nat in
     if (65 \<le> n \<and> n \<le> 90) \<or> (192 \<le> n \<and> n \<le> 222 \<and> n \<noteq> 215) then char_of (n + 32) else c)"

text \<open>
  \<open>upper\<close> is used for comparisons with ASCII prefixes only.  Three code points below 256
  (181, 223, 255) have upper-case forms above 255 or of two letters; they stay as they are,
  and no prefix the code compares with contains them or their upper-case forms at that place.
\<close>

definition upper_char :: "char \<Rightarrow> char" where
  "upper_char c = (let n = of_char c :: nat in
     if (97 \<le> n \<and> n \<le> 122) \<or> (224 \<le> n \<and> n \<le> 254 \<and> n \<noteq> 247) then char_of (n - 32) else c)"

definition py_lower :: "string \<Rightarrow> string" where
  "py_lower s = map lower_char s"

definition py_upper :: "string \<Rightarrow> string" where
  "py_upper s = map upper_char s"

section \<open>Stripping, prefixes, substrings\<close>

definition py_lstrip :: "string \<Rightarrow> string" where
  "py_lstrip s = dropWhile is_space s"

definition py_rstrip :: "string \<Rightarrow> string" where
  "py_rstrip s = rev (dropWhile is_space (rev s))"

definition py_strip :: "string \<Rightarrow> string" where
  "py_strip s = py_rstrip (py_lstrip s)"

fun py_startswith :: "string \<Rightarrow> string \<Rightarrow> bool" where
  "py_startswith s [] = True"
| "py_startswith [] (p # ps) = False"
| "py_startswith (c # s) (p # ps) = (c = p \<and> py_startswith s ps)"

text \<open>\<open>py_in p s\<close> is Python's \<open>p in s\<close>.\<close>

fun py_in :: "string \<Rightarrow> string \<Rightarrow> bool" where
  "py_in p [] = (p = [])"
| "py_in p (c # s) = (py_startswith (c # s) p \<or> py_in p s)"

definition replace_char :: "char \<Rightarrow> char \<Rightarrow> string \<Rightarrow> string" where
  "replace_char a b s = map (\<lambda>c. if c = a then b else c) s"

fun py_join :: "string \<Rightarrow> string list \<Rightarrow> string" where
  "py_join sep [] = []"
| "py_join sep [s] = s"
| "py_join sep (s # t # r) = s @ sep @ py_join sep (t # r)"

lemma py_startswith_iff: "py_startswith s p \<longleftrightarrow> (\<exists>r. s = p @ r)"
  by (induction s p rule: py_startswith.induct) auto

lemma py_in_iff: "py_in p s \<longleftrightarrow> (\<exists>a b. s = a @ p @ b)"
proof (induction p s rule: py_in.induct)
  case (1 p)
  then show ?case by auto
next
  case (2 p c s)
  show ?case
  proof
    assume "py_in p (c # s)"
    then consider "py_startswith (c # s) p" | "py_in p s" by auto
    then show "\<exists>a b. c # s = a @ p @ b"
    proof cases
      case 1
      then obtain r where "c # s = [] @ p @ r" by (auto simp: py_startswith_iff)
      then show ?thesis by blast
    next
      case b: 2
      with 2 obtain a b where "s = a @ p @ b" by blast
      then have "c # s = (c # a) @ p @ b" by simp
      then show ?thesis by blast
    qed
  next
    assume "\<exists>a b. c # s = a @ p @ b"
    then obtain a b where e: "c # s = a @ p @ b" by blast
    show "py_in p (c # s)"
    proof (cases a)
      case Nil
      with e have "py_startswith (c # s) p" by (simp add: py_startswith_iff)
      then show ?thesis by simp
    next
      case (Cons x xs)
      with e have "s = xs @ p @ b" by simp
      with 2 show ?thesis by auto
    qed
  qed
qed

lemma py_in_Nil [simp]: "py_in [] s"
  by (simp add: py_in_iff) blast

lemma py_in_append: "py_in p s \<Longrightarrow> py_in p (a @ s @ b)"
  by (auto simp: py_in_iff) (metis append.assoc)

lemma py_strip_Nil [simp]: "py_strip [] = []"
  by (simp add: py_strip_def py_lstrip_def py_rstrip_def)

lemma length_dropWhile_rev: "length (rev (dropWhile P (rev xs))) \<le> length xs"
  using length_dropWhile_le [of P "rev xs"] by simp

lemma length_py_strip: "length (py_strip s) \<le> length s"
  unfolding py_strip_def py_rstrip_def py_lstrip_def
  by (rule order_trans [OF length_dropWhile_rev length_dropWhile_le])

lemma hd_dropWhile_not: "dropWhile P xs \<noteq> [] \<Longrightarrow> \<not> P (hd (dropWhile P xs))"
  by (rule hd_dropWhile)

lemma py_strip_no_outer_space:
  assumes "py_strip s = c # t"
  shows "\<not> is_space c" "\<not> is_space (last (c # t))"
proof -
  let ?l = "py_lstrip s"
  have r: "py_rstrip ?l = c # t" using assms by (simp add: py_strip_def)
  then have ne: "dropWhile is_space (rev ?l) \<noteq> []" by (auto simp: py_rstrip_def)
  have "last (c # t) = hd (dropWhile is_space (rev ?l))"
    using r ne by (metis py_rstrip_def last_rev)
  with hd_dropWhile_not [OF ne] show "\<not> is_space (last (c # t))" by simp
  obtain z where z: "?l = py_rstrip ?l @ z"
    unfolding py_rstrip_def by (metis rev_append rev_rev_ident takeWhile_dropWhile_id)
  with r have "?l = c # t @ z" by simp
  then show "\<not> is_space c"
    unfolding py_lstrip_def using hd_dropWhile_not [of is_space s] by (metis list.distinct(1) list.sel(1))
qed

section \<open>Lines\<close>

text \<open>
  \<open>str.splitlines\<close>: the line boundaries below 256 are LF, VT, FF, CR, CR LF, FS, GS, RS
  and NEL; a boundary at the end adds no empty line.
\<close>

definition is_linebreak :: "char \<Rightarrow> bool" where
  "is_linebreak c = (let n = of_char c :: nat in
     (10 \<le> n \<and> n \<le> 13) \<or> (28 \<le> n \<and> n \<le> 30) \<or> n = 133)"

fun splitlines_from :: "string \<Rightarrow> string \<Rightarrow> string list" where
  "splitlines_from cur [] = (if cur = [] then [] else [rev cur])"
| "splitlines_from cur [c] = (if is_linebreak c then [rev cur] else [rev (c # cur)])"
| "splitlines_from cur (c # d # s) =
     (if c = CHR 0x0D \<and> d = CHR 0x0A then rev cur # splitlines_from [] s
      else if is_linebreak c then rev cur # splitlines_from [] (d # s)
      else splitlines_from (c # cur) (d # s))"

definition splitlines :: "string \<Rightarrow> string list" where
  "splitlines s = splitlines_from [] s"

lemma splitlines_Nil [simp]: "splitlines [] = []"
  by (simp add: splitlines_def)

lemma splitlines_from_clean:
  "list_all (\<lambda>c. \<not> is_linebreak c) cur \<Longrightarrow>
     list_all (list_all (\<lambda>c. \<not> is_linebreak c)) (splitlines_from cur s)"
proof (induction cur s rule: splitlines_from.induct)
  case (3 cur c d s)
  show ?case
  proof (cases "c = CHR 0x0D \<and> d = CHR 0x0A")
    case True
    have "list_all (list_all (\<lambda>c. \<not> is_linebreak c)) (splitlines_from [] s)"
      by (rule "3.IH"(1) [OF True]) simp
    moreover have "splitlines_from cur (c # d # s) = rev cur # splitlines_from [] s"
      unfolding splitlines_from.simps by (rule if_P [OF True])
    ultimately show ?thesis using "3.prems" by simp
  next
    case F: False
    show ?thesis
    proof (cases "is_linebreak c")
      case True
      have "list_all (list_all (\<lambda>c. \<not> is_linebreak c)) (splitlines_from [] (d # s))"
        by (rule "3.IH"(2) [OF F True]) simp
      moreover from F True have "splitlines_from cur (c # d # s) = rev cur # splitlines_from [] (d # s)"
        by (simp only: splitlines_from.simps if_True if_False)
      ultimately show ?thesis using "3.prems" by simp
    next
      case False
      have "list_all (list_all (\<lambda>c. \<not> is_linebreak c)) (splitlines_from (c # cur) (d # s))"
        by (rule "3.IH"(3) [OF F False]) (simp add: "3.prems" False)
      moreover from F False have "splitlines_from cur (c # d # s) = splitlines_from (c # cur) (d # s)"
        by (simp only: splitlines_from.simps if_False)
      ultimately show ?thesis by simp
    qed
  qed
qed simp_all

lemma splitlines_clean: "l \<in> set (splitlines s) \<Longrightarrow> c \<in> set l \<Longrightarrow> \<not> is_linebreak c"
  using splitlines_from_clean [of "[]" s] by (simp add: splitlines_def list_all_iff)

text \<open>Lines written with a newline between or after them are read back.\<close>

definition newline :: string where
  "newline = [CHR 0x0A]"

lemma splitlines_from_line:
  "list_all (\<lambda>c. \<not> is_linebreak c) l \<Longrightarrow>
     splitlines_from cur (l @ newline @ s) = (rev cur @ l) # splitlines_from [] s"
proof (induction l arbitrary: cur)
  case Nil
  have nl: "is_linebreak (CHR 0x0A)" by code_simp
  show ?case by (cases s) (simp_all add: newline_def nl)
next
  case (Cons c l)
  from Cons.prems have c: "\<not> is_linebreak c" "c \<noteq> CHR 0x0D"
    by (auto simp: is_linebreak_def)
  obtain d r where dr: "l @ newline @ s = d # r" by (cases l) (auto simp: newline_def)
  have "splitlines_from cur (c # d # r) = splitlines_from (c # cur) (d # r)"
    using c by (simp only: splitlines_from.simps) simp
  with Cons.IH [of "c # cur"] Cons.prems show ?case by (simp flip: dr)
qed

lemma splitlines_line:
  "list_all (\<lambda>c. \<not> is_linebreak c) l \<Longrightarrow> splitlines (l @ newline @ s) = l # splitlines s"
  by (simp add: splitlines_def splitlines_from_line)

lemma splitlines_from_end:
  "list_all (\<lambda>c. \<not> is_linebreak c) l \<Longrightarrow> splitlines_from cur l = (if rev cur @ l = [] then [] else [rev cur @ l])"
proof (induction l arbitrary: cur)
  case (Cons c l)
  then have c: "\<not> is_linebreak c" "c \<noteq> CHR 0x0D" by (auto simp: is_linebreak_def)
  with Cons show ?case by (cases l) auto
qed simp

lemma splitlines_join:
  "ls \<noteq> [] \<Longrightarrow> last ls \<noteq> [] \<Longrightarrow> list_all (list_all (\<lambda>c. \<not> is_linebreak c)) ls \<Longrightarrow>
     splitlines (py_join newline ls) = ls"
proof (induction ls)
  case (Cons l ls)
  show ?case
  proof (cases ls)
    case Nil
    with Cons.prems show ?thesis by (simp add: splitlines_def splitlines_from_end)
  next
    case (Cons m ms)
    with Cons.IH Cons.prems show ?thesis by (simp add: splitlines_line)
  qed
qed simp

section \<open>Integers as text\<close>

fun nat_str :: "nat \<Rightarrow> string" where
  "nat_str n = (if n < 10 then [char_of (48 + n)] else nat_str (n div 10) @ [char_of (48 + n mod 10)])"

declare nat_str.simps [simp del]

definition int_str :: "int \<Rightarrow> string" where
  "int_str i = (if i < 0 then CHR ''-'' # nat_str (nat (- i)) else nat_str (nat i))"

text \<open>Python's \<open>int\<close> on a non-empty string of decimal digits.\<close>

definition digits_value :: "string \<Rightarrow> nat" where
  "digits_value s = foldl (\<lambda>n c. 10 * n + digit_val c) 0 s"

lemma foldl_digits: "foldl (\<lambda>n c. 10 * n + digit_val c) a (s @ t) =
    foldl (\<lambda>n c. 10 * n + digit_val c) (foldl (\<lambda>n c. 10 * n + digit_val c) a s) t"
  by simp

lemma digit_char: "d < 10 \<Longrightarrow> digit_val (char_of (48 + d :: nat)) = d \<and> is_digit (char_of (48 + d :: nat))"
  by (simp add: digit_val_def is_digit_def take_bit_eq_mod)

lemma digits_value_nat_str: "digits_value (nat_str n) = n"
proof (induction n rule: nat_str.induct)
  case (1 n)
  show ?case
  proof (cases "n < 10")
    case True
    then show ?thesis by (simp add: nat_str.simps [of n] digits_value_def digit_char)
  next
    case False
    with 1 have ih: "digits_value (nat_str (n div 10)) = n div 10" by simp
    have d: "n mod 10 < 10" by simp
    from False have "digits_value (nat_str n) = 10 * digits_value (nat_str (n div 10)) + n mod 10"
      using digit_char [OF d] by (simp add: nat_str.simps [of n] digits_value_def)
    with ih show ?thesis by simp
  qed
qed

lemma nat_str_digits: "\<forall>c \<in> set (nat_str n). is_digit c"
proof (induction n rule: nat_str.induct)
  case (1 n)
  have d: "n mod 10 < 10" by simp
  show ?case
  proof (cases "n < 10")
    case True
    then show ?thesis by (simp add: nat_str.simps [of n] digit_char)
  next
    case False
    with 1 show ?thesis using digit_char [OF d] by (simp add: nat_str.simps [of n])
  qed
qed

section \<open>Strings inside JSON and \<open>repr\<close>\<close>

definition hex_digit :: "nat \<Rightarrow> char" where
  "hex_digit n = (if n < 10 then char_of (48 + n) else char_of (87 + n))"

text \<open>\<open>json.dumps\<close> of a string: everything outside printable ASCII is escaped.\<close>

definition json_char :: "char \<Rightarrow> string" where
  "json_char c = (let n = of_char c :: nat in
     if n = 34 then [CHR 0x5C, CHR 0x22]
     else if n = 92 then [CHR 0x5C, CHR 0x5C]
     else if n = 10 then [CHR 0x5C, CHR 0x6E]
     else if n = 13 then [CHR 0x5C, CHR 0x72]
     else if n = 9 then [CHR 0x5C, CHR 0x74]
     else if n = 12 then [CHR 0x5C, CHR 0x66]
     else if n = 8 then [CHR 0x5C, CHR 0x62]
     else if 32 \<le> n \<and> n \<le> 126 then [c]
     else [CHR 0x5C, CHR 0x75, CHR 0x30, CHR 0x30, hex_digit (n div 16), hex_digit (n mod 16)])"

definition json_str :: "string \<Rightarrow> string" where
  "json_str s = [CHR 0x22] @ concat (map json_char s) @ [CHR 0x22]"

text \<open>
  \<open>repr\<close> of a string: double quotes only when it holds an apostrophe and no double quote.
\<close>

definition repr_char :: "char \<Rightarrow> char \<Rightarrow> string" where
  "repr_char q c = (let n = of_char c :: nat in
     if c = q \<or> n = 92 then [CHR 0x5C, c]
     else if n = 10 then [CHR 0x5C, CHR 0x6E]
     else if n = 13 then [CHR 0x5C, CHR 0x72]
     else if n = 9 then [CHR 0x5C, CHR 0x74]
     else if (32 \<le> n \<and> n \<le> 126) \<or> (161 \<le> n \<and> n \<noteq> 173) then [c]
     else [CHR 0x5C, CHR 0x78, hex_digit (n div 16), hex_digit (n mod 16)])"

definition py_repr :: "string \<Rightarrow> string" where
  "py_repr s =
     (let q = (if CHR 0x27 \<in> set s \<and> CHR 0x22 \<notin> set s then CHR 0x22 else CHR 0x27)
      in [q] @ concat (map (repr_char q) s) @ [q])"

lemma json_char_length: "1 \<le> length (json_char c)"
  by (simp add: json_char_def Let_def)

lemma json_str_length: "length s + 2 \<le> length (json_str s)"
proof -
  have "length s \<le> length (concat (map json_char s))"
  proof (induction s)
    case (Cons c s)
    then show ?case using json_char_length [of c] by simp
  qed simp
  then show ?thesis by (simp add: json_str_def)
qed

section \<open>The text of an exception\<close>

text \<open>\<open>str(exc)\<close>.\<close>

definition exc_str :: "exc \<Rightarrow> string" where
  "exc_str e =
     (case e of
        ValueError s \<Rightarrow> s
      | KeyError k \<Rightarrow> py_repr k
      | TypeError s \<Rightarrow> s
      | RuntimeError s \<Rightarrow> s
      | ZeroDivisionError \<Rightarrow> ''division by zero''
      | CmmsError m p le \<Rightarrow> ''CMMS '' @ m @ '' '' @ p @ '' failed: '' @ le
      | HttpError n s \<Rightarrow> nat_str n @ '': '' @ s
      | OtherError s \<Rightarrow> s)"

end
