(* ===== verification/Uuid.thy ===== *)
theory Uuid
  imports PyText
begin

text \<open>
  The parts of Python's \<open>uuid.UUID\<close> the services use (\<open>db._parse_uuid\<close>,
  \<open>str(row["Id"])\<close>): parsing of a string, which raises \<open>ValueError\<close> when it is not
  a UUID, and the canonical rendering.  A UUID is its 128-bit value as a number.
\<close>

type_synonym uuid = nat

definition uuid_ok :: "uuid \<Rightarrow> bool" where
  "uuid_ok u \<longleftrightarrow> u < 2 ^ 128"

section \<open>Parsing\<close>

text \<open>
  \<open>uuid.UUID(s)\<close> drops every \<open>urn:\<close> and \<open>uuid:\<close>, the braces around the text and
  all hyphens, wants 32 characters and reads them with \<open>int(s, 16)\<close>, which accepts
  surrounding space, a sign, a \<open>0x\<close> prefix and single underscores between digits.
\<close>

fun drop_prefix :: "string \<Rightarrow> string \<Rightarrow> string option" where
  "drop_prefix [] s = Some s"
| "drop_prefix (p # ps) [] = None"
| "drop_prefix (p # ps) (c # s) = (if p = c then drop_prefix ps s else None)"

lemma drop_prefix_length: "drop_prefix p s = Some r \<Longrightarrow> length r \<le> length s"
  by (induction p s rule: drop_prefix.induct) (auto split: if_splits)

function remove_sub :: "string \<Rightarrow> string \<Rightarrow> string" where
  "remove_sub p [] = []"
| "remove_sub p (c # s) =
     (case p of [] \<Rightarrow> c # remove_sub p s
      | q # qs \<Rightarrow> (if q = c then (case drop_prefix qs s of
                        Some r \<Rightarrow> remove_sub p r
                      | None \<Rightarrow> c # remove_sub p s)
                   else c # remove_sub p s))"
  by pat_completeness auto
termination
  by (relation "measure (\<lambda>(p, s). length s)") (auto dest: drop_prefix_length)

definition strip_braces :: "string \<Rightarrow> string" where
  "strip_braces s =
     (let p = (\<lambda>c. c = CHR ''{'' \<or> c = CHR ''}'')
      in rev (dropWhile p (rev (dropWhile p s))))"

definition uuid_hex :: "string \<Rightarrow> string" where
  "uuid_hex s = filter (\<lambda>c. c \<noteq> CHR ''-'') (strip_braces (remove_sub ''uuid:'' (remove_sub ''urn:'' s)))"

definition hex_val :: "char \<Rightarrow> nat option" where
  "hex_val c = (let n = of_char c :: nat in
     if 48 \<le> n \<and> n \<le> 57 then Some (n - 48)
     else if 97 \<le> n \<and> n \<le> 102 then Some (n - 87)
     else if 65 \<le> n \<and> n \<le> 70 then Some (n - 55)
     else None)"

text \<open>
  \<open>int16_digits acc ok s\<close>: the digits so far are worth \<open>acc\<close>; \<open>ok\<close> says whether the
  text may end or an underscore may follow.
\<close>

fun int16_digits :: "nat \<Rightarrow> bool \<Rightarrow> string \<Rightarrow> nat option" where
  "int16_digits acc ok [] = (if ok then Some acc else None)"
| "int16_digits acc ok (c # s) =
     (if c = CHR ''_'' then (if ok then int16_digits acc False s else None)
      else case hex_val c of None \<Rightarrow> None | Some v \<Rightarrow> int16_digits (16 * acc + v) True s)"

definition int16_body :: "string \<Rightarrow> nat option" where
  "int16_body s =
     (case s of
        z # x # r \<Rightarrow> (if z = CHR ''0'' \<and> (x = CHR ''x'' \<or> x = CHR ''X'')
                      then (if r = [] then None else int16_digits 0 True r)
                      else int16_digits 0 False s)
      | _ \<Rightarrow> int16_digits 0 False s)"

definition py_int16 :: "string \<Rightarrow> int option" where
  "py_int16 s =
     (case py_strip s of
        [] \<Rightarrow> None
      | c # r \<Rightarrow> (if c = CHR ''+'' then map_option int (int16_body r)
                  else if c = CHR ''-'' then map_option (\<lambda>n. - int n) (int16_body r)
                  else map_option int (int16_body (c # r))))"

definition parse_uuid :: "string \<Rightarrow> uuid option" where
  "parse_uuid s =
     (let h = uuid_hex s in
      if length h \<noteq> 32 then None
      else case py_int16 h of
             None \<Rightarrow> None
           | Some i \<Rightarrow> (if 0 \<le> i \<and> i < 2 ^ 128 then Some (nat i) else None))"

section \<open>Rendering\<close>

definition hex_char :: "nat \<Rightarrow> char" where
  "hex_char d = (if d < 10 then char_of (48 + d) else char_of (87 + d))"

fun hex_fixed :: "nat \<Rightarrow> nat \<Rightarrow> string" where
  "hex_fixed 0 n = []"
| "hex_fixed (Suc k) n = hex_fixed k (n div 16) @ [hex_char (n mod 16)]"

definition uuid_str :: "uuid \<Rightarrow> string" where
  "uuid_str u =
     (let h = hex_fixed 32 u in
      take 8 h @ ''-'' @ take 4 (drop 8 h) @ ''-'' @ take 4 (drop 12 h) @ ''-''
      @ take 4 (drop 16 h) @ ''-'' @ drop 20 h)"

section \<open>A rendered UUID parses to itself\<close>

lemma length_hex_fixed [simp]: "length (hex_fixed k n) = k"
  by (induction k arbitrary: n) simp_all

definition hex_alphabet :: "string" where
  "hex_alphabet = ''0123456789abcdef''"

lemma hex_char_table:
  "list_all (\<lambda>d. hex_char d \<in> set hex_alphabet \<and> hex_val (hex_char d) = Some d) [0..<16]"
  by code_simp

lemma hex_char_facts:
  assumes "d < 16"
  shows "hex_char d \<in> set hex_alphabet" "hex_val (hex_char d) = Some d"
  using hex_char_table assms by (auto simp: list_all_iff simp del: upt_Suc)

lemma hex_alphabet_plain:
  "c \<in> set hex_alphabet \<Longrightarrow> c \<notin> set ''u-_+xX{}'' \<and> \<not> is_space c"
proof -
  have "list_all (\<lambda>c. c \<notin> set ''u-_+xX{}'' \<and> \<not> is_space c) hex_alphabet" by code_simp
  then show "c \<in> set hex_alphabet \<Longrightarrow> c \<notin> set ''u-_+xX{}'' \<and> \<not> is_space c"
    unfolding list_all_iff by blast
qed

lemma set_hex_fixed: "set (hex_fixed k n) \<subseteq> set hex_alphabet"
  by (induction k arbitrary: n) (auto simp: hex_char_facts)

lemma remove_sub_absent: "q \<notin> set s \<Longrightarrow> remove_sub (q # qs) s = s"
  by (induction s) auto

lemma dropWhile_absent: "\<forall>c \<in> set s. \<not> P c \<Longrightarrow> dropWhile P s = s"
  by (cases s) auto

lemma strip_absent: "\<forall>c \<in> set s. \<not> P c \<Longrightarrow> rev (dropWhile P (rev (dropWhile P s))) = s"
  by (simp add: dropWhile_absent)

lemma int16_digits_hex:
  "int16_digits acc ok (hex_fixed k n @ r) = int16_digits (acc * 16 ^ k + n mod 16 ^ k) (ok \<or> 0 < k) r"
proof (induction k arbitrary: n r)
  case 0
  then show ?case by simp
next
  case (Suc k)
  let ?d = "n mod 16"
  have d: "hex_val (hex_char ?d) = Some ?d" "hex_char ?d \<noteq> CHR ''_''"
    using hex_char_facts [of ?d] hex_alphabet_plain [of "hex_char ?d"] by auto
  have "n mod 16 ^ Suc k = ?d + 16 * (n div 16 mod 16 ^ k)"
    by (simp add: mod_mult2_eq)
  with d Suc [of "n div 16" "hex_char ?d # r"] show ?case
    by (simp add: algebra_simps)
qed

lemma py_int16_hex:
  assumes "1 < k"
  shows "py_int16 (hex_fixed k n) = Some (int (n mod 16 ^ k))"
proof -
  let ?h = "hex_fixed k n"
  have plain: "\<forall>c \<in> set ?h. c \<notin> set ''u-_+xX{}'' \<and> \<not> is_space c"
    using set_hex_fixed [of k n] hex_alphabet_plain by blast
  obtain c d r where h: "?h = c # d # r"
    using assms length_hex_fixed [of k n] by (cases ?h; cases "tl ?h") auto
  have strip: "py_strip ?h = ?h"
    unfolding py_strip_def py_lstrip_def py_rstrip_def using plain by (intro strip_absent) blast
  have "int16_body ?h = int16_digits 0 False ?h"
    using plain by (auto simp: int16_body_def h)
  also have "\<dots> = Some (n mod 16 ^ k)"
    using assms int16_digits_hex [of 0 False k n "[]"] by simp
  finally have "int16_body (c # d # r) = Some (n mod 16 ^ k)" by (simp add: h)
  with strip plain show ?thesis by (auto simp: py_int16_def h)
qed

lemma filter_keep: "\<forall>c \<in> set s. P c \<Longrightarrow> filter P s = s"
  by (induction s) auto

lemma split_32:
  "take 8 h @ take 4 (drop 8 h) @ take 4 (drop 12 h) @ take 4 (drop 16 h) @ drop 20 h = h"
proof -
  have "take 4 (drop 16 h) @ drop 20 h = drop 16 h"
    using append_take_drop_id [of 4 "drop 16 h"] by simp
  moreover have "take 4 (drop 12 h) @ drop 16 h = drop 12 h"
    using append_take_drop_id [of 4 "drop 12 h"] by simp
  moreover have "take 4 (drop 8 h) @ drop 12 h = drop 8 h"
    using append_take_drop_id [of 4 "drop 8 h"] by simp
  ultimately show ?thesis by simp
qed

lemma uuid_hex_str: "uuid_hex (uuid_str u) = hex_fixed 32 u"
proof -
  let ?h = "hex_fixed 32 u"
  have plain: "c \<in> set ?h \<Longrightarrow> c \<notin> set ''u-_+xX{}''" for c
    using set_hex_fixed [of 32 u] hex_alphabet_plain by blast
  have parts: "set (uuid_str u) \<subseteq> insert (CHR ''-'') (set ?h)"
    unfolding uuid_str_def Let_def
    by (auto dest: in_set_takeD in_set_dropD)
  have no_u: "CHR ''u'' \<notin> set (uuid_str u)" and no_braces: "CHR ''{'' \<notin> set (uuid_str u)" "CHR ''}'' \<notin> set (uuid_str u)"
    using parts plain by auto
  have nodash: "filter (\<lambda>c. c \<noteq> CHR ''-'') s = s" if "set s \<subseteq> set ?h" for s
    using that plain by (intro filter_keep) auto
  have "strip_braces (uuid_str u) = uuid_str u"
    unfolding strip_braces_def Let_def using no_braces by (intro strip_absent) metis
  with no_u have "uuid_hex (uuid_str u) = filter (\<lambda>c. c \<noteq> CHR ''-'') (uuid_str u)"
    by (simp add: uuid_hex_def remove_sub_absent)
  also have "\<dots> = take 8 ?h @ take 4 (drop 8 ?h) @ take 4 (drop 12 ?h) @ take 4 (drop 16 ?h) @ drop 20 ?h"
    unfolding uuid_str_def Let_def filter_append
    by (simp add: nodash set_take_subset set_drop_subset subset_trans [OF set_take_subset set_drop_subset])
  also have "\<dots> = ?h" by (rule split_32)
  finally show ?thesis .
qed

lemma parse_uuid_str:
  assumes "uuid_ok u"
  shows "parse_uuid (uuid_str u) = Some u"
proof -
  have "(16 :: nat) ^ 32 = 2 ^ 128"
    using power_mult [of "2 :: nat" 4 32] by simp
  with assms have u: "u mod 16 ^ 32 = u" by (simp add: uuid_ok_def)
  have "py_int16 (hex_fixed 32 u) = Some (int u)"
    using py_int16_hex [of 32 u] unfolding u by simp
  moreover have "int u < 2 ^ 128"
    using assms unfolding uuid_ok_def by (simp only: of_nat_less_numeral_power_cancel_iff)
  ultimately show ?thesis
    unfolding parse_uuid_def Let_def uuid_hex_str by simp
qed

lemma uuid_str_inj: "uuid_ok u \<Longrightarrow> uuid_ok v \<Longrightarrow> uuid_str u = uuid_str v \<Longrightarrow> u = v"
  by (metis option.inject parse_uuid_str)

lemma parse_uuid_ok: "parse_uuid s = Some u \<Longrightarrow> uuid_ok u"
  by (auto simp: parse_uuid_def uuid_ok_def Let_def split: if_splits option.splits)

end
