(* ===== verification/Domain.thy ===== *)
theory Domain
  imports Uuid
begin

text \<open>
  The data the agents, the API and the store exchange.  A JSON object of a fixed shape is a
  record whose optional keys are \<open>option\<close> fields; the status strings of the incident state
  machine (\<open>STATUS_FILTER\<close> of \<open>api/incidents.py\<close>) are a datatype with their spelling.
  Timestamps stay points in time where the code renders them with \<open>isoformat\<close>.
\<close>

section \<open>The incident status\<close>

datatype status =
    Open | Investigating | RiskAssessed | Recommended | AwaitingApproval | AutoInformed
  | Approved | ActionTaken | ActionFailed | Rejected | NeedsHumanReview | Resolved

definition all_statuses :: "status list" where
  "all_statuses = [Open, Investigating, RiskAssessed, Recommended, AwaitingApproval, AutoInformed,
     Approved, ActionTaken, ActionFailed, Rejected, NeedsHumanReview, Resolved]"

fun status_str :: "status \<Rightarrow> string" where
  "status_str Open = ''open''"
| "status_str Investigating = ''investigating''"
| "status_str RiskAssessed = ''risk_assessed''"
| "status_str Recommended = ''recommended''"
| "status_str AwaitingApproval = ''awaiting_approval''"
| "status_str AutoInformed = ''auto_informed''"
| "status_str Approved = ''approved''"
| "status_str ActionTaken = ''action_taken''"
| "status_str ActionFailed = ''action_failed''"
| "status_str Rejected = ''rejected''"
| "status_str NeedsHumanReview = ''needs_human_review''"
| "status_str Resolved = ''resolved''"

text \<open>The statuses the query parameter \<open>status\<close> may name (the regular expression STATUS_FILTER).\<close>

definition status_of_str :: "string \<Rightarrow> status option" where
  "status_of_str s = find (\<lambda>st. status_str st = s) all_statuses"

lemma all_statuses_complete: "s \<in> set all_statuses"
  by (cases s) (simp_all add: all_statuses_def)

lemma status_str_inject: "status_str a = status_str b \<longleftrightarrow> a = b"
  by (cases a; cases b) simp_all

lemma status_of_str_status_str: "status_of_str (status_str s) = Some s"
proof -
  have "distinct all_statuses" by (simp add: all_statuses_def)
  then show ?thesis
    unfolding status_of_str_def by (cases s) (simp_all add: all_statuses_def)
qed

section \<open>What detection writes: the anomaly summary\<close>

text \<open>
  One flagged sensor (\<open>_sensor_payload\<close> of the Detection Agent); events carry only the id,
  type, value and unit, so the other keys are optional.
\<close>

record sensor_entry =
  se_sensor_id :: string
  se_sensor_type :: "string option"
  se_value :: real
  se_unit :: string
  se_observed_at :: "time option"
  se_reason :: "string option"
  se_static_margin :: "real option"
  se_drift_z :: "real option"
  se_normal_min :: "real option"
  se_normal_max :: "real option"

record summary =
  su_equipment_id :: string
  su_detected_at :: time
  su_sensor_count :: nat
  su_sensors :: "sensor_entry list"

section \<open>Evidence, diagnosis, risk\<close>

record sop_chunk =
  sc_doc_id :: string
  sc_title :: string
  sc_section :: string
  sc_score :: real
  sc_excerpt :: string
  sc_citation :: string
  sc_source_type :: string
  sc_source_url :: "string option"

text \<open>
  The symptoms of a historical incident: a list of phrases in the seeded rows, an object with a
  pattern and a count in the rows the Action Agent learns.
\<close>

datatype symptoms = SymList "string list" | SymDict "string list" "nat option"

record history_match =
  hm_id :: string
  hm_equipment_name :: string
  hm_symptoms :: symptoms
  hm_root_cause :: string
  hm_resolution :: string
  hm_occurred_at :: time
  hm_source :: string
  hm_source_type :: string
  hm_source_url :: "string option"
  hm_same_equipment :: bool

record evidence =
  ev_incident_id :: string
  ev_collected_at :: time
  ev_query :: string
  ev_sop_chunks :: "sop_chunk list"
  ev_matched_history :: "history_match list"

record cited_point =
  cp_type :: string
  cp_ref :: string
  cp_text :: string

record consequence =
  cq_consequence :: string
  cq_rationale :: string

section \<open>Recommendations\<close>

text \<open>
  One recommended action as stored: the object \<open>_parse_recommendation\<close> writes, with the keys
  that may be missing optional; an element of the list that is not an object is its text.
\<close>

record rec_action =
  ra_action :: "string option"
  ra_priority :: "int option"
  ra_type :: "string option"
  ra_product_key :: "string option"
  ra_quantity :: "real option"

datatype json_action = ActDict rec_action | ActText string

record maintenance_status =
  ms_equipment_id :: string
  ms_name :: string
  ms_last_serviced_at :: "time option"
  ms_condition_flags :: "string list"

record incident_outcome =
  io_equipment_name :: string
  io_symptoms :: symptoms
  io_root_cause :: string
  io_action_taken :: string
  io_action_worked :: bool
  io_resolution :: string
  io_occurred_at :: time
  io_source :: string
  io_source_type :: string
  io_source_url :: "string option"

datatype tool_result =
    MaintenanceResult "maintenance_status option"
  | OutcomesResult "incident_outcome list"
  | ToolError string

record tool_entry =
  te_round :: nat
  te_tool :: string
  te_arguments :: "(string \<times> string) list"
  te_result :: tool_result
  te_at :: time

section \<open>Execution on the CMMS\<close>

text \<open>
  The object a CMMS answers with: the keys of a work order and of a reorder request together; a
  key that is missing or null is \<open>None\<close>.
\<close>

record cmms_json =
  cj_id :: "string option"
  cj_work_order_id :: "string option"
  cj_reorder_id :: "string option"
  cj_status :: "string option"
  cj_equipment_id :: "string option"
  cj_description :: "string option"
  cj_resolution_note :: "string option"
  cj_priority :: "string option"
  cj_requested_by :: "string option"
  cj_source_incident_id :: "string option"
  cj_product_key :: "string option"
  cj_quantity :: "real option"
  cj_unit :: "string option"
  cj_created_at :: "time option"
  cj_updated_at :: "time option"

text \<open>A mapped external operation (\<open>mapping.CmmsOperation\<close>).\<close>

record cmms_operation =
  op_kind :: string
  op_priority :: int
  op_source_action :: string
  op_description :: string
  op_product_key :: string
  op_quantity :: real

record execution =
  ex_kind :: string
  ex_reference :: string
  ex_response :: cmms_json
  ex_source_action :: string

record failure =
  fl_kind :: string
  fl_description :: string
  fl_product_key :: string
  fl_error :: string

section \<open>The details the history and the audit log carry\<close>

text \<open>The dictionary \<open>detail\<close> of \<open>save_action_result\<close>, one constructor for each caller.\<close>

datatype action_detail =
    Reconciled
  | NoOperations "(rec_action \<times> string) list"
  | Failures "failure list" "execution list" string
  | Executions "execution list"

text \<open>
  The column \<open>Detail\<close> of \<open>IncidentStateHistory\<close>: the object each writer serialises;
  \<open>DetText\<close> is a serialised object that was cut, which is not JSON any more.
\<close>

datatype hist_detail =
    DetDiagnosis int nat
  | DetRisk string int "string list"
  | DetActions "string option list"
  | DetNext status
  | DetGate status status
  | DetDecision "string option"
  | DetAction action_detail
  | DetNote string
  | DetLoop string string
  | DetText string

datatype audit_detail =
    AudDecision status "int option" "string option" "json_action list option" "string option"
      "tool_entry list option" "string option" "consequence list option" "int option" string
  | AudExecuted "string option" "time option" "execution list" action_detail
  | AudNote string
  | AudLoop string string bool string string symptoms

end
