(* ===== verification/Store.thy ===== *)
theory Store
  imports Domain
begin

text \<open>
  The database of the agent service (\<open>app/core/db.py\<close>): its tables as lists of rows in
  insertion order, and one definition per helper.  A statement that updates by primary key maps
  over the table; a transaction is one definition, so it takes place completely or not at all.
  \<open>_now()\<close> is the parameter \<open>t\<close> (one reading per operation) and \<open>_uuid()\<close> draws the
  next number from \<open>next_id\<close>: of the random identifiers the code relies only on their being
  new.  Connection failures are not part of these definitions; the retry loops of the agents add
  them (\<open>Prelude.with_faults\<close>).
\<close>

section \<open>Tables\<close>

record site_row =
  st_id :: uuid
  st_name :: string

record equipment_row =
  eq_id :: uuid
  eq_name :: string
  eq_site :: uuid
  eq_last_serviced_at :: "time option"
  eq_condition_flags :: "string list option"

record sensor_row =
  sn_id :: uuid
  sn_equipment :: uuid
  sn_type :: string
  sn_unit :: string
  sn_min :: real
  sn_max :: real

record reading_row =
  rd_sensor :: uuid
  rd_value :: real
  rd_occurred_at :: time

record incident =
  inc_id :: uuid
  inc_name :: string
  inc_site :: uuid
  inc_equipment :: uuid
  inc_status :: status
  inc_severity :: string
  inc_detected_at :: time
  inc_summary :: "summary option"
  inc_evidence :: "evidence option"
  inc_root_cause :: "string option"
  inc_confidence :: "int option"
  inc_cited :: "cited_point list option"
  inc_risk_severity :: "string option"
  inc_consequences :: "consequence list option"
  inc_hitl_level :: "int option"
  inc_required_level :: "int option"
  inc_actions :: "json_action list option"
  inc_rationale :: "string option"
  inc_tool_log :: "tool_entry list option"
  inc_risk_assessed_at :: "time option"
  inc_recommended_at :: "time option"
  inc_action_executed_at :: "time option"
  inc_resolved_at :: "time option"
  inc_created_at :: time
  inc_updated_at :: time
  inc_cost :: "real option"

record history_row =
  h_id :: uuid
  h_incident :: uuid
  h_from :: "status option"
  h_to :: status
  h_actor :: string
  h_reason :: "string option"
  h_detail :: "hist_detail option"
  h_at :: time

record approval_row =
  ap_id :: uuid
  ap_name :: string
  ap_incident :: uuid
  ap_decision :: status
  ap_decided_by :: string
  ap_decided_at :: time
  ap_level :: "int option"
  ap_justification :: "string option"

record audit_row =
  au_id :: uuid
  au_action :: string
  au_incident :: uuid
  au_actor :: string
  au_detail :: "audit_detail option"
  au_at :: time

text \<open>The object \<open>detail\<close> of one CMMS attempt; keys with no value are left out by the code.\<close>

record action_row_detail =
  ad_product_key :: "string option"
  ad_quantity :: "real option"
  ad_priority :: int
  ad_source_action :: "string option"
  ad_response :: "cmms_json option"
  ad_error :: "string option"

record action_row =
  ac_id :: uuid
  ac_incident :: uuid
  ac_operation :: string
  ac_description :: string
  ac_reference :: "string option"
  ac_outcome :: string
  ac_detail :: action_row_detail
  ac_attempted_at :: time
  ac_completed_at :: "time option"

record historical_row =
  hr_id :: uuid
  hr_equipment :: "uuid option"
  hr_equipment_name :: string
  hr_symptoms :: symptoms
  hr_root_cause :: string
  hr_action_taken :: string
  hr_action_worked :: bool
  hr_resolution :: string
  hr_occurred_at :: time
  hr_source :: string
  hr_source_type :: "string option"
  hr_source_url :: "string option"

record db =
  db_sites :: "site_row list"
  db_equipment :: "equipment_row list"
  db_sensors :: "sensor_row list"
  db_readings :: "reading_row list"
  db_incidents :: "incident list"
  db_history :: "history_row list"
  db_approvals :: "approval_row list"
  db_audit :: "audit_row list"
  db_actions :: "action_row list"
  db_historical :: "historical_row list"
  next_id :: uuid

definition bad_uuid :: exc where
  "bad_uuid = ValueError ''badly formed hexadecimal UUID string''"

section \<open>Statements\<close>

definition find_incident :: "uuid \<Rightarrow> db \<Rightarrow> incident option" where
  "find_incident u d = find (\<lambda>r. inc_id r = u) (db_incidents d)"

definition update_incident :: "uuid \<Rightarrow> (incident \<Rightarrow> incident) \<Rightarrow> db \<Rightarrow> db" where
  "update_incident u f d =
     d\<lparr>db_incidents := map (\<lambda>r. if inc_id r = u then f r else r) (db_incidents d)\<rparr>"

definition insert_history ::
  "uuid \<Rightarrow> status option \<Rightarrow> status \<Rightarrow> string \<Rightarrow> string option \<Rightarrow> hist_detail option \<Rightarrow> time \<Rightarrow> db \<Rightarrow> db" where
  "insert_history u frm to_status actor reason detail t d =
     d\<lparr>db_history := db_history d @
         [\<lparr>h_id = next_id d, h_incident = u, h_from = frm, h_to = to_status, h_actor = actor,
           h_reason = reason, h_detail = detail, h_at = t\<rparr>],
       next_id := Suc (next_id d)\<rparr>"

definition insert_audit ::
  "string \<Rightarrow> uuid \<Rightarrow> string \<Rightarrow> audit_detail option \<Rightarrow> time \<Rightarrow> db \<Rightarrow> db" where
  "insert_audit act u actor detail t d =
     d\<lparr>db_audit := db_audit d @
         [\<lparr>au_id = next_id d, au_action = act, au_incident = u, au_actor = actor,
           au_detail = detail, au_at = t\<rparr>],
       next_id := Suc (next_id d)\<rparr>"

definition insert_approval ::
  "uuid \<Rightarrow> status \<Rightarrow> string \<Rightarrow> int option \<Rightarrow> string option \<Rightarrow> time \<Rightarrow> db \<Rightarrow> db" where
  "insert_approval u decision decided_by level justification t d =
     d\<lparr>db_approvals := db_approvals d @
         [\<lparr>ap_id = next_id d, ap_name = status_str decision @ '' by '' @ decided_by,
           ap_incident = u, ap_decision = decision, ap_decided_by = decided_by,
           ap_decided_at = t, ap_level = level, ap_justification = justification\<rparr>],
       next_id := Suc (next_id d)\<rparr>"

section \<open>Diagnosis\<close>

definition save_incident_evidence :: "string \<Rightarrow> evidence \<Rightarrow> time \<Rightarrow> db \<Rightarrow> bool result \<times> db" where
  "save_incident_evidence i e t d =
     (case parse_uuid i of
        None \<Rightarrow> (Inl bad_uuid, d)
      | Some u \<Rightarrow>
          (case find_incident u d of
             None \<Rightarrow> (Inr False, d)
           | Some _ \<Rightarrow> (Inr True, update_incident u (\<lambda>r. r\<lparr>inc_evidence := Some e, inc_updated_at := t\<rparr>) d)))"

record diagnosis_state =
  ds_evidence :: "evidence option"
  ds_root_cause :: "string option"
  ds_sensor_count :: nat
  ds_summary :: "summary option"
  ds_confidence :: "int option"

definition get_incident_diagnosis_state :: "string \<Rightarrow> db \<Rightarrow> diagnosis_state option" where
  "get_incident_diagnosis_state i d =
     (case parse_uuid i of
        None \<Rightarrow> None
      | Some u \<Rightarrow>
          (case find_incident u d of
             None \<Rightarrow> None
           | Some r \<Rightarrow> Some
               \<lparr>ds_evidence = inc_evidence r, ds_root_cause = inc_root_cause r,
                ds_sensor_count = (case inc_summary r of None \<Rightarrow> 0 | Some s \<Rightarrow> length (su_sensors s)),
                ds_summary = inc_summary r, ds_confidence = inc_confidence r\<rparr>))"

definition save_root_cause ::
  "string \<Rightarrow> string \<Rightarrow> int \<Rightarrow> cited_point list \<Rightarrow> status \<Rightarrow> time \<Rightarrow> db \<Rightarrow> bool result \<times> db" where
  "save_root_cause i hypothesis confidence cited status t d =
     (case parse_uuid i of
        None \<Rightarrow> (Inl bad_uuid, d)
      | Some u \<Rightarrow>
          (case find_incident u d of
             None \<Rightarrow> (Inr False, d)
           | Some _ \<Rightarrow> (Inr True,
               insert_history u None status ''root-cause-agent''
                 (Some (''diagnosis recorded (confidence '' @ int_str confidence @ ''%)''))
                 (Some (DetDiagnosis confidence (length cited))) t
                 (update_incident u (\<lambda>r. r\<lparr>inc_root_cause := Some hypothesis,
                    inc_confidence := Some confidence, inc_cited := Some cited,
                    inc_status := status, inc_updated_at := t\<rparr>) d))))"

definition add_incident_cost :: "string \<Rightarrow> real \<Rightarrow> time \<Rightarrow> db \<Rightarrow> bool result \<times> db" where
  "add_incident_cost i cost t d =
     (case parse_uuid i of
        None \<Rightarrow> (Inl bad_uuid, d)
      | Some u \<Rightarrow>
          (case find_incident u d of
             None \<Rightarrow> (Inr False, d)
           | Some _ \<Rightarrow> (Inr True, update_incident u
               (\<lambda>r. r\<lparr>inc_cost := Some ((case inc_cost r of None \<Rightarrow> 0 | Some c \<Rightarrow> c) + cost),
                      inc_updated_at := t\<rparr>) d)))"

section \<open>The state machine, risk, recommendation\<close>

definition record_state_transition ::
  "string \<Rightarrow> status option \<Rightarrow> status \<Rightarrow> string \<Rightarrow> string option \<Rightarrow> hist_detail option \<Rightarrow> time \<Rightarrow> db
     \<Rightarrow> unit result \<times> db" where
  "record_state_transition i frm to_status actor reason detail t d =
     (case parse_uuid i of
        None \<Rightarrow> (Inl bad_uuid, d)
      | Some u \<Rightarrow> (Inr (), insert_history u frm to_status actor reason detail t d))"

definition transition_incident ::
  "string \<Rightarrow> status \<Rightarrow> string \<Rightarrow> string option \<Rightarrow> hist_detail option \<Rightarrow> time \<Rightarrow> db \<Rightarrow> bool result \<times> db" where
  "transition_incident i to_status actor reason detail t d =
     (case parse_uuid i of
        None \<Rightarrow> (Inl bad_uuid, d)
      | Some u \<Rightarrow>
          (case find_incident u d of
             None \<Rightarrow> (Inr False, d)
           | Some _ \<Rightarrow> (Inr True,
               insert_history u None to_status actor reason detail t
                 (update_incident u (\<lambda>r. r\<lparr>inc_status := to_status, inc_updated_at := t\<rparr>) d))))"

record history_view =
  hv_from :: "status option"
  hv_to :: status
  hv_actor :: string
  hv_reason :: "string option"
  hv_detail :: "hist_detail option"
  hv_changed_at :: time

definition history_row_view :: "history_row \<Rightarrow> history_view" where
  "history_row_view h =
     \<lparr>hv_from = h_from h, hv_to = h_to h, hv_actor = h_actor h, hv_reason = h_reason h,
      hv_detail = h_detail h, hv_changed_at = h_at h\<rparr>"

definition incident_history :: "uuid \<Rightarrow> db \<Rightarrow> history_row list" where
  "incident_history u d = filter (\<lambda>h. h_incident h = u) (db_history d)"

text \<open>A detail that was cut when it was written does not parse when it is read.\<close>

definition readable_detail :: "hist_detail option \<Rightarrow> bool" where
  "readable_detail x = (case x of Some (DetText s) \<Rightarrow> False | _ \<Rightarrow> True)"

text \<open>\<open>ORDER BY "ChangedAt", "Id"\<close>: sorted by time, ties by the identifier.\<close>

definition get_incident_state_history :: "string \<Rightarrow> db \<Rightarrow> history_view list result" where
  "get_incident_state_history i d =
     (case parse_uuid i of
        None \<Rightarrow> Inl bad_uuid
      | Some u \<Rightarrow>
          (let rows = sort_key h_at (sort_key h_id (incident_history u d))
           in if list_all (\<lambda>h. readable_detail (h_detail h)) rows then Inr (map history_row_view rows)
              else Inl (ValueError ''JSONDecodeError'')))"

definition save_risk_assessment ::
  "string \<Rightarrow> string \<Rightarrow> consequence list \<Rightarrow> int \<Rightarrow> int \<Rightarrow> time \<Rightarrow> db \<Rightarrow> bool result \<times> db" where
  "save_risk_assessment i severity consequences level required t d =
     (case parse_uuid i of
        None \<Rightarrow> (Inl bad_uuid, d)
      | Some u \<Rightarrow>
          (case find_incident u d of
             None \<Rightarrow> (Inr False, d)
           | Some _ \<Rightarrow> (Inr True,
               insert_history u None RiskAssessed ''risk-agent''
                 (Some (''severity='' @ severity @ '', hitl_level='' @ int_str level))
                 (Some (DetRisk severity level (map cq_consequence consequences))) t
                 (update_incident u (\<lambda>r. r\<lparr>inc_risk_severity := Some severity,
                    inc_consequences := Some consequences, inc_hitl_level := Some level,
                    inc_required_level := Some required, inc_risk_assessed_at := Some t,
                    inc_status := RiskAssessed, inc_updated_at := t\<rparr>) d))))"

definition action_text :: "json_action \<Rightarrow> string option" where
  "action_text a = (case a of ActDict r \<Rightarrow> ra_action r | ActText s \<Rightarrow> Some s)"

text \<open>
  Two status moves in one transaction: \<open>recommended\<close>, then the landing status of the HITL
  gate, each with its history row.
\<close>

definition save_recommendation ::
  "string \<Rightarrow> rec_action list \<Rightarrow> string \<Rightarrow> tool_entry list \<Rightarrow> status \<Rightarrow> time \<Rightarrow> db \<Rightarrow> bool result \<times> db" where
  "save_recommendation i acts rationale tool_log next_status t d =
     (case parse_uuid i of
        None \<Rightarrow> (Inl bad_uuid, d)
      | Some u \<Rightarrow>
          (case find_incident u d of
             None \<Rightarrow> (Inr False, d)
           | Some _ \<Rightarrow>
               (let d1 = update_incident u (\<lambda>r. r\<lparr>inc_actions := Some (map ActDict acts),
                           inc_rationale := Some rationale, inc_tool_log := Some tool_log,
                           inc_recommended_at := Some t, inc_status := Recommended,
                           inc_updated_at := t\<rparr>) d;
                    d2 = insert_history u None Recommended ''recommendation-agent''
                           (Some ''recommendation recorded'') (Some (DetActions (map ra_action acts))) t d1;
                    d3 = update_incident u (\<lambda>r. r\<lparr>inc_status := next_status, inc_updated_at := t\<rparr>) d2;
                    d4 = insert_history u (Some Recommended) next_status ''hitl-gate''
                           (Some (''hitl routing: '' @ status_str next_status))
                           (Some (DetNext next_status)) t d3
                in (Inr True, d4))))"

record decision_view =
  dv_site_id :: string
  dv_status :: status
  dv_equipment_id :: string
  dv_hitl_level :: "int option"
  dv_required_level :: "int option"
  dv_actions :: "json_action list option"
  dv_rationale :: "string option"
  dv_tool_log :: "tool_entry list option"
  dv_risk_severity :: "string option"
  dv_root_cause :: "string option"
  dv_confidence :: "int option"
  dv_summary :: "summary option"

definition decision_view_of :: "incident \<Rightarrow> decision_view" where
  "decision_view_of r =
     \<lparr>dv_site_id = uuid_str (inc_site r), dv_status = inc_status r,
      dv_equipment_id = uuid_str (inc_equipment r), dv_hitl_level = inc_hitl_level r,
      dv_required_level = inc_required_level r, dv_actions = inc_actions r,
      dv_rationale = inc_rationale r, dv_tool_log = inc_tool_log r,
      dv_risk_severity = inc_risk_severity r, dv_root_cause = inc_root_cause r,
      dv_confidence = inc_confidence r, dv_summary = inc_summary r\<rparr>"

definition get_incident_for_decision :: "string \<Rightarrow> db \<Rightarrow> decision_view option" where
  "get_incident_for_decision i d =
     (case parse_uuid i of
        None \<Rightarrow> None
      | Some u \<Rightarrow> map_option decision_view_of (find_incident u d))"

text \<open>
  The HITL decision: status, history, approval and the audit chain in one transaction.  The result
  is the decision time, or \<open>None\<close> when there is no such incident.
\<close>

definition record_approval ::
  "string \<Rightarrow> status \<Rightarrow> string \<Rightarrow> int option \<Rightarrow> string option \<Rightarrow> time \<Rightarrow> db \<Rightarrow> time option result \<times> db" where
  "record_approval i decision decided_by level justification t d =
     (case parse_uuid i of
        None \<Rightarrow> (Inl bad_uuid, d)
      | Some u \<Rightarrow>
          (case find_incident u d of
             None \<Rightarrow> (Inr None, d)
           | Some r \<Rightarrow>
               (let d1 = update_incident u (\<lambda>r. r\<lparr>inc_status := decision, inc_updated_at := t\<rparr>) d;
                    d2 = insert_history u None decision decided_by
                           (Some (''hitl_level='' @ (case level of None \<Rightarrow> ''None'' | Some n \<Rightarrow> int_str n)))
                           (Some (DetDecision justification)) t d1;
                    d3 = insert_approval u decision decided_by level justification t d2;
                    d4 = insert_audit (''hitl_'' @ status_str decision) u decided_by
                           (Some (AudDecision decision level justification (inc_actions r)
                              (inc_rationale r) (inc_tool_log r) (inc_risk_severity r)
                              (inc_consequences r) (inc_hitl_level r) decided_by)) t d3
                in (Inr (Some t), d4))))"

section \<open>Execution and closing the loop\<close>

text \<open>\<open>SELECT DISTINCT "Operation"\<close> of the rows that succeeded.\<close>

definition get_executed_action_kinds :: "string \<Rightarrow> db \<Rightarrow> string list" where
  "get_executed_action_kinds i d =
     (case parse_uuid i of
        None \<Rightarrow> []
      | Some u \<Rightarrow> remdups (map ac_operation
          (filter (\<lambda>a. ac_incident a = u \<and> ac_outcome a = ''succeeded'') (db_actions d))))"

definition none_if_empty :: "string \<Rightarrow> string option" where
  "none_if_empty s = (if s = [] then None else Some s)"

definition record_action_execution ::
  "string \<Rightarrow> cmms_operation \<Rightarrow> string \<Rightarrow> string option \<Rightarrow> cmms_json option \<Rightarrow> string option \<Rightarrow> time \<Rightarrow> db \<Rightarrow> db" where
  "record_action_execution i oper outcome reference response err t d =
     (case parse_uuid i of
        None \<Rightarrow> d
      | Some u \<Rightarrow>
          d\<lparr>db_actions := db_actions d @
              [\<lparr>ac_id = next_id d, ac_incident = u, ac_operation = op_kind oper,
                ac_description = (if op_description oper = [] then op_source_action oper
                                  else op_description oper),
                ac_reference = reference, ac_outcome = outcome,
                ac_detail = \<lparr>ad_product_key = none_if_empty (op_product_key oper),
                   ad_quantity = (if op_quantity oper = 0 then None else Some (op_quantity oper)),
                   ad_priority = op_priority oper,
                   ad_source_action = none_if_empty (op_source_action oper),
                   ad_response = response, ad_error = err\<rparr>,
                ac_attempted_at = t, ac_completed_at = Some t\<rparr>],
            next_id := Suc (next_id d)\<rparr>)"

definition action_detail_reason :: "action_detail \<Rightarrow> string" where
  "action_detail_reason ad =
     (case ad of Failures _ _ reason \<Rightarrow> (if reason = [] then ''external actions executed'' else reason)
      | _ \<Rightarrow> ''external actions executed'')"

definition save_action_result ::
  "string \<Rightarrow> status \<Rightarrow> action_detail \<Rightarrow> execution list option \<Rightarrow> string option \<Rightarrow> time option \<Rightarrow> time \<Rightarrow> db
     \<Rightarrow> bool \<times> db" where
  "save_action_result i status detail executions approved_by decided_at t d =
     (case parse_uuid i of
        None \<Rightarrow> (False, d)
      | Some u \<Rightarrow>
          (case find_incident u d of
             None \<Rightarrow> (False, d)
           | Some _ \<Rightarrow>
               (let d1 = update_incident u (\<lambda>r. r\<lparr>inc_status := status, inc_updated_at := t\<rparr>) d;
                    d2 = insert_history u None status ''action-agent''
                           (Some (take 300 (action_detail_reason detail))) (Some (DetAction detail)) t d1
                in (True,
                    if status = ActionTaken \<and> executions \<noteq> None then
                      insert_audit ''action_executed'' u ''action-agent''
                        (Some (AudExecuted approved_by decided_at (the executions) detail)) t
                        (update_incident u (\<lambda>r. r\<lparr>inc_action_executed_at := Some t\<rparr>) d2)
                    else d2))))"

definition resolve_incident_manually ::
  "string \<Rightarrow> string \<Rightarrow> string option \<Rightarrow> time \<Rightarrow> db \<Rightarrow> (status \<times> time) option \<times> db" where
  "resolve_incident_manually i resolved_by note t d =
     (case parse_uuid i of
        None \<Rightarrow> (None, d)
      | Some u \<Rightarrow>
          (case find_incident u d of
             None \<Rightarrow> (None, d)
           | Some _ \<Rightarrow>
               (let d1 = update_incident u (\<lambda>r. r\<lparr>inc_status := Resolved, inc_resolved_at := Some t,
                           inc_updated_at := t\<rparr>) d;
                    d2 = insert_history u None Resolved resolved_by (Some ''manual resolution'')
                           (if truthy_str note then map_option DetNote note else None) t d1;
                    d3 = insert_audit ''incident_resolved'' u resolved_by
                           (if truthy_str note then map_option AudNote note else None) t d2
                in (Some (Resolved, t), d3))))"

definition get_action_taken_incident_ids :: "db \<Rightarrow> string list" where
  "get_action_taken_incident_ids d =
     map (\<lambda>r. uuid_str (inc_id r)) (filter (\<lambda>r. inc_status r = ActionTaken) (db_incidents d))"

text \<open>
  The learned record of a closed incident (\<open>record_learned_incident\<close>), and the closing of the
  loop: one \<open>loop_closed\<close> audit row per incident guards it; the object written to the history
  is serialised and cut at 300 characters.
\<close>

definition parse_uuid_or_none :: "string option \<Rightarrow> uuid option" where
  "parse_uuid_or_none x = (case x of None \<Rightarrow> None | Some s \<Rightarrow> if s = [] then None else parse_uuid s)"

definition record_learned_incident ::
  "string option \<Rightarrow> string \<Rightarrow> symptoms \<Rightarrow> string \<Rightarrow> string \<Rightarrow> bool \<Rightarrow> string \<Rightarrow> string \<Rightarrow> time \<Rightarrow> db
     \<Rightarrow> string option \<times> db" where
  "record_learned_incident equipment equipment_name syms root_cause action_taken worked resolution source t d =
     (Some (uuid_str (next_id d)),
      d\<lparr>db_historical := db_historical d @
          [\<lparr>hr_id = next_id d, hr_equipment = parse_uuid_or_none equipment,
            hr_equipment_name = equipment_name, hr_symptoms = syms, hr_root_cause = root_cause,
            hr_action_taken = action_taken, hr_action_worked = worked, hr_resolution = resolution,
            hr_occurred_at = t, hr_source = source, hr_source_type = Some ''illustrative'',
            hr_source_url = None\<rparr>],
        next_id := Suc (next_id d)\<rparr>)"

definition loop_detail_text :: "string \<Rightarrow> string \<Rightarrow> string" where
  "loop_detail_text resolution source =
     ''{'' @ json_str ''resolution'' @ '': '' @ json_str resolution @ '', '' @
     json_str ''source'' @ '': '' @ json_str source @ ''}''"

definition loop_detail :: "string \<Rightarrow> string \<Rightarrow> hist_detail" where
  "loop_detail resolution source =
     (let txt = loop_detail_text resolution source
      in if length txt \<le> 300 then DetLoop resolution source else DetText (take 300 txt))"

definition loop_closed :: "uuid \<Rightarrow> db \<Rightarrow> bool" where
  "loop_closed u d \<longleftrightarrow> (\<exists>a\<in>set (db_audit d). au_incident a = u \<and> au_action a = ''loop_closed'')"

definition close_incident_loop ::
  "string \<Rightarrow> string option \<Rightarrow> string \<Rightarrow> symptoms \<Rightarrow> string \<Rightarrow> string \<Rightarrow> bool \<Rightarrow> string \<Rightarrow> string \<Rightarrow> string \<Rightarrow>
     time \<Rightarrow> db \<Rightarrow> string option \<times> db" where
  "close_incident_loop i equipment equipment_name syms root_cause action_taken worked resolution source
     actor t d =
     (case parse_uuid i of
        None \<Rightarrow> (None, d)
      | Some u \<Rightarrow>
          if loop_closed u d then (None, d)
          else case find_incident u d of
            None \<Rightarrow> (None, d)
          | Some _ \<Rightarrow>
              (let d1 = update_incident u (\<lambda>r. r\<lparr>inc_status := Resolved, inc_resolved_at := Some t,
                          inc_updated_at := t\<rparr>) d;
                   d2 = insert_history u None Resolved actor (Some ''CMMS work order resolved'')
                          (Some (loop_detail resolution source)) t d1;
                   d3 = insert_audit ''loop_closed'' u actor
                          (Some (AudLoop root_cause action_taken worked resolution source syms)) t d2
               in (Some (uuid_str (next_id d3)),
                   d3\<lparr>db_historical := db_historical d3 @
                        [\<lparr>hr_id = next_id d3, hr_equipment = parse_uuid_or_none equipment,
                          hr_equipment_name = take 200 equipment_name, hr_symptoms = syms,
                          hr_root_cause = root_cause, hr_action_taken = action_taken,
                          hr_action_worked = worked, hr_resolution = resolution, hr_occurred_at = t,
                          hr_source = take 100 source, hr_source_type = None, hr_source_url = None\<rparr>],
                      next_id := Suc (next_id d3)\<rparr>)))"

end
