(* ===== verification/StoreReads.thy ===== *)
theory StoreReads
  imports Store
begin

text \<open>
  The reading side of \<open>app/core/db.py\<close>: what the API routers, the Knowledge Agent and the
  Recommendation Agent's tools see of the store, and the idempotent seeding of the demonstration
  rows.  Rows keep the shape of the JSON the code returns; \<open>ORDER BY\<close> is a stable sort (the
  order of ties, which SQL leaves open, is the insertion order).
\<close>

section \<open>The incident as the API returns it\<close>

record root_cause_view =
  rc_hypothesis :: string
  rc_confidence :: "int option"
  rc_cited :: "cited_point list option"

record risk_view =
  rk_severity :: string
  rk_consequences :: "consequence list option"
  rk_level :: "int option"
  rk_assessed_at :: "time option"

record recommendation_view =
  rv_actions :: "json_action list"
  rv_rationale :: "string option"
  rv_tool_log :: "tool_entry list option"
  rv_recommended_at :: "time option"

record incident_view =
  iv_id :: string
  iv_site_id :: string
  iv_equipment_id :: string
  iv_equipment_name :: "string option"
  iv_status :: status
  iv_severity :: string
  iv_detected_at :: time
  iv_summary :: "summary option"
  iv_retrieved :: "evidence option"
  iv_root_cause :: "root_cause_view option"
  iv_risk :: "risk_view option"
  iv_recommendation :: "recommendation_view option"
  iv_required_level :: "int option"
  iv_cost :: "real option"
  iv_resolved_at :: "time option"
  iv_created_at :: time
  iv_updated_at :: time

text \<open>\<open>LEFT JOIN "Equipment"\<close>: the name, when the equipment row exists.\<close>

definition equipment_name_of :: "uuid \<Rightarrow> db \<Rightarrow> string option" where
  "equipment_name_of u d = map_option eq_name (find (\<lambda>e. eq_id e = u) (db_equipment d))"

definition incident_row_to_dict :: "db \<Rightarrow> incident \<Rightarrow> incident_view" where
  "incident_row_to_dict d r =
     \<lparr>iv_id = uuid_str (inc_id r), iv_site_id = uuid_str (inc_site r),
      iv_equipment_id = uuid_str (inc_equipment r),
      iv_equipment_name = equipment_name_of (inc_equipment r) d,
      iv_status = inc_status r, iv_severity = inc_severity r, iv_detected_at = inc_detected_at r,
      iv_summary = inc_summary r, iv_retrieved = inc_evidence r,
      iv_root_cause = map_option (\<lambda>h. \<lparr>rc_hypothesis = h, rc_confidence = inc_confidence r,
                                       rc_cited = inc_cited r\<rparr>) (inc_root_cause r),
      iv_risk = map_option (\<lambda>s. \<lparr>rk_severity = s, rk_consequences = inc_consequences r,
                                 rk_level = inc_hitl_level r, rk_assessed_at = inc_risk_assessed_at r\<rparr>)
                  (inc_risk_severity r),
      iv_recommendation = map_option (\<lambda>a. \<lparr>rv_actions = a, rv_rationale = inc_rationale r,
                                 rv_tool_log = inc_tool_log r, rv_recommended_at = inc_recommended_at r\<rparr>)
                  (inc_actions r),
      iv_required_level = inc_required_level r, iv_cost = inc_cost r,
      iv_resolved_at = inc_resolved_at r, iv_created_at = inc_created_at r,
      iv_updated_at = inc_updated_at r\<rparr>"

text \<open>
  The list endpoint's query: the filters that are given, the total over them, the page ordered by
  detection time, newest first.  An unparsable site id is an empty answer.
\<close>

definition site_filter :: "uuid option \<Rightarrow> incident \<Rightarrow> bool" where
  "site_filter x r = (case x of None \<Rightarrow> True | Some u \<Rightarrow> inc_site r = u)"

definition status_filter :: "status option \<Rightarrow> incident \<Rightarrow> bool" where
  "status_filter x r = (case x of None \<Rightarrow> True | Some s \<Rightarrow> inc_status r = s)"

definition list_page ::
  "status option \<Rightarrow> uuid option \<Rightarrow> nat \<Rightarrow> nat \<Rightarrow> db \<Rightarrow> incident_view list \<times> nat" where
  "list_page st site lmt off d =
     (let rows = filter (\<lambda>r. status_filter st r \<and> site_filter site r) (db_incidents d)
      in (map (incident_row_to_dict d)
            (take lmt (drop off (sort_key (\<lambda>r. - inc_detected_at r) rows))), length rows))"

definition list_incidents ::
  "status option \<Rightarrow> string option \<Rightarrow> nat \<Rightarrow> nat \<Rightarrow> db \<Rightarrow> incident_view list \<times> nat" where
  "list_incidents st site lmt off d =
     (if truthy_str site then
        (case parse_uuid (the site) of
           None \<Rightarrow> ([], 0)
         | Some u \<Rightarrow> list_page st (Some u) lmt off d)
      else list_page st None lmt off d)"

section \<open>Details, evidence readings and the latest readings of a site\<close>

record reading_view =
  vr_sensor_id :: string
  vr_sensor_type :: string
  vr_value :: real
  vr_unit :: string
  vr_occurred_at :: time

text \<open>
  \<open>_incident_evidence\<close>: the readings of the flagged sensors in the two minutes before the
  detection that lie outside the sensor's normal band, newest first, at most 100.
\<close>

definition evidence_window :: time where
  "evidence_window = 120 * 1000000"

definition breaching_readings :: "uuid list \<Rightarrow> time \<Rightarrow> db \<Rightarrow> reading_view list" where
  "breaching_readings ids detected d =
     (let rows = concat (map (\<lambda>r. map (\<lambda>s. (r, s))
                   (filter (\<lambda>s. sn_id s = rd_sensor r \<and> (rd_value r < sn_min s \<or> rd_value r > sn_max s))
                      (db_sensors d)))
                 (filter (\<lambda>r. rd_sensor r \<in> set ids \<and> rd_occurred_at r \<le> detected \<and>
                               rd_occurred_at r \<ge> detected - evidence_window) (db_readings d)))
      in map (\<lambda>(r, s). \<lparr>vr_sensor_id = uuid_str (rd_sensor r), vr_sensor_type = sn_type s,
                         vr_value = rd_value r, vr_unit = sn_unit s,
                         vr_occurred_at = rd_occurred_at r\<rparr>)
           (take 100 (sort_key (\<lambda>(r, s). - rd_occurred_at r) rows)))"

definition incident_evidence :: "db \<Rightarrow> incident_view \<Rightarrow> reading_view list" where
  "incident_evidence d v =
     (let ids = filter (\<lambda>s. s \<noteq> [])
                  (case iv_summary v of None \<Rightarrow> [] | Some su \<Rightarrow> map se_sensor_id (su_sensors su))
      in if ids = [] then []
         else if list_ex (\<lambda>i. parse_uuid i = None) ids then []
         else breaching_readings (map (\<lambda>i. the (parse_uuid i)) ids) (iv_detected_at v) d)"

record action_view =
  av_operation :: string
  av_description :: string
  av_reference :: "string option"
  av_outcome :: string
  av_detail :: action_row_detail
  av_attempted_at :: time
  av_completed_at :: "time option"

record action_record =
  ar_incident_id :: string
  ar_site_id :: string
  ar_status :: status
  ar_executed_at :: "time option"
  ar_resolved_at :: "time option"
  ar_operations :: "action_view list"

definition action_row_view :: "action_row \<Rightarrow> action_view" where
  "action_row_view a =
     \<lparr>av_operation = ac_operation a, av_description = ac_description a,
      av_reference = ac_reference a, av_outcome = ac_outcome a, av_detail = ac_detail a,
      av_attempted_at = ac_attempted_at a, av_completed_at = ac_completed_at a\<rparr>"

definition get_incident_action_record :: "string \<Rightarrow> db \<Rightarrow> action_record option" where
  "get_incident_action_record i d =
     (case parse_uuid i of
        None \<Rightarrow> None
      | Some u \<Rightarrow>
          map_option (\<lambda>r.
            \<lparr>ar_incident_id = uuid_str u, ar_site_id = uuid_str (inc_site r),
             ar_status = inc_status r, ar_executed_at = inc_action_executed_at r,
             ar_resolved_at = inc_resolved_at r,
             ar_operations = map action_row_view
               (sort_key ac_attempted_at (sort_key ac_id
                  (filter (\<lambda>a. ac_incident a = u) (db_actions d))))\<rparr>)
            (find_incident u d))"

record approval_view =
  pv_decision :: status
  pv_decided_by :: string
  pv_decided_at :: time
  pv_level :: "int option"
  pv_justification :: "string option"

definition approval_row_view :: "approval_row \<Rightarrow> approval_view" where
  "approval_row_view a =
     \<lparr>pv_decision = ap_decision a, pv_decided_by = ap_decided_by a, pv_decided_at = ap_decided_at a,
      pv_level = ap_level a, pv_justification = ap_justification a\<rparr>"

record incident_detail =
  id_incident :: incident_view
  id_evidence :: "reading_view list"
  id_action :: "(time option \<times> time option \<times> action_view list) option"
  id_approvals :: "approval_view list"

definition get_incident :: "string \<Rightarrow> db \<Rightarrow> incident_detail option" where
  "get_incident i d =
     (case parse_uuid i of
        None \<Rightarrow> None
      | Some u \<Rightarrow>
          map_option (\<lambda>r. let v = incident_row_to_dict d r in
            \<lparr>id_incident = v, id_evidence = incident_evidence d v,
             id_action = map_option (\<lambda>a. (ar_executed_at a, ar_resolved_at a, ar_operations a))
               (get_incident_action_record i d),
             id_approvals = map approval_row_view
               (sort_key (\<lambda>a. - ap_decided_at a) (filter (\<lambda>a. ap_incident a = u) (db_approvals d)))\<rparr>)
            (find_incident u d))"

record latest_view =
  lv_sensor_id :: string
  lv_sensor_type :: string
  lv_unit :: string
  lv_reading :: "(real \<times> time) option"
  lv_min :: real
  lv_max :: real

definition latest_reading :: "uuid \<Rightarrow> db \<Rightarrow> reading_row option" where
  "latest_reading s d =
     (case sort_key (\<lambda>r. - rd_occurred_at r) (filter (\<lambda>r. rd_sensor r = s) (db_readings d)) of
        [] \<Rightarrow> None
      | r # _ \<Rightarrow> Some r)"

definition latest_readings_for_site :: "string \<Rightarrow> db \<Rightarrow> latest_view list" where
  "latest_readings_for_site site d =
     (case parse_uuid site of
        None \<Rightarrow> []
      | Some u \<Rightarrow>
          map (\<lambda>s. \<lparr>lv_sensor_id = uuid_str (sn_id s), lv_sensor_type = sn_type s, lv_unit = sn_unit s,
                     lv_reading = map_option (\<lambda>r. (rd_value r, rd_occurred_at r)) (latest_reading (sn_id s) d),
                     lv_min = sn_min s, lv_max = sn_max s\<rparr>)
            (sort_key sn_id (filter (\<lambda>s. list_ex (\<lambda>e. eq_id e = sn_equipment s \<and> eq_site e = u)
                                       (db_equipment d)) (db_sensors d))))"

section \<open>History as evidence\<close>

text \<open>
  The text the similarity match searches: the phrases joined, or \<open>str\<close> of the object the
  Action Agent writes.
\<close>

definition symptoms_text :: "symptoms \<Rightarrow> string" where
  "symptoms_text x =
     (case x of
        SymList xs \<Rightarrow> py_lower (py_join '' '' xs)
      | SymDict pat n \<Rightarrow> py_lower
          ([CHR 0x7B] @ py_repr ''pattern'' @ '': ['' @ py_join '', '' (map py_repr pat) @ ''], '' @
           py_repr ''sensor_count'' @ '': '' @
           (case n of None \<Rightarrow> ''None'' | Some k \<Rightarrow> nat_str k) @ [CHR 0x7D]))"

definition symptom_overlap :: "string list \<Rightarrow> symptoms \<Rightarrow> nat" where
  "symptom_overlap types x =
     length (filter (\<lambda>ty. py_in (replace_char (CHR 0x5F) (CHR 0x20) ty) (symptoms_text x) \<or>
                          py_in ty (symptoms_text x)) types)"

definition same_equipment :: "string \<Rightarrow> historical_row \<Rightarrow> bool" where
  "same_equipment equipment r \<longleftrightarrow>
     equipment \<noteq> [] \<and> (case hr_equipment r of None \<Rightarrow> False | Some u \<Rightarrow> uuid_str u = equipment)"

definition source_type_or_illustrative :: "historical_row \<Rightarrow> string" where
  "source_type_or_illustrative r =
     (case hr_source_type r of None \<Rightarrow> ''illustrative'' | Some s \<Rightarrow> s)"

definition history_row_to_dict :: "string \<Rightarrow> historical_row \<Rightarrow> history_match" where
  "history_row_to_dict equipment r =
     \<lparr>hm_id = uuid_str (hr_id r), hm_equipment_name = hr_equipment_name r,
      hm_symptoms = hr_symptoms r, hm_root_cause = hr_root_cause r, hm_resolution = hr_resolution r,
      hm_occurred_at = hr_occurred_at r, hm_source = hr_source r,
      hm_source_type = source_type_or_illustrative r, hm_source_url = hr_source_url r,
      hm_same_equipment = same_equipment equipment r\<rparr>"

text \<open>
  \<open>scored.sort(reverse=True)\<close> on (same equipment, overlap) is stable: a sort by the second
  key, then one by the first.
\<close>

definition similar_rows :: "string \<Rightarrow> string list \<Rightarrow> db \<Rightarrow> historical_row list" where
  "similar_rows equipment types d =
     filter (\<lambda>r. same_equipment equipment r \<or> symptom_overlap types (hr_symptoms r) \<noteq> 0)
       (db_historical d)"

definition find_similar_history :: "string \<Rightarrow> string list \<Rightarrow> nat \<Rightarrow> db \<Rightarrow> history_match list" where
  "find_similar_history equipment types lmt d =
     (if types = [] then []
      else map (history_row_to_dict equipment)
        (take lmt
          (sort_key (\<lambda>r. if same_equipment equipment r then 0 else (1::nat))
            (sort_key (\<lambda>r. - int (symptom_overlap types (hr_symptoms r)))
              (similar_rows equipment types d)))))"

section \<open>The tools of the Recommendation Agent\<close>

definition get_equipment_maintenance_status :: "string \<Rightarrow> db \<Rightarrow> maintenance_status option" where
  "get_equipment_maintenance_status equipment d =
     (case parse_uuid equipment of
        None \<Rightarrow> None
      | Some u \<Rightarrow>
          map_option (\<lambda>e. \<lparr>ms_equipment_id = uuid_str (eq_id e), ms_name = eq_name e,
                            ms_last_serviced_at = eq_last_serviced_at e,
                            ms_condition_flags = or_list (eq_condition_flags e)\<rparr>)
            (find (\<lambda>e. eq_id e = u) (db_equipment d)))"

text \<open>
  SQL's \<open>LIKE\<close>: \<open>%\<close> is any text, \<open>_\<close> any character, a backslash quotes the
  next one.  The arguments are the text and the pattern.
\<close>

fun sql_like :: "string \<Rightarrow> string \<Rightarrow> bool" where
  "sql_like s [] = (s = [])"
| "sql_like [] (p # ps) = (p = CHR 0x25 \<and> sql_like [] ps)"
| "sql_like (c # s) (p # ps) =
     (if p = CHR 0x25 then sql_like (c # s) ps \<or> sql_like s (p # ps)
      else if p = CHR 0x5F then sql_like s ps
      else if p = CHR 0x5C then
        (case ps of [] \<Rightarrow> False | q # qs \<Rightarrow> c = q \<and> sql_like s qs)
      else c = p \<and> sql_like s ps)"

text \<open>
  The query of \<open>get_similar_incident_outcomes\<close>.  What the database makes of a jsonb value as
  text (\<open>jsonb_text\<close>) and of a text parameter cast to uuid (\<open>cast_uuid\<close>, \<open>None\<close> when
  it refuses the text) is a parameter.
\<close>

definition outcome_row :: "historical_row \<Rightarrow> incident_outcome" where
  "outcome_row r =
     \<lparr>io_equipment_name = hr_equipment_name r, io_symptoms = hr_symptoms r,
      io_root_cause = hr_root_cause r, io_action_taken = hr_action_taken r,
      io_action_worked = hr_action_worked r, io_resolution = hr_resolution r,
      io_occurred_at = hr_occurred_at r, io_source = hr_source r,
      io_source_type = source_type_or_illustrative r, io_source_url = hr_source_url r\<rparr>"

definition outcome_matches :: "(symptoms \<Rightarrow> string) \<Rightarrow> string \<Rightarrow> historical_row \<Rightarrow> bool" where
  "outcome_matches jsonb_text pat r \<longleftrightarrow>
     (let like = ''%'' @ py_lower pat @ ''%''
      in sql_like (py_lower (jsonb_text (hr_symptoms r))) like \<or>
         sql_like (py_lower (hr_root_cause r)) like \<or>
         sql_like (py_lower (hr_action_taken r)) like)"

definition get_similar_incident_outcomes ::
  "(symptoms \<Rightarrow> string) \<Rightarrow> (string \<Rightarrow> uuid option) \<Rightarrow> string \<Rightarrow> string \<Rightarrow> db \<Rightarrow>
     incident_outcome list result" where
  "get_similar_incident_outcomes jsonb_text cast_uuid equipment pat d =
     (if equipment \<noteq> [] \<and> cast_uuid equipment = None then
        Inl (OtherError ''invalid input for query argument $1'')
      else Inr (map outcome_row (take 5 (sort_key (\<lambda>r. - hr_occurred_at r)
        (filter (\<lambda>r. (equipment = [] \<or> hr_equipment r = cast_uuid equipment) \<and>
                      outcome_matches jsonb_text pat r) (db_historical d))))))"

section \<open>Seeding the demonstration rows\<close>

definition canonical_sites :: "(string \<times> string) list" where
  "canonical_sites =
     [(''11111111-1111-1111-1111-111111111111'', ''Site 12 - Paper Mill Cooling Tower''),
      (''22222222-2222-2222-2222-222222222222'', ''Site 07 - Leather Tannery Effluent Line'')]"

definition demo_site_name :: string where
  "demo_site_name = ''Site 12 - Paper Mill Cooling Tower''"

definition demo_equipment_name :: string where
  "demo_equipment_name = ''Cooling Water Pump CP-04''"

definition demo_sensors :: "(string \<times> string \<times> real \<times> real) list" where
  "demo_sensors =
     [(''temperature'', ''degC'', 29, 32), (''ph'', ''pH'', 7.5, 8.2),
      (''flow_rate'', ''m3/h'', 118, 132), (''vibration'', ''mm/s'', 1, 2.5),
      (''conductivity'', ''uS/cm'', 950, 1100)]"

definition add_site :: "uuid \<Rightarrow> string \<Rightarrow> db \<Rightarrow> db" where
  "add_site u n d = d\<lparr>db_sites := db_sites d @ [\<lparr>st_id = u, st_name = n\<rparr>]\<rparr>"

definition find_site_named :: "string \<Rightarrow> db \<Rightarrow> uuid option" where
  "find_site_named n d = map_option st_id (find (\<lambda>s. st_name s = n) (db_sites d))"

definition seed_canonical_site :: "string \<times> string \<Rightarrow> db \<Rightarrow> db" where
  "seed_canonical_site e d =
     (case parse_uuid (fst e) of
        None \<Rightarrow> d
      | Some u \<Rightarrow>
          if list_ex (\<lambda>s. st_id s = u) (db_sites d) then d
          else if find_site_named (snd e) d \<noteq> None then d
          else add_site u (snd e) d)"

definition find_equipment_named :: "string \<Rightarrow> uuid \<Rightarrow> db \<Rightarrow> uuid option" where
  "find_equipment_named n site d =
     map_option eq_id (find (\<lambda>e. eq_name e = n \<and> eq_site e = site) (db_equipment d))"

definition ensure_site_named :: "string \<Rightarrow> db \<Rightarrow> uuid \<times> db" where
  "ensure_site_named n d =
     (case find_site_named n d of
        Some u \<Rightarrow> (u, d)
      | None \<Rightarrow> (next_id d, (add_site (next_id d) n d)\<lparr>next_id := Suc (next_id d)\<rparr>))"

definition ensure_equipment_named :: "string \<Rightarrow> uuid \<Rightarrow> db \<Rightarrow> uuid \<times> db" where
  "ensure_equipment_named n site d =
     (case find_equipment_named n site d of
        Some u \<Rightarrow> (u, d)
      | None \<Rightarrow> (next_id d,
          d\<lparr>db_equipment := db_equipment d @
               [\<lparr>eq_id = next_id d, eq_name = n, eq_site = site, eq_last_serviced_at = None,
                 eq_condition_flags = None\<rparr>],
             next_id := Suc (next_id d)\<rparr>))"

definition seed_sensor :: "uuid \<Rightarrow> string \<times> string \<times> real \<times> real \<Rightarrow> db \<Rightarrow> db" where
  "seed_sensor equipment e d =
     (case e of (ty, unit, lo, hi) \<Rightarrow>
        if list_ex (\<lambda>s. sn_equipment s = equipment \<and> sn_type s = ty) (db_sensors d) then d
        else d\<lparr>db_sensors := db_sensors d @
                  [\<lparr>sn_id = next_id d, sn_equipment = equipment, sn_type = ty, sn_unit = unit,
                    sn_min = lo, sn_max = hi\<rparr>],
                next_id := Suc (next_id d)\<rparr>)"

definition seed_demo_data :: "db \<Rightarrow> (string \<times> string) \<times> db" where
  "seed_demo_data d =
     (let d1 = fold seed_canonical_site canonical_sites d;
          (site, d2) = ensure_site_named demo_site_name d1;
          (equipment, d3) = ensure_equipment_named demo_equipment_name site d2;
          d4 = fold (seed_sensor equipment) demo_sensors d3
      in ((uuid_str site, uuid_str equipment), d4))"

end
