(* ===== verification/StoreFacts.thy ===== *)
theory StoreFacts
  imports StoreReads
begin

text \<open>
  Facts about the store: what a statement does to the row it names and to every other row, the
  invariant that primary keys are distinct and fresh, and the interpretations of the
  all-or-nothing retry contract for the writes of the three agents that retry.
\<close>

section \<open>Reading back what a statement wrote\<close>

lemma find_map_key:
  assumes "\<And>r. inc_id (f r) = inc_id r"
  shows "find (\<lambda>r. inc_id r = v) (map (\<lambda>r. if inc_id r = u then f r else r) xs) =
         (if u = v then map_option f (find (\<lambda>r. inc_id r = v) xs) else find (\<lambda>r. inc_id r = v) xs)"
  by (induction xs) (auto simp: assms)

lemma find_update_incident [store_simps]:
  "(\<And>r. inc_id (f r) = inc_id r) \<Longrightarrow>
   find_incident v (update_incident u f d) =
     (if u = v then map_option f (find_incident v d) else find_incident v d)"
  by (simp add: find_incident_def update_incident_def find_map_key)

lemma find_inserts [store_simps]:
  "find_incident v (insert_history u a b c r e t d) = find_incident v d"
  "find_incident v (insert_audit x u c ad t d) = find_incident v d"
  "find_incident v (insert_approval u b c lv j t d) = find_incident v d"
  "find_incident v (d\<lparr>db_historical := hs, next_id := n\<rparr>) = find_incident v d"
  "find_incident v (d\<lparr>db_actions := xs, next_id := n\<rparr>) = find_incident v d"
  by (simp_all add: find_incident_def insert_history_def insert_audit_def insert_approval_def)

lemma find_incident_id: "find_incident u d = Some r \<Longrightarrow> inc_id r = u"
  by (auto simp: find_incident_def find_Some_iff)

lemma find_incident_mem: "find_incident u d = Some r \<Longrightarrow> r \<in> set (db_incidents d)"
  by (auto simp: find_incident_def find_Some_iff)

lemma update_incident_fields [store_simps, frame_simps]:
  "db_sites (update_incident u f d) = db_sites d"
  "db_equipment (update_incident u f d) = db_equipment d"
  "db_sensors (update_incident u f d) = db_sensors d"
  "db_readings (update_incident u f d) = db_readings d"
  "db_history (update_incident u f d) = db_history d"
  "db_approvals (update_incident u f d) = db_approvals d"
  "db_audit (update_incident u f d) = db_audit d"
  "db_actions (update_incident u f d) = db_actions d"
  "db_historical (update_incident u f d) = db_historical d"
  "next_id (update_incident u f d) = next_id d"
  by (simp_all add: update_incident_def)

lemma insert_history_fields [store_simps, frame_simps]:
  "db_sites (insert_history u a b c r e t d) = db_sites d"
  "db_equipment (insert_history u a b c r e t d) = db_equipment d"
  "db_sensors (insert_history u a b c r e t d) = db_sensors d"
  "db_readings (insert_history u a b c r e t d) = db_readings d"
  "db_incidents (insert_history u a b c r e t d) = db_incidents d"
  "db_approvals (insert_history u a b c r e t d) = db_approvals d"
  "db_audit (insert_history u a b c r e t d) = db_audit d"
  "db_actions (insert_history u a b c r e t d) = db_actions d"
  "db_historical (insert_history u a b c r e t d) = db_historical d"
  by (simp_all add: insert_history_def)

lemma insert_audit_fields [store_simps, frame_simps]:
  "db_sites (insert_audit x u c ad t d) = db_sites d"
  "db_equipment (insert_audit x u c ad t d) = db_equipment d"
  "db_sensors (insert_audit x u c ad t d) = db_sensors d"
  "db_readings (insert_audit x u c ad t d) = db_readings d"
  "db_incidents (insert_audit x u c ad t d) = db_incidents d"
  "db_history (insert_audit x u c ad t d) = db_history d"
  "db_approvals (insert_audit x u c ad t d) = db_approvals d"
  "db_actions (insert_audit x u c ad t d) = db_actions d"
  "db_historical (insert_audit x u c ad t d) = db_historical d"
  by (simp_all add: insert_audit_def)

lemma insert_approval_fields [store_simps, frame_simps]:
  "db_sites (insert_approval u b c lv j t d) = db_sites d"
  "db_equipment (insert_approval u b c lv j t d) = db_equipment d"
  "db_sensors (insert_approval u b c lv j t d) = db_sensors d"
  "db_readings (insert_approval u b c lv j t d) = db_readings d"
  "db_incidents (insert_approval u b c lv j t d) = db_incidents d"
  "db_history (insert_approval u b c lv j t d) = db_history d"
  "db_audit (insert_approval u b c lv j t d) = db_audit d"
  "db_actions (insert_approval u b c lv j t d) = db_actions d"
  "db_historical (insert_approval u b c lv j t d) = db_historical d"
  by (simp_all add: insert_approval_def)

text \<open>
  The history of one incident, as (status, actor) pairs: what the state machine did to it.
\<close>

definition trail :: "uuid \<Rightarrow> db \<Rightarrow> (status \<times> string) list" where
  "trail u d = map (\<lambda>h. (h_to h, h_actor h)) (incident_history u d)"

lemma trail_simps [store_simps]:
  "trail v (insert_history u a b c r e t d) = trail v d @ (if u = v then [(b, c)] else [])"
  "trail v (insert_audit x u c ad t d) = trail v d"
  "trail v (insert_approval u b c lv j t d) = trail v d"
  "trail v (update_incident u f d) = trail v d"
  by (simp_all add: trail_def incident_history_def insert_history_def insert_audit_def
      insert_approval_def update_incident_def)

section \<open>The stored status\<close>

definition status_of :: "uuid \<Rightarrow> db \<Rightarrow> status option" where
  "status_of u d = map_option inc_status (find_incident u d)"

lemma status_of_find: "find_incident u d = Some r \<Longrightarrow> status_of u d = Some (inc_status r)"
  by (simp add: status_of_def)

section \<open>The frame of one incident\<close>

text \<open>
  An agent's write stays inside one incident: its row and its history.  Every other incident, the
  decisions, the audit log, the external actions and the master data are as before.
\<close>

definition touches_only :: "uuid \<Rightarrow> db \<Rightarrow> db \<Rightarrow> bool" where
  "touches_only u d d' \<longleftrightarrow>
     (\<forall>v. v \<noteq> u \<longrightarrow> find_incident v d' = find_incident v d \<and> trail v d' = trail v d) \<and>
     map inc_id (db_incidents d') = map inc_id (db_incidents d) \<and>
     db_approvals d' = db_approvals d \<and> db_audit d' = db_audit d \<and> db_actions d' = db_actions d \<and>
     db_historical d' = db_historical d \<and> db_sites d' = db_sites d \<and>
     db_equipment d' = db_equipment d \<and> db_sensors d' = db_sensors d \<and> db_readings d' = db_readings d"

lemma touches_only_refl [simp]: "touches_only u d d"
  by (simp add: touches_only_def)

lemma touches_only_trans: "touches_only u d d' \<Longrightarrow> touches_only u d' d'' \<Longrightarrow> touches_only u d d''"
  by (simp add: touches_only_def)

lemma update_incident_ids:
  "(\<And>r. inc_id (f r) = inc_id r) \<Longrightarrow>
     map inc_id (db_incidents (update_incident u f d)) = map inc_id (db_incidents d)"
  by (simp add: update_incident_def)

lemma touches_only_update:
  "(\<And>r. inc_id (f r) = inc_id r) \<Longrightarrow> touches_only u d (update_incident u f d)"
  by (simp add: touches_only_def store_simps update_incident_ids)

lemma touches_only_history: "touches_only u d (insert_history u a b c r e t d)"
  by (simp add: touches_only_def store_simps)

lemma touches_only_update_then:
  "touches_only u d d' \<Longrightarrow> (\<And>r. inc_id (f r) = inc_id r) \<Longrightarrow> touches_only u d (update_incident u f d')"
  by (rule touches_only_trans [OF _ touches_only_update])

lemma touches_only_history_then:
  "touches_only u d d' \<Longrightarrow> touches_only u d (insert_history u a b c r e t d')"
  by (rule touches_only_trans [OF _ touches_only_history])

lemmas touches_only_intros = touches_only_refl touches_only_update_then touches_only_history_then

lemma save_root_cause_touches:
  "save_root_cause i h c cited st t d = (r, d') \<Longrightarrow> parse_uuid i = Some u \<Longrightarrow> touches_only u d d'"
  by (auto simp: save_root_cause_def split: option.splits intro!: touches_only_intros)

lemma save_risk_assessment_touches:
  "save_risk_assessment i s c l q t d = (r, d') \<Longrightarrow> parse_uuid i = Some u \<Longrightarrow> touches_only u d d'"
  by (auto simp: save_risk_assessment_def split: option.splits intro!: touches_only_intros)

lemma save_recommendation_touches:
  "save_recommendation i acts ra tlog nx t d = (r, d') \<Longrightarrow> parse_uuid i = Some u \<Longrightarrow> touches_only u d d'"
  by (auto simp: save_recommendation_def Let_def split: option.splits intro!: touches_only_intros)

lemma transition_incident_touches:
  "transition_incident i s a r e t d = (x, d') \<Longrightarrow> parse_uuid i = Some u \<Longrightarrow> touches_only u d d'"
  by (auto simp: transition_incident_def split: option.splits intro!: touches_only_intros)

lemma save_incident_evidence_touches:
  "save_incident_evidence i e t d = (x, d') \<Longrightarrow> parse_uuid i = Some u \<Longrightarrow> touches_only u d d'"
  by (auto simp: save_incident_evidence_def split: option.splits intro!: touches_only_intros)

section \<open>Retries\<close>

text \<open>
  Each of these writes reports success exactly when the row exists, and changes nothing
  otherwise: the contract under which the retry loop is all or nothing.
\<close>

lemma save_incident_evidence_atomic:
  "save_incident_evidence i e t d = (r, d') \<Longrightarrow> r \<noteq> Inr True \<Longrightarrow> d' = d"
  by (auto simp: save_incident_evidence_def split: option.splits)

lemma save_root_cause_atomic:
  "save_root_cause i h c cited st t d = (r, d') \<Longrightarrow> r \<noteq> Inr True \<Longrightarrow> d' = d"
  by (auto simp: save_root_cause_def split: option.splits)

lemma save_recommendation_atomic:
  "save_recommendation i acts ra tlog nx t d = (r, d') \<Longrightarrow> r \<noteq> Inr True \<Longrightarrow> d' = d"
  by (auto simp: save_recommendation_def Let_def split: option.splits)

interpretation evidence_write:
  atomic_write "with_faults faults (save_incident_evidence i e t)" for faults i e t
  by (rule atomic_with_faults) (rule save_incident_evidence_atomic)

interpretation root_cause_write:
  atomic_write "with_faults faults (save_root_cause i h c cited st t)" for faults i h c cited st t
  by (rule atomic_with_faults) (rule save_root_cause_atomic)

interpretation recommendation_write:
  atomic_write "with_faults faults (save_recommendation i acts ra tlog nx t)"
  for faults i acts ra tlog nx t
  by (rule atomic_with_faults) (rule save_recommendation_atomic)

section \<open>A small store\<close>

text \<open>
  One incident on one pump of one site: the concrete store at which the hypotheses of the
  properties are shown to hold.
\<close>

definition sample_sensor :: sensor_entry where
  "sample_sensor =
     \<lparr>se_sensor_id = uuid_str 5, se_sensor_type = Some ''temperature'', se_value = 36, se_unit = ''degC'',
      se_observed_at = Some 0, se_reason = Some ''above normal band'', se_static_margin = Some 1.3,
      se_drift_z = None, se_normal_min = Some 29, se_normal_max = Some 32\<rparr>"

definition sample_summary :: summary where
  "sample_summary =
     \<lparr>su_equipment_id = uuid_str 3, su_detected_at = 0, su_sensor_count = 1,
      su_sensors = [sample_sensor]\<rparr>"

definition sample_incident :: incident where
  "sample_incident =
     \<lparr>inc_id = 7, inc_name = ''Anomaly on CP-04'', inc_site = 2, inc_equipment = 3,
      inc_status = Investigating, inc_severity = ''high'', inc_detected_at = 0,
      inc_summary = Some sample_summary, inc_evidence = None,
      inc_root_cause = Some ''fan failure'', inc_confidence = Some 90, inc_cited = Some [],
      inc_risk_severity = None, inc_consequences = None, inc_hitl_level = None,
      inc_required_level = None, inc_actions = None, inc_rationale = None, inc_tool_log = None,
      inc_risk_assessed_at = None, inc_recommended_at = None, inc_action_executed_at = None,
      inc_resolved_at = None, inc_created_at = 0, inc_updated_at = 0, inc_cost = None\<rparr>"

definition sample_db :: db where
  "sample_db =
     \<lparr>db_sites = [\<lparr>st_id = 2, st_name = ''Site 12''\<rparr>],
      db_equipment = [\<lparr>eq_id = 3, eq_name = ''CP-04'', eq_site = 2, eq_last_serviced_at = None,
                       eq_condition_flags = None\<rparr>],
      db_sensors = [\<lparr>sn_id = 5, sn_equipment = 3, sn_type = ''temperature'', sn_unit = ''degC'',
                     sn_min = 29, sn_max = 32\<rparr>],
      db_readings = [], db_incidents = [sample_incident], db_history = [], db_approvals = [],
      db_audit = [], db_actions = [], db_historical = [], next_id = 100\<rparr>"

definition sample_db_with :: "status \<Rightarrow> db" where
  "sample_db_with s = sample_db\<lparr>db_incidents := [sample_incident\<lparr>inc_status := s\<rparr>]\<rparr>"

lemma sample_find [simp]:
  "find_incident u sample_db = (if u = 7 then Some sample_incident else None)"
  "find_incident u (sample_db_with s) =
     (if u = 7 then Some (sample_incident\<lparr>inc_status := s\<rparr>) else None)"
  by (auto simp: find_incident_def sample_db_def sample_db_with_def sample_incident_def)

lemma sample_uuid [simp]:
  "parse_uuid (uuid_str 2) = Some 2" "parse_uuid (uuid_str 3) = Some 3"
  "parse_uuid (uuid_str 5) = Some 5" "parse_uuid (uuid_str 7) = Some 7"
  by (rule parse_uuid_str, simp add: uuid_ok_def)+

end
