(* ===== verification/ActionMapping.thy ===== *)
theory ActionMapping
  imports StoreFacts
begin

text \<open>
  The mapping of an approved recommendation to the closed set of external operations
  (\<open>app/agents/action/mapping.py\<close>).  The stored priority and quantity are numbers, as the
  Recommendation Agent writes them.
\<close>

definition work_order_kind :: string where
  "work_order_kind = ''work_order''"

definition product_reorder_kind :: string where
  "product_reorder_kind = ''product_reorder''"

definition manual_kind :: string where
  "manual_kind = ''manual''"

definition known_types :: "string list" where
  "known_types = [work_order_kind, product_reorder_kind, manual_kind]"

definition work_order_hints :: "string list" where
  "work_order_hints = [''inspect'', ''repair'', ''replace'', ''service'', ''check'', ''verify'',
     ''schedule'', ''backwash'', ''clean'', ''test'', ''calibrate'', ''maintain'', ''maintenance'']"

definition reorder_hints :: "string list" where
  "reorder_hints = [''reorder'', ''order'', ''restock'', ''chemical'', ''product'']"

definition classify_action :: "rec_action \<Rightarrow> string" where
  "classify_action a =
     (let declared = py_lower (py_strip (or_str (ra_type a) [])) in
      if declared \<in> set known_types then declared
      else (let body = py_lower (or_str (ra_action a) []) in
            if list_ex (\<lambda>h. py_in h body) work_order_hints then work_order_kind
            else if list_ex (\<lambda>h. py_in h body) reorder_hints then product_reorder_kind
            else manual_kind))"

record mapping_result =
  mr_operations :: "cmms_operation list"
  mr_unmapped :: "(rec_action \<times> string) list"

definition has_operations :: "mapping_result \<Rightarrow> bool" where
  "has_operations m \<longleftrightarrow> mr_operations m \<noteq> []"

text \<open>An element of the list that is not an object becomes one, with the next priority.\<close>

definition as_action :: "nat \<Rightarrow> json_action \<Rightarrow> rec_action" where
  "as_action n a =
     (case a of
        ActDict r \<Rightarrow> r
      | ActText s \<Rightarrow> \<lparr>ra_action = Some s, ra_priority = Some (int n + 1), ra_type = None,
                      ra_product_key = None, ra_quantity = None\<rparr>)"

definition work_order_op :: "rec_action \<Rightarrow> cmms_operation" where
  "work_order_op a =
     \<lparr>op_kind = work_order_kind, op_priority = or_int (ra_priority a) 1,
      op_source_action = or_str (ra_action a) [], op_description = py_strip (or_str (ra_action a) []),
      op_product_key = [], op_quantity = 0\<rparr>"

definition reorder_op :: "rec_action \<Rightarrow> string \<Rightarrow> cmms_operation" where
  "reorder_op a key =
     \<lparr>op_kind = product_reorder_kind, op_priority = or_int (ra_priority a) 1,
      op_source_action = or_str (ra_action a) [], op_description = [],
      op_product_key = key, op_quantity = (case ra_quantity a of None \<Rightarrow> 0 | Some q \<Rightarrow> q)\<rparr>"

definition map_action :: "json_action \<Rightarrow> mapping_result \<Rightarrow> mapping_result" where
  "map_action x m =
     (let a = as_action (length (mr_operations m)) x; kind = classify_action a in
      if kind = work_order_kind then m\<lparr>mr_operations := mr_operations m @ [work_order_op a]\<rparr>
      else if kind = product_reorder_kind then
        (let key = py_strip (or_str (ra_product_key a) []) in
         if key = [] then m\<lparr>mr_unmapped := mr_unmapped m @ [(a, ''missing product_key'')]\<rparr>
         else m\<lparr>mr_operations := mr_operations m @ [reorder_op a key]\<rparr>)
      else m\<lparr>mr_unmapped := mr_unmapped m @
             [(a, ''action type '' @ [CHR 0x27] @ kind @ [CHR 0x27] @ '' is not executable'')]\<rparr>)"

definition map_recommendation_to_cmms :: "json_action list option \<Rightarrow> mapping_result" where
  "map_recommendation_to_cmms actions =
     fold map_action (or_list actions) \<lparr>mr_operations = [], mr_unmapped = []\<rparr>"

section \<open>Facts\<close>

lemma kinds_distinct [simp]:
  "work_order_kind \<noteq> product_reorder_kind" "work_order_kind \<noteq> manual_kind"
  "product_reorder_kind \<noteq> manual_kind" "product_reorder_kind \<noteq> work_order_kind"
  "manual_kind \<noteq> work_order_kind" "manual_kind \<noteq> product_reorder_kind"
  by (simp_all add: work_order_kind_def product_reorder_kind_def manual_kind_def)

lemma classify_known: "classify_action a \<in> set known_types"
  by (simp add: classify_action_def known_types_def Let_def)

text \<open>What the execution relies on of one operation.\<close>

definition executable_op :: "cmms_operation \<Rightarrow> bool" where
  "executable_op oper \<longleftrightarrow>
     (op_kind oper = work_order_kind \<or>
      (op_kind oper = product_reorder_kind \<and> op_product_key oper \<noteq> [] \<and>
       py_strip (op_product_key oper) = op_product_key oper))"

lemma dropWhile_idem: "dropWhile P (dropWhile P xs) = dropWhile P xs"
  by (induction xs) auto

lemma py_strip_idem: "py_strip (py_strip s) = py_strip s"
proof (cases "py_strip s")
  case (Cons c t)
  have "\<not> is_space c" "\<not> is_space (last (c # t))" using py_strip_no_outer_space [OF Cons] by auto
  moreover have "hd (rev (c # t)) = last (c # t)" by (simp only: hd_rev list.distinct not_False_eq_True)
  ultimately have "dropWhile is_space (c # t) = c # t" "dropWhile is_space (rev (c # t)) = rev (c # t)"
    by (simp_all only: dropWhile_eq_self_iff list.sel, simp_all)
  then show ?thesis unfolding Cons by (simp add: py_strip_def py_lstrip_def py_rstrip_def)
qed simp

lemma map_action_step:
  "(mr_operations (map_action x m) = mr_operations m \<and> length (mr_unmapped (map_action x m)) = Suc (length (mr_unmapped m))) \<or>
   (mr_unmapped (map_action x m) = mr_unmapped m \<and>
    (\<exists>oper. mr_operations (map_action x m) = mr_operations m @ [oper] \<and> executable_op oper \<and>
       (let a = as_action (length (mr_operations m)) x
        in classify_action a = op_kind oper \<and> op_source_action oper = or_str (ra_action a) [])))"
  by (auto simp: map_action_def Let_def work_order_op_def reorder_op_def executable_op_def py_strip_idem)

lemma classify_as_action: "classify_action (as_action n x) = classify_action (as_action 0 x)"
  by (cases x) (simp_all add: as_action_def classify_action_def Let_def)

lemma source_as_action: "ra_action (as_action n x) = ra_action (as_action 0 x)"
  by (cases x) (simp_all add: as_action_def)

definition maps_to :: "json_action \<Rightarrow> cmms_operation \<Rightarrow> bool" where
  "maps_to x oper \<longleftrightarrow>
     op_kind oper = classify_action (as_action 0 x) \<and>
     op_source_action oper = or_str (ra_action (as_action 0 x)) [] \<and> executable_op oper"

lemma map_action_one:
  "(mr_operations (map_action x m) = mr_operations m \<and>
      length (mr_unmapped (map_action x m)) = Suc (length (mr_unmapped m))) \<or>
   (mr_unmapped (map_action x m) = mr_unmapped m \<and>
      (\<exists>oper. mr_operations (map_action x m) = mr_operations m @ [oper] \<and> maps_to x oper))"
  using map_action_step [of x m] classify_as_action [of "length (mr_operations m)" x]
    source_as_action [of "length (mr_operations m)" x]
  by (auto simp: maps_to_def Let_def)

lemma fold_map_action:
  "\<exists>sel ops. mr_operations (fold map_action xs m) = mr_operations m @ ops \<and> subseq sel xs \<and>
     list_all2 maps_to sel ops \<and>
     length (mr_unmapped (fold map_action xs m)) + length ops = length (mr_unmapped m) + length xs"
proof (induction xs arbitrary: m)
  case Nil
  show ?case by (intro exI [of _ "[]"]) simp
next
  case (Cons x xs)
  obtain sel ops where h: "mr_operations (fold map_action xs (map_action x m)) = mr_operations (map_action x m) @ ops"
    "subseq sel xs" "list_all2 maps_to sel ops"
    "length (mr_unmapped (fold map_action xs (map_action x m))) + length ops =
       length (mr_unmapped (map_action x m)) + length xs"
    using Cons [of "map_action x m"] by blast
  from map_action_one [of x m] show ?case
  proof (elim disjE conjE exE)
    assume "mr_operations (map_action x m) = mr_operations m"
      "length (mr_unmapped (map_action x m)) = Suc (length (mr_unmapped m))"
    with h show ?thesis by (intro exI [of _ sel] exI [of _ ops]) auto
  next
    fix oper
    assume "mr_unmapped (map_action x m) = mr_unmapped m"
      "mr_operations (map_action x m) = mr_operations m @ [oper]" "maps_to x oper"
    with h show ?thesis by (intro exI [of _ "x # sel"] exI [of _ "oper # ops"]) auto
  qed
qed

section \<open>Properties\<close>

text \<open>
  The mapping never invents an external write: every action of the recommendation becomes one
  operation or one entry of the unmapped list; the operations come in the order of the actions,
  each is exactly what its action classifies to (so an action declared manual, or that names
  nothing executable, never becomes one) and carries its text, and a reorder always names a
  product.
\<close>

theorem mapping_is_faithful:
  "\<exists>sel. subseq sel (or_list actions) \<and>
     list_all2 maps_to sel (mr_operations (map_recommendation_to_cmms actions)) \<and>
     length (mr_operations (map_recommendation_to_cmms actions)) +
       length (mr_unmapped (map_recommendation_to_cmms actions)) = length (or_list actions)"
  using fold_map_action [of "or_list actions" "\<lparr>mr_operations = [], mr_unmapped = []\<rparr>"]
  by (auto simp: map_recommendation_to_cmms_def add.commute)

lemma maps_to_kind: "maps_to x oper \<Longrightarrow> classify_action (as_action 0 x) \<noteq> manual_kind"
  by (auto simp: maps_to_def executable_op_def)

text \<open>
  A declared type always wins over the wording: an action typed \<open>manual\<close> is not executable
  whatever its text says, and only an action without a known type is classified by its words.
\<close>

theorem manual_is_never_executed:
  assumes "\<forall>x\<in>set (or_list actions). \<exists>a. x = ActDict a \<and> py_lower (py_strip (or_str (ra_type a) [])) = manual_kind"
  shows "mr_operations (map_recommendation_to_cmms actions) = []"
proof -
  obtain sel where sel: "subseq sel (or_list actions)"
    "list_all2 maps_to sel (mr_operations (map_recommendation_to_cmms actions))"
    using fold_map_action [of "or_list actions" "\<lparr>mr_operations = [], mr_unmapped = []\<rparr>"]
    by (auto simp: map_recommendation_to_cmms_def)
  have "sel = []"
  proof (rule ccontr)
    assume "sel \<noteq> []"
    then obtain x oper where x: "x \<in> set sel" "maps_to x oper"
      using sel(2) by (cases sel) (auto simp: list_all2_Cons1)
    then have "x \<in> set (or_list actions)" using sel(1) by (auto dest: list_emb_set)
    then obtain a where "x = ActDict a" "py_lower (py_strip (or_str (ra_type a) [])) = manual_kind"
      using assms by blast
    then have "classify_action (as_action 0 x) = manual_kind"
      by (simp add: as_action_def classify_action_def known_types_def)
    with maps_to_kind [OF x(2)] show False by simp
  qed
  with sel(2) show ?thesis by simp
qed

lemma manual_is_never_executed_witness:
  "mr_operations (map_recommendation_to_cmms (Some [ActDict \<lparr>ra_action = Some ''replace the pump'', ra_priority = None,
     ra_type = Some '' Manual'', ra_product_key = None, ra_quantity = None\<rparr>])) = []"
proof -
  have "py_lower (py_strip '' Manual'') = manual_kind" by code_simp
  then show ?thesis by (intro manual_is_never_executed) simp
qed

end
