(* ===== verification/CmmsClient.thy ===== *)
theory CmmsClient
  imports ActionMapping
begin

text \<open>
  The only module that writes to an external system (\<open>app/core/cmms_client.py\<close>): its requests
  and the bounded retry around each of them.  What comes back from the network is the parameter
  \<open>net\<close>: a function of the number of the attempt, the request and the state of the remote
  system to an answer or a failure, and the remote state after it.
\<close>

section \<open>Requests\<close>

datatype cmms_request =
    CreateWorkOrder string string string string string
  | GetWorkOrder string
  | ListWorkOrders "string option" "string option"
  | ResolveWorkOrder string string
  | GetInventory string
  | RequestReorder string real string string

fun request_method :: "cmms_request \<Rightarrow> string" where
  "request_method (CreateWorkOrder _ _ _ _ _) = ''POST''"
| "request_method (ResolveWorkOrder _ _) = ''POST''"
| "request_method (RequestReorder _ _ _ _) = ''POST''"
| "request_method _ = ''GET''"

fun request_path :: "cmms_request \<Rightarrow> string" where
  "request_path (CreateWorkOrder _ _ _ _ _) = ''/work-orders''"
| "request_path (GetWorkOrder i) = ''/work-orders/'' @ i"
| "request_path (ListWorkOrders _ _) = ''/work-orders''"
| "request_path (ResolveWorkOrder i _) = ''/work-orders/'' @ i @ ''/resolve''"
| "request_path (GetInventory k) = ''/inventory/'' @ k"
| "request_path (RequestReorder k _ _ _) = ''/inventory/'' @ k @ ''/reorder''"

definition is_write :: "cmms_request \<Rightarrow> bool" where
  "is_write req \<longleftrightarrow> request_method req = ''POST''"

definition ok_codes :: "cmms_request \<Rightarrow> nat list" where
  "ok_codes req = (if is_write req then [200, 201] else [200])"

text \<open>The query of a listing: only the filters that are given.\<close>

definition list_request :: "string option \<Rightarrow> string option \<Rightarrow> cmms_request" where
  "list_request equipment st =
     ListWorkOrders (if truthy_str equipment then equipment else None) (if truthy_str st then st else None)"

section \<open>Answers\<close>

record inventory_view =
  ny_product_key :: string
  ny_name :: string
  ny_on_hand :: real
  ny_threshold :: real
  ny_unit :: string

datatype cmms_body =
    Order cmms_json
  | Orders "cmms_json list"
  | Inventory inventory_view
  | Detail string

text \<open>
  An answer has a status code, what \<open>response.json()\<close> gives (\<open>Inl\<close> the error when the
  body is not JSON) and the raw text; a failure has the description of the exception.
\<close>

datatype net_outcome =
    Answer nat "string + cmms_body" string
  | NetError string

type_synonym 'c net = "nat \<Rightarrow> cmms_request \<Rightarrow> 'c \<Rightarrow> net_outcome \<times> 'c"

section \<open>One request with bounded retry\<close>

definition http_error :: "nat \<Rightarrow> string \<Rightarrow> string" where
  "http_error code body = ''HTTP '' @ nat_str code @ '': '' @ take 300 body"

fun request_from ::
  "'c net \<Rightarrow> nat \<Rightarrow> nat \<Rightarrow> string \<Rightarrow> cmms_request \<Rightarrow> 'c \<Rightarrow> cmms_body result \<times> 'c" where
  "request_from net 0 k last_error req c =
     (Inl (CmmsError (request_method req) (request_path req)
             (if last_error = [] then ''exhausted retries'' else last_error)), c)"
| "request_from net (Suc n) k last_error req c =
     (case net k req c of
        (NetError e, c') \<Rightarrow> request_from net n (Suc k) e req c'
      | (Answer code body raw, c') \<Rightarrow>
          if code \<in> set (ok_codes req) then
            (case body of
               Inr b \<Rightarrow> (Inr b, c')
             | Inl e \<Rightarrow> request_from net n (Suc k) e req c')
          else if 400 \<le> code \<and> code < 500 then
            (Inl (CmmsError (request_method req) (request_path req) (http_error code raw)), c')
          else request_from net n (Suc k) (http_error code raw) req c')"

text \<open>\<open>self._retry_attempts = max(1, int(retry_attempts))\<close>\<close>

definition cmms_request :: "'c net \<Rightarrow> int \<Rightarrow> cmms_request \<Rightarrow> 'c \<Rightarrow> cmms_body result \<times> 'c" where
  "cmms_request net attempts req c = request_from net (nat (max 1 attempts)) 1 [] req c"

text \<open>The operations of the client, by their requests.\<close>

definition create_work_order ::
  "'c net \<Rightarrow> int \<Rightarrow> string \<Rightarrow> string \<Rightarrow> string \<Rightarrow> string \<Rightarrow> string \<Rightarrow> 'c \<Rightarrow> cmms_body result \<times> 'c" where
  "create_work_order net n equipment description priority requested_by incident =
     cmms_request net n (CreateWorkOrder equipment description priority requested_by incident)"

definition get_work_order :: "'c net \<Rightarrow> int \<Rightarrow> string \<Rightarrow> 'c \<Rightarrow> cmms_body result \<times> 'c" where
  "get_work_order net n i = cmms_request net n (GetWorkOrder i)"

definition list_work_orders ::
  "'c net \<Rightarrow> int \<Rightarrow> string option \<Rightarrow> string option \<Rightarrow> 'c \<Rightarrow> cmms_body result \<times> 'c" where
  "list_work_orders net n equipment st = cmms_request net n (list_request equipment st)"

definition resolve_work_order :: "'c net \<Rightarrow> int \<Rightarrow> string \<Rightarrow> string \<Rightarrow> 'c \<Rightarrow> cmms_body result \<times> 'c" where
  "resolve_work_order net n i note = cmms_request net n (ResolveWorkOrder i note)"

definition get_inventory :: "'c net \<Rightarrow> int \<Rightarrow> string \<Rightarrow> 'c \<Rightarrow> cmms_body result \<times> 'c" where
  "get_inventory net n k = cmms_request net n (GetInventory k)"

definition request_reorder ::
  "'c net \<Rightarrow> int \<Rightarrow> string \<Rightarrow> real \<Rightarrow> string \<Rightarrow> string \<Rightarrow> 'c \<Rightarrow> cmms_body result \<times> 'c" where
  "request_reorder net n k q incident requested_by =
     cmms_request net n (RequestReorder k q incident requested_by)"

text \<open>
  \<open>get_cmms_client\<close>: the process-wide client, or an error when the configuration is absent.
\<close>

record cmms_settings =
  cs_base_url :: "string option"
  cs_api_key :: "string option"

definition get_cmms_client :: "cmms_settings \<Rightarrow> unit result" where
  "get_cmms_client s =
     (if \<not> truthy_str (cs_base_url s) \<or> \<not> truthy_str (cs_api_key s) then
        Inl (RuntimeError ''Mock ERP/CMMS is not configured'')
      else Inr ())"

section \<open>Facts\<close>

lemma request_error_kind:
  "request_from net n k le req c = (Inl e, c') \<Longrightarrow>
     \<exists>x. e = CmmsError (request_method req) (request_path req) x"
  by (induction n arbitrary: k le c)
     (auto split: net_outcome.splits prod.splits sum.splits if_splits)

lemma request_local:
  assumes "\<And>j c. k \<le> j \<Longrightarrow> j < k + n \<Longrightarrow> net j req c = net' j req c"
  shows "request_from net n k le req c = request_from net' n k le req c"
  using assms
proof (induction n arbitrary: k le c)
  case (Suc n)
  have "net k req c = net' k req c" by (rule Suc.prems) simp_all
  moreover have "request_from net n (Suc k) x req d = request_from net' n (Suc k) x req d" for x d
    by (rule Suc.IH) (rule Suc.prems, simp_all)
  ultimately show ?case by (simp split: net_outcome.splits prod.splits sum.splits)
qed simp

section \<open>Properties\<close>

text \<open>
  A request is sent at most as often as configured and at least once: the result depends on
  nothing but the answers to the attempts 1 to \<open>max 1 n\<close>, it always is an answer of the remote
  system or a \<open>CmmsError\<close> naming the request, and a first answer in the 4xx range ends it with
  exactly one attempt.
\<close>

theorem cmms_request_is_bounded:
  assumes "\<And>j c. 1 \<le> j \<Longrightarrow> j \<le> nat (max 1 n) \<Longrightarrow> net j req c = net' j req c"
  shows "cmms_request net n req c = cmms_request net' n req c \<and>
    (\<forall>e c'. cmms_request net n req c = (Inl e, c') \<longrightarrow>
       (\<exists>x. e = CmmsError (request_method req) (request_path req) x)) \<and>
    (\<forall>code body raw c'. net 1 req c = (Answer code body raw, c') \<longrightarrow> 400 \<le> code \<longrightarrow> code < 500 \<longrightarrow>
       cmms_request net n req c =
         (Inl (CmmsError (request_method req) (request_path req) (http_error code raw)), c'))"
proof (intro conjI allI impI)
  show "cmms_request net n req c = cmms_request net' n req c"
    unfolding cmms_request_def by (rule request_local) (rule assms, simp_all)
next
  fix e c' assume "cmms_request net n req c = (Inl e, c')"
  then show "\<exists>x. e = CmmsError (request_method req) (request_path req) x"
    unfolding cmms_request_def by (rule request_error_kind)
next
  fix code body raw c'
  assume "net 1 req c = (Answer code body raw, c')" "400 \<le> code" "code < 500"
  moreover obtain m where "nat (max 1 n) = Suc m" by (cases "nat (max 1 n)") auto
  ultimately show "cmms_request net n req c =
      (Inl (CmmsError (request_method req) (request_path req) (http_error code raw)), c')"
    by (simp add: cmms_request_def ok_codes_def)
qed

lemma cmms_request_is_bounded_witness:
  "cmms_request (\<lambda>j req c. (Answer 404 (Inl []) ''gone'', Suc c)) 4 (GetWorkOrder ''x'') 0 =
     (Inl (CmmsError ''GET'' ''/work-orders/x'' (http_error 404 ''gone'')), 1)"
  using cmms_request_is_bounded [of 4 "\<lambda>j req c. (Answer 404 (Inl []) ''gone'', Suc c)" "GetWorkOrder ''x''"
      "\<lambda>j req c. (Answer 404 (Inl []) ''gone'', Suc c)" 0]
  by simp

end
