(* ===== verification/CmmsService.thy ===== *)
theory CmmsService
  imports CmmsClient
begin

text \<open>
  The enterprise system behind the client (\<open>mock-erp-cmms/main.py\<close>): its three tables, its
  key check and its endpoints, and the contract the rest of the development relies on.  The
  contract is the locale \<open>remote_cmms\<close>; the service of this theory is its interpretation.
  A request is the value the client builds, so a body always has the client's keys.  How FastAPI
  serialises an answer is the parameter \<open>raw\<close> (the client shows that text in error messages
  and nowhere else).
\<close>

section \<open>Tables\<close>

record order_row =
  wo_id :: uuid
  wo_equipment :: "uuid option"
  wo_description :: string
  wo_priority :: string
  wo_status :: string
  wo_requested_by :: string
  wo_incident :: "uuid option"
  wo_note :: "string option"
  wo_created_at :: time
  wo_updated_at :: time

record product_row =
  pd_key :: string
  pd_name :: string
  pd_on_hand :: real
  pd_threshold :: real
  pd_unit :: string

record reorder_row =
  ro_id :: uuid
  ro_product_key :: string
  ro_quantity :: real
  ro_incident :: "uuid option"
  ro_requested_by :: string
  ro_status :: string
  ro_created_at :: time

record cmms =
  cm_orders :: "order_row list"
  cm_products :: "product_row list"
  cm_reorders :: "reorder_row list"
  cm_next :: uuid

text \<open>\<open>ensure_schema\<close>: the products that are missing are added, the others left alone.\<close>

definition seed_products :: "product_row list" where
  "seed_products =
     [\<lparr>pd_key = ''coagulant'', pd_name = ''Coagulant (Alum-based)'', pd_on_hand = 450,
       pd_threshold = 200, pd_unit = ''kg''\<rparr>,
      \<lparr>pd_key = ''biocide'', pd_name = ''Biocide (oxidizing)'', pd_on_hand = 120,
       pd_threshold = 80, pd_unit = ''L''\<rparr>,
      \<lparr>pd_key = ''corrosion_inhibitor'', pd_name = ''Corrosion Inhibitor'', pd_on_hand = 300,
       pd_threshold = 150, pd_unit = ''L''\<rparr>]"

definition find_product :: "string \<Rightarrow> cmms \<Rightarrow> product_row option" where
  "find_product k c = find (\<lambda>p. pd_key p = k) (cm_products c)"

definition seed_product :: "product_row \<Rightarrow> cmms \<Rightarrow> cmms" where
  "seed_product p c =
     (if find_product (pd_key p) c = None then c\<lparr>cm_products := cm_products c @ [p]\<rparr> else c)"

definition ensure_schema :: "cmms \<Rightarrow> cmms" where
  "ensure_schema c = fold seed_product seed_products c"

section \<open>Endpoints\<close>

definition priority_word_or_medium :: "string \<Rightarrow> string" where
  "priority_word_or_medium v =
     (let word = py_lower (or_str (Some v) ''medium'')
      in if word \<in> {''low'', ''medium'', ''high''} then word else ''medium'')"

definition uuid_or_none :: "string \<Rightarrow> uuid option" where
  "uuid_or_none v = (if v = [] then None else parse_uuid v)"

definition order_to_dict :: "order_row \<Rightarrow> cmms_json" where
  "order_to_dict r =
     \<lparr>cj_id = Some (uuid_str (wo_id r)), cj_work_order_id = None, cj_reorder_id = None,
      cj_status = Some (wo_status r), cj_equipment_id = map_option uuid_str (wo_equipment r),
      cj_description = Some (wo_description r), cj_resolution_note = wo_note r,
      cj_priority = Some (wo_priority r), cj_requested_by = Some (wo_requested_by r),
      cj_source_incident_id = map_option uuid_str (wo_incident r), cj_product_key = None,
      cj_quantity = None, cj_unit = None, cj_created_at = Some (wo_created_at r),
      cj_updated_at = Some (wo_updated_at r)\<rparr>"

type_synonym answer = "nat \<times> cmms_body"

definition svc_create_work_order ::
  "string \<Rightarrow> string \<Rightarrow> string \<Rightarrow> string \<Rightarrow> string \<Rightarrow> time \<Rightarrow> cmms \<Rightarrow> answer \<times> cmms" where
  "svc_create_work_order equipment description priority requested_by incident t c =
     (let d = py_strip description in
      if d = [] then ((422, Detail ''description is required''), c)
      else
        (let r = \<lparr>wo_id = cm_next c, wo_equipment = uuid_or_none equipment, wo_description = d,
                  wo_priority = priority_word_or_medium priority, wo_status = ''open'',
                  wo_requested_by = take 200 (or_str (Some requested_by) ''unknown''),
                  wo_incident = uuid_or_none incident, wo_note = None, wo_created_at = t,
                  wo_updated_at = t\<rparr>
         in ((201, Order (order_to_dict r)),
             c\<lparr>cm_orders := cm_orders c @ [r], cm_next := Suc (cm_next c)\<rparr>)))"

text \<open>
  The newest 200 orders that match both filters; a filter on an equipment that is no UUID compares
  with NULL, which matches nothing.
\<close>

definition order_matches :: "string option \<Rightarrow> string option \<Rightarrow> order_row \<Rightarrow> bool" where
  "order_matches equipment st r \<longleftrightarrow>
     (truthy_str equipment \<longrightarrow>
        (case uuid_or_none (the equipment) of None \<Rightarrow> False | Some u \<Rightarrow> wo_equipment r = Some u)) \<and>
     (truthy_str st \<longrightarrow> wo_status r = the st)"

definition svc_list_work_orders :: "string option \<Rightarrow> string option \<Rightarrow> cmms \<Rightarrow> answer" where
  "svc_list_work_orders equipment st c =
     (200, Orders (map order_to_dict
        (take 200 (sort_key (\<lambda>r. - wo_created_at r) (filter (order_matches equipment st) (cm_orders c))))))"

definition find_order :: "uuid \<Rightarrow> cmms \<Rightarrow> order_row option" where
  "find_order u c = find (\<lambda>r. wo_id r = u) (cm_orders c)"

text \<open>\<open>_fetch_order\<close>: 422 for an identifier that is no UUID, else the row, if any.\<close>

definition fetch_order :: "string \<Rightarrow> cmms \<Rightarrow> answer + (uuid \<times> order_row option)" where
  "fetch_order i c =
     (case uuid_or_none i of
        None \<Rightarrow> Inl (422, Detail ''work order id must be a UUID'')
      | Some u \<Rightarrow> Inr (u, find_order u c))"

definition svc_get_work_order :: "string \<Rightarrow> cmms \<Rightarrow> answer" where
  "svc_get_work_order i c =
     (case fetch_order i c of
        Inl a \<Rightarrow> a
      | Inr (_, None) \<Rightarrow> (404, Detail ''work order not found'')
      | Inr (_, Some r) \<Rightarrow> (200, Order (order_to_dict r)))"

definition resolve_row :: "string \<Rightarrow> time \<Rightarrow> order_row \<Rightarrow> order_row" where
  "resolve_row note t r = r\<lparr>wo_status := ''resolved'', wo_note := Some note, wo_updated_at := t\<rparr>"

definition svc_resolve_work_order :: "string \<Rightarrow> string \<Rightarrow> time \<Rightarrow> cmms \<Rightarrow> answer \<times> cmms" where
  "svc_resolve_work_order i resolution_note t c =
     (case fetch_order i c of
        Inl a \<Rightarrow> (a, c)
      | Inr (_, None) \<Rightarrow> ((404, Detail ''work order not found''), c)
      | Inr (u, Some r) \<Rightarrow>
          if wo_status r = ''resolved'' then ((409, Detail ''work order is already resolved''), c)
          else (let note = py_strip resolution_note in
            if note = [] then ((422, Detail ''resolution_note is required''), c)
            else ((200, Order (order_to_dict (resolve_row note t r))),
                  c\<lparr>cm_orders := map (\<lambda>x. if wo_id x = u then resolve_row note t x else x) (cm_orders c)\<rparr>)))"

definition unknown_product :: "string \<Rightarrow> answer" where
  "unknown_product k = (404, Detail (''unknown product '' @ [CHR 0x27] @ k @ [CHR 0x27]))"

definition svc_get_inventory :: "string \<Rightarrow> cmms \<Rightarrow> answer" where
  "svc_get_inventory k c =
     (case find_product k c of
        None \<Rightarrow> unknown_product k
      | Some p \<Rightarrow> (200, Inventory \<lparr>ny_product_key = pd_key p, ny_name = pd_name p, ny_on_hand = pd_on_hand p,
                                  ny_threshold = pd_threshold p, ny_unit = pd_unit p\<rparr>))"

definition svc_reorder ::
  "string \<Rightarrow> real \<Rightarrow> string \<Rightarrow> string \<Rightarrow> time \<Rightarrow> cmms \<Rightarrow> answer \<times> cmms" where
  "svc_reorder k quantity incident requested_by t c =
     (case find_product k c of
        None \<Rightarrow> (unknown_product k, c)
      | Some p \<Rightarrow>
          if quantity \<le> 0 then ((422, Detail ''quantity must be positive''), c)
          else
            ((201, Order \<lparr>cj_id = Some (uuid_str (cm_next c)), cj_work_order_id = None,
                cj_reorder_id = None, cj_status = Some ''requested'', cj_equipment_id = None,
                cj_description = None, cj_resolution_note = None, cj_priority = None,
                cj_requested_by = None, cj_source_incident_id = Some incident,
                cj_product_key = Some k, cj_quantity = Some quantity, cj_unit = Some (pd_unit p),
                cj_created_at = None, cj_updated_at = None\<rparr>),
             c\<lparr>cm_reorders := cm_reorders c @
                   [\<lparr>ro_id = cm_next c, ro_product_key = k, ro_quantity = quantity,
                     ro_incident = uuid_or_none incident,
                     ro_requested_by = take 200 (or_str (Some requested_by) ''unknown''),
                     ro_status = ''requested'', ro_created_at = t\<rparr>],
               cm_next := Suc (cm_next c)\<rparr>))"

text \<open>Every endpoint depends on \<open>require_api_key\<close>, which runs before its body.\<close>

definition route :: "cmms_request \<Rightarrow> time \<Rightarrow> cmms \<Rightarrow> answer \<times> cmms" where
  "route req t c =
     (case req of
        CreateWorkOrder e d p by i \<Rightarrow> svc_create_work_order e d p by i t c
      | GetWorkOrder i \<Rightarrow> (svc_get_work_order i c, c)
      | ListWorkOrders e s \<Rightarrow> (svc_list_work_orders e s c, c)
      | ResolveWorkOrder i n \<Rightarrow> svc_resolve_work_order i n t c
      | GetInventory k \<Rightarrow> (svc_get_inventory k c, c)
      | RequestReorder k q i by \<Rightarrow> svc_reorder k q i by t c)"

definition require_api_key :: "string \<Rightarrow> string \<Rightarrow> answer option" where
  "require_api_key key header =
     (if header \<noteq> key then Some (401, Detail ''invalid or missing X-Api-Key'') else None)"

definition serve ::
  "(cmms_body \<Rightarrow> string) \<Rightarrow> string \<Rightarrow> string \<Rightarrow> time \<Rightarrow> cmms_request \<Rightarrow> cmms \<Rightarrow> net_outcome \<times> cmms" where
  "serve raw key header t req c =
     (case require_api_key key header of
        Some (code, b) \<Rightarrow> (Answer code (Inr b) (raw b), c)
      | None \<Rightarrow> (case route req t c of ((code, b), c') \<Rightarrow> (Answer code (Inr b) (raw b), c')))"

section \<open>The network between client and service\<close>

text \<open>
  What may happen to one attempt: it is delivered and answered, the request is lost, or the
  request is carried out and its answer is lost (the client's timeout expires).
\<close>

datatype fate = Delivered | RequestLost string | ResponseLost string

definition over_network ::
  "(nat \<Rightarrow> fate) \<Rightarrow> (cmms_request \<Rightarrow> 'c \<Rightarrow> net_outcome \<times> 'c) \<Rightarrow> 'c net" where
  "over_network fates answer k req c =
     (case fates k of
        Delivered \<Rightarrow> answer req c
      | RequestLost e \<Rightarrow> (NetError e, c)
      | ResponseLost e \<Rightarrow> (NetError e, snd (answer req c)))"

lemma over_network_cases:
  "fates k = Delivered \<Longrightarrow> over_network fates answer k req c = answer req c"
  "fates k = RequestLost e \<Longrightarrow> over_network fates answer k req c = (NetError e, c)"
  "fates k = ResponseLost e \<Longrightarrow> over_network fates answer k req c = (NetError e, snd (answer req c))"
  by (simp_all add: over_network_def)

text \<open>How many of the attempts from \<open>k\<close> on reach the service before the first answer.\<close>

fun reached :: "(nat \<Rightarrow> fate) \<Rightarrow> nat \<Rightarrow> nat \<Rightarrow> nat" where
  "reached fates k 0 = 0"
| "reached fates k (Suc n) =
     (case fates k of
        Delivered \<Rightarrow> 1
      | RequestLost e \<Rightarrow> reached fates (Suc k) n
      | ResponseLost e \<Rightarrow> Suc (reached fates (Suc k) n))"

lemma reached_no_loss:
  assumes "\<And>j e. k \<le> j \<Longrightarrow> j < k + n \<Longrightarrow> fates j \<noteq> ResponseLost e"
  shows "reached fates k n = (if \<exists>j. k \<le> j \<and> j < k + n \<and> fates j = Delivered then 1 else 0)"
  using assms
proof (induction n arbitrary: k)
  case (Suc n)
  have IH: "reached fates (Suc k) n = (if \<exists>j. Suc k \<le> j \<and> j < Suc k + n \<and> fates j = Delivered then 1 else 0)"
    by (rule Suc.IH) (use Suc.prems in simp)
  show ?case
  proof (cases "fates k")
    case (RequestLost e)
    then have "(\<exists>j. k \<le> j \<and> j < k + Suc n \<and> fates j = Delivered) \<longleftrightarrow>
               (\<exists>j. Suc k \<le> j \<and> j < Suc k + n \<and> fates j = Delivered)"
      by (metis add_Suc_right add_Suc_shift fate.distinct(1) less_eq_Suc_le nat_less_le)
    with IH RequestLost show ?thesis by simp
  next
    case Delivered
    then show ?thesis by (auto intro: exI [of _ k])
  qed (use Suc.prems [of k] in auto)
qed simp

section \<open>The contract of the enterprise system\<close>

text \<open>
  What the client's users rely on: reading changes nothing; an answer that refuses a request
  changes nothing; a work order with a description is accepted with an identifier, and adds one
  order; no other request adds one.
\<close>

locale remote_cmms =
  fixes answer :: "cmms_request \<Rightarrow> 'c \<Rightarrow> net_outcome \<times> 'c"
    and orders :: "'c \<Rightarrow> string list"
  assumes reads: "\<not> is_write req \<Longrightarrow> snd (answer req c) = c"
    and refused: "answer req c = (Answer code b raw, c') \<Longrightarrow> 400 \<le> code \<Longrightarrow> c' = c"
    and creates: "py_strip d \<noteq> [] \<Longrightarrow>
          \<exists>j raw i c'. answer (CreateWorkOrder e d p by i0) c = (Answer 201 (Inr (Order j)) raw, c') \<and>
             cj_id j = Some i \<and> i \<noteq> [] \<and> orders c' = orders c @ [i]"
    and only_create: "request_path req \<noteq> ''/work-orders'' \<or> \<not> is_write req \<Longrightarrow>
          orders (snd (answer req c)) = orders c"
begin

lemma read_request:
  "\<not> is_write req \<Longrightarrow> request_from (over_network fates answer) n k le req c = (r, c') \<Longrightarrow> c' = c"
proof (induction n arbitrary: k le)
  case (Suc n)
  have "snd (over_network fates answer k req c) = c"
    using reads [OF Suc.prems(1)] by (simp add: over_network_def split: fate.split)
  then obtain out where out: "over_network fates answer k req c = (out, c)"
    by (cases "over_network fates answer k req c") simp
  from Suc.prems(2) out show ?case
    by (auto split: net_outcome.splits sum.splits if_splits dest: Suc.IH [OF Suc.prems(1)])
qed simp

lemma create_request:
  assumes "py_strip d \<noteq> []"
  shows "request_from (over_network fates answer) n k le (CreateWorkOrder e d p by i) c = (r, c') \<Longrightarrow>
    \<exists>ids. orders c' = orders c @ ids \<and> length ids = reached fates k n \<and>
      (\<forall>b. r = Inr b \<longrightarrow> (\<exists>j. b = Order j \<and> ids \<noteq> [] \<and> cj_id j = Some (last ids) \<and> last ids \<noteq> [])) \<and>
      ((\<exists>x. r = Inl x) \<longleftrightarrow> (\<forall>j. k \<le> j \<and> j < k + n \<longrightarrow> fates j \<noteq> Delivered))"
proof (induction n arbitrary: k le c)
  case (Suc n)
  obtain j raw i' c1 where ans: "answer (CreateWorkOrder e d p by i) c = (Answer 201 (Inr (Order j)) raw, c1)"
      "cj_id j = Some i'" "i' \<noteq> []" "orders c1 = orders c @ [i']"
    using creates [OF assms, of e p "by" i c] by blast
  have range: "(\<forall>j. k \<le> j \<and> j < k + Suc n \<longrightarrow> fates j \<noteq> Delivered) \<longleftrightarrow>
      fates k \<noteq> Delivered \<and> (\<forall>j. Suc k \<le> j \<and> j < Suc k + n \<longrightarrow> fates j \<noteq> Delivered)"
    by (metis add_Suc_right add_Suc_shift le_add1 less_eq_Suc_le nat_less_le not_less_eq_eq)
  show ?case
  proof (cases "fates k")
    case Delivered
    with Suc.prems ans have "r = Inr (Order j)" "c' = c1"
      by (auto simp: over_network_cases ok_codes_def is_write_def)
    with Delivered ans range show ?thesis by auto
  next
    case (RequestLost x)
    with Suc.prems have "request_from (over_network fates answer) n (Suc k) x (CreateWorkOrder e d p by i) c = (r, c')"
      by (simp add: over_network_cases)
    from Suc.IH [OF this] RequestLost range show ?thesis by auto
  next
    case (ResponseLost x)
    with Suc.prems ans have "request_from (over_network fates answer) n (Suc k) x (CreateWorkOrder e d p by i) c1 = (r, c')"
      by (simp add: over_network_cases)
    from Suc.IH [OF this] obtain ids where ids: "orders c' = orders c1 @ ids" "length ids = reached fates (Suc k) n"
      "\<forall>b. r = Inr b \<longrightarrow> (\<exists>j. b = Order j \<and> ids \<noteq> [] \<and> cj_id j = Some (last ids) \<and> last ids \<noteq> [])"
      "(\<exists>x. r = Inl x) \<longleftrightarrow> (\<forall>j. Suc k \<le> j \<and> j < Suc k + n \<longrightarrow> fates j \<noteq> Delivered)"
      by blast
    show ?thesis
      by (rule exI [of _ "i' # ids"]) (use ids ans ResponseLost range in auto)
  qed
qed auto

end

section \<open>The service keeps the contract\<close>

definition order_ids :: "cmms \<Rightarrow> string list" where
  "order_ids c = map (\<lambda>r. uuid_str (wo_id r)) (cm_orders c)"

lemma resolve_ids: "map (\<lambda>r. uuid_str (wo_id r)) (map (\<lambda>x. if wo_id x = u then resolve_row n t x else x) xs) =
    map (\<lambda>r. uuid_str (wo_id r)) xs"
  by (simp add: resolve_row_def)

lemmas endpoint_defs = svc_create_work_order_def svc_list_work_orders_def svc_get_work_order_def
  svc_resolve_work_order_def svc_get_inventory_def svc_reorder_def unknown_product_def fetch_order_def

lemma route_reads: "\<not> is_write req \<Longrightarrow> snd (route req t c) = c"
  by (cases req) (simp_all add: route_def is_write_def)

lemma route_refused: "route req t c = ((code, b), c') \<Longrightarrow> 400 \<le> code \<Longrightarrow> c' = c"
  by (cases req) (auto simp: route_def endpoint_defs Let_def split: if_splits option.splits sum.splits)

lemma uuid_str_ne [simp]: "uuid_str u \<noteq> []"
  by (simp add: uuid_str_def Let_def)

lemma route_only_create:
  "request_path req \<noteq> ''/work-orders'' \<or> \<not> is_write req \<Longrightarrow> order_ids (snd (route req t c)) = order_ids c"
  by (cases req) (auto simp: route_def svc_resolve_work_order_def svc_reorder_def fetch_order_def order_ids_def
      Let_def is_write_def resolve_row_def split: option.splits)

interpretation mock: remote_cmms "serve raw key key t" order_ids for raw key t
proof (unfold_locales, goal_cases)
  case (1 req c)
  then show ?case using route_reads [of req t c]
    by (auto simp: serve_def require_api_key_def split: prod.split)
next
  case (2 req c code b raw' c')
  then show ?case
    by (auto simp: serve_def require_api_key_def split: prod.splits dest: route_refused)
next
  case (3 d e p by' i0 c)
  then show ?case
    by (simp add: serve_def require_api_key_def route_def svc_create_work_order_def Let_def order_ids_def
        order_to_dict_def)
next
  case (4 req c)
  then show ?case using route_only_create [of req t c]
    by (auto simp: serve_def require_api_key_def split: prod.split)
qed

text \<open>A request with another key gets 401 and changes nothing.\<close>

lemma serve_wrong_key:
  "header \<noteq> key \<Longrightarrow>
     \<exists>b. serve raw key header t req c = (Answer 401 (Inr b) (raw b), c)"
  by (simp add: serve_def require_api_key_def)

section \<open>The identifiers stay unique\<close>

definition cmms_ok :: "cmms \<Rightarrow> bool" where
  "cmms_ok c \<longleftrightarrow> distinct (map wo_id (cm_orders c)) \<and> (\<forall>r\<in>set (cm_orders c). wo_id r < cm_next c) \<and>
     (\<forall>r\<in>set (cm_reorders c). ro_id r < cm_next c)"

lemma cmms_ok_route: "cmms_ok c \<Longrightarrow> cmms_ok (snd (route req t c))"
proof (cases req)
  case (ResolveWorkOrder i n)
  have "map wo_id (map (\<lambda>x. if wo_id x = u then resolve_row n' t x else x) xs) = map wo_id xs" for u n' xs
    by (simp add: resolve_row_def)
  moreover assume "cmms_ok c"
  ultimately show ?thesis using ResolveWorkOrder
    by (auto simp: route_def svc_resolve_work_order_def fetch_order_def cmms_ok_def Let_def resolve_row_def
        simp del: map_map split: option.splits)
qed (auto simp: route_def svc_create_work_order_def svc_reorder_def unknown_product_def cmms_ok_def Let_def
      split: option.splits)

lemma create_call_spec:
  assumes "py_strip d \<noteq> []"
    and "cmms_request (over_network fates (serve raw key key t)) n (CreateWorkOrder e d p b i) c = (r, c')"
  shows "length (cm_orders c') = length (cm_orders c) + reached fates 1 (nat (max 1 n))"
    and "(\<exists>x. r = Inl x) \<longleftrightarrow> (\<forall>j. 1 \<le> j \<and> j < 1 + nat (max 1 n) \<longrightarrow> fates j \<noteq> Delivered)"
proof -
  from mock.create_request [OF assms(1) assms(2) [unfolded cmms_request_def]]
  obtain ids where "order_ids c' = order_ids c @ ids" "length ids = reached fates 1 (nat (max 1 n))"
    and r: "(\<exists>x. r = Inl x) \<longleftrightarrow> (\<forall>j. 1 \<le> j \<and> j < 1 + nat (max 1 n) \<longrightarrow> fates j \<noteq> Delivered)"
    by blast
  then have "length (order_ids c') = length (order_ids c) + reached fates 1 (nat (max 1 n))" by simp
  then show "length (cm_orders c') = length (cm_orders c) + reached fates 1 (nat (max 1 n))"
    by (simp add: order_ids_def)
  show "(\<exists>x. r = Inl x) \<longleftrightarrow> (\<forall>j. 1 \<le> j \<and> j < 1 + nat (max 1 n) \<longrightarrow> fates j \<noteq> Delivered)" by (rule r)
qed

lemma find_order_resolve:
  "find_order v (c\<lparr>cm_orders := map (\<lambda>x. if wo_id x = u then resolve_row n t x else x) (cm_orders c)\<rparr>) =
     map_option (\<lambda>x. if v = u then resolve_row n t x else x) (find_order v c)"
proof -
  have "find (\<lambda>r. wo_id r = v) (map (\<lambda>x. if wo_id x = u then resolve_row n t x else x) xs) =
      map_option (\<lambda>x. if v = u then resolve_row n t x else x) (find (\<lambda>r. wo_id r = v) xs)" for xs
    by (induction xs) (auto simp: resolve_row_def)
  then show ?thesis by (simp add: find_order_def)
qed

definition sample_cmms :: cmms where
  "sample_cmms = \<lparr>cm_orders = [], cm_products = seed_products, cm_reorders = [], cm_next = 50\<rparr>"

section \<open>Properties\<close>

text \<open>
  C30. A call of the client that creates a work order adds exactly as many orders as attempts
  reached the service before the first answer; so, as long as no answer is lost, it adds one order
  when it returns and none when it raises.
\<close>

theorem work_orders_per_call:
  assumes "py_strip d \<noteq> []"
    and "cmms_request (over_network fates (serve raw key key t)) n (CreateWorkOrder e d p b i) c = (r, c')"
  shows "length (cm_orders c') = length (cm_orders c) + reached fates 1 (nat (max 1 n)) \<and>
    ((\<forall>j x. fates j \<noteq> ResponseLost x) \<longrightarrow>
       length (cm_orders c') = length (cm_orders c) + (case r of Inr _ \<Rightarrow> 1 | Inl _ \<Rightarrow> 0))"
proof (intro conjI impI)
  note spec = create_call_spec [OF assms]
  show "length (cm_orders c') = length (cm_orders c) + reached fates 1 (nat (max 1 n))" by (rule spec(1))
  assume "\<forall>j x. fates j \<noteq> ResponseLost x"
  then have "reached fates 1 (nat (max 1 n)) =
      (if \<exists>j. 1 \<le> j \<and> j < 1 + nat (max 1 n) \<and> fates j = Delivered then 1 else 0)"
    by (intro reached_no_loss) simp
  with spec show "length (cm_orders c') = length (cm_orders c) + (case r of Inr _ \<Rightarrow> 1 | Inl _ \<Rightarrow> 0)"
    by (cases r) auto
qed

lemma work_orders_per_call_witness:
  "length (cm_orders (snd (cmms_request (over_network (\<lambda>j. if j = 1 then RequestLost ''timeout'' else Delivered)
       (serve (\<lambda>b. []) ''k'' ''k'' 0)) 4 (CreateWorkOrder [] ''Inspect fan'' ''high'' ''agent'' []) sample_cmms))) = 1"
  using work_orders_per_call [OF _ prod.collapse [symmetric], of "''Inspect fan''"
      "\<lambda>j. if j = 1 then RequestLost ''timeout'' else Delivered" "\<lambda>b. []" "''k''" 0 4 "[]" "''high''" "''agent''"
      "[]" sample_cmms]
  by (simp add: numeral_eq_Suc sample_cmms_def py_strip_def py_lstrip_def py_rstrip_def is_space_def)

text \<open>
  When the answer to the first attempt is lost and the second attempt is answered, the call
  succeeds and leaves two open orders with different identifiers for the same incident and
  description: the retry of the client is not idempotent.
\<close>

theorem lost_answer_duplicates_the_order:
  assumes "py_strip d \<noteq> []" "2 \<le> n" "fates 1 = ResponseLost z" "fates 2 = Delivered"
  shows "\<exists>j c' x y. cmms_request (over_network fates (serve raw key key t)) n (CreateWorkOrder e d p b i) c =
       (Inr (Order j), c') \<and> cm_orders c' = cm_orders c @ [x, y] \<and> wo_id x \<noteq> wo_id y \<and>
       wo_incident x = wo_incident y \<and> wo_description x = wo_description y \<and>
       wo_status x = ''open'' \<and> wo_status y = ''open'' \<and> cj_id j = Some (uuid_str (wo_id y))"
proof -
  obtain m where "nat (max 1 n) = Suc (Suc m)" using assms(2)
    by (metis One_nat_def Suc_1 add_2_eq_Suc le_add_diff_inverse max.absorb2 nat_2 nat_mono one_le_numeral order_trans)
  then show ?thesis using assms
    by (simp add: cmms_request_def over_network_cases serve_def require_api_key_def route_def
        svc_create_work_order_def Let_def ok_codes_def is_write_def order_to_dict_def
        numeral_2_eq_2)
qed

lemma lost_answer_duplicates_the_order_witness:
  "length (cm_orders (snd (cmms_request (over_network (\<lambda>j. if j = 1 then ResponseLost ''timeout'' else Delivered)
       (serve (\<lambda>b. []) ''k'' ''k'' 0)) 4 (CreateWorkOrder [] ''Inspect fan'' ''high'' ''agent'' []) sample_cmms))) = 2"
  using lost_answer_duplicates_the_order [of "''Inspect fan''" 4
      "\<lambda>j. if j = 1 then ResponseLost ''timeout'' else Delivered" "''timeout''" "\<lambda>b. []" "''k''" 0 "[]" "''high''"
      "''agent''" "[]" sample_cmms]
  by (auto simp: sample_cmms_def py_strip_def py_lstrip_def py_rstrip_def is_space_def)

text \<open>
  A work order is resolved at most once: the first resolution with a note answers 200 and
  changes that order only, the order then reads back as resolved with the note, and every further
  resolution answers 409 and changes nothing.
\<close>

theorem work_order_resolved_once:
  assumes "uuid_ok u" "find_order u c = Some r" "wo_status r \<noteq> ''resolved''" "py_strip note \<noteq> []"
  shows "\<exists>c'. route (ResolveWorkOrder (uuid_str u) note) t c =
           ((200, Order (order_to_dict (resolve_row (py_strip note) t r))), c') \<and>
         route (GetWorkOrder (uuid_str u)) t' c' =
           ((200, Order (order_to_dict (resolve_row (py_strip note) t r))), c') \<and>
         (\<forall>v. v \<noteq> u \<longrightarrow> find_order v c' = find_order v c) \<and>
         route (ResolveWorkOrder (uuid_str u) note') t' c' =
           ((409, Detail ''work order is already resolved''), c')"
proof -
  let ?c = "c\<lparr>cm_orders := map (\<lambda>x. if wo_id x = u then resolve_row (py_strip note) t x else x) (cm_orders c)\<rparr>"
  have p: "parse_uuid (uuid_str u) = Some u" by (rule parse_uuid_str) (rule assms(1))
  have f: "find_order u ?c = Some (resolve_row (py_strip note) t r)"
    "v \<noteq> u \<Longrightarrow> find_order v ?c = find_order v c" for v
    using assms(2) by (auto simp: find_order_resolve option.map_ident)
  show ?thesis
    by (rule exI [of _ ?c])
       (simp add: f p assms(2-4) route_def svc_resolve_work_order_def svc_get_work_order_def fetch_order_def
          uuid_or_none_def Let_def, simp add: resolve_row_def)
qed

lemma work_order_resolved_once_witness:
  "\<exists>c'. fst (route (ResolveWorkOrder (uuid_str 50) ''replaced'') 9
     (snd (route (CreateWorkOrder [] ''Inspect fan'' ''high'' ''agent'' []) 0 sample_cmms))) =
     (200, Order c')"
proof -
  let ?r = "\<lparr>wo_id = 50, wo_equipment = None, wo_description = ''Inspect fan'', wo_priority = ''high'',
     wo_status = ''open'', wo_requested_by = ''agent'', wo_incident = None, wo_note = None, wo_created_at = 0,
     wo_updated_at = 0\<rparr>"
  let ?c = "snd (route (CreateWorkOrder [] ''Inspect fan'' ''high'' ''agent'' []) 0 sample_cmms)"
  have "?c = sample_cmms\<lparr>cm_orders := [?r], cm_next := 51\<rparr>"
    by code_simp
  then have "find_order 50 ?c = Some ?r" by (simp add: find_order_def)
  then show ?thesis
    using work_order_resolved_once [of 50 ?c ?r "''replaced''" 9 9 "[]"]
    by (auto simp: uuid_ok_def py_strip_def py_lstrip_def py_rstrip_def is_space_def)
qed

text \<open>
  C35. An accepted work order can be read back: the answer to the creation and the answer to a
  later request for the identifier it gave are the same object, the orders that were there are
  untouched, and the identifiers of the tables stay unique.
\<close>

theorem created_order_reads_back:
  assumes "cmms_ok c" "uuid_ok (cm_next c)" "py_strip d \<noteq> []"
  shows "\<exists>j c' i. route (CreateWorkOrder e d p b inc) t c = ((201, Order j), c') \<and> cj_id j = Some i \<and>
     route (GetWorkOrder i) t' c' = ((200, Order j), c') \<and> cmms_ok c' \<and>
     cj_status j = Some ''open'' \<and> cj_description j = Some (py_strip d) \<and>
     (\<forall>v. v \<noteq> cm_next c \<longrightarrow> find_order v c' = find_order v c)"
proof -
  have new: "find (\<lambda>r. wo_id r = cm_next c) (cm_orders c) = None"
    using assms(1) by (auto simp: find_None_iff cmms_ok_def)
  have app: "find P (xs @ ys) = (case find P xs of None \<Rightarrow> find P ys | Some x \<Rightarrow> Some x)"
    for P and xs ys :: "order_row list"
    by (induction xs) auto
  have p: "parse_uuid (uuid_str (cm_next c)) = Some (cm_next c)" by (rule parse_uuid_str) (rule assms(2))
  from cmms_ok_route [OF assms(1), of "CreateWorkOrder e d p b inc" t] show ?thesis
    by (auto simp: route_def svc_create_work_order_def svc_get_work_order_def fetch_order_def uuid_or_none_def
        assms(3) Let_def order_to_dict_def find_order_def app new p split: option.split)
qed

lemma created_order_reads_back_witness:
  "\<exists>j. fst (route (CreateWorkOrder [] ''Inspect fan'' ''urgent'' ''agent'' []) 0 sample_cmms) = (201, Order j)"
  using created_order_reads_back [of sample_cmms "''Inspect fan''" "[]" "''urgent''" "''agent''" "[]" 0 0]
  by (auto simp: cmms_ok_def sample_cmms_def uuid_ok_def py_strip_def py_lstrip_def py_rstrip_def is_space_def)

end
