(* ===== verification/EventBus.thy ===== *)
theory EventBus
  imports StoreFacts
begin

text \<open>
  The events of the platform and the bus (\<open>app/eventbus/base.py\<close>).  The broker is outside the
  code: publishing appends to the list of published messages or raises (the fault function says
  which), and a delivery is a call of \<open>dispatch\<close> with a message in any order and any number.
  The store together with the published messages is the world the agents act on.
\<close>

section \<open>Events\<close>

text \<open>The payload of \<open>pgai.anomalies\<close>; consumers read the keys they need, so each may be missing.\<close>

record anomaly_event =
  an_incident :: "string option"
  an_equipment :: "string option"
  an_severity :: "string option"
  an_summary :: "summary option"
  an_sensors :: "sensor_entry list option"

record stage_event =
  sg_stage :: "string option"
  sg_incident :: "string option"
  sg_severity :: "string option"
  sg_level :: "int option"
  sg_next :: "status option"
  sg_confidence :: "int option"

record approved_event =
  ae_incident :: "string option"
  ae_decided_by :: "string option"
  ae_decided_at :: "time option"
  ae_level :: "int option"
  ae_correlation :: "string option"

datatype bus_event =
    AnomalyDetected anomaly_event
  | EvidenceReady string "sensor_entry list" evidence
  | StageCompleted stage_event
  | IncidentApproved approved_event
  | ActionCompletedEvent string "execution list" "(rec_action \<times> string) list"
  | LoopClosed string "string option" "string option"
  | ActionFailedEvent string string "failure list"
  | Ping

fun topic :: "bus_event \<Rightarrow> string" where
  "topic (AnomalyDetected _) = ''pgai.anomalies''"
| "topic (EvidenceReady _ _ _) = ''pgai.diagnosis''"
| "topic (StageCompleted _) = ''pgai.stage_completed''"
| "topic (IncidentApproved _) = ''pgai.incident_approved''"
| "topic (ActionCompletedEvent _ _ _) = ''pgai.action_completed''"
| "topic (LoopClosed _ _ _) = ''pgai.action_completed''"
| "topic (ActionFailedEvent _ _ _) = ''pgai.action_failed''"
| "topic Ping = ''pgai.ping''"

record world =
  w_db :: db
  w_bus :: "bus_event list"

type_synonym bus_faults = "bus_event \<Rightarrow> exc option"

definition publish :: "bus_faults \<Rightarrow> bus_event \<Rightarrow> world \<Rightarrow> unit result \<times> world" where
  "publish faults e w =
     (case faults e of
        Some x \<Rightarrow> (Inl x, w)
      | None \<Rightarrow> (Inr (), w\<lparr>w_bus := w_bus w @ [e]\<rparr>))"

text \<open>A database operation as an action on the world.\<close>

definition on_db :: "(db \<Rightarrow> 'a \<times> db) \<Rightarrow> world \<Rightarrow> 'a \<times> world" where
  "on_db f w = (case f (w_db w) of (x, d) \<Rightarrow> (x, w\<lparr>w_db := d\<rparr>))"

lemma on_db_pair: "f (w_db w) = (x, d) \<Longrightarrow> on_db f w = (x, w\<lparr>w_db := d\<rparr>)"
  by (simp add: on_db_def)

lemma publish_db [simp]: "w_db (snd (publish faults e w)) = w_db w"
  by (simp add: publish_def split: option.splits)

lemma publish_cases:
  "publish faults e w = (r, w') \<Longrightarrow>
     (\<exists>x. r = Inl x \<and> w' = w) \<or> (r = Inr () \<and> w' = w\<lparr>w_bus := w_bus w @ [e]\<rparr>)"
  by (auto simp: publish_def split: option.splits)

section \<open>Subscription and dispatch\<close>

text \<open>
  \<open>_handlers\<close> maps a topic to its handlers in the order of their registration.  A handler
  returns the exception it raises, if any, and the new state.
\<close>

type_synonym ('p, 'w) bus_handler = "'p \<Rightarrow> 'w \<Rightarrow> exc option \<times> 'w"

type_synonym ('p, 'w) bus_handlers = "(string \<times> ('p, 'w) bus_handler list) list"

fun subscribe :: "string \<Rightarrow> ('p, 'w) bus_handler \<Rightarrow> ('p, 'w) bus_handlers \<Rightarrow> ('p, 'w) bus_handlers" where
  "subscribe tp h [] = [(tp, [h])]"
| "subscribe tp h ((tp', hs) # rest) =
     (if tp = tp' then (tp', hs @ [h]) # rest else (tp', hs) # subscribe tp h rest)"

definition handlers_for :: "string \<Rightarrow> ('p, 'w) bus_handlers \<Rightarrow> ('p, 'w) bus_handler list" where
  "handlers_for tp hs = (case map_of hs tp of None \<Rightarrow> [] | Some l \<Rightarrow> l)"

text \<open>The counters \<open>EVENTBUS_CONSUME_COUNT\<close> and \<open>EVENTBUS_HANDLER_ERRORS\<close> of one topic.\<close>

record bus_counts =
  bc_consumed :: nat
  bc_errors :: nat

text \<open>
  What the text of a message decodes to: not JSON, an envelope without a payload, or a payload.
  An envelope without a payload raises inside the handler loop, once for every handler.
\<close>

datatype 'p envelope = Malformed | NoPayload | Payload 'p

fun run_handlers ::
  "'p envelope \<Rightarrow> ('p, 'w) bus_handler list \<Rightarrow> 'w \<times> bus_counts \<Rightarrow> 'w \<times> bus_counts" where
  "run_handlers m [] s = s"
| "run_handlers m (h # hs) (w, c) =
     (case m of
        Payload p \<Rightarrow>
          (case h p w of
             (None, w') \<Rightarrow> run_handlers m hs (w', c\<lparr>bc_consumed := bc_consumed c + 1\<rparr>)
           | (Some e, w') \<Rightarrow> run_handlers m hs (w', c\<lparr>bc_errors := bc_errors c + 1\<rparr>))
      | _ \<Rightarrow> run_handlers m hs (w, c\<lparr>bc_errors := bc_errors c + 1\<rparr>))"

definition dispatch ::
  "('p, 'w) bus_handlers \<Rightarrow> string \<Rightarrow> 'p envelope \<Rightarrow> 'w \<times> bus_counts \<Rightarrow> 'w \<times> bus_counts" where
  "dispatch hs tp m s =
     (case m of Malformed \<Rightarrow> s | _ \<Rightarrow> run_handlers m (handlers_for tp hs) s)"

lemma handlers_for_subscribe:
  "handlers_for tp (subscribe tp' h hs) =
     handlers_for tp hs @ (if tp = tp' then [h] else [])"
  by (induction hs) (auto simp: handlers_for_def)

text \<open>Every handler runs, whatever the ones before it raised.\<close>

lemma run_handlers_state:
  "fst (run_handlers (Payload p) hs (w, c)) = fold (\<lambda>h w. snd (h p w)) hs w"
proof (induction hs arbitrary: w c)
  case (Cons h hs)
  obtain r w' where "h p w = (r, w')" by (cases "h p w")
  with Cons show ?case by (cases r) simp_all
qed simp

lemma run_handlers_counts:
  "bc_consumed (snd (run_handlers m hs (w, c))) + bc_errors (snd (run_handlers m hs (w, c))) =
     bc_consumed c + bc_errors c + length hs"
proof (induction hs arbitrary: w c)
  case (Cons h hs)
  show ?case
  proof (cases m)
    case (Payload p)
    obtain r w' where "h p w = (r, w')" by (cases "h p w")
    with Cons [of w'] Payload show ?thesis by (cases r) simp_all
  qed (use Cons in simp_all)
qed simp

text \<open>
  Delivering a message runs every handler of its topic, in subscription order, on the state
  the handlers before it left, whether or not they raised; each delivery is counted once, as
  consumed or as an error; and a handler subscribed to another topic is not run.
\<close>

theorem dispatch_isolates_handlers:
  assumes "other \<noteq> tp"
  shows "fst (dispatch (subscribe tp h hs) tp (Payload p) (w, c)) =
           snd (h p (fst (dispatch hs tp (Payload p) (w, c)))) \<and>
         (let c' = snd (dispatch hs tp (Payload p) (w, c))
          in bc_consumed c' + bc_errors c' = bc_consumed c + bc_errors c + length (handlers_for tp hs)) \<and>
         dispatch (subscribe tp h hs) other m (w, c) = dispatch hs other m (w, c)"
  using assms
  by (simp add: dispatch_def run_handlers_state handlers_for_subscribe run_handlers_counts Let_def
      split: envelope.split)

lemma dispatch_isolates_handlers_witness:
  "fst (dispatch (subscribe ''a'' (\<lambda>p w. (None, w + p)) (subscribe ''a'' (\<lambda>p w. (Some (ValueError []), Suc w)) []))
          ''a'' (Payload 5) (0, \<lparr>bc_consumed = 0, bc_errors = 0\<rparr>)) = (6 :: nat)"
  using dispatch_isolates_handlers [of "''b''" "''a''" "\<lambda>p w. (None, w + p)"
      "subscribe ''a'' (\<lambda>p w. (Some (ValueError []), Suc w)) []" 5 0
      "\<lparr>bc_consumed = 0, bc_errors = 0\<rparr>" Malformed]
  by (simp add: dispatch_def handlers_for_def)

end
