(* ===== verification/ActionAgent.thy ===== *)
theory ActionAgent
  imports CmmsService EventBus
begin

text \<open>
  The Action Agent (\<open>app/agents/action/agent.py\<close>): the execution of an approved
  recommendation on the enterprise system, and the poll that closes the loop when a work order is
  resolved there.  The state it acts on is the store, the bus and the remote system together.
\<close>

section \<open>State and environment\<close>

record 'c action_world =
  aw_own :: world
  aw_remote :: 'c

text \<open>The writes of one execution that may fail, by the number of the operation they belong to.\<close>

datatype db_write = RecordWrite nat string | SaveResult

text \<open>
  The environment of a run: whether a client can be built, its number of attempts, the network of
  each call, which of its database writes raises, which event cannot be published, and the time.
\<close>

record 'c action_env =
  ax_client :: "unit result"
  ax_attempts :: int
  ax_net :: "nat \<Rightarrow> 'c net"
  ax_poll_net :: "string \<Rightarrow> nat \<Rightarrow> 'c net"
  ax_db_fault :: "db_write \<Rightarrow> exc option"
  ax_bus_fault :: bus_faults
  ax_now :: time

definition own_db :: "'c action_world \<Rightarrow> db" where
  "own_db w = w_db (aw_own w)"

definition put_db :: "db \<Rightarrow> 'c action_world \<Rightarrow> 'c action_world" where
  "put_db d w = w\<lparr>aw_own := (aw_own w)\<lparr>w_db := d\<rparr>\<rparr>"

text \<open>\<open>_publish\<close>: a failure is logged and swallowed.\<close>

definition publish_quietly :: "'c action_env \<Rightarrow> bus_event \<Rightarrow> 'c action_world \<Rightarrow> 'c action_world" where
  "publish_quietly env e w = w\<lparr>aw_own := snd (publish (ax_bus_fault env) e (aw_own w))\<rparr>"

definition action_agent :: string where
  "action_agent = ''processguard-ai-action-agent''"

section \<open>One operation\<close>

definition priority_word :: "int \<Rightarrow> string" where
  "priority_word p = (if p \<le> 1 then ''high'' else if p = 2 then ''medium'' else ''low'')"

definition reference_of :: "cmms_operation \<Rightarrow> cmms_json \<Rightarrow> string" where
  "reference_of oper j =
     (if op_kind oper = work_order_kind then or_str (cj_id j) (or_str (cj_work_order_id j) [])
      else or_str (cj_id j) (or_str (cj_reorder_id j) []))"

text \<open>
  What \<open>result.get\<close> works on: an object.  A list has no \<open>get\<close>; an object of another
  shape has none of the keys the agent reads.
\<close>

definition no_keys :: cmms_json where
  "no_keys = \<lparr>cj_id = None, cj_work_order_id = None, cj_reorder_id = None, cj_status = None,
     cj_equipment_id = None, cj_description = None, cj_resolution_note = None, cj_priority = None,
     cj_requested_by = None, cj_source_incident_id = None, cj_product_key = None, cj_quantity = None,
     cj_unit = None, cj_created_at = None, cj_updated_at = None\<rparr>"

definition as_object :: "cmms_body \<Rightarrow> cmms_json result" where
  "as_object b =
     (case b of
        Order j \<Rightarrow> Inr j
      | Orders _ \<Rightarrow> Inl (OtherError ''AttributeError'')
      | Inventory _ \<Rightarrow> Inr no_keys
      | Detail _ \<Rightarrow> Inr no_keys)"

definition record_execution ::
  "'c action_env \<Rightarrow> nat \<Rightarrow> string \<Rightarrow> cmms_operation \<Rightarrow> string \<Rightarrow> string option \<Rightarrow> cmms_json option \<Rightarrow>
     string option \<Rightarrow> 'c action_world \<Rightarrow> unit result \<times> 'c action_world" where
  "record_execution env k i oper outcome reference response err w =
     (case ax_db_fault env (RecordWrite k outcome) of
        Some e \<Rightarrow> (Inl e, w)
      | None \<Rightarrow> (Inr (), put_db (record_action_execution i oper outcome reference response err
                               (ax_now env) (own_db w)) w))"

definition call_cmms ::
  "'c action_env \<Rightarrow> nat \<Rightarrow> string \<Rightarrow> cmms_operation \<Rightarrow> string \<Rightarrow> 'c \<Rightarrow> cmms_body result \<times> 'c" where
  "call_cmms env k i oper equipment c =
     (if op_kind oper = work_order_kind then
        create_work_order (ax_net env k) (ax_attempts env) equipment (op_description oper)
          (priority_word (op_priority oper)) action_agent i c
      else
        request_reorder (ax_net env k) (ax_attempts env) (op_product_key oper) (op_quantity oper) i
          action_agent c)"

text \<open>
  \<open>_execute_with_retry\<close>: the intent is recorded first, then the call is made, then its
  success is recorded.
\<close>

definition execute_op ::
  "'c action_env \<Rightarrow> nat \<Rightarrow> string \<Rightarrow> string \<Rightarrow> cmms_operation \<Rightarrow> 'c action_world
     \<Rightarrow> execution result \<times> 'c action_world" where
  "execute_op env k i equipment oper w =
     (case record_execution env k i oper ''pending'' None None None w of
        (Inl e, w1) \<Rightarrow> (Inl e, w1)
      | (Inr _, w1) \<Rightarrow>
          (case ax_client env of
             Inl e \<Rightarrow> (Inl e, w1)
           | Inr _ \<Rightarrow>
               (case call_cmms env k i oper equipment (aw_remote w1) of
                  (Inl e, c) \<Rightarrow> (Inl e, w1\<lparr>aw_remote := c\<rparr>)
                | (Inr b, c) \<Rightarrow>
                    (let w2 = w1\<lparr>aw_remote := c\<rparr> in
                     case as_object b of
                       Inl e \<Rightarrow> (Inl e, w2)
                     | Inr j \<Rightarrow>
                         (let ref = reference_of oper j in
                          case record_execution env k i oper ''succeeded'' (Some ref) (Some j) None w2 of
                            (Inl e, w3) \<Rightarrow> (Inl e, w3)
                          | (Inr _, w3) \<Rightarrow>
                              (Inr \<lparr>ex_kind = op_kind oper, ex_reference = ref, ex_response = j,
                                    ex_source_action = op_source_action oper\<rparr>, w3))))))"

text \<open>
  The loop of \<open>handle\<close>: only a \<open>CmmsError\<close> is caught; it is recorded and the next
  operation is tried.
\<close>

definition failure_of :: "cmms_operation \<Rightarrow> exc \<Rightarrow> failure" where
  "failure_of oper e =
     \<lparr>fl_kind = op_kind oper, fl_description = op_description oper,
      fl_product_key = op_product_key oper, fl_error = exc_str e\<rparr>"

fun execute_ops ::
  "'c action_env \<Rightarrow> string \<Rightarrow> string \<Rightarrow> nat \<Rightarrow> cmms_operation list \<Rightarrow> execution list \<Rightarrow> failure list \<Rightarrow>
     'c action_world \<Rightarrow> (execution list \<times> failure list) result \<times> 'c action_world" where
  "execute_ops env i equipment k [] exs fls w = (Inr (exs, fls), w)"
| "execute_ops env i equipment k (oper # ops) exs fls w =
     (case execute_op env k i equipment oper w of
        (Inr x, w1) \<Rightarrow> execute_ops env i equipment (Suc k) ops (exs @ [x]) fls w1
      | (Inl (CmmsError m p le), w1) \<Rightarrow>
          (case record_execution env k i oper ''failed'' None None (Some (exc_str (CmmsError m p le))) w1 of
             (Inl e, w2) \<Rightarrow> (Inl e, w2)
           | (Inr _, w2) \<Rightarrow>
               execute_ops env i equipment (Suc k) ops exs (fls @ [failure_of oper (CmmsError m p le)]) w2)
      | (Inl e, w1) \<Rightarrow> (Inl e, w1))"

section \<open>The execution of an approval\<close>

definition save_result ::
  "'c action_env \<Rightarrow> string \<Rightarrow> status \<Rightarrow> action_detail \<Rightarrow> execution list option \<Rightarrow> string option \<Rightarrow>
     time option \<Rightarrow> 'c action_world \<Rightarrow> unit result \<times> 'c action_world" where
  "save_result env i st detail exs approved_by decided_at w =
     (case ax_db_fault env SaveResult of
        Some e \<Rightarrow> (Inl e, w)
      | None \<Rightarrow> (Inr (), put_db (snd (save_action_result i st detail exs approved_by decided_at
                               (ax_now env) (own_db w))) w))"

datatype action_outcome =
    NotFound
  | Refused status
  | AlreadyExecuted
  | NothingToExecute
  | ExecutionFailed
  | Executed "execution list"

definition failure_reason :: "failure list \<Rightarrow> string" where
  "failure_reason fls = take 900 (py_join ''; '' (map fl_error fls))"

definition finish_execution ::
  "'c action_env \<Rightarrow> string \<Rightarrow> string \<Rightarrow> time option \<Rightarrow> mapping_result \<Rightarrow> execution list \<Rightarrow> failure list \<Rightarrow>
     'c action_world \<Rightarrow> action_outcome result \<times> 'c action_world" where
  "finish_execution env i approved_by decided_at m exs fls w =
     (if fls \<noteq> [] then
        (case save_result env i ActionFailed (Failures fls exs (failure_reason fls)) None None None w of
           (Inl e, w1) \<Rightarrow> (Inl e, w1)
         | (Inr _, w1) \<Rightarrow>
             (Inr ExecutionFailed, publish_quietly env (ActionFailedEvent i (failure_reason fls) fls) w1))
      else
        (case save_result env i ActionTaken (Executions exs) (Some exs) (Some approved_by) decided_at w of
           (Inl e, w1) \<Rightarrow> (Inl e, w1)
         | (Inr _, w1) \<Rightarrow>
             (Inr (Executed exs), publish_quietly env (ActionCompletedEvent i exs (mr_unmapped m)) w1)))"

definition action_handle ::
  "'c action_env \<Rightarrow> approved_event \<Rightarrow> 'c action_world \<Rightarrow> action_outcome result \<times> 'c action_world" where
  "action_handle env p w =
     (case ae_incident p of
        None \<Rightarrow> (Inl (KeyError ''incident_id''), w)
      | Some i \<Rightarrow>
          (case get_incident_for_decision i (own_db w) of
             None \<Rightarrow> (Inr NotFound, w)
           | Some view \<Rightarrow>
               if dv_status view \<noteq> Approved then (Inr (Refused (dv_status view)), w)
               else if get_executed_action_kinds i (own_db w) \<noteq> [] then
                 (case save_result env i ActionTaken Reconciled None None None w of
                    (Inl e, w1) \<Rightarrow> (Inl e, w1)
                  | (Inr _, w1) \<Rightarrow> (Inr AlreadyExecuted, w1))
               else
                 (let m = map_recommendation_to_cmms (dv_actions view) in
                  if \<not> has_operations m then
                    (case save_result env i ActionTaken (NoOperations (mr_unmapped m)) None None None w of
                       (Inl e, w1) \<Rightarrow> (Inl e, w1)
                     | (Inr _, w1) \<Rightarrow>
                         (Inr NothingToExecute, publish_quietly env (ActionCompletedEvent i [] (mr_unmapped m)) w1))
                  else
                    (case execute_ops env i (dv_equipment_id view) 0 (mr_operations m) [] [] w of
                       (Inl e, w1) \<Rightarrow> (Inl e, w1)
                     | (Inr (exs, fls), w1) \<Rightarrow>
                         finish_execution env i (or_str (ae_decided_by p) ''unknown'') (ae_decided_at p)
                           m exs fls w1))))"

text \<open>
  \<open>_on_incident_approved\<close>: nothing for an event without an incident or for an incident that is
  being executed; whatever \<open>handle\<close> raises is logged.
\<close>

definition on_incident_approved ::
  "'c action_env \<Rightarrow> string set \<Rightarrow> approved_event \<Rightarrow> 'c action_world \<Rightarrow> 'c action_world" where
  "on_incident_approved env in_flight p w =
     (if \<not> truthy_str (ae_incident p) \<or> the (ae_incident p) \<in> in_flight then w
      else snd (action_handle env p w))"

section \<open>Closing the loop\<close>

definition opt_str :: "string option \<Rightarrow> string" where
  "opt_str x = (case x of None \<Rightarrow> ''None'' | Some s \<Rightarrow> s)"

definition symptom_phrase :: "sensor_entry \<Rightarrow> string" where
  "symptom_phrase s =
     py_strip (opt_str (se_sensor_type s) @ '' '' @ (case se_reason s of None \<Rightarrow> [] | Some r \<Rightarrow> r))"

definition learned_symptoms :: "summary option \<Rightarrow> symptoms" where
  "learned_symptoms su =
     SymDict (map symptom_phrase (case su of None \<Rightarrow> [] | Some x \<Rightarrow> su_sensors x))
       (map_option su_sensor_count su)"

definition action_texts :: "json_action list option \<Rightarrow> string list" where
  "action_texts acts =
     concat (map (\<lambda>a. case a of ActDict r \<Rightarrow> (if truthy_str (ra_action r) then [the (ra_action r)] else [])
                              | ActText s \<Rightarrow> []) (or_list acts))"

definition close_loop ::
  "'c action_env \<Rightarrow> string \<Rightarrow> decision_view \<Rightarrow> cmms_json \<Rightarrow> 'c action_world \<Rightarrow> 'c action_world" where
  "close_loop env i view order w =
     (case close_incident_loop i (Some (dv_equipment_id view))
             (or_str (cj_equipment_id order) ''unknown equipment'')
             (learned_symptoms (dv_summary view))
             (or_str (dv_root_cause view) ''unrecorded'')
             (or_str (Some (py_join ''; '' (action_texts (dv_actions view))))
                (or_str (cj_description order) ''unrecorded''))
             True
             (or_str (cj_resolution_note order) ''work order resolved'')
             (''HIST-AUTO-'' @ take 8 i @ '' (CMMS work order '' @ opt_str (cj_id order) @ '')'')
             ''action-agent'' (ax_now env) (own_db w) of
        (learned, d) \<Rightarrow> publish_quietly env (LoopClosed i learned (cj_id order)) (put_db d w))"

text \<open>
  The recorded executions of one incident, in turn, until one closes the loop.  A failing look-up
  goes on with the next one.
\<close>

fun check_executions ::
  "'c action_env \<Rightarrow> string \<Rightarrow> nat \<Rightarrow> action_view list \<Rightarrow> 'c action_world \<Rightarrow> unit result \<times> 'c action_world" where
  "check_executions env i k [] w = (Inr (), w)"
| "check_executions env i k (x # xs) w =
     (if av_operation x \<noteq> work_order_kind \<or> av_outcome x \<noteq> ''succeeded'' \<or> \<not> truthy_str (av_reference x) then
        check_executions env i (Suc k) xs w
      else
        (case get_work_order (ax_poll_net env i k) (ax_attempts env) (the (av_reference x)) (aw_remote w) of
           (Inl e, c) \<Rightarrow> check_executions env i (Suc k) xs (w\<lparr>aw_remote := c\<rparr>)
         | (Inr b, c) \<Rightarrow>
             (let w1 = w\<lparr>aw_remote := c\<rparr> in
              case as_object b of
                Inl e \<Rightarrow> (Inl e, w1)
              | Inr order \<Rightarrow>
                  if cj_status order \<noteq> Some ''resolved'' then check_executions env i (Suc k) xs w1
                  else
                    (case get_incident_for_decision i (own_db w1) of
                       None \<Rightarrow> check_executions env i (Suc k) xs w1
                     | Some view \<Rightarrow>
                         if dv_status view \<noteq> ActionTaken then check_executions env i (Suc k) xs w1
                         else (Inr (), close_loop env i view order w1)))))"

fun check_incidents ::
  "'c action_env \<Rightarrow> string set \<Rightarrow> string list \<Rightarrow> 'c action_world \<Rightarrow> unit result \<times> 'c action_world" where
  "check_incidents env in_flight [] w = (Inr (), w)"
| "check_incidents env in_flight (i # is) w =
     (if i \<in> in_flight then check_incidents env in_flight is w
      else
        (case get_incident_action_record i (own_db w) of
           None \<Rightarrow> check_incidents env in_flight is w
         | Some rec \<Rightarrow>
             (case check_executions env i 0 (ar_operations rec) w of
                (Inl e, w1) \<Rightarrow> (Inl e, w1)
              | (Inr _, w1) \<Rightarrow> check_incidents env in_flight is w1)))"

definition check_resolutions ::
  "'c action_env \<Rightarrow> string set \<Rightarrow> 'c action_world \<Rightarrow> unit result \<times> 'c action_world" where
  "check_resolutions env in_flight w =
     (case ax_client env of
        Inl e \<Rightarrow> (Inl e, w)
      | Inr _ \<Rightarrow> check_incidents env in_flight (get_action_taken_incident_ids (own_db w)) w)"

text \<open>
  \<open>poll_resolutions_forever\<close>, \<open>n\<close> rounds of it, each with the environment and the
  executions in flight of its time; what a round raises is logged.
\<close>

fun poll_rounds ::
  "(nat \<Rightarrow> 'c action_env) \<Rightarrow> (nat \<Rightarrow> string set) \<Rightarrow> nat \<Rightarrow> 'c action_world \<Rightarrow> 'c action_world" where
  "poll_rounds env in_flight 0 w = w"
| "poll_rounds env in_flight (Suc n) w =
     snd (check_resolutions (env n) (in_flight n) (poll_rounds env in_flight n w))"

section \<open>Facts\<close>

lemma own_put [simp]: "own_db (put_db d w) = d" "aw_remote (put_db d w) = aw_remote w"
  "own_db (w\<lparr>aw_remote := c\<rparr>) = own_db w"
  by (simp_all add: own_db_def put_db_def)

lemma own_publish [simp]: "own_db (publish_quietly env e w) = own_db w"
  "aw_remote (publish_quietly env e w) = aw_remote w"
  by (simp_all add: own_db_def publish_quietly_def)

lemma save_result_remote: "save_result env i st dt exs ab da w = (r, w') \<Longrightarrow> aw_remote w' = aw_remote w"
  by (auto simp: save_result_def split: option.splits)

lemma finish_execution_remote:
  "finish_execution env i ab da m exs fls w = (r, w') \<Longrightarrow> aw_remote w' = aw_remote w"
  by (auto simp: finish_execution_def save_result_def split: if_splits option.splits)

text \<open>No operation on the store moves an incident's status, except the result of a run.\<close>

lemma record_action_find [store_simps]:
  "find_incident v (record_action_execution i oper oc ref resp err t d) = find_incident v d"
  by (simp add: record_action_execution_def find_incident_def split: option.split)

lemma record_execution_find:
  "record_execution env k i oper oc ref resp err w = (r, w') \<Longrightarrow>
     find_incident v (own_db w') = find_incident v (own_db w) \<and> aw_remote w' = aw_remote w"
  by (auto simp: record_execution_def store_simps split: option.splits)

lemma execute_op_find:
  "execute_op env k i eq oper w = (r, w') \<Longrightarrow> find_incident v (own_db w') = find_incident v (own_db w)"
  by (auto simp: execute_op_def Let_def dest!: record_execution_find [where v = v]
      split: prod.splits sum.splits)

text \<open>One round of the loop: executed, failed and recorded, or left by an exception.\<close>

lemma execute_ops_round:
  assumes "execute_ops env i eq k (oper # ops) exs fls w = (r, w')"
  obtains (executed) x w1 where "execute_op env k i eq oper w = (Inr x, w1)"
      "execute_ops env i eq (Suc k) ops (exs @ [x]) fls w1 = (r, w')"
  | (failed) e w1 w2 where "execute_op env k i eq oper w = (Inl e, w1)"
      "record_execution env k i oper ''failed'' None None (Some (exc_str e)) w1 = (Inr (), w2)"
      "execute_ops env i eq (Suc k) ops exs (fls @ [failure_of oper e]) w2 = (r, w')"
      "\<exists>m p le. e = CmmsError m p le"
  | (raised) e e' where "execute_op env k i eq oper w = (Inl e, w')" "r = Inl e'"
  using assms
  by (auto simp: record_execution_def split: prod.splits sum.splits exc.splits option.splits)

lemma execute_ops_find:
  "execute_ops env i eq k ops exs fls w = (r, w') \<Longrightarrow>
     find_incident v (own_db w') = find_incident v (own_db w)"
proof (induction ops arbitrary: k exs fls w)
  case (Cons oper ops)
  from Cons.prems show ?case
  proof (cases rule: execute_ops_round)
    case (failed e w1 w2)
    with Cons.IH [OF failed(3)] execute_op_find [of env k i eq oper w "Inl e" w1 v]
      record_execution_find [of env k i oper "''failed''" None None "Some (exc_str e)" w1 "Inr ()" w2 v]
    show ?thesis by simp
  qed (use Cons.IH execute_op_find [where v = v] in fastforce)+
qed simp

section \<open>What a run records\<close>

text \<open>A succeeded row of the incident for one execution.\<close>

definition recorded :: "uuid \<Rightarrow> execution \<Rightarrow> action_row list \<Rightarrow> bool" where
  "recorded u x rows \<longleftrightarrow>
     (\<exists>a\<in>set rows. ac_incident a = u \<and> ac_outcome a = ''succeeded'' \<and> ac_operation a = ex_kind x \<and>
        ac_reference a = Some (ex_reference x))"

lemma recorded_mono: "recorded u x rows \<Longrightarrow> prefix rows rows' \<Longrightarrow> recorded u x rows'"
  by (auto simp: recorded_def prefix_def)

lemma record_execution_actions:
  "record_execution env k i oper oc ref resp err w = (r, w') \<Longrightarrow>
     prefix (db_actions (own_db w)) (db_actions (own_db w'))"
  by (auto simp: record_execution_def record_action_execution_def split: option.splits)

lemma record_execution_row:
  "record_execution env k i oper ''succeeded'' (Some ref) resp err w = (Inr (), w') \<Longrightarrow> parse_uuid i = Some u \<Longrightarrow>
     recorded u \<lparr>ex_kind = op_kind oper, ex_reference = ref, ex_response = j, ex_source_action = sa\<rparr>
       (db_actions (own_db w'))"
  by (auto simp: record_execution_def record_action_execution_def recorded_def split: option.splits)

lemma execute_op_rows:
  assumes "execute_op env k i eq oper w = (r, w')" "parse_uuid i = Some u"
  shows "prefix (db_actions (own_db w)) (db_actions (own_db w')) \<and>
         (\<forall>x. r = Inr x \<longrightarrow> ex_kind x = op_kind oper \<and> recorded u x (db_actions (own_db w')))"
proof -
  obtain r1 w1 where rec: "record_execution env k i oper ''pending'' None None None w = (r1, w1)"
    by (metis surj_pair)
  note p1 = record_execution_actions [OF rec]
  show ?thesis
  proof (cases "\<exists>e. r1 = Inl e \<or> ax_client env = Inl e")
    case True
    with rec assms(1) p1 show ?thesis by (cases r1) (auto simp: execute_op_def)
  next
    case False
    obtain b c where call: "call_cmms env k i oper eq (aw_remote w1) = (b, c)" by (metis surj_pair)
    show ?thesis
    proof (cases "\<exists>b' j. b = Inr b' \<and> as_object b' = Inr j")
      case True
      then obtain b' j where j: "b = Inr b'" "as_object b' = Inr j" by blast
      obtain r2 w2 where rec2: "record_execution env k i oper ''succeeded'' (Some (reference_of oper j)) (Some j)
          None (w1\<lparr>aw_remote := c\<rparr>) = (r2, w2)" by (metis surj_pair)
      have "prefix (db_actions (own_db w)) (db_actions (own_db w2))"
        using record_execution_actions [OF rec2] p1 by (auto intro: prefix_order.trans)
      moreover have "r2 = Inr () \<longrightarrow> recorded u \<lparr>ex_kind = op_kind oper, ex_reference = reference_of oper j,
          ex_response = j, ex_source_action = op_source_action oper\<rparr> (db_actions (own_db w2))"
        using record_execution_row rec2 assms(2) by blast
      ultimately show ?thesis using assms False rec call j rec2
        by (cases r1; cases "ax_client env"; cases r2) (auto simp: execute_op_def Let_def)
    next
      case no: False
      with assms False rec call p1 show ?thesis
        by (cases r1; cases "ax_client env"; cases b)
           (auto simp: execute_op_def Let_def split: sum.splits)
    qed
  qed
qed

lemma execute_ops_rows:
  "execute_ops env i eq k ops exs fls w = (r, w') \<Longrightarrow> parse_uuid i = Some u \<Longrightarrow>
     prefix (db_actions (own_db w)) (db_actions (own_db w')) \<and>
     (\<forall>exs' fls'. r = Inr (exs', fls') \<longrightarrow>
        (\<exists>new newf. exs' = exs @ new \<and> fls' = fls @ newf \<and> length new + length newf = length ops \<and>
           (newf = [] \<longrightarrow> map ex_kind new = map op_kind ops) \<and>
           (\<forall>x\<in>set new. recorded u x (db_actions (own_db w')))))"
proof (induction ops arbitrary: k exs fls w)
  case (Cons oper ops)
  from Cons.prems(1) show ?case
  proof (cases rule: execute_ops_round)
    case (executed x w1)
    note op_rows = execute_op_rows [OF executed(1) Cons.prems(2)]
    note IH = Cons.IH [OF executed(2) Cons.prems(2)]
    have p: "prefix (db_actions (own_db w)) (db_actions (own_db w'))"
      using op_rows IH by (auto intro: prefix_order.trans)
    have rec: "recorded u x (db_actions (own_db w'))"
      using op_rows IH by (auto intro: recorded_mono)
    show ?thesis
    proof (intro conjI allI impI)
      fix exs' fls' assume "r = Inr (exs', fls')"
      with IH obtain new newf where "exs' = (exs @ [x]) @ new" "fls' = fls @ newf"
        "length new + length newf = length ops" "newf = [] \<longrightarrow> map ex_kind new = map op_kind ops"
        "\<forall>x\<in>set new. recorded u x (db_actions (own_db w'))" by blast
      with rec op_rows show "\<exists>new newf. exs' = exs @ new \<and> fls' = fls @ newf \<and>
          length new + length newf = length (oper # ops) \<and>
          (newf = [] \<longrightarrow> map ex_kind new = map op_kind (oper # ops)) \<and>
          (\<forall>x\<in>set new. recorded u x (db_actions (own_db w')))"
        by (intro exI [of _ "x # new"] exI [of _ newf]) auto
    qed (rule p)
  next
    case (failed e w1 w2)
    note IH = Cons.IH [OF failed(3) Cons.prems(2)]
    have p: "prefix (db_actions (own_db w)) (db_actions (own_db w'))"
      using execute_op_rows [OF failed(1) Cons.prems(2)] record_execution_actions [OF failed(2)] IH
      by (meson prefix_order.trans)
    show ?thesis
    proof (intro conjI allI impI)
      fix exs' fls' assume "r = Inr (exs', fls')"
      with IH obtain new newf where "exs' = exs @ new" "fls' = (fls @ [failure_of oper e]) @ newf"
        "length new + length newf = length ops" "\<forall>x\<in>set new. recorded u x (db_actions (own_db w'))" by blast
      then show "\<exists>new newf. exs' = exs @ new \<and> fls' = fls @ newf \<and>
          length new + length newf = length (oper # ops) \<and>
          (newf = [] \<longrightarrow> map ex_kind new = map op_kind (oper # ops)) \<and>
          (\<forall>x\<in>set new. recorded u x (db_actions (own_db w')))"
        by (intro exI [of _ new] exI [of _ "failure_of oper e # newf"]) auto
    qed (rule p)
  next
    case (raised e e')
    with execute_op_rows [OF raised(1) Cons.prems(2)] show ?thesis by simp
  qed
qed auto

section \<open>What a run settles\<close>

lemma decision_view_find:
  "parse_uuid i = Some u \<Longrightarrow> find_incident u d = Some inc \<Longrightarrow>
     get_incident_for_decision i d = Some (decision_view_of inc)"
  by (simp add: get_incident_for_decision_def)

lemma decision_view_Some:
  "get_incident_for_decision i d = Some view \<Longrightarrow>
     \<exists>u inc. parse_uuid i = Some u \<and> find_incident u d = Some inc \<and> view = decision_view_of inc"
  by (auto simp: get_incident_for_decision_def split: option.splits)

lemma decision_view_of_fields [simp]:
  "dv_status (decision_view_of inc) = inc_status inc"
  "dv_actions (decision_view_of inc) = inc_actions inc"
  "dv_equipment_id (decision_view_of inc) = uuid_str (inc_equipment inc)"
  by (simp_all add: decision_view_of_def)

lemma save_result_status:
  assumes "save_result env i st dt exs ab da w = (r, w')" "parse_uuid i = Some u"
    "find_incident u (own_db w) = Some inc"
  shows "status_of u (own_db w') = Some (case r of Inr _ \<Rightarrow> st | Inl _ \<Rightarrow> inc_status inc) \<and>
         db_actions (own_db w') = db_actions (own_db w) \<and>
         (case r of Inl e \<Rightarrow> w' = w \<and> ax_db_fault env SaveResult = Some e
          | Inr _ \<Rightarrow> trail u (own_db w') = trail u (own_db w) @ [(st, ''action-agent'')])"
  using assms
  by (auto simp: save_result_def save_action_result_def status_of_def store_simps Let_def
      split: option.splits if_splits)

lemma succeeded_kinds_iff:
  "parse_uuid i = Some u \<Longrightarrow>
     get_executed_action_kinds i d = [] \<longleftrightarrow>
       (\<forall>a\<in>set (db_actions d). \<not> (ac_incident a = u \<and> ac_outcome a = ''succeeded''))"
  by (simp add: get_executed_action_kinds_def filter_empty_conv)

lemma recorded_kinds:
  "parse_uuid i = Some u \<Longrightarrow> recorded u x (db_actions d) \<Longrightarrow> get_executed_action_kinds i d \<noteq> []"
  by (auto simp: succeeded_kinds_iff recorded_def)

lemma handle_skips:
  assumes "ae_incident p = Some i" "get_executed_action_kinds i (own_db w) \<noteq> []"
  shows "aw_remote (snd (action_handle env p w)) = aw_remote w"
proof (cases "get_incident_for_decision i (own_db w)")
  case (Some view)
  obtain r w' where "save_result env i ActionTaken Reconciled None None None w = (r, w')" by (metis surj_pair)
  with assms Some save_result_remote [OF this] show ?thesis
    by (cases r) (simp_all add: action_handle_def)
qed (simp add: action_handle_def assms)

lemma publish_quietly_actions [simp]: "db_actions (own_db (publish_quietly env e w)) = db_actions (own_db w)"
  by simp

text \<open>The status an approved incident has after a run, by what the run returns.\<close>

fun settled :: "action_outcome result \<Rightarrow> status" where
  "settled (Inr ExecutionFailed) = ActionFailed"
| "settled (Inr _) = ActionTaken"
| "settled (Inl _) = Approved"

lemma finish_execution_status:
  assumes "finish_execution env i ab da m exs fls w = (r, w')" "parse_uuid i = Some u"
    "find_incident u (own_db w) = Some inc" "inc_status inc = Approved"
  shows "status_of u (own_db w') = Some (settled r) \<and> db_actions (own_db w') = db_actions (own_db w) \<and>
    (case r of Inr x \<Rightarrow> x = (if fls = [] then Executed exs else ExecutionFailed) | Inl e \<Rightarrow> w' = w)"
proof (cases "fls = []")
  case True
  obtain r1 w1 where s: "save_result env i ActionTaken (Executions exs) (Some exs) (Some ab) da w = (r1, w1)"
    by (metis surj_pair)
  from save_result_status [OF s assms(2,3)] s True assms(1,4) show ?thesis
    by (cases r1) (auto simp: finish_execution_def)
next
  case False
  obtain r1 w1 where s: "save_result env i ActionFailed (Failures fls exs (failure_reason fls)) None None None w
      = (r1, w1)" by (metis surj_pair)
  from save_result_status [OF s assms(2,3)] s False assms(1,4) show ?thesis
    by (cases r1) (auto simp: finish_execution_def)
qed

text \<open>The run of an approved incident none of whose operations succeeded before.\<close>

lemma handle_fresh:
  assumes "ae_incident p = Some i" "parse_uuid i = Some u" "find_incident u (own_db w) = Some inc"
    "inc_status inc = Approved" "get_executed_action_kinds i (own_db w) = []"
    "has_operations (map_recommendation_to_cmms (inc_actions inc))"
  shows "action_handle env p w =
    (case execute_ops env i (uuid_str (inc_equipment inc)) 0
            (mr_operations (map_recommendation_to_cmms (inc_actions inc))) [] [] w of
       (Inl e, w1) \<Rightarrow> (Inl e, w1)
     | (Inr (exs, fls), w1) \<Rightarrow>
         finish_execution env i (or_str (ae_decided_by p) ''unknown'') (ae_decided_at p)
           (map_recommendation_to_cmms (inc_actions inc)) exs fls w1)"
  using assms by (simp add: action_handle_def decision_view_find Let_def)

lemma handle_settles:
  assumes p: "ae_incident p = Some i" "parse_uuid i = Some u" "find_incident u (own_db w) = Some inc"
    "inc_status inc = Approved"
    and run: "action_handle env p w = (r, w')"
  shows "status_of u (own_db w') = Some (settled r)"
proof (cases "get_executed_action_kinds i (own_db w) = []")
  case False
  obtain r1 w1 where s: "save_result env i ActionTaken Reconciled None None None w = (r1, w1)" by (metis surj_pair)
  from save_result_status [OF s p(2,3)] s False p run show ?thesis
    by (cases r1) (auto simp: action_handle_def decision_view_find)
next
  case fresh: True
  show ?thesis
  proof (cases "has_operations (map_recommendation_to_cmms (inc_actions inc))")
    case False
    obtain r1 w1 where s: "save_result env i ActionTaken
        (NoOperations (mr_unmapped (map_recommendation_to_cmms (inc_actions inc)))) None None None w = (r1, w1)"
      by (metis surj_pair)
    from save_result_status [OF s p(2,3)] s False fresh p run show ?thesis
      by (cases r1) (auto simp: action_handle_def decision_view_find Let_def)
  next
    case True
    obtain r1 w1 where e: "execute_ops env i (uuid_str (inc_equipment inc)) 0
        (mr_operations (map_recommendation_to_cmms (inc_actions inc))) [] [] w = (r1, w1)" by (metis surj_pair)
    have f: "find_incident u (own_db w1) = Some inc" using execute_ops_find [OF e, of u] p(3) by simp
    show ?thesis
    proof (cases r1)
      case (Inl x)
      with f p(4) run e handle_fresh [OF p fresh True] show ?thesis by (auto simp: status_of_def)
    next
      case (Inr ef)
      obtain exs fls where "ef = (exs, fls)" by (cases ef)
      with Inr e run handle_fresh [OF p fresh True]
      have "finish_execution env i (or_str (ae_decided_by p) ''unknown'') (ae_decided_at p)
           (map_recommendation_to_cmms (inc_actions inc)) exs fls w1 = (r, w')" by simp
      from finish_execution_status [OF this p(2) f p(4)] show ?thesis by simp
    qed
  qed
qed

lemma handle_executed:
  assumes "action_handle env p w = (Inr (Executed exs), w')"
  obtains i u inc where "ae_incident p = Some i" "parse_uuid i = Some u" "find_incident u (own_db w) = Some inc"
    "inc_status inc = Approved" "get_executed_action_kinds i (own_db w) = []" "exs \<noteq> []"
    "map ex_kind exs = map op_kind (mr_operations (map_recommendation_to_cmms (inc_actions inc)))"
    "\<forall>x\<in>set exs. recorded u x (db_actions (own_db w'))"
proof -
  obtain i where i: "ae_incident p = Some i" using assms by (cases "ae_incident p") (auto simp: action_handle_def)
  obtain view where v: "get_incident_for_decision i (own_db w) = Some view"
    using assms i by (cases "get_incident_for_decision i (own_db w)") (auto simp: action_handle_def)
  from decision_view_Some [OF v] obtain u inc where u: "parse_uuid i = Some u"
    "find_incident u (own_db w) = Some inc" "view = decision_view_of inc" by blast
  have st: "inc_status inc = Approved"
    using assms i v u by (auto simp: action_handle_def split: if_splits)
  have fresh: "get_executed_action_kinds i (own_db w) = []"
    using assms i v u st by (auto simp: action_handle_def split: if_splits prod.splits sum.splits)
  have ops: "has_operations (map_recommendation_to_cmms (inc_actions inc))"
    using assms i v u st fresh by (auto simp: action_handle_def Let_def split: if_splits prod.splits sum.splits)
  obtain r1 w1 where e: "execute_ops env i (uuid_str (inc_equipment inc)) 0
        (mr_operations (map_recommendation_to_cmms (inc_actions inc))) [] [] w = (r1, w1)" by (metis surj_pair)
  with assms handle_fresh [OF i u(1,2) st fresh ops] obtain exs1 fls where r1: "r1 = Inr (exs1, fls)"
    by (cases r1) auto
  with assms e handle_fresh [OF i u(1,2) st fresh ops]
  have fin: "finish_execution env i (or_str (ae_decided_by p) ''unknown'') (ae_decided_at p)
           (map_recommendation_to_cmms (inc_actions inc)) exs1 fls w1 = (Inr (Executed exs), w')" by simp
  have "find_incident u (own_db w1) = Some inc" using execute_ops_find [OF e, of u] u by simp
  from finish_execution_status [OF fin u(1) this st]
  have eq: "fls = []" "exs1 = exs" "db_actions (own_db w') = db_actions (own_db w1)"
    by (auto split: if_splits)
  obtain new newf where "exs1 = [] @ new" "fls = [] @ newf"
     "length new + length newf = length (mr_operations (map_recommendation_to_cmms (inc_actions inc)))"
     "newf = [] \<longrightarrow> map ex_kind new = map op_kind (mr_operations (map_recommendation_to_cmms (inc_actions inc)))"
     "\<forall>x\<in>set new. recorded u x (db_actions (own_db w1))"
    using execute_ops_rows [OF e u(1)] r1 by blast
  with eq ops show ?thesis
    by (intro that [OF i u(1,2) st fresh]) (auto simp: has_operations_def)
qed

section \<open>A small environment\<close>

definition sample_actions :: "json_action list" where
  "sample_actions =
     [ActDict \<lparr>ra_action = Some ''Inspect fan'', ra_priority = Some 1, ra_type = Some ''work_order'',
               ra_product_key = None, ra_quantity = None\<rparr>]"

definition sample_approved :: incident where
  "sample_approved = sample_incident\<lparr>inc_status := Approved, inc_actions := Some sample_actions\<rparr>"

definition sample_approval :: approved_event where
  "sample_approval =
     \<lparr>ae_incident = Some (uuid_str 7), ae_decided_by = Some ''sup'', ae_decided_at = Some 5,
      ae_level = Some 2, ae_correlation = None\<rparr>"

definition approved_world :: "cmms action_world" where
  "approved_world =
     \<lparr>aw_own = \<lparr>w_db = sample_db\<lparr>db_incidents := [sample_approved]\<rparr>, w_bus = []\<rparr>, aw_remote = sample_cmms\<rparr>"

definition reliable_env :: "cmms action_env" where
  "reliable_env =
     \<lparr>ax_client = Inr (), ax_attempts = 4,
      ax_net = (\<lambda>k. over_network (\<lambda>j. Delivered) (serve (\<lambda>b. []) ''key'' ''key'' 9)),
      ax_poll_net = (\<lambda>i k. over_network (\<lambda>j. Delivered) (serve (\<lambda>b. []) ''key'' ''key'' 9)),
      ax_db_fault = (\<lambda>x. None), ax_bus_fault = (\<lambda>e. None), ax_now = 9\<rparr>"

lemma sample_operations:
  "map_recommendation_to_cmms (Some sample_actions) =
     \<lparr>mr_operations = [\<lparr>op_kind = ''work_order'', op_priority = 1, op_source_action = ''Inspect fan'',
        op_description = ''Inspect fan'', op_product_key = [], op_quantity = 0\<rparr>], mr_unmapped = []\<rparr>"
  by (simp add: sample_actions_def map_recommendation_to_cmms_def map_action_def Let_def as_action_def
      classify_action_def known_types_def work_order_kind_def product_reorder_kind_def manual_kind_def
      work_order_op_def py_lower_def lower_char_def py_strip_def py_lstrip_def py_rstrip_def is_space_def)

lemma approved_world_db [simp]:
  "find_incident u (own_db approved_world) = (if u = 7 then Some sample_approved else None)"
  "db_actions (own_db approved_world) = []" "next_id (own_db approved_world) = 100"
  "aw_remote approved_world = sample_cmms"
  by (simp_all add: approved_world_def own_db_def find_incident_def sample_db_def sample_approved_def
      sample_incident_def)

lemma sample_approved_fields [simp]:
  "inc_status sample_approved = Approved" "inc_actions sample_approved = Some sample_actions"
  "inc_equipment sample_approved = 3"
  by (simp_all add: sample_approved_def sample_incident_def)

definition crash_env :: "cmms action_env" where
  "crash_env = reliable_env\<lparr>ax_db_fault := (\<lambda>x. if x = RecordWrite 0 ''succeeded'' then Some (OtherError ''connection lost'') else None)\<rparr>"

definition sample_op :: cmms_operation where
  "sample_op = \<lparr>op_kind = ''work_order'', op_priority = 1, op_source_action = ''Inspect fan'',
     op_description = ''Inspect fan'', op_product_key = [], op_quantity = 0\<rparr>"

definition sample_order :: "uuid \<Rightarrow> order_row" where
  "sample_order u = \<lparr>wo_id = u, wo_equipment = Some 3, wo_description = ''Inspect fan'', wo_priority = ''high'',
     wo_status = ''open'', wo_requested_by = action_agent, wo_incident = Some 7, wo_note = None,
     wo_created_at = 9, wo_updated_at = 9\<rparr>"

lemma cmms_request_first:
  assumes "net 1 req c = (Answer code (Inr b) raw, c')" "code \<in> set (ok_codes req)"
  shows "cmms_request net n req c = (Inr b, c')"
proof -
  obtain m where "nat (max 1 n) = Suc m" by (cases "nat (max 1 n)") auto
  with assms show ?thesis by (simp add: cmms_request_def)
qed

lemma reliable_env_fields [simp]:
  "ax_client reliable_env = Inr ()" "ax_now reliable_env = 9" "ax_db_fault reliable_env x = None"
  "ax_bus_fault reliable_env e = None"
  by (simp_all add: reliable_env_def)

lemma crash_env_fields [simp]:
  "ax_net crash_env = ax_net reliable_env" "ax_client crash_env = Inr ()" "ax_now crash_env = 9"
  "ax_db_fault crash_env (RecordWrite 0 ''pending'') = None"
  "ax_db_fault crash_env (RecordWrite 0 ''succeeded'') = Some (OtherError ''connection lost'')"
  by (simp_all add: crash_env_def)

lemma sample_call:
  "ax_net env k = ax_net reliable_env k \<Longrightarrow>
     call_cmms env k (uuid_str 7) sample_op (uuid_str 3) c =
       (Inr (Order (order_to_dict (sample_order (cm_next c)))),
        c\<lparr>cm_orders := cm_orders c @ [sample_order (cm_next c)], cm_next := Suc (cm_next c)\<rparr>)"
  unfolding call_cmms_def create_work_order_def sample_op_def
  by (simp add: work_order_kind_def, rule cmms_request_first [where code = 201 and raw = "[]"])
     (simp_all add: reliable_env_def over_network_def serve_def require_api_key_def route_def
        svc_create_work_order_def Let_def sample_order_def ok_codes_def is_write_def priority_word_def
        priority_word_or_medium_def py_lower_def lower_char_def uuid_or_none_def py_strip_def py_lstrip_def
        py_rstrip_def is_space_def action_agent_def)

lemma sample_op_kind [simp]: "op_kind sample_op = work_order_kind"
  by (simp add: sample_op_def work_order_kind_def)

lemma sample_reference: "reference_of sample_op (order_to_dict (sample_order u)) = uuid_str u"
  by (simp add: reference_of_def order_to_dict_def sample_order_def)

text \<open>The sample operation under an environment with that network: recorded before and after.\<close>

definition sample_record :: "string \<Rightarrow> string option \<Rightarrow> cmms_json option \<Rightarrow> db \<Rightarrow> db" where
  "sample_record oc ref resp d = record_action_execution (uuid_str 7) sample_op oc ref resp None 9 d"

lemma execute_sample_op:
  fixes w :: "cmms action_world"
  assumes "ax_net env = ax_net reliable_env" "ax_client env = Inr ()" "ax_now env = 9"
    "ax_db_fault env (RecordWrite 0 ''pending'') = None"
  shows "execute_op env 0 (uuid_str 7) (uuid_str 3) sample_op w =
    (let j = order_to_dict (sample_order (cm_next (aw_remote w)));
         c = (aw_remote w)\<lparr>cm_orders := cm_orders (aw_remote w) @ [sample_order (cm_next (aw_remote w))],
                cm_next := Suc (cm_next (aw_remote w))\<rparr>;
         w1 = put_db (sample_record ''pending'' None None (own_db w)) w\<lparr>aw_remote := c\<rparr>;
         ref = uuid_str (cm_next (aw_remote w))
     in case ax_db_fault env (RecordWrite 0 ''succeeded'') of
          Some e \<Rightarrow> (Inl e, w1)
        | None \<Rightarrow> (Inr \<lparr>ex_kind = work_order_kind, ex_reference = ref, ex_response = j,
                         ex_source_action = ''Inspect fan''\<rparr>,
                   put_db (sample_record ''succeeded'' (Some ref) (Some j) (own_db w1)) w1))"
  by (simp add: execute_op_def record_execution_def assms sample_call [OF fun_cong [OF assms(1)]] as_object_def
      sample_reference sample_record_def Let_def split: option.split)
     (simp add: sample_op_def)

lemma sample_handle:
  fixes w :: "cmms action_world"
  assumes "find_incident 7 (own_db w) = Some sample_approved" "get_executed_action_kinds (uuid_str 7) (own_db w) = []"
  shows "action_handle env sample_approval w =
    (case execute_ops env (uuid_str 7) (uuid_str 3) 0 [sample_op] [] [] w of
       (Inl e, w1) \<Rightarrow> (Inl e, w1)
     | (Inr (exs, fls), w1) \<Rightarrow>
         finish_execution env (uuid_str 7) ''sup'' (Some 5) \<lparr>mr_operations = [sample_op], mr_unmapped = []\<rparr> exs fls w1)"
proof -
  have m: "map_recommendation_to_cmms (Some sample_actions) = \<lparr>mr_operations = [sample_op], mr_unmapped = []\<rparr>"
    by (simp add: sample_operations sample_op_def)
  have p: "ae_incident sample_approval = Some (uuid_str 7)" "or_str (ae_decided_by sample_approval) ''unknown'' = ''sup''"
    "ae_decided_at sample_approval = Some 5" by (simp_all add: sample_approval_def)
  have "has_operations (map_recommendation_to_cmms (inc_actions sample_approved))"
    by (simp add: m has_operations_def)
  from handle_fresh [OF p(1) sample_uuid(4) assms(1) _ assms(2) this]
  show ?thesis by (simp only: p m sample_approved_fields mapping_result.simps simp_thms)
qed

lemma sample_record_facts [simp]:
  "find_incident u (sample_record oc ref resp d) = find_incident u d"
  "db_actions (sample_record oc ref resp d) \<noteq> []"
  "oc \<noteq> ''succeeded'' \<Longrightarrow> get_executed_action_kinds (uuid_str 7) (sample_record oc ref resp d) =
     get_executed_action_kinds (uuid_str 7) d"
  by (simp_all add: sample_record_def store_simps get_executed_action_kinds_def record_action_execution_def)

lemma crash_run:
  "\<exists>w'. action_handle crash_env sample_approval approved_world = (Inl (OtherError ''connection lost''), w') \<and>
     cm_orders (aw_remote w') = [sample_order 50] \<and>
     find_incident 7 (own_db w') = Some sample_approved \<and>
     get_executed_action_kinds (uuid_str 7) (own_db w') = []"
proof -
  have k: "get_executed_action_kinds (uuid_str 7) (own_db approved_world) = []"
    by (simp add: get_executed_action_kinds_def)
  show ?thesis
    by (subst sample_handle)
       (simp_all add: k execute_sample_op Let_def sample_cmms_def)
qed

lemma reliable_run:
  fixes w :: "cmms action_world"
  assumes "find_incident 7 (own_db w) = Some sample_approved" "get_executed_action_kinds (uuid_str 7) (own_db w) = []"
  shows "\<exists>x w'. action_handle reliable_env sample_approval w = (Inr (Executed [x]), w') \<and>
     cm_orders (aw_remote w') = cm_orders (aw_remote w) @ [sample_order (cm_next (aw_remote w))]"
  by (subst sample_handle [OF assms])
     (simp add: execute_sample_op Let_def finish_execution_def save_result_def)

section \<open>Properties\<close>

text \<open>
  A run of the Action Agent reaches the enterprise system only for an incident that exists, is
  approved and has no succeeded operation: whatever the event, the faults and the network, if the
  remote state changed then all three held when the run began.
\<close>

theorem no_external_write_without_approval:
  assumes "action_handle env p w = (r, w')" "aw_remote w' \<noteq> aw_remote w"
  shows "\<exists>i u inc. ae_incident p = Some i \<and> parse_uuid i = Some u \<and>
     find_incident u (own_db w) = Some inc \<and> inc_status inc = Approved \<and>
     get_executed_action_kinds i (own_db w) = [] \<and>
     has_operations (map_recommendation_to_cmms (inc_actions inc))"
proof -
  obtain i where i: "ae_incident p = Some i"
    using assms by (cases "ae_incident p") (auto simp: action_handle_def)
  obtain view where v: "get_incident_for_decision i (own_db w) = Some view"
    using assms i by (cases "get_incident_for_decision i (own_db w)") (auto simp: action_handle_def)
  from decision_view_Some [OF v] obtain u inc where u: "parse_uuid i = Some u"
    "find_incident u (own_db w) = Some inc" "view = decision_view_of inc" by blast
  have st: "inc_status inc = Approved"
    using assms i v u by (auto simp: action_handle_def split: if_splits)
  have fresh: "get_executed_action_kinds i (own_db w) = []"
    using handle_skips [OF i, of w env] assms by auto
  have "has_operations (map_recommendation_to_cmms (inc_actions inc))"
    using assms i v u st fresh
    by (auto simp: action_handle_def Let_def dest: save_result_remote split: if_splits prod.splits sum.splits)
  with i u st fresh show ?thesis by blast
qed

lemma no_external_write_without_approval_witness:
  "\<exists>inc. find_incident 7 (own_db approved_world) = Some inc \<and> inc_status inc = Approved"
proof -
  have "get_executed_action_kinds (uuid_str 7) (own_db approved_world) = []"
    by (simp add: get_executed_action_kinds_def)
  from reliable_run [OF _ this] obtain x w' where
    "action_handle reliable_env sample_approval approved_world = (Inr (Executed [x]), w')"
    "cm_orders (aw_remote w') \<noteq> cm_orders (aw_remote approved_world)" by auto
  then show ?thesis
    using no_external_write_without_approval [of reliable_env sample_approval approved_world "Inr (Executed [x])" w']
    by (auto simp: sample_approval_def)
qed






text \<open>
  The guard works per incident, not per operation: when any operation of an approved incident
  has succeeded before, a run marks the incident \<open>action_taken\<close> without a call, whatever became
  of the other operations.
\<close>

theorem one_success_settles_the_incident:
  assumes "ae_incident p = Some i" "parse_uuid i = Some u" "find_incident u (own_db w) = Some inc"
    "inc_status inc = Approved" "a \<in> set (db_actions (own_db w))" "ac_incident a = u"
    "ac_outcome a = ''succeeded''" "ax_db_fault env SaveResult = None"
  shows "\<exists>w'. action_handle env p w = (Inr AlreadyExecuted, w') \<and> aw_remote w' = aw_remote w \<and>
     status_of u (own_db w') = Some ActionTaken \<and> db_actions (own_db w') = db_actions (own_db w)"
proof -
  have "get_executed_action_kinds i (own_db w) \<noteq> []"
    using assms by (auto simp: succeeded_kinds_iff)
  moreover obtain r1 w1 where s: "save_result env i ActionTaken Reconciled None None None w = (r1, w1)"
    by (metis surj_pair)
  moreover from s assms(8) have "r1 = Inr ()" by (auto simp: save_result_def)
  ultimately show ?thesis
    using assms save_result_status [OF s assms(2,3)] save_result_remote [OF s]
    by (simp add: action_handle_def decision_view_find)
qed

lemma one_success_settles_the_incident_witness:
  "\<exists>w'. action_handle reliable_env sample_approval
     (put_db (sample_record ''succeeded'' None None (own_db approved_world)) approved_world) = (Inr AlreadyExecuted, w')"
proof -
  let ?w = "put_db (sample_record ''succeeded'' None None (own_db approved_world)) approved_world"
  have "\<exists>a\<in>set (db_actions (own_db ?w)). ac_incident a = 7 \<and> ac_outcome a = ''succeeded''"
    by (simp add: sample_record_def record_action_execution_def)
  then obtain a where "a \<in> set (db_actions (own_db ?w))" "ac_incident a = 7" "ac_outcome a = ''succeeded''" by blast
  with one_success_settles_the_incident [of sample_approval "uuid_str 7" 7 ?w sample_approved a reliable_env]
  show ?thesis by (auto simp: sample_approval_def)
qed

end
