(* ===== verification/ActionLoop.thy ===== *)
theory ActionLoop
  imports ActionAgent
begin

text \<open>
  The resolution poll of the Action Agent, from outside: it only ever closes incidents in
  \<open>action_taken\<close>, closes each at most once, and never writes to the enterprise system.  An
  invariant of the store that every closing keeps is kept by every poll; that is the locale
  \<open>closing_invariant\<close>.
\<close>

section \<open>One round of the poll\<close>

text \<open>The remote state after at most one look-up.\<close>

definition looked_up :: "'c action_env \<Rightarrow> string \<Rightarrow> nat \<Rightarrow> 'c \<Rightarrow> 'c \<Rightarrow> bool" where
  "looked_up env i k c c' \<longleftrightarrow>
     c' = c \<or> (\<exists>ref. c' = snd (get_work_order (ax_poll_net env i k) (ax_attempts env) ref c))"

lemma check_executions_round:
  assumes "check_executions env i k (x # xs) w = (r, w')"
  obtains (continue) w1 where "own_db w1 = own_db w" "looked_up env i k (aw_remote w) (aw_remote w1)"
      "check_executions env i (Suc k) xs w1 = (r, w')"
  | (stopped) "own_db w' = own_db w" "looked_up env i k (aw_remote w) (aw_remote w')"
  | (closed) view order w1 where "own_db w1 = own_db w" "looked_up env i k (aw_remote w) (aw_remote w1)"
      "get_incident_for_decision i (own_db w) = Some view" "dv_status view = ActionTaken"
      "w' = close_loop env i view order w1"
proof (cases "av_operation x \<noteq> work_order_kind \<or> av_outcome x \<noteq> ''succeeded'' \<or> \<not> truthy_str (av_reference x)")
  case True
  with assms have "check_executions env i (Suc k) xs w = (r, w')" by (auto split: if_splits)
  then show thesis by (rule continue [rotated 2]) (simp_all add: looked_up_def)
next
  case False
  obtain b c where g: "get_work_order (ax_poll_net env i k) (ax_attempts env) (the (av_reference x)) (aw_remote w) = (b, c)"
    by (metis surj_pair)
  let ?w1 = "w\<lparr>aw_remote := c\<rparr>"
  have l: "looked_up env i k (aw_remote w) (aw_remote ?w1)"
    unfolding looked_up_def by (rule disjI2, rule exI [of _ "the (av_reference x)"]) (simp add: g)
  have f: "own_db ?w1 = own_db w" by simp
  consider (lost) e where "b = Inl e" | (odd) b' e where "b = Inr b'" "as_object b' = Inl e"
    | (object) b' j where "b = Inr b'" "as_object b' = Inr j" by (metis sum.exhaust)
  then show thesis
  proof cases
    case lost
    with assms False g have "check_executions env i (Suc k) xs ?w1 = (r, w')" by auto
    then show thesis by (rule continue [OF f l])
  next
    case odd
    with assms False g have "w' = ?w1" by (auto simp: Let_def)
    with f l show thesis by (intro stopped) simp_all
  next
    case object
    show thesis
    proof (cases "\<exists>view. cj_status j = Some ''resolved'' \<and> get_incident_for_decision i (own_db w) = Some view \<and>
        dv_status view = ActionTaken")
      case True
      then obtain view where v: "cj_status j = Some ''resolved''"
        "get_incident_for_decision i (own_db w) = Some view" "dv_status view = ActionTaken" by blast
      with assms False g object have "w' = close_loop env i view j ?w1" by (simp add: Let_def)
      then show thesis by (rule closed [OF f l v(2,3)])
    next
      case no: False
      with assms False g object have "check_executions env i (Suc k) xs ?w1 = (r, w')"
        by (auto simp: Let_def split: if_splits option.splits)
      then show thesis by (rule continue [OF f l])
    qed
  qed
qed

section \<open>Invariants of the poll\<close>

locale closing_invariant =
  fixes inv :: "db \<Rightarrow> bool"
  assumes closing: "inv d \<Longrightarrow> parse_uuid i = Some u \<Longrightarrow> status_of u d = Some ActionTaken \<Longrightarrow>
     inv (snd (close_incident_loop i e en sy rc ac wk rs so ''action-agent'' t d))"
begin

lemma close_loop_keeps:
  assumes "inv (own_db w)" "get_incident_for_decision i (own_db w) = Some view" "dv_status view = ActionTaken"
  shows "inv (own_db (close_loop env i view order w))"
proof -
  from decision_view_Some [OF assms(2)] obtain u inc where "parse_uuid i = Some u"
    "find_incident u (own_db w) = Some inc" "view = decision_view_of inc" by blast
  with assms have "parse_uuid i = Some u" "status_of u (own_db w) = Some ActionTaken"
    by (simp_all add: status_of_def)
  note c = closing [OF assms(1) this]
  show ?thesis unfolding close_loop_def by (simp add: c case_prod_unfold)
qed

lemma check_executions_keeps:
  "check_executions env i k xs w = (r, w') \<Longrightarrow> inv (own_db w) \<Longrightarrow> inv (own_db w')"
proof (induction xs arbitrary: k w)
  case (Cons x xs)
  from Cons.prems(1) show ?case
  proof (cases rule: check_executions_round)
    case (continue w1)
    with Cons.IH [OF continue(3)] Cons.prems(2) show ?thesis by simp
  next
    case stopped
    with Cons.prems(2) show ?thesis by simp
  next
    case (closed view order w1)
    with close_loop_keeps [of w1 i view env order] Cons.prems(2) show ?thesis by simp
  qed
qed simp

lemma check_incidents_keeps:
  "check_incidents env in_flight is w = (r, w') \<Longrightarrow> inv (own_db w) \<Longrightarrow> inv (own_db w')"
proof (induction "is" arbitrary: w)
  case (Cons i "is")
  show ?case
  proof (cases "i \<in> in_flight \<or> get_incident_action_record i (own_db w) = None")
    case True
    with Cons show ?thesis by (auto split: if_splits)
  next
    case False
    then obtain rec where rec: "get_incident_action_record i (own_db w) = Some rec" by auto
    obtain r1 w1 where c: "check_executions env i 0 (ar_operations rec) w = (r1, w1)" by (metis surj_pair)
    from check_executions_keeps [OF c Cons.prems(2)] Cons False rec c show ?thesis
      by (cases r1) auto
  qed
qed simp

lemma poll_rounds_keeps: "inv (own_db w) \<Longrightarrow> inv (own_db (poll_rounds env in_flight n w))"
proof (induction n)
  case (Suc n)
  obtain r w1 where c: "check_resolutions (env n) (in_flight n) (poll_rounds env in_flight n w) = (r, w1)"
    by (metis surj_pair)
  with Suc check_incidents_keeps show ?case
    by (auto simp: check_resolutions_def split: sum.splits)
qed simp

end

section \<open>What the poll keeps\<close>

definition loops :: "uuid \<Rightarrow> db \<Rightarrow> nat" where
  "loops u d = length (filter (\<lambda>a. au_incident a = u \<and> au_action a = ''loop_closed'') (db_audit d))"

definition all_loops :: "db \<Rightarrow> nat" where
  "all_loops d = length (filter (\<lambda>a. au_action a = ''loop_closed'') (db_audit d))"

lemma loop_closed_iff: "loop_closed u d \<longleftrightarrow> loops u d > 0"
  by (auto simp: loop_closed_def loops_def filter_empty_conv)

definition closes_once :: "db \<Rightarrow> bool" where
  "closes_once d \<longleftrightarrow> (\<forall>u. loops u d \<le> 1)"

definition learns_per_closing :: "db \<Rightarrow> db \<Rightarrow> bool" where
  "learns_per_closing d d' \<longleftrightarrow>
     length (db_historical d') + all_loops d = length (db_historical d) + all_loops d'"

definition only_resolves :: "db \<Rightarrow> db \<Rightarrow> bool" where
  "only_resolves d d' \<longleftrightarrow>
     (\<forall>v. status_of v d' = status_of v d \<or>
          (status_of v d = Some ActionTaken \<and> status_of v d' = Some Resolved))"

lemma close_loops:
  assumes "parse_uuid i = Some u"
  shows "loops v (snd (close_incident_loop i e en sy rc ac wk rs so a t d)) =
     loops v d + (if v = u \<and> \<not> loop_closed u d \<and> find_incident u d \<noteq> None then 1 else 0)"
  using assms
  by (auto simp: close_incident_loop_def loops_def Let_def insert_audit_def insert_history_def
      update_incident_def split: option.split)

interpretation once: closing_invariant closes_once
proof
  fix d i u e en sy rc ac wk rs so t
  assume d: "closes_once d" "parse_uuid i = Some u"
  show "closes_once (snd (close_incident_loop i e en sy rc ac wk rs so ''action-agent'' t d))"
    using d by (auto simp: closes_once_def close_loops [OF d(2)] loop_closed_iff)
qed

interpretation learns: closing_invariant "learns_per_closing d0" for d0
  by unfold_locales
     (auto simp: learns_per_closing_def close_incident_loop_def all_loops_def Let_def insert_audit_def
       insert_history_def update_incident_def split: option.splits)

interpretation resolves: closing_invariant "only_resolves d0" for d0
proof
  fix d i u e en sy rc ac wk rs so t
  assume d: "only_resolves d0 d" "parse_uuid i = Some u" "status_of u d = Some ActionTaken"
  let ?d = "snd (close_incident_loop i e en sy rc ac wk rs so ''action-agent'' t d)"
  have "status_of v ?d = (if v = u \<and> \<not> loop_closed u d then Some Resolved else status_of v d)" for v
    using d by (auto simp: close_incident_loop_def status_of_def Let_def store_simps split: option.split)
  moreover have "status_of u d0 = Some ActionTaken"
    using d(1) [unfolded only_resolves_def, rule_format, of u] d(3) by auto
  ultimately show "only_resolves d0 ?d" using d(1) by (auto simp: only_resolves_def)
qed

section \<open>The poll only reads the enterprise system\<close>

lemma looked_up_mock:
  assumes "ax_poll_net env i k = over_network fates (serve raw key key t)" "looked_up env i k c c'"
  shows "c' = c"
proof -
  have r: "\<not> is_write (GetWorkOrder ref)" for ref by (simp add: is_write_def)
  have "snd (get_work_order (ax_poll_net env i k) (ax_attempts env) ref c) = c" for ref
    unfolding assms(1) get_work_order_def cmms_request_def
    by (rule mock.read_request [OF r prod.collapse [symmetric]])
  with assms(2) show ?thesis by (auto simp: looked_up_def)
qed

definition mock_poll :: "cmms action_env \<Rightarrow> bool" where
  "mock_poll env \<longleftrightarrow>
     (\<forall>i k. \<exists>fates raw key t. ax_poll_net env i k = over_network fates (serve raw key key t))"

lemma looked_up_mock_poll: "mock_poll env \<Longrightarrow> looked_up env i k c c' \<Longrightarrow> c' = c"
  unfolding mock_poll_def by (meson looked_up_mock)

lemma close_loop_remote: "aw_remote (close_loop env i view order w) = aw_remote w"
  by (simp add: close_loop_def split: prod.split)

lemma check_executions_remote:
  "check_executions env i k xs w = (r, w') \<Longrightarrow> mock_poll env \<Longrightarrow> aw_remote w' = aw_remote w"
proof (induction xs arbitrary: k w)
  case (Cons x xs)
  from Cons.prems(1) show ?case
  proof (cases rule: check_executions_round)
    case (continue w1)
    with Cons.IH [OF continue(3) Cons.prems(2)] looked_up_mock_poll [OF Cons.prems(2) continue(2)]
    show ?thesis by simp
  next
    case stopped
    with looked_up_mock_poll [OF Cons.prems(2)] show ?thesis by blast
  next
    case (closed view order w1)
    with looked_up_mock_poll [OF Cons.prems(2)] show ?thesis by (auto simp: close_loop_remote)
  qed
qed simp

lemma check_incidents_remote:
  "check_incidents env in_flight is w = (r, w') \<Longrightarrow> mock_poll env \<Longrightarrow> aw_remote w' = aw_remote w"
proof (induction "is" arbitrary: w)
  case (Cons i "is")
  show ?case
  proof (cases "i \<in> in_flight \<or> get_incident_action_record i (own_db w) = None")
    case True
    with Cons show ?thesis by (auto split: if_splits)
  next
    case False
    then obtain rec where rec: "get_incident_action_record i (own_db w) = Some rec" by auto
    obtain r1 w1 where c: "check_executions env i 0 (ar_operations rec) w = (r1, w1)" by (metis surj_pair)
    from check_executions_remote [OF c] Cons False rec c show ?thesis
      by (cases r1) auto
  qed
qed simp

section \<open>Properties\<close>

text \<open>
  C31. However often the resolution poll runs, each incident is closed at most once, the learned
  history grows by exactly one row for each closing, and the only status change it makes is from
  \<open>action_taken\<close> to \<open>resolved\<close>.
\<close>

theorem loop_is_closed_at_most_once:
  assumes "\<forall>u. loops u (own_db w) \<le> 1"
  shows "let d' = own_db (poll_rounds env in_flight n w) in
     (\<forall>u. loops u d' \<le> 1) \<and>
     length (db_historical d') + all_loops (own_db w) = length (db_historical (own_db w)) + all_loops d' \<and>
     (\<forall>u. status_of u d' = status_of u (own_db w) \<or>
          (status_of u (own_db w) = Some ActionTaken \<and> status_of u d' = Some Resolved))"
  using once.poll_rounds_keeps [of w env in_flight n]
    learns.poll_rounds_keeps [of "own_db w" w env in_flight n]
    resolves.poll_rounds_keeps [of "own_db w" w env in_flight n] assms
  by (simp add: closes_once_def learns_per_closing_def only_resolves_def Let_def)

lemma loop_is_closed_at_most_once_witness:
  "\<forall>n u. loops u (own_db (poll_rounds (\<lambda>k. reliable_env) (\<lambda>k. {}) n approved_world)) \<le> 1"
proof (intro allI)
  fix n u
  have "\<forall>u. loops u (own_db approved_world) \<le> 1"
    by (simp add: loops_def approved_world_def own_db_def sample_db_def)
  from loop_is_closed_at_most_once [OF this, of "\<lambda>k. reliable_env" "\<lambda>k. {}" n]
  show "loops u (own_db (poll_rounds (\<lambda>k. reliable_env) (\<lambda>k. {}) n approved_world)) \<le> 1"
    by (simp add: Let_def)
qed

text \<open>
  The poll is read-only on the enterprise system, over any network that loses requests and
  answers.
\<close>

theorem polling_never_writes:
  assumes "\<forall>m i k. \<exists>fates raw key t. ax_poll_net (env m) i k = over_network fates (serve raw key key t)"
  shows "aw_remote (poll_rounds env in_flight n w) = aw_remote w"
proof (induction n)
  case (Suc n)
  have m: "mock_poll (env n)" using assms by (simp add: mock_poll_def)
  show ?case using Suc check_incidents_remote [OF prod.collapse [symmetric] m]
    by (simp add: check_resolutions_def split: sum.split)
qed simp

lemma polling_never_writes_witness:
  "\<forall>n. aw_remote (poll_rounds (\<lambda>k. reliable_env) (\<lambda>k. {}) n approved_world) = sample_cmms"
proof -
  have "\<forall>m i k. \<exists>fates raw key t. ax_poll_net reliable_env i k = over_network fates (serve raw key key t)"
    by (auto simp: reliable_env_def)
  from polling_never_writes [of "\<lambda>k. reliable_env", OF this] show ?thesis by simp
qed

text \<open>
  When the first recorded work order of an incident in \<open>action_taken\<close> is resolved, the
  check resolves the incident and learns one historical row from it: the symptoms of its anomaly,
  its root cause, its actions and the resolution note, with the CMMS's equipment identifier in the
  place of the equipment name.
\<close>

theorem resolved_order_teaches_the_history:
  assumes "parse_uuid i = Some u" "find_incident u (own_db w) = Some inc" "inc_status inc = ActionTaken"
    "\<not> loop_closed u (own_db w)"
    "get_work_order (ax_poll_net env i k) (ax_attempts env) ref (aw_remote w) = (Inr (Order j), c)"
    "cj_status j = Some ''resolved''" "ref \<noteq> []"
    "av_operation x = work_order_kind" "av_outcome x = ''succeeded''" "av_reference x = Some ref"
  shows "\<exists>w' h. check_executions env i k (x # xs) w = (Inr (), w') \<and>
     status_of u (own_db w') = Some Resolved \<and>
     db_historical (own_db w') = db_historical (own_db w) @ [h] \<and>
     hr_symptoms h = learned_symptoms (inc_summary inc) \<and>
     hr_root_cause h = or_str (inc_root_cause inc) ''unrecorded'' \<and>
     hr_action_worked h \<and> hr_resolution h = or_str (cj_resolution_note j) ''work order resolved'' \<and>
     hr_equipment h = parse_uuid (uuid_str (inc_equipment inc)) \<and>
     hr_equipment_name h = take 200 (or_str (cj_equipment_id j) ''unknown equipment'')"
proof -
  let ?w1 = "w\<lparr>aw_remote := c\<rparr>"
  have v: "get_incident_for_decision i (own_db ?w1) = Some (decision_view_of inc)"
    using decision_view_find [OF assms(1,2)] by simp
  have run: "check_executions env i k (x # xs) w = (Inr (), close_loop env i (decision_view_of inc) j ?w1)"
    using assms v by (simp add: as_object_def Let_def)
  show ?thesis unfolding run using assms(1-4)
    by (simp add: close_loop_def close_incident_loop_def Let_def status_of_def store_simps parse_uuid_or_none_def
        decision_view_of_def)
qed

definition resolved_world :: "cmms action_world" where
  "resolved_world =
     \<lparr>aw_own = \<lparr>w_db = sample_db\<lparr>db_incidents := [sample_approved\<lparr>inc_status := ActionTaken\<rparr>]\<rparr>, w_bus = []\<rparr>,
      aw_remote = sample_cmms\<lparr>cm_orders := [resolve_row ''fan replaced'' 9 (sample_order 5)]\<rparr>\<rparr>"

lemma resolved_order_teaches_the_history_witness:
  "\<exists>w' h. check_executions reliable_env (uuid_str 7) 0
       [\<lparr>av_operation = work_order_kind, av_description = [], av_reference = Some (uuid_str 5),
         av_outcome = ''succeeded'',
         av_detail = \<lparr>ad_product_key = None, ad_quantity = None, ad_priority = 1, ad_source_action = None,
           ad_response = None, ad_error = None\<rparr>, av_attempted_at = 0, av_completed_at = None\<rparr>]
       resolved_world = (Inr (), w') \<and>
     db_historical (own_db w') = [h] \<and> hr_equipment_name h = take 200 (uuid_str 3)"
proof -
  let ?o = "resolve_row ''fan replaced'' 9 (sample_order 5)"
  have f: "find_incident 7 (own_db resolved_world) = Some (sample_approved\<lparr>inc_status := ActionTaken\<rparr>)"
    by (simp add: resolved_world_def own_db_def find_incident_def sample_approved_def sample_incident_def)
  have l: "\<not> loop_closed 7 (own_db resolved_world)" "db_historical (own_db resolved_world) = []"
    by (simp_all add: loop_closed_def resolved_world_def own_db_def sample_db_def)
  have g: "get_work_order (ax_poll_net reliable_env (uuid_str 7) 0) (ax_attempts reliable_env) (uuid_str 5)
      (aw_remote resolved_world) = (Inr (Order (order_to_dict ?o)), aw_remote resolved_world)"
    unfolding get_work_order_def
    by (rule cmms_request_first [where code = 200 and raw = "[]"])
       (simp_all add: reliable_env_def over_network_def serve_def require_api_key_def route_def
          svc_get_work_order_def fetch_order_def uuid_or_none_def find_order_def resolved_world_def
          resolve_row_def sample_order_def ok_codes_def is_write_def)
  have j: "cj_status (order_to_dict ?o) = Some ''resolved''" "cj_equipment_id (order_to_dict ?o) = Some (uuid_str 3)"
    by (simp_all add: order_to_dict_def resolve_row_def sample_order_def)
  show ?thesis
    using resolved_order_teaches_the_history [OF sample_uuid(4) f _ l(1) g j(1), where x = "\<lparr>av_operation = work_order_kind,
         av_description = [], av_reference = Some (uuid_str 5), av_outcome = ''succeeded'',
         av_detail = \<lparr>ad_product_key = None, ad_quantity = None, ad_priority = 1, ad_source_action = None,
           ad_response = None, ad_error = None\<rparr>, av_attempted_at = 0, av_completed_at = None\<rparr>" and xs = "[]"] j l
    by auto
qed

end
