(* ===== verification/Llm.thy ===== *)
theory Llm
  imports EventBus
begin

text \<open>
  The interface to the language model (\<open>app/core/llm_client.py\<close>) and the cost of a call
  (\<open>app/core/observability.py\<close>).  The model itself is a parameter wherever an agent calls it:
  a function from the number of the call and what is sent to the response or the exception.
\<close>

section \<open>Rounding\<close>

text \<open>\<open>round(x, n)\<close>: the nearest multiple of \<open>10\<^sup>-\<^sup>n\<close>, ties to the even one.\<close>

definition half_even :: "real \<Rightarrow> int" where
  "half_even y =
     (let f = \<lfloor>y\<rfloor>; r = y - of_int f
      in if r < 1/2 then f else if r > 1/2 then f + 1 else if even f then f else f + 1)"

definition py_round :: "nat \<Rightarrow> real \<Rightarrow> real" where
  "py_round n x = of_int (half_even (x * 10 ^ n)) / 10 ^ n"

lemma half_even_near: "\<bar>of_int (half_even y) - y\<bar> \<le> 1/2"
  unfolding half_even_def Let_def by (auto split: if_splits)

lemma half_even_mono: "x \<le> y \<Longrightarrow> half_even x \<le> half_even y"
proof -
  assume le: "x \<le> y"
  show ?thesis
  proof (cases "\<lfloor>x\<rfloor> = \<lfloor>y\<rfloor>")
    case True
    with le show ?thesis by (simp add: half_even_def Let_def)
  next
    case False
    with le have "\<lfloor>x\<rfloor> + 1 \<le> \<lfloor>y\<rfloor>" using floor_mono [OF le] by linarith
    then show ?thesis by (simp add: half_even_def Let_def)
  qed
qed

lemma half_even_int: "half_even (of_int n) = n"
  by (simp add: half_even_def)

lemma py_round_mono: "x \<le> y \<Longrightarrow> py_round n x \<le> py_round n y"
  unfolding py_round_def by (intro divide_right_mono) (auto intro: half_even_mono mult_right_mono)

lemma py_round_nonneg: "0 \<le> x \<Longrightarrow> 0 \<le> py_round n x"
  using py_round_mono [of 0 x n] half_even_int [of 0] by (simp add: py_round_def)

text \<open>\<open>int(x)\<close> of a float cuts towards zero.\<close>

definition py_trunc :: "real \<Rightarrow> int" where
  "py_trunc x = (if 0 \<le> x then \<lfloor>x\<rfloor> else \<lceil>x\<rceil>)"

lemma py_trunc_nonneg: "0 \<le> x \<Longrightarrow> 0 \<le> py_trunc x"
  by (simp add: py_trunc_def)

section \<open>Responses\<close>

record tool_call =
  tc_id :: string
  tc_name :: string
  tc_arguments :: "(string \<times> string) list"

text \<open>The token counts of a response; a key that is missing is \<open>None\<close>.\<close>

record llm_usage =
  us_prompt :: "int option"
  us_completion :: "int option"
  us_total :: "int option"

record llm_response =
  lr_content :: string
  lr_tool_calls :: "tool_call list"
  lr_model :: string
  lr_usage :: llm_usage

definition dict_get :: "string \<Rightarrow> string \<Rightarrow> (string \<times> string) list \<Rightarrow> string" where
  "dict_get k dflt kv = (case map_of kv k of None \<Rightarrow> dflt | Some v \<Rightarrow> v)"

section \<open>Cost\<close>

record cost_rates =
  cr_input :: real
  cr_output :: real

definition default_cost_per_1m :: "(string \<times> cost_rates) list" where
  "default_cost_per_1m =
     [(''llama-3.3-70b-versatile'', \<lparr>cr_input = 0.05, cr_output = 0.10\<rparr>),
      (''llama-3.1-8b'', \<lparr>cr_input = 0.01, cr_output = 0.03\<rparr>),
      (''llama-3.1-405b'', \<lparr>cr_input = 0.70, cr_output = 0.70\<rparr>),
      (''default'', \<lparr>cr_input = 0.05, cr_output = 0.10\<rparr>)]"

definition default_rates :: cost_rates where
  "default_rates = \<lparr>cr_input = 0.05, cr_output = 0.10\<rparr>"

text \<open>
  The two environment variables override the table only together (here already parsed).
\<close>

definition cost_rates_for :: "real option \<Rightarrow> real option \<Rightarrow> string \<Rightarrow> cost_rates" where
  "cost_rates_for flat_input flat_output model =
     (case (flat_input, flat_output) of
        (Some i, Some j) \<Rightarrow> \<lparr>cr_input = i, cr_output = j\<rparr>
      | _ \<Rightarrow> (case map_of default_cost_per_1m model of Some r \<Rightarrow> r | None \<Rightarrow> default_rates))"

definition token_split :: "llm_usage \<Rightarrow> real \<times> real" where
  "token_split u =
     (let prompt = or_int (us_prompt u) 0; completion = or_int (us_completion u) 0
      in if prompt = 0 \<and> completion = 0 then
           (let total = (case us_total u of None \<Rightarrow> 0 | Some n \<Rightarrow> of_int n) in (total * 0.8, total * 0.2))
         else (of_int prompt, of_int completion))"

definition estimate_cost_usd :: "real option \<Rightarrow> real option \<Rightarrow> string \<Rightarrow> llm_usage \<Rightarrow> real" where
  "estimate_cost_usd flat_input flat_output model u =
     (let rates = cost_rates_for flat_input flat_output model;
          (prompt, completion) = token_split u
      in py_round 8 (prompt / 1000000 * cr_input rates + completion / 1000000 * cr_output rates))"

end
