(* ===== verification/Scoring.thy ===== *)
theory Scoring
  imports Llm
begin

text \<open>
  Anomaly scoring and correlation (\<open>app/agents/detection/scoring.py\<close>): pure functions on
  readings.  Floats are exact reals.  A time from a stream entry is aware of its zone or naive;
  Python refuses to compare or subtract the two kinds, which is the only exception of this module.
\<close>

section \<open>Readings\<close>

record reading =
  rg_sensor_id :: string
  rg_equipment_id :: string
  rg_sensor_type :: string
  rg_value :: real
  rg_unit :: string
  rg_occurred_at :: time
  rg_aware :: bool

record baseline =
  bl_mean :: real
  bl_sigma :: real

record thresholds =
  th_min :: real
  th_max :: real

record scored =
  sd_reading :: reading
  sd_anomalous :: bool
  sd_static :: bool
  sd_drift :: bool
  sd_margin :: "real option"
  sd_z :: "real option"
  sd_reason :: string

section \<open>The rolling baseline\<close>

definition mean_of :: "real list \<Rightarrow> real" where
  "mean_of xs = sum_list xs / real (length xs)"

definition pvariance :: "real list \<Rightarrow> real" where
  "pvariance xs = sum_list (map (\<lambda>x. (x - mean_of xs)\<^sup>2) xs) / real (length xs)"

definition compute_baseline :: "real list \<Rightarrow> baseline" where
  "compute_baseline xs =
     (if xs = [] then \<lparr>bl_mean = 0, bl_sigma = 0\<rparr>
      else (let mean = mean_of xs;
                sigma = (if 2 \<le> length xs then sqrt (pvariance xs) else 0);
                floor = 1 / 1000 * max 1 \<bar>mean\<bar>
            in \<lparr>bl_mean = mean, bl_sigma = max sigma floor\<rparr>))"

section \<open>One reading\<close>

text \<open>\<open>f"{x:.1f}"\<close> of a number that is not negative.\<close>

definition fmt_tenths :: "real \<Rightarrow> string" where
  "fmt_tenths x =
     (let n = nat (half_even (10 * x)) in nat_str (n div 10) @ ''.'' @ nat_str (n mod 10))"

definition score_reading :: "reading \<Rightarrow> thresholds \<Rightarrow> baseline \<Rightarrow> real \<Rightarrow> real \<Rightarrow> scored" where
  "score_reading rd th bl static_z drift_z =
     (let band0 = th_max th - th_min th;
          band = (if band0 \<le> 0 then max (max \<bar>th_min th\<bar> \<bar>th_max th\<bar>) 1 else band0);
          overshoot = (if rg_value rd < th_min th then th_min th - rg_value rd
                       else if rg_value rd > th_max th then rg_value rd - th_max th else 0);
          margin = (if overshoot > 0 then Some (overshoot / band) else None);
          static = (case margin of None \<Rightarrow> False | Some m \<Rightarrow> m > static_z);
          z = (if bl_sigma bl > 0 then Some (\<bar>rg_value rd - bl_mean bl\<bar> / bl_sigma bl) else None);
          drift = (case z of None \<Rightarrow> False | Some x \<Rightarrow> x > drift_z);
          reasons = (if static then [''outside normal band by '' @ fmt_tenths (100 * the margin) @ ''%''] else []) @
                    (if drift then [''drifting from own baseline ('' @ fmt_tenths (the z) @ '' sigma)''] else [])
      in \<lparr>sd_reading = rd, sd_anomalous = (static \<or> drift), sd_static = static, sd_drift = drift,
          sd_margin = margin, sd_z = z, sd_reason = py_join ''; '' reasons\<rparr>)"

section \<open>Correlation\<close>

record observation =
  ob_equipment_id :: string
  ob_sensor_id :: string
  ob_sensor_type :: string
  ob_observed_at :: time
  ob_aware :: bool
  ob_value :: real
  ob_unit :: string
  ob_reason :: string
  ob_margin :: "real option"
  ob_z :: "real option"

record correlated =
  co_equipment_id :: string
  co_sensors :: "observation list"

text \<open>\<open>(a - b).total_seconds() <= s\<close>.\<close>

definition close_in_time :: "real \<Rightarrow> time \<Rightarrow> time \<Rightarrow> bool" where
  "close_in_time s a b \<longleftrightarrow> of_int (a - b) / 1000000 \<le> s"

text \<open>The clusters of a sorted list: a gap of more than the window starts a new one.\<close>

fun cluster_from :: "real \<Rightarrow> observation list \<Rightarrow> observation list \<Rightarrow> observation list list" where
  "cluster_from win cur [] = [cur]"
| "cluster_from win cur (o1 # os) =
     (if close_in_time win (ob_observed_at o1) (ob_observed_at (last cur)) then cluster_from win (cur @ [o1]) os
      else cur # cluster_from win [o1] os)"

fun clusters :: "real \<Rightarrow> observation list \<Rightarrow> observation list list" where
  "clusters win [] = []"
| "clusters win (o1 # os) = cluster_from win [o1] os"

definition of_equipment :: "string \<Rightarrow> observation list \<Rightarrow> observation list" where
  "of_equipment e os = filter (\<lambda>x. ob_equipment_id x = e) os"

definition freshest_cluster :: "real \<Rightarrow> string \<Rightarrow> observation list \<Rightarrow> observation list" where
  "freshest_cluster win e os = last (clusters win (sort_key ob_observed_at (of_equipment e os)))"

definition correlated_of ::
  "real \<Rightarrow> real \<Rightarrow> time \<Rightarrow> observation list \<Rightarrow> string \<Rightarrow> correlated option" where
  "correlated_of win max_gap now os e =
     (let fresh = freshest_cluster win e os
      in if close_in_time max_gap now (ob_observed_at (last fresh))
         then Some \<lparr>co_equipment_id = e, co_sensors = fresh\<rparr> else None)"

text \<open>
  \<open>by_equipment\<close> has the equipments in the order of their first observation.  A naive time
  among the observations raises: in the sort when it is compared with an aware one, and at the
  latest when its age is taken against the aware current time.
\<close>

definition equipments :: "observation list \<Rightarrow> string list" where
  "equipments os = rev (remdups (rev (map ob_equipment_id os)))"

definition naive_error :: exc where
  "naive_error = TypeError ''can't subtract offset-naive and offset-aware datetimes''"

definition correlate_anomalies ::
  "observation list \<Rightarrow> real \<Rightarrow> real \<Rightarrow> time \<Rightarrow> correlated list result" where
  "correlate_anomalies os win max_gap now =
     (if list_all ob_aware os then Inr (List.map_filter (correlated_of win max_gap now os) (equipments os))
      else Inl naive_error)"

section \<open>Severity\<close>

definition severity_from_score :: "real option list \<Rightarrow> real option list \<Rightarrow> string" where
  "severity_from_score margins drift_scores =
     (let worst = worst_of (worst_of 0 (map (map_option (\<lambda>m. m / 0.5)) margins))
                    (map (map_option (\<lambda>z. z / 10)) drift_scores)
      in if worst \<ge> 1 then ''high'' else if worst \<ge> 3 / 10 then ''medium'' else ''low'')"

section \<open>Facts on the baseline\<close>

lemma sum_list_square_le:
  fixes xs :: "real list"
  shows "(sum_list xs)\<^sup>2 \<le> real (length xs) * sum_list (map (\<lambda>x. x\<^sup>2) xs)"
proof (induction xs)
  case (Cons a xs)
  let ?k = "real (length xs)" and ?s = "sum_list xs" and ?q = "sum_list (map (\<lambda>x. x\<^sup>2) xs)"
  have q: "0 \<le> ?q" by (rule sum_list_nonneg) auto
  have "2 * a * ?s \<le> ?k * a\<^sup>2 + ?q"
  proof (cases "length xs = 0")
    case False
    then have k: "0 < ?k" by simp
    have "2 * ?k * a * ?s \<le> ?k\<^sup>2 * a\<^sup>2 + ?s\<^sup>2"
      using zero_le_power2 [of "?k * a - ?s"] by (simp add: power2_eq_square algebra_simps)
    also have "\<dots> \<le> ?k\<^sup>2 * a\<^sup>2 + ?k * ?q" using Cons by simp
    also have "\<dots> = ?k * (?k * a\<^sup>2 + ?q)" by (simp add: power2_eq_square algebra_simps)
    finally have "?k * (2 * a * ?s) \<le> ?k * (?k * a\<^sup>2 + ?q)" by (simp add: algebra_simps)
    with k show ?thesis by simp
  qed simp
  with Cons show ?case by (simp add: power2_eq_square algebra_simps)
qed simp

lemma sum_list_minus_const:
  fixes xs :: "real list"
  shows "sum_list (map (\<lambda>x. x - c) xs) = sum_list xs - real (length xs) * c"
  by (induction xs) (simp_all add: algebra_simps)

lemma deviation_of_the_first:
  "real (length (v # old)) * (v - mean_of (v # old))\<^sup>2 \<le>
     real (length old) * sum_list (map (\<lambda>x. (x - mean_of (v # old))\<^sup>2) (v # old))"
proof -
  let ?m = "mean_of (v # old)" and ?n = "real (length old)"
  let ?q = "sum_list (map (\<lambda>x. (x - ?m)\<^sup>2) old)"
  have "real (length (v # old)) * ?m = sum_list (v # old)" by (simp add: mean_of_def)
  then have "sum_list (map (\<lambda>x. x - ?m) old) = - (v - ?m)"
    by (simp add: sum_list_minus_const algebra_simps)
  then have "(v - ?m)\<^sup>2 \<le> ?n * ?q"
    using sum_list_square_le [of "map (\<lambda>x. x - ?m) old"] by (simp add: o_def power2_commute)
  then show ?thesis by (simp add: algebra_simps)
qed

text \<open>Samuelson's inequality for the value the baseline was just extended with.\<close>

lemma z_bounded:
  assumes "sd_z (score_reading rd th (compute_baseline (rg_value rd # old)) static_z drift_z) = Some z"
  shows "z \<le> sqrt (real (length old))"
proof (cases "old = []")
  case True
  with assms show ?thesis
    by (auto simp: score_reading_def compute_baseline_def mean_of_def Let_def split: if_splits)
next
  case False
  let ?xs = "rg_value rd # old" and ?v = "rg_value rd"
  let ?b = "compute_baseline ?xs"
  have z: "0 < bl_sigma ?b" "z = \<bar>?v - mean_of ?xs\<bar> / bl_sigma ?b"
    using assms by (auto simp: score_reading_def Let_def compute_baseline_def split: if_splits)
  have sig: "sqrt (pvariance ?xs) \<le> bl_sigma ?b"
    using False by (simp add: compute_baseline_def Let_def Suc_le_eq)
  have n: "0 < real (length ?xs)" by simp
  have "(?v - mean_of ?xs)\<^sup>2 \<le> real (length old) * pvariance ?xs"
    using deviation_of_the_first [of ?v old] n
    unfolding pvariance_def by (simp add: field_simps)
  then have "sqrt ((?v - mean_of ?xs)\<^sup>2) \<le> sqrt (real (length old) * pvariance ?xs)" by (rule real_sqrt_le_mono)
  then have "\<bar>?v - mean_of ?xs\<bar> \<le> sqrt (real (length old)) * sqrt (pvariance ?xs)"
    by (simp add: real_sqrt_mult)
  also have "\<dots> \<le> sqrt (real (length old)) * bl_sigma ?b" using sig by (simp add: mult_left_mono)
  finally have "z * bl_sigma ?b \<le> sqrt (real (length old)) * bl_sigma ?b" using z by simp
  then show ?thesis using z(1) by (rule mult_right_le_imp_le)
qed

section \<open>Facts on the clusters\<close>

definition linked :: "real \<Rightarrow> observation list \<Rightarrow> bool" where
  "linked win os \<longleftrightarrow> successively (\<lambda>a b. close_in_time win (ob_observed_at b) (ob_observed_at a)) os"

lemma cluster_from_last:
  assumes "cur \<noteq> []" "linked win cur"
  shows "\<exists>pre. cur @ os = pre @ last (cluster_from win cur os) \<and> last (cluster_from win cur os) \<noteq> [] \<and>
     linked win (last (cluster_from win cur os)) \<and>
     (pre \<noteq> [] \<longrightarrow> \<not> close_in_time win (ob_observed_at (hd (last (cluster_from win cur os)))) (ob_observed_at (last pre)))"
  using assms
proof (induction os arbitrary: cur)
  case (Cons o1 os)
  have ne': "cluster_from win c os \<noteq> []" for c os by (induction os arbitrary: c) auto
  show ?case
  proof (cases "close_in_time win (ob_observed_at o1) (ob_observed_at (last cur))")
    case True
    have "linked win (cur @ [o1])"
      using Cons.prems True by (simp add: linked_def successively_append_iff)
    from Cons.IH [OF _ this] True show ?thesis by simp
  next
    case False
    have one: "linked win [o1]" by (simp add: linked_def)
    from Cons.IH [OF _ one] obtain pre where pre:
      "[o1] @ os = pre @ last (cluster_from win [o1] os)" "last (cluster_from win [o1] os) \<noteq> []"
      "linked win (last (cluster_from win [o1] os))"
      "pre \<noteq> [] \<longrightarrow> \<not> close_in_time win (ob_observed_at (hd (last (cluster_from win [o1] os)))) (ob_observed_at (last pre))"
      by auto
    have l: "last (cluster_from win cur (o1 # os)) = last (cluster_from win [o1] os)"
      using False ne' by simp
    have hd1: "pre = [] \<Longrightarrow> hd (last (cluster_from win [o1] os)) = o1"
      using pre(1) by (metis append_Cons append_Nil list.sel(1))
    show ?thesis unfolding l
    proof (intro exI [of _ "cur @ pre"] conjI impI)
      show "cur @ o1 # os = (cur @ pre) @ last (cluster_from win [o1] os)" using pre(1) by simp
      show "\<not> close_in_time win (ob_observed_at (hd (last (cluster_from win [o1] os)))) (ob_observed_at (last (cur @ pre)))"
        using pre(4) hd1 False by (cases "pre = []") auto
    qed (rule pre(2), rule pre(3))
  qed
qed (auto intro!: exI [of _ "[]"])

lemma clusters_last:
  assumes "os \<noteq> []"
  shows "\<exists>pre. os = pre @ last (clusters win os) \<and> last (clusters win os) \<noteq> [] \<and>
     linked win (last (clusters win os)) \<and>
     (pre \<noteq> [] \<longrightarrow> \<not> close_in_time win (ob_observed_at (hd (last (clusters win os)))) (ob_observed_at (last pre)))"
  using assms cluster_from_last [of "[hd os]" win "tl os"]
  by (cases os) (auto simp: linked_def)

lemma equipments_facts: "distinct (equipments os)" "set (equipments os) = ob_equipment_id ` set os"
  by (simp_all add: equipments_def)

text \<open>What one correlated group is: the linked end of the equipment's sorted observations.\<close>

definition is_group :: "real \<Rightarrow> real \<Rightarrow> time \<Rightarrow> observation list \<Rightarrow> correlated \<Rightarrow> bool" where
  "is_group win max_gap now os c \<longleftrightarrow>
     (\<exists>pre. sort_key ob_observed_at (of_equipment (co_equipment_id c) os) = pre @ co_sensors c \<and>
        co_sensors c \<noteq> [] \<and> linked win (co_sensors c) \<and>
        (pre \<noteq> [] \<longrightarrow> \<not> close_in_time win (ob_observed_at (hd (co_sensors c))) (ob_observed_at (last pre))) \<and>
        close_in_time max_gap now (ob_observed_at (last (co_sensors c))))"

lemma freshest_cluster_facts:
  assumes "e \<in> set (equipments os)"
  shows "\<exists>pre. sort_key ob_observed_at (of_equipment e os) = pre @ freshest_cluster win e os \<and>
     freshest_cluster win e os \<noteq> [] \<and> linked win (freshest_cluster win e os) \<and>
     (pre \<noteq> [] \<longrightarrow> \<not> close_in_time win (ob_observed_at (hd (freshest_cluster win e os))) (ob_observed_at (last pre)))"
proof -
  have "of_equipment e os \<noteq> []"
    using assms by (auto simp: equipments_facts of_equipment_def filter_empty_conv)
  then have "sort_key ob_observed_at (of_equipment e os) \<noteq> []"
    by (metis length_0_conv length_sort)
  from clusters_last [OF this] show ?thesis by (simp add: freshest_cluster_def)
qed

lemma correlated_of_group:
  assumes "e \<in> set (equipments os)" "correlated_of win max_gap now os e = Some c"
  shows "co_equipment_id c = e \<and> is_group win max_gap now os c"
  using assms(2) freshest_cluster_facts [OF assms(1), of win]
  by (auto simp: correlated_of_def is_group_def Let_def split: if_splits)

lemma map_filter_ids:
  "map co_equipment_id (List.map_filter (correlated_of win max_gap now os) es) =
     filter (\<lambda>e. correlated_of win max_gap now os e \<noteq> None) es"
  by (induction es) (auto simp: List.map_filter_def correlated_of_def Let_def)

lemma last_is_newest:
  assumes "sorted (map f xs)" "x \<in> set xs"
  shows "f x \<le> f (last xs)"
proof -
  have "xs \<noteq> []" using assms(2) by auto
  then obtain ys y where xs: "xs = ys @ [y]" by (metis rev_exhaust)
  with assms show ?thesis by (auto simp: sorted_append)
qed

lemma correlated_of_iff:
  assumes "e \<in> set (equipments os)"
  shows "correlated_of win max_gap now os e \<noteq> None \<longleftrightarrow>
    (\<exists>x\<in>set os. ob_equipment_id x = e \<and> close_in_time max_gap now (ob_observed_at x))"
proof -
  let ?s = "sort_key ob_observed_at (of_equipment e os)" and ?f = "freshest_cluster win e os"
  obtain pre where pre: "?s = pre @ ?f" "?f \<noteq> []" using freshest_cluster_facts [OF assms, of win] by blast
  then have l: "last ?f = last ?s" by (metis last_appendR)
  have mem: "last ?s \<in> set os \<and> ob_equipment_id (last ?s) = e"
  proof -
    have "?s \<noteq> []" using pre by (metis append_is_Nil_conv)
    then have "last ?s \<in> set ?s" by (rule last_in_set)
    then show ?thesis by (simp add: of_equipment_def)
  qed
  have mono: "close_in_time max_gap now (ob_observed_at (last ?s))"
    if "x \<in> set os" "ob_equipment_id x = e" "close_in_time max_gap now (ob_observed_at x)" for x
  proof -
    have "ob_observed_at x \<le> ob_observed_at (last ?s)"
      by (rule last_is_newest) (use that in \<open>simp_all add: of_equipment_def\<close>)
    then have "real_of_int (now - ob_observed_at (last ?s)) / 1000000 \<le> real_of_int (now - ob_observed_at x) / 1000000"
      by (simp add: divide_right_mono)
    with that(3) show ?thesis unfolding close_in_time_def by linarith
  qed
  show ?thesis using l mem mono by (auto simp: correlated_of_def Let_def)
qed

lemma Some_in_mapped:
  "Some x \<in> set (map (map_option f) ys) \<longleftrightarrow> (\<exists>y. Some y \<in> set ys \<and> x = f y)"
proof (induction ys)
  case (Cons a ys)
  then show ?case by (cases a) auto
qed simp

definition sample_reading :: "real \<Rightarrow> reading" where
  "sample_reading v =
     \<lparr>rg_sensor_id = uuid_str 5, rg_equipment_id = uuid_str 3, rg_sensor_type = ''temperature'',
      rg_value = v, rg_unit = ''degC'', rg_occurred_at = 0, rg_aware = True\<rparr>"

definition sample_band :: thresholds where
  "sample_band = \<lparr>th_min = 29, th_max = 32\<rparr>"

section \<open>Properties\<close>

text \<open>
  Because the baseline already contains the reading it judges, a drift score is at most the
  square root of the number of earlier readings: a reading is flagged for drifting only after more
  than \<open>drift_z\<^sup>2\<close> earlier readings of its sensor.
\<close>

theorem drift_needs_history:
  assumes "0 \<le> drift_z" "sd_drift (score_reading rd th (compute_baseline (rg_value rd # old)) static_z drift_z)"
  shows "drift_z\<^sup>2 < real (length old)"
proof -
  obtain z where z: "sd_z (score_reading rd th (compute_baseline (rg_value rd # old)) static_z drift_z) = Some z"
    "drift_z < z"
    using assms(2) by (auto simp: score_reading_def Let_def split: if_splits)
  with z_bounded [OF z(1)] have "drift_z < sqrt (real (length old))" by simp
  then have "drift_z\<^sup>2 < (sqrt (real (length old)))\<^sup>2" using assms(1) by (intro power_strict_mono) auto
  then show ?thesis by simp
qed

lemma drift_needs_history_witness:
  "sd_drift (score_reading (sample_reading 17) sample_band (compute_baseline (17 # replicate 16 0)) (1/20) 3) \<and>
   (3 :: real)\<^sup>2 < real 16"
proof
  have b: "compute_baseline (17 # replicate 16 0) = \<lparr>bl_mean = 1, bl_sigma = sqrt 16\<rparr>"
    by (simp add: compute_baseline_def mean_of_def pvariance_def sum_list_replicate)
  then show d: "sd_drift (score_reading (sample_reading 17) sample_band (compute_baseline (17 # replicate 16 0)) (1/20) 3)"
    by (simp add: score_reading_def sample_reading_def sample_band_def Let_def)
  show "(3 :: real)\<^sup>2 < real 16"
    using drift_needs_history [of 3 "sample_reading 17" sample_band "replicate 16 0" "1/20"] d
    by (simp add: sample_reading_def)
qed

text \<open>
  With the baseline window of the configuration, 40 readings, no drift is severe: sensors that
  only drift are at most \<open>medium\<close>, and \<open>high\<close> needs a reading at least half a band outside.
\<close>

theorem drift_alone_is_never_high:
  assumes "\<forall>x\<in>set scores. \<exists>rd th old. length old < 40 \<and>
      x = score_reading rd th (compute_baseline (rg_value rd # old)) static_z drift_z"
    and "severity_from_score (map sd_margin scores) (map sd_z scores) = ''high''"
  shows "\<exists>x\<in>set scores. \<exists>m. sd_margin x = Some m \<and> 1 / 2 \<le> m"
proof (rule ccontr)
  assume no: "\<not> ?thesis"
  have m: "m / (1 / 2) < 1" if "Some m \<in> set (map sd_margin scores)" for m
  proof -
    from that obtain x where "x \<in> set scores" "sd_margin x = Some m" by auto
    with no show ?thesis by (auto simp: not_le)
  qed
  have z: "z / 10 < 1" if z: "Some z \<in> set (map sd_z scores)" for z
  proof -
    from z assms(1) obtain rd th old where o: "length old < 40"
      "sd_z (score_reading rd th (compute_baseline (rg_value rd # old)) static_z drift_z) = Some z" by fastforce
    have "z \<le> sqrt (real (length old))" by (rule z_bounded [OF o(2)])
    also have "\<dots> \<le> sqrt (7 * 7)" using o(1) by (intro real_sqrt_le_mono) linarith
    finally show ?thesis by simp
  qed
  from assms(2) have "1 \<le> worst_of (worst_of 0 (map (map_option (\<lambda>m. m / 0.5)) (map sd_margin scores)))
                    (map (map_option (\<lambda>z. z / 10)) (map sd_z scores))"
    by (auto simp: severity_from_score_def Let_def split: if_splits)
  then have "(\<exists>m. Some m \<in> set (map sd_margin scores) \<and> 1 \<le> m / (1/2)) \<or>
      (\<exists>z. Some z \<in> set (map sd_z scores) \<and> 1 \<le> z / 10)"
    unfolding worst_of_ge_iff Some_in_mapped by auto
  with m z show False by (meson not_le)
qed

lemma drift_alone_is_never_high_witness:
  "\<exists>m. sd_margin (score_reading (sample_reading 36) sample_band (compute_baseline [36]) (1/20) 3) = Some m \<and> 1 / 2 \<le> m"
proof -
  let ?x = "score_reading (sample_reading 36) sample_band (compute_baseline [36]) (1/20) 3"
  have "severity_from_score (map sd_margin [?x]) (map sd_z [?x]) = ''high''"
    by (simp add: score_reading_def sample_reading_def sample_band_def compute_baseline_def mean_of_def Let_def
        severity_from_score_def)
  moreover have "\<forall>x\<in>set [?x]. \<exists>rd th old. length old < 40 \<and>
      x = score_reading rd th (compute_baseline (rg_value rd # old)) (1/20) 3"
    by (auto intro!: exI [of _ "sample_reading 36"] exI [of _ sample_band] exI [of _ "[]"] simp: sample_reading_def)
  ultimately show ?thesis using drift_alone_is_never_high [of "[?x]" "1/20" 3] by auto
qed

definition sample_observation :: "time \<Rightarrow> observation" where
  "sample_observation tm =
     \<lparr>ob_equipment_id = ''pump'', ob_sensor_id = ''s'', ob_sensor_type = ''pressure'', ob_observed_at = tm,
      ob_aware = True, ob_value = 12, ob_unit = ''bar'', ob_reason = [], ob_margin = Some (1/5), ob_z = None\<rparr>"

text \<open>
  C37. Correlation puts into one group exactly the newest observations of an equipment that are
  linked by gaps of at most the window, provided the newest of all is recent enough; there is at
  most one group for an equipment, one for each that has a recent observation, and a single naive
  time in the buffer makes the whole computation raise.
\<close>

theorem correlation_groups_by_gaps:
  "(case correlate_anomalies os win max_gap now of
      Inl e \<Rightarrow> e = naive_error \<and> (\<exists>x\<in>set os. \<not> ob_aware x)
    | Inr cs \<Rightarrow> (\<forall>x\<in>set os. ob_aware x) \<and> distinct (map co_equipment_id cs) \<and>
        (\<forall>c\<in>set cs. is_group win max_gap now os c) \<and>
        co_equipment_id ` set cs =
          {ob_equipment_id x | x. x \<in> set os \<and> close_in_time max_gap now (ob_observed_at x)})"
proof (cases "list_all ob_aware os")
  case True
  let ?cs = "List.map_filter (correlated_of win max_gap now os) (equipments os)"
  have "distinct (map co_equipment_id ?cs)" by (simp add: map_filter_ids equipments_facts)
  moreover have "\<forall>c\<in>set ?cs. is_group win max_gap now os c"
    using correlated_of_group by (fastforce simp: List.map_filter_def)
  moreover have "co_equipment_id ` set ?cs = set (map co_equipment_id ?cs)" by simp
  moreover have "\<dots> = {ob_equipment_id x | x. x \<in> set os \<and> close_in_time max_gap now (ob_observed_at x)}"
  proof -
    have "e \<in> set (map co_equipment_id ?cs) \<longleftrightarrow>
        (\<exists>x\<in>set os. ob_equipment_id x = e \<and> close_in_time max_gap now (ob_observed_at x))" for e
      unfolding map_filter_ids using correlated_of_iff [of e os win max_gap now]
      by (auto simp: equipments_facts)
    then show ?thesis by (simp only: set_eq_iff mem_Collect_eq) blast
  qed
  ultimately show ?thesis using True by (simp add: correlate_anomalies_def list_all_iff)
next
  case False
  then show ?thesis by (auto simp: correlate_anomalies_def list_all_iff)
qed

theorem correlation_groups_by_gaps_witness:
  "case correlate_anomalies [sample_observation 0, sample_observation 60000000] 300 900 60000000 of
     Inl e \<Rightarrow> False
   | Inr cs \<Rightarrow> co_equipment_id ` set cs = {''pump''} \<and> (\<forall>c\<in>set cs. linked 300 (co_sensors c))"
proof -
  let ?os = "[sample_observation 0, sample_observation 60000000]"
  have ids: "{ob_equipment_id x | x. x \<in> set ?os \<and> close_in_time 900 60000000 (ob_observed_at x)} = {''pump''}"
    by (auto intro!: exI [of _ "sample_observation 0"] simp: sample_observation_def close_in_time_def)
  have aware: "\<not> (\<exists>x\<in>set ?os. \<not> ob_aware x)" by (simp add: sample_observation_def)
  show ?thesis
    using correlation_groups_by_gaps [of ?os 300 900 60000000] aware unfolding ids
    by (auto split: sum.splits simp: is_group_def)
qed

end
