(* ===== verification/Detection.thy ===== *)
theory Detection
  imports Scoring "HOL-Library.Char_ord" "HOL-Library.List_Lexorder"
begin

text \<open>
  The Detection Agent (\<open>app/agents/detection/agent.py\<close>): one entry of the reading stream is
  scored, recorded, correlated and, when it is anomalous, written into the open incident of its
  equipment or a new one.  Redis, the database and the bus fail where the environment says so.
  Of a stream entry the model has what \<open>float\<close> and \<open>datetime.fromisoformat\<close> make of
  its fields.
\<close>

section \<open>State, settings, environment\<close>

record sensor_meta =
  mt_equipment_id :: string
  mt_sensor_type :: string
  mt_unit :: string
  mt_min :: real
  mt_max :: real

record det_state =
  dt_registry :: "string \<Rightarrow> sensor_meta option"
  dt_baselines :: "string \<Rightarrow> real list"
  dt_buffer :: "observation list"
  dt_world :: world
  dt_dead :: "(string \<times> string \<times> summary) list"

record det_settings =
  dc_static_z :: real
  dc_drift_z :: real
  dc_window_size :: nat
  dc_correlation_window :: real
  dc_max_gap :: real
  dc_retry_attempts :: nat

record det_env =
  de_now :: time
  de_redis_fault :: "exc option"
  de_reading_fault :: "reading \<Rightarrow> exc option"
  de_db_fault :: "nat \<Rightarrow> exc option"
  de_bus_fault :: bus_faults

text \<open>A field \<open>timestamp\<close> as \<open>fromisoformat\<close> reads it.\<close>

datatype stamp = AwareTime time | NaiveTime time | NotATime

text \<open>
  A stream entry; a field that is missing is \<open>None\<close>, and so is a value \<open>float\<close> rejects.
\<close>

record stream_entry =
  sm_sensor_id :: "string option"
  sm_equipment_id :: "string option"
  sm_sensor_type :: "string option"
  sm_value :: "real option"
  sm_unit :: "string option"
  sm_timestamp :: "stamp option"

section \<open>The registry\<close>

definition meta_of :: "sensor_row \<Rightarrow> sensor_meta" where
  "meta_of r = \<lparr>mt_equipment_id = uuid_str (sn_equipment r), mt_sensor_type = sn_type r,
     mt_unit = sn_unit r, mt_min = sn_min r, mt_max = sn_max r\<rparr>"

definition load_sensor_registry :: "det_state \<Rightarrow> det_state" where
  "load_sensor_registry s =
     s\<lparr>dt_registry := map_of (rev (map (\<lambda>r. (uuid_str (sn_id r), meta_of r)) (db_sensors (w_db (dt_world s)))))\<rparr>"

definition thresholds_of :: "sensor_meta \<Rightarrow> thresholds" where
  "thresholds_of m = \<lparr>th_min = mt_min m, th_max = mt_max m\<rparr>"

section \<open>Reading one entry\<close>

record decoded =
  dd_sensor_id :: string
  dd_value :: real
  dd_unit :: string
  dd_timestamp :: stamp

definition decode :: "stream_entry \<Rightarrow> decoded option" where
  "decode f =
     (case (sm_sensor_id f, sm_equipment_id f, sm_sensor_type f, sm_value f, sm_unit f, sm_timestamp f) of
        (Some i, Some _, Some _, Some v, Some un, Some ts) \<Rightarrow>
          Some \<lparr>dd_sensor_id = i, dd_value = v, dd_unit = un, dd_timestamp = ts\<rparr>
      | _ \<Rightarrow> None)"

definition parse_ts :: "time \<Rightarrow> stamp \<Rightarrow> time \<times> bool" where
  "parse_ts now s = (case s of AwareTime t \<Rightarrow> (t, True) | NaiveTime t \<Rightarrow> (t, False) | NotATime \<Rightarrow> (now, True))"

text \<open>LPUSH, LTRIM 0 n-1, LRANGE 0 n-1 of Redis, for which an end of -1 is the last element.\<close>

definition first_of :: "nat \<Rightarrow> 'a list \<Rightarrow> 'a list" where
  "first_of n xs = (if n = 0 then xs else take n xs)"

definition update_baseline ::
  "det_settings \<Rightarrow> det_env \<Rightarrow> string \<Rightarrow> real \<Rightarrow> det_state \<Rightarrow> baseline result \<times> det_state" where
  "update_baseline cfg env i v s =
     (case de_redis_fault env of
        Some e \<Rightarrow> (Inl e, s)
      | None \<Rightarrow>
          (let vs = first_of (dc_window_size cfg) (v # dt_baselines s i)
           in (Inr (compute_baseline vs), s\<lparr>dt_baselines := (dt_baselines s)(i := vs)\<rparr>)))"

text \<open>The key of a baseline expires when no reading arrives for an hour.\<close>

definition expire_baseline :: "string \<Rightarrow> det_state \<Rightarrow> det_state" where
  "expire_baseline i s = s\<lparr>dt_baselines := (dt_baselines s)(i := [])\<rparr>"

definition set_db :: "db \<Rightarrow> det_state \<Rightarrow> det_state" where
  "set_db d s = s\<lparr>dt_world := (dt_world s)\<lparr>w_db := d\<rparr>\<rparr>"

definition det_db :: "det_state \<Rightarrow> db" where
  "det_db s = w_db (dt_world s)"

text \<open>Best effort: a failure to store a reading is logged.\<close>

definition persist_reading :: "det_env \<Rightarrow> reading \<Rightarrow> det_state \<Rightarrow> det_state" where
  "persist_reading env rd s =
     (case (de_reading_fault env rd, parse_uuid (rg_sensor_id rd)) of
        (None, Some u) \<Rightarrow>
          set_db ((det_db s)\<lparr>db_readings := db_readings (det_db s) @
            [\<lparr>rd_sensor = u, rd_value = rg_value rd, rd_occurred_at = rg_occurred_at rd\<rparr>]\<rparr>) s
      | _ \<Rightarrow> s)"

section \<open>From a correlated group to an incident\<close>

definition sensor_payload :: "(string \<Rightarrow> sensor_meta option) \<Rightarrow> observation \<Rightarrow> sensor_entry" where
  "sensor_payload reg x =
     \<lparr>se_sensor_id = ob_sensor_id x, se_sensor_type = Some (ob_sensor_type x), se_value = ob_value x,
      se_unit = ob_unit x, se_observed_at = Some (ob_observed_at x), se_reason = Some (ob_reason x),
      se_static_margin = map_option (py_round 4) (ob_margin x),
      se_drift_z = map_option (py_round 2) (ob_z x),
      se_normal_min = map_option mt_min (reg (ob_sensor_id x)),
      se_normal_max = map_option mt_max (reg (ob_sensor_id x))\<rparr>"

definition correlated_summary :: "time \<Rightarrow> string \<Rightarrow> sensor_entry list \<Rightarrow> summary" where
  "correlated_summary now e xs =
     \<lparr>su_equipment_id = e, su_detected_at = now, su_sensor_count = length xs, su_sensors = xs\<rparr>"

text \<open>
  The freshest observation of each sensor, in the order the sensors were first seen: a later one
  replaces the kept one when it is newer.
\<close>

definition newer :: "observation \<Rightarrow> observation list \<Rightarrow> observation list" where
  "newer x kept =
     (if ob_sensor_id x \<notin> ob_sensor_id ` set kept then kept @ [x]
      else map (\<lambda>y. if ob_sensor_id y = ob_sensor_id x \<and> ob_observed_at x > ob_observed_at y then x else y) kept)"

definition freshest :: "observation list \<Rightarrow> observation list" where
  "freshest os = fold newer os []"

text \<open>\<open>sorted({...})\<close>: the distinct sensor types in the order of their code points.\<close>

definition incident_name :: "summary \<Rightarrow> string" where
  "incident_name su =
     ''Multi-sensor anomaly ('' @
     py_join '', '' (sort (remdups (map (\<lambda>x. or_str (se_sensor_type x) []) (su_sensors su)))) @ '')''"

text \<open>The newest incident of the equipment that is not resolved.\<close>

definition unresolved_incident :: "uuid \<Rightarrow> db \<Rightarrow> incident option" where
  "unresolved_incident e d =
     (case sort_key (\<lambda>r. - inc_detected_at r)
             (filter (\<lambda>r. inc_equipment r = e \<and> inc_status r \<noteq> Resolved) (db_incidents d)) of
        [] \<Rightarrow> None
      | r # _ \<Rightarrow> Some r)"

definition equipment_site :: "uuid \<Rightarrow> db \<Rightarrow> uuid option" where
  "equipment_site e d = map_option eq_site (find (\<lambda>r. eq_id r = e) (db_equipment d))"

definition new_incident :: "uuid \<Rightarrow> uuid \<Rightarrow> uuid \<Rightarrow> string \<Rightarrow> summary \<Rightarrow> time \<Rightarrow> incident" where
  "new_incident i site e severity su t =
     \<lparr>inc_id = i, inc_name = incident_name su, inc_site = site, inc_equipment = e, inc_status = Open,
      inc_severity = severity, inc_detected_at = t, inc_summary = Some su, inc_evidence = None,
      inc_root_cause = None, inc_confidence = None, inc_cited = None, inc_risk_severity = None,
      inc_consequences = None, inc_hitl_level = None, inc_required_level = None, inc_actions = None,
      inc_rationale = None, inc_tool_log = None, inc_risk_assessed_at = None, inc_recommended_at = None,
      inc_action_executed_at = None, inc_resolved_at = None, inc_created_at = t, inc_updated_at = t,
      inc_cost = None\<rparr>"

text \<open>
  One transaction of \<open>_upsert_incident\<close>; an equipment that is not in its table has no site,
  which the column does not allow.
\<close>

definition upsert_once :: "string \<Rightarrow> string \<Rightarrow> summary \<Rightarrow> time \<Rightarrow> db \<Rightarrow> string result \<times> db" where
  "upsert_once equipment severity su t d =
     (case parse_uuid equipment of
        None \<Rightarrow> (Inl bad_uuid, d)
      | Some e \<Rightarrow>
          (case unresolved_incident e d of
             Some r \<Rightarrow>
               (Inr (uuid_str (inc_id r)),
                update_incident (inc_id r)
                  (\<lambda>x. x\<lparr>inc_summary := Some su, inc_severity := severity, inc_updated_at := t\<rparr>) d)
           | None \<Rightarrow>
               (case equipment_site e d of
                  None \<Rightarrow> (Inl (OtherError ''NotNullViolationError''), d)
                | Some site \<Rightarrow>
                    (Inr (uuid_str (next_id d)),
                     d\<lparr>db_incidents := db_incidents d @ [new_incident (next_id d) site e severity su t],
                       next_id := Suc (next_id d)\<rparr>))))"

fun upsert_from ::
  "det_env \<Rightarrow> nat \<Rightarrow> nat \<Rightarrow> string \<Rightarrow> string \<Rightarrow> summary \<Rightarrow> string \<Rightarrow> db \<Rightarrow> string result \<times> db" where
  "upsert_from env 0 k equipment severity su msg d = (Inl (RuntimeError msg), d)"
| "upsert_from env (Suc n) k equipment severity su msg d =
     (case de_db_fault env k of
        Some e \<Rightarrow> upsert_from env n (Suc k) equipment severity su msg d
      | None \<Rightarrow>
          (case upsert_once equipment severity su (de_now env) d of
             (Inr i, d') \<Rightarrow> (Inr i, d')
           | (Inl e, d') \<Rightarrow> upsert_from env n (Suc k) equipment severity su msg d'))"

definition upsert_incident ::
  "det_settings \<Rightarrow> det_env \<Rightarrow> string \<Rightarrow> string \<Rightarrow> summary \<Rightarrow> db \<Rightarrow> string result \<times> db" where
  "upsert_incident cfg env equipment severity su d =
     upsert_from env (dc_retry_attempts cfg) 1 equipment severity su
       (''Incident write failed after '' @ nat_str (dc_retry_attempts cfg) @ '' attempts'') d"

text \<open>The event carries four keys of each sensor.\<close>

definition event_sensor :: "sensor_entry \<Rightarrow> sensor_entry" where
  "event_sensor x =
     \<lparr>se_sensor_id = se_sensor_id x, se_sensor_type = se_sensor_type x, se_value = se_value x,
      se_unit = se_unit x, se_observed_at = None, se_reason = None, se_static_margin = None,
      se_drift_z = None, se_normal_min = None, se_normal_max = None\<rparr>"

definition anomaly_event_of :: "string \<Rightarrow> summary \<Rightarrow> string \<Rightarrow> bus_event" where
  "anomaly_event_of i su severity =
     AnomalyDetected \<lparr>an_incident = Some i, an_equipment = Some (su_equipment_id su),
       an_severity = Some severity, an_summary = None, an_sensors = Some (map event_sensor (su_sensors su))\<rparr>"

definition persist_incident ::
  "det_settings \<Rightarrow> det_env \<Rightarrow> correlated \<Rightarrow> det_state \<Rightarrow> det_state" where
  "persist_incident cfg env c s =
     (let fresh = freshest (co_sensors c);
          severity = severity_from_score (map ob_margin fresh) (map ob_z fresh);
          su = correlated_summary (de_now env) (co_equipment_id c) (map (sensor_payload (dt_registry s)) fresh);
          dead = (\<lambda>s. s\<lparr>dt_dead := dt_dead s @ [(co_equipment_id c, severity, su)]\<rparr>)
      in case upsert_incident cfg env (co_equipment_id c) severity su (det_db s) of
           (Inl e, d) \<Rightarrow> dead (set_db d s)
         | (Inr i, d) \<Rightarrow>
             (case publish (de_bus_fault env) (anomaly_event_of i su severity) (dt_world (set_db d s)) of
                (Inl e, w) \<Rightarrow> dead (set_db d s\<lparr>dt_world := w\<rparr>)
              | (Inr _, w) \<Rightarrow> set_db d s\<lparr>dt_world := w\<rparr>))"

section \<open>One stream entry\<close>

text \<open>
  \<open>_prune_buffer\<close>: a naive time counts as local time, which is UTC in the container.
\<close>

definition prune_buffer :: "det_settings \<Rightarrow> time \<Rightarrow> observation list \<Rightarrow> observation list" where
  "prune_buffer cfg now os =
     filter (\<lambda>x. of_int (ob_observed_at x) / 1000000 > of_int now / 1000000 - dc_max_gap cfg * 3) os"

definition observation_of :: "scored \<Rightarrow> sensor_meta \<Rightarrow> observation" where
  "observation_of sc m =
     \<lparr>ob_equipment_id = mt_equipment_id m, ob_sensor_id = rg_sensor_id (sd_reading sc),
      ob_sensor_type = mt_sensor_type m, ob_observed_at = rg_occurred_at (sd_reading sc),
      ob_aware = rg_aware (sd_reading sc), ob_value = rg_value (sd_reading sc), ob_unit = mt_unit m,
      ob_reason = sd_reason sc, ob_margin = sd_margin sc, ob_z = sd_z sc\<rparr>"

definition register_anomaly ::
  "det_settings \<Rightarrow> det_env \<Rightarrow> scored \<Rightarrow> sensor_meta \<Rightarrow> det_state \<Rightarrow> unit result \<times> det_state" where
  "register_anomaly cfg env sc m s =
     (let s1 = s\<lparr>dt_buffer := prune_buffer cfg (de_now env) (dt_buffer s @ [observation_of sc m])\<rparr> in
      case correlate_anomalies (dt_buffer s1) (dc_correlation_window cfg) (dc_max_gap cfg) (de_now env) of
        Inl e \<Rightarrow> (Inl e, s1)
      | Inr cs \<Rightarrow>
          (Inr (), fold (persist_incident cfg env)
             (filter (\<lambda>c. co_equipment_id c = mt_equipment_id m) cs) s1))"

definition reading_of :: "det_env \<Rightarrow> decoded \<Rightarrow> sensor_meta \<Rightarrow> reading" where
  "reading_of env x m =
     \<lparr>rg_sensor_id = dd_sensor_id x, rg_equipment_id = mt_equipment_id m, rg_sensor_type = mt_sensor_type m,
      rg_value = dd_value x, rg_unit = dd_unit x, rg_occurred_at = fst (parse_ts (de_now env) (dd_timestamp x)),
      rg_aware = snd (parse_ts (de_now env) (dd_timestamp x))\<rparr>"

definition process_reading ::
  "det_settings \<Rightarrow> det_env \<Rightarrow> stream_entry \<Rightarrow> det_state \<Rightarrow> unit result \<times> det_state" where
  "process_reading cfg env f s =
     (case decode f of
        None \<Rightarrow> (Inr (), s)
      | Some x \<Rightarrow>
          (case dt_registry s (dd_sensor_id x) of
             None \<Rightarrow> (Inr (), s)
           | Some m \<Rightarrow>
               (let rd = reading_of env x m in
                case update_baseline cfg env (dd_sensor_id x) (rg_value rd) s of
                  (Inl e, s1) \<Rightarrow> (Inl e, s1)
                | (Inr bl, s1) \<Rightarrow>
                    (let s2 = persist_reading env rd s1;
                         sc = score_reading rd (thresholds_of m) bl (dc_static_z cfg) (dc_drift_z cfg)
                     in if sd_anomalous sc then register_anomaly cfg env sc m s2 else (Inr (), s2)))))"

text \<open>
  \<open>consume_forever\<close> over the entries of the stream: an exception is logged, and every entry is
  acknowledged, whether it was processed or not.
\<close>

fun consume ::
  "det_settings \<Rightarrow> (det_env \<times> string \<times> stream_entry) list \<Rightarrow> det_state \<Rightarrow> string list \<Rightarrow> det_state \<times> string list" where
  "consume cfg [] s acked = (s, acked)"
| "consume cfg ((env, mid, f) # rest) s acked =
     consume cfg rest (snd (process_reading cfg env f s)) (acked @ [mid])"

section \<open>One observation for each sensor\<close>

lemma newer_ids:
  "ob_sensor_id ` set (newer x kept) = insert (ob_sensor_id x) (ob_sensor_id ` set kept)"
  by (auto simp: newer_def image_iff split: if_splits)

lemma newer_map_ids:
  "map ob_sensor_id (newer x kept) =
     (if ob_sensor_id x \<in> ob_sensor_id ` set kept then map ob_sensor_id kept
      else map ob_sensor_id kept @ [ob_sensor_id x])"
  by (simp add: newer_def o_def cong: map_cong)

text \<open>What \<open>freshest\<close> is to a list of observations.\<close>

definition newest_each :: "observation list \<Rightarrow> observation list \<Rightarrow> bool" where
  "newest_each os kept \<longleftrightarrow>
     distinct (map ob_sensor_id kept) \<and> set kept \<subseteq> set os \<and>
     ob_sensor_id ` set kept = ob_sensor_id ` set os \<and>
     (\<forall>y\<in>set kept. \<forall>x\<in>set os. ob_sensor_id x = ob_sensor_id y \<longrightarrow> ob_observed_at x \<le> ob_observed_at y)"

lemma newest_each_snoc:
  assumes "newest_each os kept"
  shows "newest_each (os @ [x]) (newer x kept)"
proof -
  have "distinct (map ob_sensor_id (newer x kept))"
    using assms by (auto simp: newer_map_ids newest_each_def)
  moreover have "set (newer x kept) \<subseteq> set (os @ [x])"
    using assms by (auto simp: newer_def newest_each_def)
  moreover have "ob_sensor_id ` set (newer x kept) = ob_sensor_id ` set (os @ [x])"
    using assms by (simp add: newer_ids newest_each_def)
  moreover have "ob_observed_at z \<le> ob_observed_at y"
    if y: "y \<in> set (newer x kept)" and z: "z \<in> set (os @ [x])" "ob_sensor_id z = ob_sensor_id y" for y z
  proof (cases "ob_sensor_id x \<in> ob_sensor_id ` set kept")
    case False
    then have "ob_sensor_id x \<notin> ob_sensor_id ` set os" using assms by (simp add: newest_each_def)
    then have "z \<in> set os \<Longrightarrow> ob_sensor_id z \<noteq> ob_sensor_id x" by (metis image_eqI)
    with False y z assms show ?thesis by (auto simp: newer_def newest_each_def)
  next
    case True
    with y obtain y0 where y0: "y0 \<in> set kept"
      "y = (if ob_sensor_id y0 = ob_sensor_id x \<and> ob_observed_at x > ob_observed_at y0 then x else y0)"
      by (auto simp: newer_def)
    then have "ob_sensor_id y0 = ob_sensor_id y" "ob_observed_at y0 \<le> ob_observed_at y"
      "ob_sensor_id y = ob_sensor_id x \<Longrightarrow> ob_observed_at x \<le> ob_observed_at y" by (auto split: if_splits)
    with y0(1) z assms show ?thesis by (force simp: newest_each_def)
  qed
  ultimately show ?thesis by (simp add: newest_each_def)
qed

lemma freshest_newest: "newest_each os (freshest os)"
  unfolding freshest_def
proof (induction os rule: rev_induct)
  case Nil
  show ?case by (simp add: newest_each_def)
next
  case (snoc x xs)
  then show ?case by (simp add: newest_each_snoc)
qed

section \<open>One open incident for each equipment\<close>

definition open_of :: "uuid \<Rightarrow> db \<Rightarrow> incident list" where
  "open_of e d = filter (\<lambda>r. inc_equipment r = e \<and> inc_status r \<noteq> Resolved) (db_incidents d)"

lemma unresolved_iff:
  "unresolved_incident e d = None \<longleftrightarrow> open_of e d = []"
  "unresolved_incident e d = Some r \<Longrightarrow> r \<in> set (open_of e d)"
proof -
  have l: "sort_key (\<lambda>r. - inc_detected_at r) (open_of e d) = [] \<longleftrightarrow> open_of e d = []"
    by (metis length_0_conv length_sort)
  show "unresolved_incident e d = None \<longleftrightarrow> open_of e d = []"
    unfolding unresolved_incident_def open_of_def [symmetric] using l by (auto split: list.split)
  assume "unresolved_incident e d = Some r"
  then obtain rest where "sort_key (\<lambda>r. - inc_detected_at r) (open_of e d) = r # rest"
    unfolding unresolved_incident_def open_of_def [symmetric] by (auto split: list.splits)
  then show "r \<in> set (open_of e d)" by (metis list.set_intros(1) set_sort)
qed

text \<open>
  What detection does to the incidents: it may add one for an equipment without an open one, and
  never changes the status or the equipment of another.
\<close>

definition det_step :: "db \<Rightarrow> db \<Rightarrow> bool" where
  "det_step d d' \<longleftrightarrow>
     (\<forall>e. length (open_of e d') \<le> max 1 (length (open_of e d))) \<and>
     (\<forall>u r. find_incident u d = Some r \<longrightarrow>
        (\<exists>r'. find_incident u d' = Some r' \<and> inc_status r' = inc_status r \<and> inc_equipment r' = inc_equipment r))"

lemma det_step_refl: "det_step d d"
  by (auto simp: det_step_def)

lemma det_step_trans:
  assumes "det_step d d'" "det_step d' d''"
  shows "det_step d d''"
proof -
  have "length (open_of e d'') \<le> max 1 (length (open_of e d))" for e
  proof -
    have "length (open_of e d'') \<le> max 1 (length (open_of e d'))" "length (open_of e d') \<le> max 1 (length (open_of e d))"
      using assms by (simp_all add: det_step_def)
    then show ?thesis by linarith
  qed
  moreover have "\<exists>r''. find_incident u d'' = Some r'' \<and> inc_status r'' = inc_status r \<and> inc_equipment r'' = inc_equipment r"
    if f: "find_incident u d = Some r" for u r
  proof -
    obtain r' where "find_incident u d' = Some r'" "inc_status r' = inc_status r" "inc_equipment r' = inc_equipment r"
      using assms(1) f unfolding det_step_def by blast
    moreover then obtain r'' where "find_incident u d'' = Some r''" "inc_status r'' = inc_status r'" "inc_equipment r'' = inc_equipment r'"
      using assms(2) unfolding det_step_def by blast
    ultimately show ?thesis by auto
  qed
  ultimately show ?thesis by (simp add: det_step_def)
qed

lemma upsert_once_step:
  assumes "upsert_once eq sev su t d = (r, d')"
  shows "det_step d d'"
proof (cases "\<exists>e. parse_uuid eq = Some e")
  case False
  with assms show ?thesis by (auto simp: upsert_once_def det_step_refl)
next
  case True
  then obtain e where e: "parse_uuid eq = Some e" by blast
  show ?thesis
  proof (cases "unresolved_incident e d")
    case (Some r0)
    let ?f = "\<lambda>x. x\<lparr>inc_summary := Some su, inc_severity := sev, inc_updated_at := t\<rparr>"
    have d': "d' = update_incident (inc_id r0) ?f d" using assms e Some by (simp add: upsert_once_def)
    have "length (open_of x d') = length (open_of x d)" for x
      by (simp add: open_of_def d' update_incident_def filter_map o_def if_distrib
          [where f = "\<lambda>r. inc_equipment r = x \<and> inc_status r \<noteq> Resolved"] cong: if_cong)
    then show ?thesis by (auto simp: det_step_def d' find_update_incident)
  next
    case None
    show ?thesis
    proof (cases "equipment_site e d")
      case None
      with assms e \<open>unresolved_incident e d = None\<close> show ?thesis by (simp add: upsert_once_def det_step_refl)
    next
      case (Some site)
      then have d': "d' = d\<lparr>db_incidents := db_incidents d @ [new_incident (next_id d) site e sev su t],
          next_id := Suc (next_id d)\<rparr>"
        using assms e None by (simp add: upsert_once_def)
      have "length (open_of x d') \<le> max 1 (length (open_of x d))" for x
      proof (cases "x = e")
        case True
        have "open_of e d = []" using None by (simp add: unresolved_iff)
        then show ?thesis using True by (simp add: d' open_of_def)
      qed (simp add: d' open_of_def new_incident_def)
      moreover have "find_incident u d = Some r \<Longrightarrow> find_incident u d' = Some r" for u r
      proof -
        have "find P xs = Some y \<Longrightarrow> find P (xs @ ys) = Some y" for P and xs ys :: "incident list" and y
          by (induction xs) (auto split: if_splits)
        then show "find_incident u d = Some r \<Longrightarrow> find_incident u d' = Some r"
          by (simp add: find_incident_def d')
      qed
      ultimately show ?thesis by (auto simp: det_step_def)
    qed
  qed
qed

lemma upsert_once_failed: "upsert_once eq sev su t d = (Inl e, d') \<Longrightarrow> d' = d"
  by (auto simp: upsert_once_def split: option.splits)

lemma upsert_from_cases:
  "upsert_from env n k eq sev su msg d = (r, d') \<Longrightarrow>
     (\<exists>i. r = Inr i \<and> upsert_once eq sev su (de_now env) d = (Inr i, d')) \<or> (r = Inl (RuntimeError msg) \<and> d' = d)"
proof (induction n arbitrary: k)
  case (Suc n)
  obtain r1 d1 where u: "upsert_once eq sev su (de_now env) d = (r1, d1)" by (metis surj_pair)
  show ?case
  proof (cases "\<exists>i. de_db_fault env k = None \<and> r1 = Inr i")
    case True
    with Suc.prems u show ?thesis by auto
  next
    case False
    then have "upsert_from env n (Suc k) eq sev su msg d = (r, d')"
      using Suc.prems u upsert_once_failed [of eq sev su "de_now env" d _ d1]
      by (cases r1) (auto split: option.splits)
    then show ?thesis by (rule Suc.IH)
  qed
qed simp

lemma det_db_set [simp]: "det_db (set_db d s) = d" "det_db (s\<lparr>dt_dead := x\<rparr>) = det_db s"
  "det_db (s\<lparr>dt_buffer := b\<rparr>) = det_db s" "det_db (s\<lparr>dt_baselines := f\<rparr>) = det_db s"
  "det_db (s\<lparr>dt_world := w\<rparr>) = w_db w" "w_db (dt_world (set_db d s)) = d"
  "dt_dead (set_db d s) = dt_dead s" "w_bus (dt_world (set_db d s)) = w_bus (dt_world s)"
  by (simp_all add: det_db_def set_db_def)

text \<open>
  What every write of detection respects, the whole stream of entries respects: a reflexive and
  transitive relation of stores that holds across one upsert and across one stored reading.
\<close>

locale detection_relation =
  fixes R :: "db \<Rightarrow> db \<Rightarrow> bool"
  assumes refl: "R d d"
    and trans: "R d d' \<Longrightarrow> R d' d'' \<Longrightarrow> R d d''"
    and upsert: "upsert_once eq sev su t d = (Inr i, d') \<Longrightarrow> R d d'"
    and reading: "R d (d\<lparr>db_readings := rows\<rparr>)"
begin

lemma upsert_incident_step: "upsert_incident cfg env eq sev su d = (r, d') \<Longrightarrow> R d d'"
  unfolding upsert_incident_def
  by (drule upsert_from_cases) (auto intro: upsert refl)

lemma persist_incident_step: "R (det_db s) (det_db (persist_incident cfg env c s))"
proof -
  let ?fr = "freshest (co_sensors c)"
  let ?sev = "severity_from_score (map ob_margin ?fr) (map ob_z ?fr)"
  let ?su = "correlated_summary (de_now env) (co_equipment_id c) (map (sensor_payload (dt_registry s)) ?fr)"
  obtain r d where u: "upsert_incident cfg env (co_equipment_id c) ?sev ?su (det_db s) = (r, d)" by (metis surj_pair)
  have "det_db (persist_incident cfg env c s) = d"
    using u by (auto simp: persist_incident_def Let_def publish_def split: sum.splits option.splits)
  with upsert_incident_step [OF u] show ?thesis by simp
qed

lemma fold_step:
  "(\<And>c s. R (det_db s) (det_db (f c s))) \<Longrightarrow> R (det_db s) (det_db (fold f cs s))"
  by (induction cs arbitrary: s) (auto intro: trans refl)

lemma register_anomaly_step:
  "register_anomaly cfg env sc m s = (r, s') \<Longrightarrow> R (det_db s) (det_db s')"
  using fold_step [of "persist_incident cfg env" "s\<lparr>dt_buffer := b\<rparr>" for b] persist_incident_step
  by (auto simp: register_anomaly_def Let_def refl split: sum.splits)

lemma persist_reading_step: "R (det_db s) (det_db (persist_reading env rd s))"
  by (auto simp: persist_reading_def refl reading split: option.split)

lemma process_reading_step:
  assumes "process_reading cfg env f s = (r, s')"
  shows "R (det_db s) (det_db s')"
proof (cases "decode f")
  case None
  with assms show ?thesis by (simp add: process_reading_def refl)
next
  case x: (Some x)
  show ?thesis
  proof (cases "dt_registry s (dd_sensor_id x)")
    case None
    with assms x show ?thesis by (simp add: process_reading_def refl)
  next
    case m: (Some m)
    let ?rd = "reading_of env x m"
    obtain b s1 where b: "update_baseline cfg env (dd_sensor_id x) (rg_value ?rd) s = (b, s1)" by (metis surj_pair)
    then have s1: "det_db s1 = det_db s" by (auto simp: update_baseline_def Let_def split: option.splits)
    have s12: "R (det_db s) (det_db (persist_reading env ?rd s1))"
      unfolding s1 [symmetric] by (rule persist_reading_step)
    show ?thesis
    proof (cases b)
      case (Inl e)
      with assms x m b s1 show ?thesis by (simp add: process_reading_def Let_def refl)
    next
      case (Inr bl)
      let ?sc = "score_reading ?rd (thresholds_of m) bl (dc_static_z cfg) (dc_drift_z cfg)"
      obtain r3 s3 where r3: "register_anomaly cfg env ?sc m (persist_reading env ?rd s1) = (r3, s3)" by (metis surj_pair)
      have "s' = (if sd_anomalous ?sc then s3 else persist_reading env ?rd s1)"
        using assms x m b Inr r3 by (auto simp: process_reading_def Let_def split: if_splits)
      with register_anomaly_step [OF r3] s12 show ?thesis by (auto intro: trans)
    qed
  qed
qed

lemma consume_step: "R (det_db s) (det_db (fst (consume cfg es s acked)))"
proof (induction es arbitrary: s acked)
  case (Cons x es)
  obtain env mid f where x: "x = (env, mid, f)" by (cases x)
  obtain r s1 where "process_reading cfg env f s = (r, s1)" by (metis surj_pair)
  with Cons [of s1 "acked @ [mid]"] process_reading_step [OF this] show ?case
    by (auto simp: x intro: trans)
qed (simp add: refl)

end

lemma det_step_same: "db_incidents d' = db_incidents d \<Longrightarrow> det_step d d'"
  by (simp add: det_step_def open_of_def find_incident_def)

interpretation intake: detection_relation det_step
  by unfold_locales (auto intro: det_step_refl det_step_trans upsert_once_step det_step_same)

definition keys_ok :: "db \<Rightarrow> bool" where
  "keys_ok d \<longleftrightarrow> distinct (map inc_id (db_incidents d)) \<and> (\<forall>r\<in>set (db_incidents d). inc_id r < next_id d)"

lemma find_incident_member:
  assumes "keys_ok d" "r \<in> set (db_incidents d)"
  shows "find_incident (inc_id r) d = Some r"
proof -
  have "distinct (map inc_id xs) \<Longrightarrow> r \<in> set xs \<Longrightarrow> find (\<lambda>x. inc_id x = inc_id r) xs = Some r" for xs
    by (induction xs) force+
  with assms show ?thesis by (simp add: keys_ok_def find_incident_def)
qed

lemma upsert_once_found:
  assumes "keys_ok d" "upsert_once eq sev su t d = (Inr i, d')"
  shows "\<exists>e u r. parse_uuid eq = Some e \<and> i = uuid_str u \<and> find_incident u d' = Some r \<and>
     inc_equipment r = e \<and> inc_status r \<noteq> Resolved \<and> inc_summary r = Some su \<and> inc_severity r = sev"
proof -
  obtain e where e: "parse_uuid eq = Some e" using assms(2) by (cases "parse_uuid eq") (auto simp: upsert_once_def)
  show ?thesis
  proof (cases "unresolved_incident e d")
    case (Some r0)
    then have "r0 \<in> set (open_of e d)" by (rule unresolved_iff)
    then have r0: "inc_equipment r0 = e" "inc_status r0 \<noteq> Resolved" "find_incident (inc_id r0) d = Some r0"
      using find_incident_member [OF assms(1), of r0] by (auto simp: open_of_def)
    from assms(2) e Some r0 show ?thesis
      by (auto simp: upsert_once_def find_update_incident)
  next
    case None
    then obtain site where "equipment_site e d = Some site"
      using assms(2) e by (cases "equipment_site e d") (auto simp: upsert_once_def)
    moreover have "find_incident (next_id d) d = None"
      using assms(1) by (auto simp: keys_ok_def find_incident_def find_None_iff)
    moreover have "find P xs = None \<Longrightarrow> find P (xs @ ys) = find P ys" for P and xs ys :: "incident list"
      by (induction xs) (auto split: if_splits)
    ultimately show ?thesis using assms(2) e None
      by (intro exI [of _ e] exI [of _ "next_id d"] exI [of _ "new_incident (next_id d) site e sev su t"])
         (auto simp: upsert_once_def find_incident_def new_incident_def)
  qed
qed

section \<open>Properties\<close>

text \<open>
  C32. However many stream entries arrive, in whatever order and with whatever failures: an
  equipment never gets a second incident that is not resolved, and no incident that exists changes
  its status or its equipment through detection.
\<close>

theorem one_open_incident_per_equipment:
  assumes "\<forall>e. length (open_of e (det_db s)) \<le> 1"
  shows "let d' = det_db (fst (consume cfg es s acked)) in
     (\<forall>e. length (open_of e d') \<le> 1) \<and>
     (\<forall>u r. find_incident u (det_db s) = Some r \<longrightarrow>
        (\<exists>r'. find_incident u d' = Some r' \<and> inc_status r' = inc_status r \<and> inc_equipment r' = inc_equipment r))"
  using intake.consume_step [of s cfg es acked] assms by (auto simp: det_step_def Let_def max_absorb1)

lemma one_open_incident_per_equipment_witness:
  "\<forall>es e. length (open_of e (det_db (fst (consume \<lparr>dc_static_z = 1/20, dc_drift_z = 3, dc_window_size = 40,
      dc_correlation_window = 30, dc_max_gap = 90, dc_retry_attempts = 3\<rparr> es
      \<lparr>dt_registry = (\<lambda>i. None), dt_baselines = (\<lambda>i. []), dt_buffer = [],
       dt_world = \<lparr>w_db = sample_db, w_bus = []\<rparr>, dt_dead = []\<rparr> [])))) \<le> 1"
proof (intro allI)
  fix es e
  let ?s = "\<lparr>dt_registry = (\<lambda>i. None), dt_baselines = (\<lambda>i. []), dt_buffer = [],
       dt_world = \<lparr>w_db = sample_db, w_bus = []\<rparr>, dt_dead = []\<rparr> :: det_state"
  have "\<forall>e. length (open_of e (det_db ?s)) \<le> 1"
    by (simp add: det_db_def open_of_def sample_db_def)
  from one_open_incident_per_equipment [OF this] show "length (open_of e (det_db (fst (consume \<lparr>dc_static_z = 1/20,
      dc_drift_z = 3, dc_window_size = 40, dc_correlation_window = 30, dc_max_gap = 90, dc_retry_attempts = 3\<rparr> es ?s [])))) \<le> 1"
    by (simp add: Let_def)
qed

text \<open>
  C33. A correlated anomaly is never dropped silently: either an incident of its equipment that is
  not resolved carries its summary and severity and the event for it is the last one published, or
  the anomaly is in the dead-letter log; the summary has one entry for each sensor of the group,
  its newest observation.
\<close>

theorem anomaly_is_recorded_or_dead_lettered:
  assumes "keys_ok (det_db s)"
  shows "\<exists>severity su kept.
     su = correlated_summary (de_now env) (co_equipment_id c) (map (sensor_payload (dt_registry s)) kept) \<and>
     newest_each (co_sensors c) kept \<and>
     severity = severity_from_score (map ob_margin kept) (map ob_z kept) \<and>
     (let s' = persist_incident cfg env c s in
      (\<exists>e u r. parse_uuid (co_equipment_id c) = Some e \<and> find_incident u (det_db s') = Some r \<and>
         inc_equipment r = e \<and> inc_status r \<noteq> Resolved \<and> inc_summary r = Some su \<and> inc_severity r = severity \<and>
         w_bus (dt_world s') = w_bus (dt_world s) @ [anomaly_event_of (uuid_str u) su severity]) \<or>
      dt_dead s' = dt_dead s @ [(co_equipment_id c, severity, su)])"
proof -
  let ?k = "freshest (co_sensors c)"
  let ?sev = "severity_from_score (map ob_margin ?k) (map ob_z ?k)"
  let ?su = "correlated_summary (de_now env) (co_equipment_id c) (map (sensor_payload (dt_registry s)) ?k)"
  obtain r d where u: "upsert_incident cfg env (co_equipment_id c) ?sev ?su (det_db s) = (r, d)" by (metis surj_pair)
  have "let s' = persist_incident cfg env c s in
      (\<exists>e u r. parse_uuid (co_equipment_id c) = Some e \<and> find_incident u (det_db s') = Some r \<and>
         inc_equipment r = e \<and> inc_status r \<noteq> Resolved \<and> inc_summary r = Some ?su \<and> inc_severity r = ?sev \<and>
         w_bus (dt_world s') = w_bus (dt_world s) @ [anomaly_event_of (uuid_str u) ?su ?sev]) \<or>
      dt_dead s' = dt_dead s @ [(co_equipment_id c, ?sev, ?su)]"
  proof (cases r)
    case (Inl e)
    with u show ?thesis by (simp add: persist_incident_def Let_def)
  next
    case (Inr i)
    with u have "upsert_once (co_equipment_id c) ?sev ?su (de_now env) (det_db s) = (Inr i, d)"
      unfolding upsert_incident_def by (auto dest: upsert_from_cases)
    from upsert_once_found [OF assms this] u Inr show ?thesis
      by (cases "de_bus_fault env (anomaly_event_of i ?su ?sev)")
         (auto simp: persist_incident_def Let_def publish_def)
  qed
  with freshest_newest [of "co_sensors c"] show ?thesis by (intro exI [of _ ?sev] exI [of _ ?su] exI [of _ ?k]) simp
qed

lemma anomaly_is_recorded_or_dead_lettered_witness:
  "\<forall>cfg env c. \<exists>severity su. let s' = persist_incident cfg env c
      \<lparr>dt_registry = (\<lambda>i. None), dt_baselines = (\<lambda>i. []), dt_buffer = [],
       dt_world = \<lparr>w_db = sample_db, w_bus = []\<rparr>, dt_dead = []\<rparr> in
     (\<exists>u. w_bus (dt_world s') = [anomaly_event_of (uuid_str u) su severity]) \<or>
     dt_dead s' = [(co_equipment_id c, severity, su)]"
proof (intro allI)
  fix cfg env c
  let ?s = "\<lparr>dt_registry = (\<lambda>i. None), dt_baselines = (\<lambda>i. []), dt_buffer = [],
       dt_world = \<lparr>w_db = sample_db, w_bus = []\<rparr>, dt_dead = []\<rparr> :: det_state"
  have "keys_ok (det_db ?s)" by (simp add: keys_ok_def det_db_def sample_db_def sample_incident_def)
  from anomaly_is_recorded_or_dead_lettered [OF this, of env c cfg]
  show "\<exists>severity su. let s' = persist_incident cfg env c ?s in
     (\<exists>u. w_bus (dt_world s') = [anomaly_event_of (uuid_str u) su severity]) \<or>
     dt_dead s' = [(co_equipment_id c, severity, su)]"
    by (fastforce simp: Let_def)
qed

text \<open>
  One naive timestamp stops detection: while an observation with a naive time is in the buffer
  and not yet pruned, every anomaly of every equipment raises, no incident is written or updated,
  nothing is published and nothing reaches the dead-letter log, and the observation stays.
\<close>

theorem naive_time_stops_detection:
  assumes "x \<in> set (dt_buffer s)" "\<not> ob_aware x"
    "of_int (ob_observed_at x) / 1000000 > of_int (de_now env) / 1000000 - dc_max_gap cfg * 3"
  shows "\<exists>s'. register_anomaly cfg env sc m s = (Inl naive_error, s') \<and>
     dt_world s' = dt_world s \<and> dt_dead s' = dt_dead s \<and> x \<in> set (dt_buffer s')"
proof -
  let ?b = "prune_buffer cfg (de_now env) (dt_buffer s @ [observation_of sc m])"
  have "x \<in> set ?b" using assms by (simp add: prune_buffer_def)
  moreover from this assms(2) have "\<not> list_all ob_aware ?b" by (auto simp: list_all_iff)
  ultimately show ?thesis by (simp add: register_anomaly_def correlate_anomalies_def Let_def)
qed

lemma naive_time_stops_detection_witness:
  "\<exists>s'. register_anomaly \<lparr>dc_static_z = 1/20, dc_drift_z = 3, dc_window_size = 40,
      dc_correlation_window = 30, dc_max_gap = 90, dc_retry_attempts = 3\<rparr>
      \<lparr>de_now = 0, de_redis_fault = None, de_reading_fault = (\<lambda>x. None), de_db_fault = (\<lambda>x. None),
       de_bus_fault = (\<lambda>x. None)\<rparr>
      (score_reading (sample_reading 36) sample_band (compute_baseline [36]) (1/20) 3)
      \<lparr>mt_equipment_id = uuid_str 3, mt_sensor_type = ''temperature'', mt_unit = ''degC'', mt_min = 29, mt_max = 32\<rparr>
      \<lparr>dt_registry = (\<lambda>i. None), dt_baselines = (\<lambda>i. []),
       dt_buffer = [\<lparr>ob_equipment_id = uuid_str 4, ob_sensor_id = [], ob_sensor_type = [], ob_observed_at = 0,
         ob_aware = False, ob_value = 1, ob_unit = [], ob_reason = [], ob_margin = None, ob_z = None\<rparr>],
       dt_world = \<lparr>w_db = sample_db, w_bus = []\<rparr>, dt_dead = []\<rparr> = (Inl naive_error, s')"
  using naive_time_stops_detection [of "\<lparr>ob_equipment_id = uuid_str 4, ob_sensor_id = [], ob_sensor_type = [],
      ob_observed_at = 0, ob_aware = False, ob_value = 1, ob_unit = [], ob_reason = [], ob_margin = None, ob_z = None\<rparr>"
      "\<lparr>dt_registry = (\<lambda>i. None), dt_baselines = (\<lambda>i. []),
       dt_buffer = [\<lparr>ob_equipment_id = uuid_str 4, ob_sensor_id = [], ob_sensor_type = [], ob_observed_at = 0,
         ob_aware = False, ob_value = 1, ob_unit = [], ob_reason = [], ob_margin = None, ob_z = None\<rparr>],
       dt_world = \<lparr>w_db = sample_db, w_bus = []\<rparr>, dt_dead = []\<rparr>"
      "\<lparr>de_now = 0, de_redis_fault = None, de_reading_fault = (\<lambda>x. None), de_db_fault = (\<lambda>x. None),
       de_bus_fault = (\<lambda>x. None)\<rparr>"
      "\<lparr>dc_static_z = 1/20, dc_drift_z = 3, dc_window_size = 40,
      dc_correlation_window = 30, dc_max_gap = 90, dc_retry_attempts = 3\<rparr>"
      "score_reading (sample_reading 36) sample_band (compute_baseline [36]) (1/20) 3"
      "\<lparr>mt_equipment_id = uuid_str 3, mt_sensor_type = ''temperature'', mt_unit = ''degC'', mt_min = 29, mt_max = 32\<rparr>"]
  by auto

end
