(* ===== verification/RootCauseParser.thy ===== *)
theory RootCauseParser
  imports Llm
begin

text \<open>
  The deterministic check of the diagnosis (\<open>_parse_and_validate\<close> and
  \<open>_validate_point\<close> of \<open>app/agents/root_cause/agent.py\<close>): the answer of the model is read
  line by line and every evidence point must resolve to a sensor, a retrieved document or a
  matched incident.  The bullet sign U+2022 of the regular expression is outside the model's
  characters.
\<close>

section \<open>The hypothesis line\<close>

text \<open>Case-insensitive search: what follows the first occurrence of a text.\<close>

fun after_ci :: "string \<Rightarrow> string \<Rightarrow> string option" where
  "after_ci p [] = (if p = [] then Some [] else None)"
| "after_ci p (c # s) =
     (if py_startswith (py_lower (c # s)) p then Some (drop (length p) (c # s)) else after_ci p s)"

definition strip_prefix :: "string \<Rightarrow> string \<Rightarrow> string option" where
  "strip_prefix p s = (if py_startswith (py_lower s) p then Some (drop (length p) s) else None)"

text \<open>\<open>\s*\.?\s*$\<close>\<close>

definition ends_line :: "string \<Rightarrow> bool" where
  "ends_line s =
     (let r = py_lstrip s
      in r = [] \<or> (hd r = CHR 0x2E \<and> py_lstrip (tl r) = []))"

text \<open>\<open>\(confidence\s*(\d{1,3})\s*%\s*\)\<close> and the rest of the line.\<close>

definition match_confidence :: "string \<Rightarrow> (nat \<times> string) option" where
  "match_confidence s =
     (case strip_prefix ''(confidence'' s of
        None \<Rightarrow> None
      | Some r \<Rightarrow>
          (let r1 = py_lstrip r; ds = takeWhile is_digit r1; r2 = py_lstrip (dropWhile is_digit r1)
           in if ds = [] \<or> 3 < length ds \<or> r2 = [] \<or> hd r2 \<noteq> CHR 0x25 then None
              else (let r3 = py_lstrip (tl r2)
                    in if r3 = [] \<or> hd r3 \<noteq> CHR 0x29 then None
                       else Some (digits_value ds, tl r3))))"

text \<open>
  Everything after the cause: the confidence, if it is there, and the end of the line.  The outer
  option is whether it matches.
\<close>

definition match_tail :: "string \<Rightarrow> nat option option" where
  "match_tail s =
     (case match_confidence (py_lstrip s) of
        Some (n, r) \<Rightarrow> if ends_line r then Some (Some n) else if ends_line s then Some None else None
      | None \<Rightarrow> if ends_line s then Some None else None)"

text \<open>The lazy \<open>.+?\<close>: the shortest cause after which the tail matches.\<close>

fun split_cause :: "string \<Rightarrow> string \<Rightarrow> (string \<times> nat option) option" where
  "split_cause acc [] = None"
| "split_cause acc (c # s) =
     (case match_tail s of
        Some conf \<Rightarrow> Some (acc @ [c], conf)
      | None \<Rightarrow> split_cause (acc @ [c]) s)"

definition match_hypothesis :: "string \<Rightarrow> (string \<times> nat option) option" where
  "match_hypothesis line =
     (case after_ci ''most likely cause:'' line of
        None \<Rightarrow> None
      | Some r \<Rightarrow> split_cause [] (py_lstrip r))"

fun find_hypothesis :: "string list \<Rightarrow> (string \<times> int option) option" where
  "find_hypothesis [] = None"
| "find_hypothesis (l # ls) =
     (case match_hypothesis (py_strip l) of
        Some (cause, conf) \<Rightarrow> Some (py_strip cause, map_option (\<lambda>n. min 100 (max 0 (int n))) conf)
      | None \<Rightarrow> find_hypothesis ls)"

section \<open>Evidence points\<close>

text \<open>
  \<open>^\s*[-*]\s+(.+)$\<close>: with nothing but space after the marker, the last space is the text when
  there are two or more.
\<close>

definition match_bullet :: "string \<Rightarrow> string option" where
  "match_bullet line =
     (case py_lstrip line of
        [] \<Rightarrow> None
      | c # s \<Rightarrow>
          if c \<noteq> CHR 0x2D \<and> c \<noteq> CHR 0x2A then None
          else if s = [] \<or> \<not> is_space (hd s) then None
          else if py_lstrip s \<noteq> [] then Some (py_lstrip s)
          else if 2 \<le> length s then Some (drop (length s - 1) s) else None)"

text \<open>A dictionary with string keys: insertion order, and a second value replaces the first.\<close>

fun dict_set :: "string \<Rightarrow> string \<Rightarrow> (string \<times> string) list \<Rightarrow> (string \<times> string) list" where
  "dict_set k v [] = [(k, v)]"
| "dict_set k v ((k', v') # kv) = (if k = k' then (k, v) # kv else (k', v') # dict_set k v kv)"

definition dict_of :: "(string \<times> string) list \<Rightarrow> (string \<times> string) list" where
  "dict_of kvs = fold (\<lambda>(k, v) kv. dict_set k v kv) kvs []"

definition sensor_keys :: "sensor_entry list \<Rightarrow> (string \<times> string) list" where
  "sensor_keys ss = dict_of (map (\<lambda>s. case se_sensor_type s of
       None \<Rightarrow> ([], ''None'') | Some ty \<Rightarrow> (py_lower ty, ty)) ss)"

definition sop_keys :: "sop_chunk list \<Rightarrow> (string \<times> string) list" where
  "sop_keys cs = dict_of (map (\<lambda>c. (py_lower (sc_doc_id c), sc_doc_id c)) cs)"

definition history_keys :: "history_match list \<Rightarrow> (string \<times> string) list" where
  "history_keys hs = dict_of (concat (map (\<lambda>h.
       [(py_lower (hm_source h), hm_source h), (py_lower (hm_id h), hm_source h)]) hs))"

definition first_key :: "(string \<Rightarrow> bool) \<Rightarrow> (string \<times> string) list \<Rightarrow> string option" where
  "first_key P kv = map_option snd (find (\<lambda>(k, v). k \<noteq> [] \<and> P k) kv)"

definition mentions :: "string \<Rightarrow> string \<Rightarrow> bool" where
  "mentions lowered k \<longleftrightarrow> py_in k lowered"

definition mentions_sensor :: "string \<Rightarrow> string \<Rightarrow> bool" where
  "mentions_sensor lowered k \<longleftrightarrow>
     py_in k lowered \<or> py_in (replace_char (CHR 0x5F) (CHR 0x20) k) lowered"

definition tag :: "string \<Rightarrow> string option \<Rightarrow> (string \<times> string) option" where
  "tag ty x = map_option (Pair ty) x"

definition validate_point ::
  "string \<Rightarrow> sensor_entry list \<Rightarrow> sop_chunk list \<Rightarrow> history_match list \<Rightarrow> (string \<times> string) option" where
  "validate_point point ss cs hs =
     (let lowered = py_lower point in
      if py_in ''[sensor reading]'' lowered then
        tag ''sensor'' (first_key (mentions_sensor lowered) (sensor_keys ss))
      else if py_in ''[sop citation'' lowered \<or> py_in ''sop citation'' lowered then
        tag ''sop'' (first_key (mentions lowered) (sop_keys cs))
      else if py_in ''[historical incident'' lowered \<or> py_in ''historical incident'' lowered then
        tag ''history'' (first_key (mentions lowered) (history_keys hs))
      else (case first_key (mentions lowered) (sop_keys cs) of
          Some d \<Rightarrow> Some (''sop'', d)
        | None \<Rightarrow> tag ''history'' (first_key (mentions lowered) (history_keys hs))))"

section \<open>The answer\<close>

record diagnosis =
  dg_insufficient :: bool
  dg_hypothesis :: string
  dg_confidence :: int
  dg_cited :: "cited_point list"

text \<open>The dictionary the code returns: valid with its fields, or invalid with the reason.\<close>

datatype verdict = Valid diagnosis | Invalid string

definition first_line :: "string \<Rightarrow> string" where
  "first_line s = takeWhile (\<lambda>c. c \<noteq> CHR 0x0A) s"

definition bullet_points :: "string list \<Rightarrow> string list" where
  "bullet_points ls = map py_strip (List.map_filter match_bullet ls)"

definition parse_and_validate ::
  "string \<Rightarrow> sensor_entry list \<Rightarrow> sop_chunk list \<Rightarrow> history_match list \<Rightarrow> verdict" where
  "parse_and_validate content ss cs hs =
     (let body = py_strip content in
      if py_in ''insufficient evidence'' (py_lower body) \<and> CHR 0x2D \<notin> set (first_line body) then
        Valid \<lparr>dg_insufficient = True, dg_hypothesis = hd (splitlines body), dg_confidence = 0,
               dg_cited = []\<rparr>
      else
        (let ls = splitlines body in
         case find_hypothesis ls of
           None \<Rightarrow> Invalid ''no hypothesis line found''
         | Some (hyp, conf) \<Rightarrow>
             if hyp = [] then Invalid ''no hypothesis line found''
             else
               (let points = bullet_points ls;
                    cited = List.map_filter (\<lambda>p. map_option
                      (\<lambda>(ty, ref). \<lparr>cp_type = ty, cp_ref = ref, cp_text = p\<rparr>) (validate_point p ss cs hs)) points;
                    bad = filter (\<lambda>p. validate_point p ss cs hs = None) points
                in if cited = [] then Invalid ''no evidence point carried a verifiable citation''
                   else if bad \<noteq> [] then Invalid ''evidence points failed citation verification''
                   else (case conf of
                       None \<Rightarrow> Invalid ''confidence score missing''
                     | Some c \<Rightarrow> Valid \<lparr>dg_insufficient = False, dg_hypothesis = hyp,
                                      dg_confidence = c, dg_cited = cited\<rparr>))))"

section \<open>Facts about the check\<close>

lemma set_dict_set: "set (dict_set k v kv) \<subseteq> insert (k, v) (set kv)"
  by (induction kv) (auto split: if_splits)

lemma set_dict_of: "set (dict_of kvs) \<subseteq> set kvs"
proof -
  have "set (fold (\<lambda>(k, v) kv. dict_set k v kv) kvs acc) \<subseteq> set acc \<union> set kvs" for acc
  proof (induction kvs arbitrary: acc)
    case (Cons e kvs)
    obtain k v where "e = (k, v)" by (cases e)
    with Cons [of "dict_set k v acc"] set_dict_set [of k v acc] show ?case by auto
  qed simp
  from this [of "[]"] show ?thesis by (simp add: dict_of_def)
qed

lemma first_key_mem: "first_key P kv = Some v \<Longrightarrow> \<exists>k. (k, v) \<in> set kv \<and> k \<noteq> [] \<and> P k"
  by (auto simp: first_key_def find_Some_iff) (metis nth_mem)

text \<open>
  What it means that a cited point is grounded: its reference is the type of a flagged sensor, the
  id of a retrieved document or the source of a matched incident, and the text of the point names
  it (a matched incident by its source or its id).
\<close>

definition grounded :: "sensor_entry list \<Rightarrow> sop_chunk list \<Rightarrow> history_match list \<Rightarrow> cited_point \<Rightarrow> bool" where
  "grounded ss cs hs p \<longleftrightarrow>
     (let lowered = py_lower (cp_text p) in
      (cp_type p = ''sensor'' \<and>
        (\<exists>s\<in>set ss. se_sensor_type s = Some (cp_ref p) \<and> cp_ref p \<noteq> [] \<and> mentions_sensor lowered (py_lower (cp_ref p)))) \<or>
      (cp_type p = ''sop'' \<and>
        (\<exists>c\<in>set cs. sc_doc_id c = cp_ref p \<and> cp_ref p \<noteq> [] \<and> mentions lowered (py_lower (cp_ref p)))) \<or>
      (cp_type p = ''history'' \<and>
        (\<exists>h\<in>set hs. hm_source h = cp_ref p \<and>
           (hm_source h \<noteq> [] \<and> mentions lowered (py_lower (hm_source h)) \<or>
            hm_id h \<noteq> [] \<and> mentions lowered (py_lower (hm_id h))))))"

lemma sensor_key_grounded:
  "first_key P (sensor_keys ss) = Some v \<Longrightarrow>
     \<exists>s\<in>set ss. se_sensor_type s = Some v \<and> v \<noteq> [] \<and> P (py_lower v)"
  using set_dict_of [of "map (\<lambda>s. case se_sensor_type s of
       None \<Rightarrow> ([], ''None'') | Some ty \<Rightarrow> (py_lower ty, ty)) ss"]
  by (fastforce dest!: first_key_mem simp: sensor_keys_def py_lower_def split: option.splits)

lemma sop_key_grounded:
  "first_key P (sop_keys cs) = Some v \<Longrightarrow> \<exists>c\<in>set cs. sc_doc_id c = v \<and> v \<noteq> [] \<and> P (py_lower v)"
  using set_dict_of [of "map (\<lambda>c. (py_lower (sc_doc_id c), sc_doc_id c)) cs"]
  by (fastforce dest!: first_key_mem simp: sop_keys_def py_lower_def)

lemma history_key_grounded:
  "first_key P (history_keys hs) = Some v \<Longrightarrow>
     \<exists>h\<in>set hs. hm_source h = v \<and>
       (hm_source h \<noteq> [] \<and> P (py_lower (hm_source h)) \<or> hm_id h \<noteq> [] \<and> P (py_lower (hm_id h)))"
  using set_dict_of [of "concat (map (\<lambda>h. [(py_lower (hm_source h), hm_source h),
      (py_lower (hm_id h), hm_source h)]) hs)"]
  by (fastforce dest!: first_key_mem simp: history_keys_def py_lower_def)

lemma validate_point_grounded:
  assumes "validate_point point ss cs hs = Some (ty, ref)"
  shows "grounded ss cs hs \<lparr>cp_type = ty, cp_ref = ref, cp_text = point\<rparr>"
proof -
  let ?low = "py_lower point"
  consider "ty = ''sensor''" "first_key (mentions_sensor ?low) (sensor_keys ss) = Some ref"
    | "ty = ''sop''" "first_key (mentions ?low) (sop_keys cs) = Some ref"
    | "ty = ''history''" "first_key (mentions ?low) (history_keys hs) = Some ref"
    using assms by (auto simp: validate_point_def Let_def tag_def split: if_splits option.splits)
  then show ?thesis
  proof cases
    case 1
    with sensor_key_grounded [OF 1(2)] show ?thesis by (auto simp: grounded_def)
  next
    case 2
    with sop_key_grounded [OF 2(2)] show ?thesis by (auto simp: grounded_def)
  next
    case 3
    with history_key_grounded [OF 3(2)] show ?thesis by (simp add: grounded_def)
  qed
qed

lemma find_hypothesis_bounds:
  "find_hypothesis ls = Some (hyp, Some c) \<Longrightarrow> 0 \<le> c \<and> c \<le> 100"
  by (induction ls) (auto split: option.splits)

lemma map_filter_all:
  "(\<forall>x\<in>set xs. f x \<noteq> None) \<Longrightarrow> List.map_filter f xs = map (\<lambda>x. the (f x)) xs"
  by (induction xs) (auto simp: List.map_filter_simps)

lemma parse_and_validate_cases:
  assumes "parse_and_validate content ss cs hs = Valid dg"
  shows "(dg_insufficient dg \<and> dg_confidence dg = 0 \<and> dg_cited dg = [] \<and>
            dg_hypothesis dg = hd (splitlines (py_strip content))) \<or>
         (\<not> dg_insufficient dg \<and> dg_hypothesis dg \<noteq> [] \<and> 0 \<le> dg_confidence dg \<and> dg_confidence dg \<le> 100 \<and>
            dg_cited dg \<noteq> [] \<and> map cp_text (dg_cited dg) = bullet_points (splitlines (py_strip content)) \<and>
            list_all (grounded ss cs hs) (dg_cited dg))"
proof (cases "py_in ''insufficient evidence'' (py_lower (py_strip content)) \<and>
    CHR 0x2D \<notin> set (first_line (py_strip content))")
  case True
  with assms show ?thesis by (auto simp: parse_and_validate_def Let_def)
next
  case False
  let ?ls = "splitlines (py_strip content)"
  let ?cite = "\<lambda>p. map_option (\<lambda>(ty, ref). \<lparr>cp_type = ty, cp_ref = ref, cp_text = p\<rparr>) (validate_point p ss cs hs)"
  obtain hyp c where hyp: "find_hypothesis ?ls = Some (hyp, Some c)" "hyp \<noteq> []"
    and ok: "\<forall>p\<in>set (bullet_points ?ls). validate_point p ss cs hs \<noteq> None"
    and dg: "dg = \<lparr>dg_insufficient = False, dg_hypothesis = hyp, dg_confidence = c,
               dg_cited = List.map_filter ?cite (bullet_points ?ls)\<rparr>" "dg_cited dg \<noteq> []"
    using assms False unfolding parse_and_validate_def Let_def
    by (auto simp: filter_empty_conv split: option.splits if_splits)
  have cited: "List.map_filter ?cite (bullet_points ?ls) = map (\<lambda>p. the (?cite p)) (bullet_points ?ls)"
    by (rule map_filter_all) (use ok in auto)
  have each: "cp_text (the (?cite p)) = p \<and> grounded ss cs hs (the (?cite p))" if "p \<in> set (bullet_points ?ls)" for p
    using ok that validate_point_grounded by fastforce
  have "map cp_text (dg_cited dg) = bullet_points ?ls"
    using dg cited each by (auto intro: map_idI)
  moreover have "list_all (grounded ss cs hs) (dg_cited dg)"
    using dg cited each by (auto simp: list_all_iff)
  ultimately show ?thesis using hyp dg find_hypothesis_bounds [OF hyp(1)] by simp
qed

section \<open>Properties\<close>

text \<open>
  No uncited claim passes the check.  An accepted answer is either the honest report of
  insufficient evidence (confidence 0, nothing cited), or it has a hypothesis, a confidence between
  0 and 100 and at least one cited point, the cited points are exactly all evidence points of the
  answer, and every one is grounded: it names a flagged sensor, a retrieved document or a matched
  incident, whose reference is stored with it.
\<close>

theorem accepted_diagnosis_is_cited:
  assumes "parse_and_validate content ss cs hs = Valid dg"
  shows "(dg_insufficient dg \<and> dg_confidence dg = 0 \<and> dg_cited dg = [] \<and>
            py_in ''insufficient evidence'' (py_lower (py_strip content))) \<or>
         (\<not> dg_insufficient dg \<and> dg_hypothesis dg \<noteq> [] \<and> 0 \<le> dg_confidence dg \<and> dg_confidence dg \<le> 100 \<and>
            dg_cited dg \<noteq> [] \<and> map cp_text (dg_cited dg) = bullet_points (splitlines (py_strip content)) \<and>
            list_all (grounded ss cs hs) (dg_cited dg))"
proof -
  have "dg_insufficient dg \<Longrightarrow> py_in ''insufficient evidence'' (py_lower (py_strip content))"
    using assms by (auto simp: parse_and_validate_def Let_def split: if_splits option.splits)
  with parse_and_validate_cases [OF assms] show ?thesis by blast
qed

definition plain_sensor :: sensor_entry where
  "plain_sensor =
     \<lparr>se_sensor_id = ''s'', se_sensor_type = Some ''temperature'', se_value = 0, se_unit = ''degC'',
      se_observed_at = None, se_reason = None, se_static_margin = None, se_drift_z = None,
      se_normal_min = None, se_normal_max = None\<rparr>"

definition sample_answer_text :: string where
  "sample_answer_text = ''Most likely cause: fan failure (confidence 87%).'' @ [CHR 0x0A] @
     ''Evidence:'' @ [CHR 0x0A] @ ''- Temperature at 36 [sensor reading]''"

lemma sample_parse:
  "parse_and_validate sample_answer_text [plain_sensor] [] [] = Valid
     \<lparr>dg_insufficient = False, dg_hypothesis = ''fan failure'', dg_confidence = 87,
      dg_cited = [\<lparr>cp_type = ''sensor'', cp_ref = ''temperature'',
                   cp_text = ''Temperature at 36 [sensor reading]''\<rparr>]\<rparr>"
  by code_simp

lemma accepted_diagnosis_is_cited_witness:
  "\<exists>dg. parse_and_validate sample_answer_text [plain_sensor] [] [] = Valid dg \<and>
     dg_cited dg \<noteq> [] \<and> list_all (grounded [plain_sensor] [] []) (dg_cited dg)"
  using accepted_diagnosis_is_cited [OF sample_parse] sample_parse by auto

end
