(* ===== verification/RootCause.thy ===== *)
theory RootCause
  imports RootCauseParser
begin

text \<open>
  The Root-Cause Agent (\<open>app/agents/root_cause/agent.py\<close>): its two triggers, the waits for a
  full anomaly signature and for the evidence, at most two calls of the model, the check of the
  answer, and the write.  While the agent sleeps, other agents write: what its reads of the
  incident return is the parameter \<open>views\<close> (by the number of the read), and the write acts on
  the store as it is then.
\<close>

section \<open>Waiting\<close>

definition signature_attempts :: nat where
  "signature_attempts = 8"

definition evidence_attempts :: nat where
  "evidence_attempts = 5"

type_synonym views = "nat \<Rightarrow> diagnosis_state option"

text \<open>\<open>state = await get_incident_diagnosis_state(...) or state\<close>\<close>

definition reread :: "views \<Rightarrow> nat \<Rightarrow> diagnosis_state \<Rightarrow> diagnosis_state" where
  "reread views k st = (case views k of None \<Rightarrow> st | Some st' \<Rightarrow> st')"

text \<open>The loops return the last state read and the number of the next read.\<close>

fun await_signature :: "nat \<Rightarrow> views \<Rightarrow> nat \<Rightarrow> diagnosis_state \<Rightarrow> diagnosis_state \<times> nat" where
  "await_signature 0 views k st = (st, k)"
| "await_signature (Suc n) views k st =
     (let st' = reread views k st
      in if ds_sensor_count st' \<ge> 5 then (st', Suc k) else await_signature n views (Suc k) st')"

fun await_evidence :: "nat \<Rightarrow> views \<Rightarrow> nat \<Rightarrow> diagnosis_state \<Rightarrow> evidence option" where
  "await_evidence 0 views k st = ds_evidence st"
| "await_evidence (Suc n) views k st =
     (let st' = reread views k st
      in if ds_evidence st' \<noteq> None then ds_evidence st' else await_evidence n views (Suc k) st')"

text \<open>The sensors and the evidence the prompt and the check use.\<close>

record rc_material =
  mt_sensors :: "sensor_entry list"
  mt_chunks :: "sop_chunk list"
  mt_history :: "history_match list"

definition gather_material :: "views \<Rightarrow> diagnosis_state \<Rightarrow> sensor_entry list \<Rightarrow> rc_material" where
  "gather_material views st event_sensors =
     (let (st1, k) = (if ds_sensor_count st < 5 then await_signature signature_attempts views 1 st
                      else (st, 1));
          sensors = (case ds_summary st1 of Some x \<Rightarrow> su_sensors x | None \<Rightarrow> event_sensors);
          ev = (case ds_evidence st1 of Some e \<Rightarrow> Some e | None \<Rightarrow> await_evidence evidence_attempts views k st1)
      in \<lparr>mt_sensors = sensors,
          mt_chunks = (case ev of None \<Rightarrow> [] | Some e \<Rightarrow> ev_sop_chunks e),
          mt_history = (case ev of None \<Rightarrow> [] | Some e \<Rightarrow> ev_matched_history e)\<rparr>)"

section \<open>The agent\<close>

text \<open>
  The model is called with the attempt (1, or 2 with the stricter reminder) and the material the
  prompt renders.
\<close>

record rc_env =
  rce_llm :: "nat \<Rightarrow> rc_material \<Rightarrow> llm_response result"
  rce_flat_input :: "real option"
  rce_flat_output :: "real option"
  rce_faults :: "nat \<Rightarrow> exc option"
  rce_attempts :: nat

definition rc_persist ::
  "rc_env \<Rightarrow> string \<Rightarrow> string \<Rightarrow> int \<Rightarrow> cited_point list \<Rightarrow> status \<Rightarrow> time \<Rightarrow> db \<Rightarrow> unit result \<times> db" where
  "rc_persist env i hypothesis confidence cited st t d =
     retry_from (rce_attempts env) 1
       (with_faults (rce_faults env) (save_root_cause i hypothesis confidence cited st t))
       (''Root-cause write failed after '' @ nat_str (rce_attempts env) @ '' attempts'') d"

definition withheld_text :: string where
  "withheld_text = ''Automatic diagnosis withheld: model output failed the evidence-citation '' @
     ''check. Requires human review.''"

definition root_cause_event :: "string \<Rightarrow> int \<Rightarrow> bus_event" where
  "root_cause_event i confidence = StageCompleted
     \<lparr>sg_stage = Some ''root_cause'', sg_incident = Some i, sg_severity = None, sg_level = None,
      sg_next = None, sg_confidence = Some confidence\<rparr>"

text \<open>What happens after an answer passed the check.\<close>

definition accept_diagnosis ::
  "rc_env \<Rightarrow> bus_faults \<Rightarrow> string \<Rightarrow> llm_response \<Rightarrow> diagnosis \<Rightarrow> time \<Rightarrow> world \<Rightarrow> diagnosis option result \<times> world" where
  "accept_diagnosis env bus i r dg t w =
     (case on_db (rc_persist env i (dg_hypothesis dg) (dg_confidence dg) (dg_cited dg) Investigating t) w of
        (Inl e, w1) \<Rightarrow> (Inl e, w1)
      | (Inr _, w1) \<Rightarrow>
          (let cost = estimate_cost_usd (rce_flat_input env) (rce_flat_output env) (lr_model r) (lr_usage r) in
           case (if cost > 0 then on_db (add_incident_cost i cost t) w1 else (Inr True, w1)) of
             (Inl e, w2) \<Rightarrow> (Inl e, w2)
           | (Inr _, w2) \<Rightarrow>
               (case publish bus (root_cause_event i (dg_confidence dg)) w2 of
                  (Inl e, w3) \<Rightarrow> (Inl e, w3)
                | (Inr _, w3) \<Rightarrow> (Inr (Some dg), w3))))"

definition check_answer :: "rc_material \<Rightarrow> llm_response \<Rightarrow> verdict" where
  "check_answer m r = parse_and_validate (lr_content r) (mt_sensors m) (mt_chunks m) (mt_history m)"

definition diagnose ::
  "rc_env \<Rightarrow> bus_faults \<Rightarrow> string \<Rightarrow> rc_material \<Rightarrow> time \<Rightarrow> world \<Rightarrow> diagnosis option result \<times> world" where
  "diagnose env bus i m t w =
     (case rce_llm env 1 m of
        Inl e \<Rightarrow> (Inl e, w)
      | Inr r1 \<Rightarrow>
     (case check_answer m r1 of
        Valid dg \<Rightarrow> accept_diagnosis env bus i r1 dg t w
      | Invalid _ \<Rightarrow>
     (case rce_llm env 2 m of
        Inl e \<Rightarrow> (Inl e, w)
      | Inr r2 \<Rightarrow>
     (case check_answer m r2 of
        Valid dg \<Rightarrow> accept_diagnosis env bus i r2 dg t w
      | Invalid _ \<Rightarrow>
     (case on_db (rc_persist env i withheld_text 0 [] NeedsHumanReview t) w of
        (Inl e, w1) \<Rightarrow> (Inl e, w1)
      | (Inr _, w1) \<Rightarrow> (Inr None, w1))))))"

definition rc_handle ::
  "rc_env \<Rightarrow> bus_faults \<Rightarrow> views \<Rightarrow> string \<Rightarrow> sensor_entry list \<Rightarrow> time \<Rightarrow> world \<Rightarrow>
     diagnosis option result \<times> world" where
  "rc_handle env bus views i event_sensors t w =
     (case views 0 of
        None \<Rightarrow> (Inr None, w)
      | Some st \<Rightarrow>
          if ds_root_cause st \<noteq> None then (Inr None, w)
          else diagnose env bus i (gather_material views st event_sensors) t w)"

text \<open>The two triggers: a running diagnosis makes a second event a no-op; exceptions are logged.\<close>

definition rc_handle_event ::
  "rc_env \<Rightarrow> bus_faults \<Rightarrow> views \<Rightarrow> string option \<Rightarrow> sensor_entry list \<Rightarrow> time \<Rightarrow>
     string set \<times> world \<Rightarrow> string set \<times> world" where
  "rc_handle_event env bus views x event_sensors t s =
     (case s of (running, w) \<Rightarrow>
        if \<not> truthy_str x then (running, w)
        else (let i = the x in
              if i \<in> running then (running, w)
              else (insert i running - {i}, snd (rc_handle env bus views i event_sensors t w))))"

definition event_sensors_of :: "anomaly_event \<Rightarrow> sensor_entry list" where
  "event_sensors_of ev =
     (case an_summary ev of Some x \<Rightarrow> su_sensors x | None \<Rightarrow> or_list (an_sensors ev))"

definition rc_on_anomaly ::
  "rc_env \<Rightarrow> bus_faults \<Rightarrow> views \<Rightarrow> anomaly_event \<Rightarrow> time \<Rightarrow> string set \<times> world \<Rightarrow> string set \<times> world" where
  "rc_on_anomaly env bus views ev t s =
     rc_handle_event env bus views (an_incident ev) (event_sensors_of ev) t s"

definition rc_on_nudge ::
  "rc_env \<Rightarrow> bus_faults \<Rightarrow> views \<Rightarrow> string option \<Rightarrow> sensor_entry list option \<Rightarrow> time \<Rightarrow> string set \<times> world \<Rightarrow>
     string set \<times> world" where
  "rc_on_nudge env bus views i x t s = rc_handle_event env bus views i (or_list x) t s"

section \<open>Facts\<close>

lemma rc_persist_cases:
  assumes "rc_persist env i h c cited st t d = (r, d')"
  shows "(r = Inr () \<and> save_root_cause i h c cited st t d = (Inr True, d')) \<or> ((\<exists>e. r = Inl e) \<and> d' = d)"
  using root_cause_write.retry_all_or_nothing [OF assms [unfolded rc_persist_def]]
  by (auto simp: with_faults_def split: option.splits)

lemma rc_persist_succeeds:
  assumes "rce_faults env j = None" "1 \<le> j" "j \<le> rce_attempts env"
    and "parse_uuid i = Some u" "find_incident u d = Some r"
  shows "\<exists>d'. rc_persist env i h c cited st t d = (Inr (), d')"
proof -
  have "with_faults (rce_faults env) (save_root_cause i h c cited st t) j d =
      (Inr True, snd (save_root_cause i h c cited st t d))"
    using assms by (simp add: with_faults_def save_root_cause_def)
  from root_cause_write.retry_succeeds [OF this] show ?thesis
    using assms(2,3) unfolding rc_persist_def by simp
qed

lemma save_root_cause_ok:
  assumes "save_root_cause i h c cited st t d = (Inr True, d')" and "parse_uuid i = Some u"
  shows "\<exists>r r'. find_incident u d = Some r \<and> find_incident u d' = Some r' \<and>
     inc_root_cause r' = Some h \<and> inc_confidence r' = Some c \<and> inc_cited r' = Some cited \<and>
     inc_status r' = st \<and> trail u d' = trail u d @ [(st, ''root-cause-agent'')]"
proof -
  obtain r where r: "find_incident u d = Some r"
    using assms by (auto simp: save_root_cause_def split: option.splits)
  have "d' = snd (save_root_cause i h c cited st t d)" using assms(1) by simp
  with r assms(2) show ?thesis by (simp add: save_root_cause_def store_simps)
qed

lemma add_incident_cost_keeps:
  assumes "add_incident_cost i c t d = (x, d')" and "parse_uuid i = Some u" and "find_incident u d = Some r"
  shows "\<exists>r'. find_incident u d' = Some r' \<and> inc_root_cause r' = inc_root_cause r \<and>
     inc_confidence r' = inc_confidence r \<and> inc_cited r' = inc_cited r \<and> inc_status r' = inc_status r \<and>
     trail u d' = trail u d \<and> touches_only u d d'"
  using assms by (auto simp: add_incident_cost_def store_simps touches_only_intros)

text \<open>What the row of a diagnosed incident holds.\<close>

definition holds_diagnosis :: "incident \<Rightarrow> string \<Rightarrow> int \<Rightarrow> cited_point list \<Rightarrow> status \<Rightarrow> bool" where
  "holds_diagnosis r h c cited st \<longleftrightarrow>
     inc_root_cause r = Some h \<and> inc_confidence r = Some c \<and> inc_cited r = Some cited \<and> inc_status r = st"

text \<open>The outcome of accepting: nothing written, or exactly the diagnosis.\<close>

lemma accept_diagnosis_effect:
  assumes "accept_diagnosis env bus i r dg t w = (res, w')" and u: "parse_uuid i = Some u"
  shows "(w' = w \<and> (\<exists>e. res = Inl e)) \<or>
    (\<exists>x x'. find_incident u (w_db w) = Some x \<and> find_incident u (w_db w') = Some x' \<and>
       holds_diagnosis x' (dg_hypothesis dg) (dg_confidence dg) (dg_cited dg) Investigating \<and>
       trail u (w_db w') = trail u (w_db w) @ [(Investigating, ''root-cause-agent'')] \<and>
       touches_only u (w_db w) (w_db w') \<and>
       (\<forall>y. res = Inr y \<longrightarrow> y = Some dg \<and> w_bus w' = w_bus w @ [root_cause_event i (dg_confidence dg)]))"
proof -
  let ?persist = "rc_persist env i (dg_hypothesis dg) (dg_confidence dg) (dg_cited dg) Investigating t"
  obtain p d1 where p: "?persist (w_db w) = (p, d1)" by (cases "?persist (w_db w)")
  show ?thesis
  proof (cases p)
    case (Inl e)
    with p rc_persist_cases [OF p] assms(1) show ?thesis
      by (auto simp: accept_diagnosis_def on_db_def)
  next
    case (Inr z)
    then have save: "save_root_cause i (dg_hypothesis dg) (dg_confidence dg) (dg_cited dg) Investigating t (w_db w) = (Inr True, d1)"
      using rc_persist_cases [OF p] by auto
    obtain x x1 where x: "find_incident u (w_db w) = Some x" "find_incident u d1 = Some x1"
      "holds_diagnosis x1 (dg_hypothesis dg) (dg_confidence dg) (dg_cited dg) Investigating"
      "trail u d1 = trail u (w_db w) @ [(Investigating, ''root-cause-agent'')]"
      using save_root_cause_ok [OF save u] by (auto simp: holds_diagnosis_def)
    let ?cost = "estimate_cost_usd (rce_flat_input env) (rce_flat_output env) (lr_model r) (lr_usage r)"
    let ?w1 = "w\<lparr>w_db := d1\<rparr>"
    obtain c w2 where c: "(if ?cost > 0 then on_db (add_incident_cost i ?cost t) ?w1 else (Inr True, ?w1)) = (c, w2)"
      by (cases "if ?cost > 0 then on_db (add_incident_cost i ?cost t) ?w1 else (Inr True, ?w1)")
    have "\<exists>x2. find_incident u (w_db w2) = Some x2 \<and>
        holds_diagnosis x2 (dg_hypothesis dg) (dg_confidence dg) (dg_cited dg) Investigating \<and>
        trail u (w_db w2) = trail u d1 \<and> touches_only u d1 (w_db w2) \<and> w_bus w2 = w_bus w"
    proof (cases "?cost > 0")
      case True
      obtain y d2 where y: "add_incident_cost i ?cost t d1 = (y, d2)" by (cases "add_incident_cost i ?cost t d1")
      with True c have "w2 = ?w1\<lparr>w_db := d2\<rparr>" by (simp add: on_db_def)
      with add_incident_cost_keeps [OF y u x(2)] x(3) show ?thesis by (auto simp: holds_diagnosis_def)
    qed (use c x in auto)
    then obtain x2 where x2: "find_incident u (w_db w2) = Some x2"
      "holds_diagnosis x2 (dg_hypothesis dg) (dg_confidence dg) (dg_cited dg) Investigating"
      "trail u (w_db w2) = trail u d1" "touches_only u d1 (w_db w2)" "w_bus w2 = w_bus w" by blast
    have t1: "touches_only u (w_db w) (w_db w2)"
      by (rule touches_only_trans [OF save_root_cause_touches [OF save u] x2(4)])
    have "w_db w' = w_db w2 \<and> (\<forall>y. res = Inr y \<longrightarrow> y = Some dg \<and> w_bus w' = w_bus w2 @ [root_cause_event i (dg_confidence dg)])"
      using assms(1) p Inr c
      by (auto simp: accept_diagnosis_def on_db_def [of _ w] p Let_def publish_def split: sum.splits option.splits)
    with x x2 t1 show ?thesis by auto
  qed
qed

lemma withheld_effect:
  assumes "on_db (rc_persist env i withheld_text 0 [] NeedsHumanReview t) w = (res, w')"
    and u: "parse_uuid i = Some u"
  shows "(w' = w \<and> (\<exists>e. res = Inl e)) \<or>
    (res = Inr () \<and> (\<exists>x x'. find_incident u (w_db w) = Some x \<and> find_incident u (w_db w') = Some x' \<and>
       holds_diagnosis x' withheld_text 0 [] NeedsHumanReview \<and>
       trail u (w_db w') = trail u (w_db w) @ [(NeedsHumanReview, ''root-cause-agent'')] \<and>
       touches_only u (w_db w) (w_db w') \<and> w_bus w' = w_bus w))"
proof -
  obtain p d1 where p: "rc_persist env i withheld_text 0 [] NeedsHumanReview t (w_db w) = (p, d1)"
    by (cases "rc_persist env i withheld_text 0 [] NeedsHumanReview t (w_db w)")
  have w': "res = p" "w' = w\<lparr>w_db := d1\<rparr>" using assms(1) by (simp_all add: on_db_def p)
  from rc_persist_cases [OF p] show ?thesis
  proof (elim disjE conjE)
    assume "p = Inr ()" and save: "save_root_cause i withheld_text 0 [] NeedsHumanReview t (w_db w) = (Inr True, d1)"
    with w' save_root_cause_ok [OF save u] save_root_cause_touches [OF save u] show ?thesis
      by (auto simp: holds_diagnosis_def)
  qed (use w' in auto)
qed

text \<open>
  The three ways a diagnosis ends: nothing is written, a diagnosis that passed the check is
  written, or the fixed note is written for a human to review.
\<close>

lemma diagnose_effect:
  assumes "diagnose env bus i m t w = (res, w')" and u: "parse_uuid i = Some u"
  shows "(w' = w \<and> (\<exists>e. res = Inl e)) \<or>
    (\<exists>x x'. find_incident u (w_db w) = Some x \<and> find_incident u (w_db w') = Some x' \<and>
       touches_only u (w_db w) (w_db w') \<and>
       trail u (w_db w') = trail u (w_db w) @ [(inc_status x', ''root-cause-agent'')] \<and>
       ((\<exists>dg n r. check_answer m r = Valid dg \<and> rce_llm env n m = Inr r \<and>
           holds_diagnosis x' (dg_hypothesis dg) (dg_confidence dg) (dg_cited dg) Investigating \<and>
           (\<forall>y. res = Inr y \<longrightarrow> y = Some dg \<and> w_bus w' = w_bus w @ [root_cause_event i (dg_confidence dg)])) \<or>
        (holds_diagnosis x' withheld_text 0 [] NeedsHumanReview \<and> res = Inr None \<and> w_bus w' = w_bus w)))"
proof -
  have acc: ?thesis if "accept_diagnosis env bus i r dg t w = (res, w')" "check_answer m r = Valid dg" "rce_llm env n m = Inr r"
    for r dg n
  proof -
    from accept_diagnosis_effect [OF that(1) u] show ?thesis
    proof (elim disjE exE)
      fix x x'
      assume h: "find_incident u (w_db w) = Some x \<and> find_incident u (w_db w') = Some x' \<and>
         holds_diagnosis x' (dg_hypothesis dg) (dg_confidence dg) (dg_cited dg) Investigating \<and>
         trail u (w_db w') = trail u (w_db w) @ [(Investigating, ''root-cause-agent'')] \<and>
         touches_only u (w_db w) (w_db w') \<and>
         (\<forall>y. res = Inr y \<longrightarrow> y = Some dg \<and> w_bus w' = w_bus w @ [root_cause_event i (dg_confidence dg)])"
      then have "inc_status x' = Investigating" by (simp add: holds_diagnosis_def)
      with h that(2,3) show ?thesis
        by (intro disjI2 exI [of _ x] exI [of _ x'] conjI disjI1 exI [of _ dg] exI [of _ n] exI [of _ r]) simp_all
    qed simp
  qed
  show ?thesis
  proof (cases "rce_llm env 1 m")
    case (Inl e)
    with assms(1) show ?thesis by (auto simp: diagnose_def)
  next
    case (Inr r1)
    note r1 = this
    show ?thesis
    proof (cases "check_answer m r1")
      case (Valid dg)
      with acc [of r1 dg 1] assms(1) r1 show ?thesis by (simp add: diagnose_def)
    next
      case (Invalid why)
      note inv = this
      show ?thesis
      proof (cases "rce_llm env 2 m")
        case (Inl e)
        with assms(1) r1 inv show ?thesis by (auto simp: diagnose_def)
      next
        case (Inr r2)
        show ?thesis
        proof (cases "check_answer m r2")
          case (Valid dg)
          with acc [of r2 dg 2] assms(1) r1 inv Inr show ?thesis by (simp add: diagnose_def)
        next
          case (Invalid why2)
          obtain p w1 where p: "on_db (rc_persist env i withheld_text 0 [] NeedsHumanReview t) w = (p, w1)"
            by (cases "on_db (rc_persist env i withheld_text 0 [] NeedsHumanReview t) w")
          have "w' = w1" "res = (case p of Inl e \<Rightarrow> Inl e | Inr _ \<Rightarrow> Inr None)"
            using assms(1) r1 inv Inr Invalid p by (auto simp: diagnose_def split: sum.splits)
          with withheld_effect [OF p u] show ?thesis by (auto simp: holds_diagnosis_def)
        qed
      qed
    qed
  qed
qed

text \<open>The reads of an agent that runs without interruption: the store as it is.\<close>

definition current_views :: "string \<Rightarrow> world \<Rightarrow> views" where
  "current_views i w = (\<lambda>k. get_incident_diagnosis_state i (w_db w))"

lemma rc_handle_undiagnosed:
  assumes "views 0 = Some st" "ds_root_cause st = None"
  shows "rc_handle env bus views i es t w = diagnose env bus i (gather_material views st es) t w"
  using assms by (simp add: rc_handle_def)

text \<open>An undiagnosed incident with one flagged sensor, and models that answer it.\<close>

definition open_incident :: incident where
  "open_incident = sample_incident\<lparr>inc_status := Open, inc_root_cause := None, inc_confidence := None,
     inc_summary := Some (sample_summary\<lparr>su_sensors := [plain_sensor]\<rparr>)\<rparr>"

definition open_world :: world where
  "open_world = \<lparr>w_db = sample_db\<lparr>db_incidents := [open_incident]\<rparr>, w_bus = []\<rparr>"

definition answering :: "string \<Rightarrow> rc_env" where
  "answering x =
     \<lparr>rce_llm = (\<lambda>k m. Inr \<lparr>lr_content = x, lr_tool_calls = [], lr_model = [],
         lr_usage = \<lparr>us_prompt = None, us_completion = None, us_total = None\<rparr>\<rparr>),
      rce_flat_input = None, rce_flat_output = None, rce_faults = (\<lambda>k. None), rce_attempts = 3\<rparr>"

definition open_state :: diagnosis_state where
  "open_state = \<lparr>ds_evidence = None, ds_root_cause = None, ds_sensor_count = 1,
     ds_summary = inc_summary open_incident, ds_confidence = None\<rparr>"

lemma open_facts:
  "find_incident u (w_db open_world) = (if u = 7 then Some open_incident else None)"
  "current_views (uuid_str 7) open_world k = Some open_state"
  "ds_root_cause open_state = None"
proof -
  show f: "find_incident u (w_db open_world) = (if u = 7 then Some open_incident else None)" for u
    by (auto simp: find_incident_def open_world_def open_incident_def sample_incident_def)
  show "current_views (uuid_str 7) open_world k = Some open_state"
    unfolding current_views_def get_incident_diagnosis_state_def sample_uuid option.case f
    by (simp add: open_state_def open_incident_def sample_incident_def)
qed (simp add: open_state_def)

lemma open_material:
  "gather_material (current_views (uuid_str 7) open_world) open_state es =
     \<lparr>mt_sensors = [plain_sensor], mt_chunks = [], mt_history = []\<rparr>"
proof -
  have a: "await_signature n (current_views (uuid_str 7) open_world) k open_state = (open_state, k + n)" for n k
    by (induction n arbitrary: k) (simp_all add: reread_def open_facts, simp add: open_state_def)
  have b: "await_evidence n (current_views (uuid_str 7) open_world) k open_state = None" for n k
    by (induction n arbitrary: k) (simp_all add: reread_def open_facts, simp_all add: open_state_def)
  have "ds_sensor_count open_state = 1" "ds_evidence open_state = None"
    "ds_summary open_state = Some (sample_summary\<lparr>su_sensors := [plain_sensor]\<rparr>)"
    by (simp_all add: open_state_def open_incident_def)
  then show ?thesis by (simp add: gather_material_def a b)
qed

lemma answering_fields [simp]:
  "rce_llm (answering x) k m = Inr \<lparr>lr_content = x, lr_tool_calls = [], lr_model = [],
         lr_usage = \<lparr>us_prompt = None, us_completion = None, us_total = None\<rparr>\<rparr>"
  "rce_faults (answering x) j = None" "rce_attempts (answering x) = 3"
  by (simp_all add: answering_def)

definition insufficient_text :: string where
  "insufficient_text = ''Insufficient evidence for a confident conclusion; human review required.''"

lemma insufficient_parse:
  "parse_and_validate insufficient_text [plain_sensor] [] [] = Valid
     \<lparr>dg_insufficient = True, dg_hypothesis = insufficient_text, dg_confidence = 0, dg_cited = []\<rparr>"
  by code_simp

lemma open_run:
  assumes "parse_and_validate x [plain_sensor] [] [] = Valid dg"
  shows "\<exists>w'. rc_handle (answering x) (\<lambda>_. None) (current_views (uuid_str 7) open_world) (uuid_str 7) [] 9 open_world
      = (Inr (Some dg), w')"
proof -
  obtain d1 where p: "rc_persist (answering x) (uuid_str 7) (dg_hypothesis dg) (dg_confidence dg) (dg_cited dg)
      Investigating 9 (w_db open_world) = (Inr (), d1)"
    using rc_persist_succeeds [where j = 1 and u = 7 and env = "answering x" and i = "uuid_str 7"
        and d = "w_db open_world" and r = open_incident]
    by (simp add: open_facts del: One_nat_def) blast
  have free: "estimate_cost_usd a b [] \<lparr>us_prompt = None, us_completion = None, us_total = None\<rparr> = 0" for a b
    by (simp add: estimate_cost_usd_def token_split_def Let_def py_round_def half_even_def)
  show ?thesis
    using assms p
    by (simp add: rc_handle_def open_facts open_material diagnose_def check_answer_def accept_diagnosis_def
        on_db_def publish_def free)
qed

section \<open>Properties\<close>



text \<open>
  A diagnosis is made once.  When a run has ended without an exception for an incident that
  exists, a further run, with any model, any event and at any time, does nothing: the model is not
  called and nothing is written.
\<close>

theorem diagnosis_is_made_once:
  assumes "rc_handle env bus (current_views i w) i es t w = (Inr x, w1)"
    and "parse_uuid i = Some u" and "find_incident u (w_db w) = Some r"
  shows "rc_handle env' bus' (current_views i w1) i es' t' w1 = (Inr None, w1)"
proof -
  obtain st where st: "current_views i w 0 = Some st" "ds_root_cause st = inc_root_cause r"
    using assms by (auto simp: current_views_def get_incident_diagnosis_state_def)
  have "\<exists>r'. find_incident u (w_db w1) = Some r' \<and> inc_root_cause r' \<noteq> None"
  proof (cases "inc_root_cause r")
    case None
    with st have "ds_root_cause st = None" by simp
    with assms(1) st(1) have "diagnose env bus i (gather_material (current_views i w) st es) t w = (Inr x, w1)"
      by (simp add: rc_handle_undiagnosed)
    from diagnose_effect [OF this assms(2)] show ?thesis by (auto simp: holds_diagnosis_def)
  next
    case (Some h)
    with assms st show ?thesis by (auto simp: rc_handle_def)
  qed
  with assms(2) show ?thesis
    by (auto simp: rc_handle_def current_views_def get_incident_diagnosis_state_def)
qed

lemma diagnosis_is_made_once_witness:
  "\<exists>x w1. rc_handle (answering sample_answer_text) (\<lambda>_. None) (current_views (uuid_str 7) open_world) (uuid_str 7) [] 9 open_world
       = (Inr x, w1) \<and>
     rc_handle (answering insufficient_text) (\<lambda>_. None) (current_views (uuid_str 7) w1) (uuid_str 7) [] 10 w1 = (Inr None, w1)"
proof -
  obtain x w1 where h: "rc_handle (answering sample_answer_text) (\<lambda>_. None) (current_views (uuid_str 7) open_world)
      (uuid_str 7) [] 9 open_world = (Inr x, w1)"
    using open_run [OF sample_parse] by blast
  have "find_incident 7 (w_db open_world) = Some open_incident" by (simp add: open_facts)
  from diagnosis_is_made_once [OF h sample_uuid(4) this] h show ?thesis by blast
qed

text \<open>
  A report of insufficient evidence does not wait for a human: it is stored with status
  \<open>investigating\<close> (not \<open>needs_human_review\<close>) and its stage event sends the incident on to
  the Risk Agent.
\<close>

theorem insufficient_evidence_continues:
  assumes "views 0 = Some st" "ds_root_cause st = None" "m = gather_material views st es"
    and "rce_llm env 1 m = Inr r1" "check_answer m r1 = Valid dg" "dg_insufficient dg"
    and "rce_faults env j = None" "1 \<le> j" "j \<le> rce_attempts env" "\<And>e. bus e = None"
    and "parse_uuid i = Some u" "find_incident u (w_db w) = Some r"
  shows "\<exists>w'. rc_handle env bus views i es t w = (Inr (Some dg), w') \<and>
     status_of u (w_db w') = Some Investigating \<and>
     w_bus w' = w_bus w @ [root_cause_event i 0]"
proof -
  have c0: "dg_confidence dg = 0"
    using parse_and_validate_cases [OF assms(5) [unfolded check_answer_def]] assms(6) by auto
  obtain d1 where d1: "rc_persist env i (dg_hypothesis dg) (dg_confidence dg) (dg_cited dg) Investigating t (w_db w) = (Inr (), d1)"
    using rc_persist_succeeds [OF assms(7,8,9,11,12)] by blast
  have h: "rc_handle env bus views i es t w = accept_diagnosis env bus i r1 dg t w"
    using assms(1-5) by (simp add: rc_handle_undiagnosed diagnose_def)
  obtain res w' where acc: "accept_diagnosis env bus i r1 dg t w = (res, w')"
    by (cases "accept_diagnosis env bus i r1 dg t w")
  have "\<exists>y. res = Inr y"
    using acc d1 assms(10,11)
    by (auto simp: accept_diagnosis_def on_db_def Let_def publish_def add_incident_cost_def
        split: option.splits if_splits prod.splits sum.splits)
  then show ?thesis
    using accept_diagnosis_effect [OF acc assms(11)] h acc c0
    by (auto simp: status_of_def holds_diagnosis_def)
qed

lemma insufficient_evidence_continues_witness:
  "\<exists>w' dg. rc_handle (answering insufficient_text) (\<lambda>_. None) (current_views (uuid_str 7) open_world) (uuid_str 7) [] 9 open_world
       = (Inr (Some dg), w') \<and> status_of 7 (w_db w') = Some Investigating \<and>
     w_bus w' = w_bus open_world @ [root_cause_event (uuid_str 7) 0]"
proof -
  have c: "check_answer \<lparr>mt_sensors = [plain_sensor], mt_chunks = [], mt_history = []\<rparr>
      \<lparr>lr_content = insufficient_text, lr_tool_calls = [], lr_model = [],
       lr_usage = \<lparr>us_prompt = None, us_completion = None, us_total = None\<rparr>\<rparr> =
      Valid \<lparr>dg_insufficient = True, dg_hypothesis = insufficient_text, dg_confidence = 0, dg_cited = []\<rparr>"
    by (simp add: check_answer_def insufficient_parse)
  have f: "find_incident 7 (w_db open_world) = Some open_incident" by (simp add: open_facts)
  have "\<exists>w'. rc_handle (answering insufficient_text) (\<lambda>_. None) (current_views (uuid_str 7) open_world) (uuid_str 7) [] 9 open_world
       = (Inr (Some \<lparr>dg_insufficient = True, dg_hypothesis = insufficient_text, dg_confidence = 0, dg_cited = []\<rparr>), w') \<and>
     status_of 7 (w_db w') = Some Investigating \<and>
     w_bus w' = w_bus open_world @ [root_cause_event (uuid_str 7) 0]"
    by (rule insufficient_evidence_continues [where j = 1, OF open_facts(2,3) open_material [symmetric]
          answering_fields(1) c _ _ _ _ _ sample_uuid(4) f]) simp_all
  then show ?thesis by blast
qed

end
