(* ===== verification/Retrieval.thy ===== *)
theory Retrieval
  imports Llm "HOL-Library.AList" "HOL-Library.List_Lexorder" "HOL-Library.Char_ord"
begin

text \<open>
  The knowledge base and its index: \<open>app/rag/retrieval.py\<close> (the TF-IDF index with its search),
  \<open>app/rag/corpus.py\<close> (the markdown loader with its provenance front matter) and the file stub
  \<open>app/agents/knowledge/vector_store.py\<close>.

  The vectorizer of scikit-learn and \<open>argsort\<close> of numpy are parameters: fitting returns the
  vectorizer's state and the matrix or the exception it raises, scoring gives one number for each
  row of the matrix, and \<open>argsort\<close> lists the positions in ascending order of their scores.
\<close>

section \<open>Documents and the index\<close>

type_synonym metadata = "(string \<times> string) list"

record document =
  doc_id :: string
  doc_title :: string
  doc_section :: string
  doc_text :: string
  doc_metadata :: metadata

record chunk =
  ck_doc_id :: string
  ck_title :: string
  ck_section :: string
  ck_text :: string
  ck_score :: real
  ck_metadata :: metadata

record ('v, 'm) vectorizing =
  vz_fit :: "string list \<Rightarrow> 'v \<times> 'm result"
  vz_scores :: "'v \<Rightarrow> 'm \<Rightarrow> string \<Rightarrow> real list"

record ('v, 'm) retrieval_index =
  ri_documents :: "document list"
  ri_vectorizer :: "'v option"
  ri_matrix :: "'m option"

definition empty_index :: "('v, 'm) retrieval_index" where
  "empty_index = \<lparr>ri_documents = [], ri_vectorizer = None, ri_matrix = None\<rparr>"

text \<open>
  \<open>RetrievalIndex.index\<close> replaces the documents and the vectorizer before it fits, so that a
  failing fit leaves the new documents beside the old matrix.
\<close>

definition build_index ::
  "('v, 'm) vectorizing \<Rightarrow> document list \<Rightarrow> ('v, 'm) retrieval_index \<Rightarrow>
     nat result \<times> ('v, 'm) retrieval_index" where
  "build_index vz docs ix =
     (if docs = [] then (Inl (ValueError ''Refusing to index an empty corpus''), ix)
      else (case vz_fit vz (map doc_text docs) of
              (v, Inl e) \<Rightarrow> (Inl e, ix\<lparr>ri_documents := docs, ri_vectorizer := Some v\<rparr>)
            | (v, Inr m) \<Rightarrow> (Inr (length docs),
                 ix\<lparr>ri_documents := docs, ri_vectorizer := Some v, ri_matrix := Some m\<rparr>)))"

definition index_size :: "('v, 'm) retrieval_index \<Rightarrow> nat" where
  "index_size ix = length (ri_documents ix)"

section \<open>Search\<close>

definition hit_of :: "document \<Rightarrow> real \<Rightarrow> chunk" where
  "hit_of d score =
     \<lparr>ck_doc_id = doc_id d, ck_title = doc_title d, ck_section = doc_section d, ck_text = doc_text d,
      ck_score = py_round 4 score, ck_metadata = doc_metadata d\<rparr>"

definition index_error :: exc where
  "index_error = OtherError ''list index out of range''"

text \<open>The loop over the positions, best score first.\<close>

fun collect_hits ::
  "real list \<Rightarrow> document list \<Rightarrow> nat \<Rightarrow> string set \<Rightarrow> chunk list \<Rightarrow> nat list \<Rightarrow> chunk list result" where
  "collect_hits scores docs k seen results [] = Inr results"
| "collect_hits scores docs k seen results (i # is) =
     (let score = scores ! i in
      if score \<le> 0 \<or> k \<le> length results then collect_hits scores docs k seen results is
      else if length docs \<le> i then Inl index_error
      else (let d = docs ! i in
            if doc_id d \<in> seen then collect_hits scores docs k seen results is
            else collect_hits scores docs k (insert (doc_id d) seen) (results @ [hit_of d score]) is))"

definition search ::
  "('v, 'm) vectorizing \<Rightarrow> (real list \<Rightarrow> nat list) \<Rightarrow> ('v, 'm) retrieval_index \<Rightarrow> string \<Rightarrow> nat \<Rightarrow>
     chunk list result" where
  "search vz argsort ix query k =
     (case (ri_vectorizer ix, ri_matrix ix) of
        (Some v, Some m) \<Rightarrow>
          if py_strip query = [] then Inr []
          else (let scores = vz_scores vz v m query in
                collect_hits scores (ri_documents ix) k {} [] (rev (argsort scores)))
      | _ \<Rightarrow> Inl (RuntimeError ''RetrievalIndex.search called before index()''))"

section \<open>What the loop collects\<close>

text \<open>The positions that are the first of their document.\<close>

fun firsts :: "('a \<Rightarrow> 'b) \<Rightarrow> 'b set \<Rightarrow> 'a list \<Rightarrow> 'a list" where
  "firsts f seen [] = []"
| "firsts f seen (x # xs) =
     (if f x \<in> seen then firsts f seen xs else x # firsts f (insert (f x) seen) xs)"

lemma firsts_subset: "set (firsts f seen xs) \<subseteq> set xs"
  by (induction f seen xs rule: firsts.induct) auto

lemma firsts_new: "x \<in> set (firsts f seen xs) \<Longrightarrow> f x \<notin> seen"
  by (induction f seen xs rule: firsts.induct) (auto split: if_splits)

lemma firsts_distinct: "distinct (map f (firsts f seen xs))"
  by (induction f seen xs rule: firsts.induct) (auto dest: firsts_new)

lemma firsts_sorted: "sorted_wrt R xs \<Longrightarrow> sorted_wrt R (firsts f seen xs)"
  by (induction f seen xs rule: firsts.induct) (use firsts_subset in \<open>fastforce+\<close>)

lemma firsts_represents:
  "sorted_wrt R xs \<Longrightarrow> x \<in> set xs \<Longrightarrow> f x \<notin> seen \<Longrightarrow>
     \<exists>y\<in>set (firsts f seen xs). f y = f x \<and> (y = x \<or> R y x)"
proof (induction f seen xs rule: firsts.induct)
  case (2 f seen z xs)
  show ?case
  proof (cases "f x = f z")
    case True
    with 2 show ?thesis by auto
  next
    case False
    with 2 have "x \<in> set xs" "sorted_wrt R xs" by auto
    with 2 False show ?thesis by auto
  qed
qed simp

lemma collect_hits_firsts:
  assumes "\<forall>i\<in>set is. i < length docs"
  shows "collect_hits scores docs k seen results is =
     Inr (results @ map (\<lambda>i. hit_of (docs ! i) (scores ! i))
       (take (k - length results)
         (firsts (\<lambda>i. doc_id (docs ! i)) seen (filter (\<lambda>i. 0 < scores ! i) is))))"
  using assms
proof (induction "is" arbitrary: seen results)
  case (Cons i "is")
  show ?case
  proof (cases "scores ! i \<le> 0 \<or> k \<le> length results")
    case True
    with Cons show ?thesis by (cases "scores ! i \<le> 0") auto
  next
    case False
    then obtain n where n: "k - length results = Suc n" "k - Suc (length results) = n"
      by (metis Suc_diff_Suc diff_Suc_Suc not_le)
    from Cons.prems have "i < length docs" "\<forall>i\<in>set is. i < length docs" by auto
    with False n Cons.IH show ?thesis by (simp add: Let_def)
  qed
qed simp

lemma sorted_take_drop:
  "sorted_wrt R xs \<Longrightarrow> x \<in> set (take k xs) \<Longrightarrow> y \<in> set (drop k xs) \<Longrightarrow> R x y"
  by (metis append_take_drop_id sorted_wrt_append)

section \<open>The corpus\<close>

text \<open>
  The pattern \<open>(?s)<!--\s*(.*?)-->\s*\<close> at the start of a text: its group and what follows
  the match.  The group is lazy, so it ends at the first closing mark.
\<close>

fun up_to_close :: "string \<Rightarrow> string \<Rightarrow> (string \<times> string) option" where
  "up_to_close acc [] = None"
| "up_to_close acc (c # s) =
     (if py_startswith (c # s) ''-->'' then Some (rev acc, drop 3 (c # s)) else up_to_close (c # acc) s)"

definition front_matter_match :: "string \<Rightarrow> (string \<times> string) option" where
  "front_matter_match s =
     (if py_startswith s ''<!--''
      then map_option (\<lambda>(g, rest). (g, py_lstrip rest)) (up_to_close [] (py_lstrip (drop 4 s)))
      else None)"

text \<open>\<open>_FRONT_MATTER_RE.sub("", raw, count=1)\<close> removes the first match, wherever it starts.\<close>

fun front_matter_remove :: "string \<Rightarrow> string" where
  "front_matter_remove [] = []"
| "front_matter_remove (c # s) =
     (case front_matter_match (c # s) of
        Some (_, rest) \<Rightarrow> rest
      | None \<Rightarrow> c # front_matter_remove s)"

text \<open>\<open>line.partition(":")\<close> for a line with a colon.\<close>

definition partition_colon :: "string \<Rightarrow> string \<times> string" where
  "partition_colon l = (takeWhile (\<lambda>c. c \<noteq> CHR '':'') l, tl (dropWhile (\<lambda>c. c \<noteq> CHR '':'') l))"

definition metadata_line :: "string \<Rightarrow> metadata \<Rightarrow> metadata" where
  "metadata_line l md =
     (if CHR '':'' \<in> set l
      then (case partition_colon l of (k, v) \<Rightarrow> AList.update (py_strip k) (py_strip v) md)
      else md)"

definition default_metadata :: metadata where
  "default_metadata = [(''source_type'', ''illustrative'')]"

definition parse_front_matter :: "string \<Rightarrow> metadata \<times> string" where
  "parse_front_matter raw =
     (case front_matter_match (py_lstrip raw) of
        None \<Rightarrow> (default_metadata, raw)
      | Some (g, _) \<Rightarrow> (fold metadata_line (splitlines g) default_metadata, front_matter_remove raw))"

text \<open>
  \<open>_split_markdown\<close>: the loop's variables are the title, the finished sections, the current
  heading and its lines.
\<close>

record splitter =
  sp_title :: string
  sp_sections :: "(string \<times> string) list"
  sp_heading :: string
  sp_lines :: "string list"

definition flush :: "splitter \<Rightarrow> splitter" where
  "flush st = st\<lparr>sp_sections := sp_sections st @ [(sp_heading st, py_join newline (sp_lines st))]\<rparr>"

definition is_h1 :: "string \<Rightarrow> bool" where
  "is_h1 l \<longleftrightarrow> py_startswith l ''# '' \<and> \<not> py_startswith l ''## ''"

definition is_h2 :: "string \<Rightarrow> bool" where
  "is_h2 l \<longleftrightarrow> py_startswith l ''## ''"

definition split_line :: "string \<Rightarrow> splitter \<Rightarrow> splitter" where
  "split_line l st =
     (if is_h1 l then st\<lparr>sp_title := py_strip (drop 2 l)\<rparr>
      else if is_h2 l then (flush st)\<lparr>sp_heading := py_strip (drop 3 l), sp_lines := []\<rparr>
      else st\<lparr>sp_lines := sp_lines st @ [l]\<rparr>)"

definition split_start :: splitter where
  "split_start = \<lparr>sp_title = ''Untitled'', sp_sections = [], sp_heading = ''Overview'', sp_lines = []\<rparr>"

definition split_markdown :: "string \<Rightarrow> string \<times> (string \<times> string) list" where
  "split_markdown raw =
     (let st = flush (fold split_line (splitlines raw) split_start) in (sp_title st, sp_sections st))"

text \<open>
  \<open>load_corpus\<close>: the directory's \<open>*.md\<close> files, by name; a file is its name and its text.
\<close>

definition path_stem :: "string \<Rightarrow> string" where
  "path_stem name = (if 3 < length name then take (length name - 3) name else name)"

definition file_documents :: "string \<times> string \<Rightarrow> document list" where
  "file_documents file =
     (case file of (name, raw) \<Rightarrow>
      case parse_front_matter raw of (md, body) \<Rightarrow>
      case split_markdown body of (title, sections) \<Rightarrow>
        map (\<lambda>(heading, b).
            \<lparr>doc_id = path_stem name, doc_title = title, doc_section = heading,
             doc_text = title @ '' -- '' @ heading @ newline @ py_strip b,
             doc_metadata = fold (\<lambda>(k, v). AList.update k v) md [(''source'', name)]\<rparr>)
          (filter (\<lambda>(heading, b). py_strip b \<noteq> []) sections))"

definition no_documents :: "string \<Rightarrow> exc" where
  "no_documents dir = RuntimeError (''No knowledge-base documents found in '' @ dir @ ''; the Knowledge '' @
     ''Agent has nothing to retrieve -- check the seed files.'')"

definition no_public_real :: exc where
  "no_public_real = RuntimeError (''No public_real knowledge in the corpus; the Prompt 8 provenance '' @
     ''contract requires at least one real public document -- run '' @ ''scripts/prepare_public_docs.py.'')"

definition source_type_of :: "metadata \<Rightarrow> string option" where
  "source_type_of md = map_of md ''source_type''"

definition load_corpus :: "string \<Rightarrow> (string \<times> string) list \<Rightarrow> document list result" where
  "load_corpus dir files =
     (let docs = concat (map file_documents (sort_key fst files)) in
      if docs = [] then Inl (no_documents dir)
      else if \<not> (\<exists>d\<in>set docs. source_type_of (doc_metadata d) = Some ''public_real'') then Inl no_public_real
      else Inr docs)"

section \<open>The file stub of the vector store\<close>

record stored_text =
  st_text :: string
  st_metadata :: metadata
  st_indexed_at :: time

type_synonym vector_file = "(string \<times> stored_text) list option"

definition store_load :: "vector_file \<Rightarrow> (string \<times> stored_text) list" where
  "store_load f = or_list f"

definition store_upsert :: "string \<Rightarrow> string \<Rightarrow> metadata \<Rightarrow> time \<Rightarrow> vector_file \<Rightarrow> vector_file" where
  "store_upsert i x md t f =
     Some (AList.update i \<lparr>st_text = x, st_metadata = md, st_indexed_at = t\<rparr> (store_load f))"

definition store_search :: "string \<Rightarrow> nat \<Rightarrow> vector_file \<Rightarrow> (string \<times> stored_text) list" where
  "store_search query k f = take k (store_load f)"

section \<open>Facts of the corpus\<close>

text \<open>A front matter sets the source type only by a line that names it.\<close>

lemma metadata_line_source:
  assumes "source_type_of (metadata_line l md) = Some x"
  shows "source_type_of md = Some x \<or>
    (\<exists>k v. CHR '':'' \<in> set l \<and> partition_colon l = (k, v) \<and> py_strip k = ''source_type'' \<and> py_strip v = x)"
  using assms
  by (auto simp: metadata_line_def source_type_of_def update_conv' split: if_splits prod.splits)

lemma metadata_lines_source:
  "source_type_of (fold metadata_line ls md) = Some x \<Longrightarrow> source_type_of md = Some x \<or>
    (\<exists>l\<in>set ls. \<exists>k v. CHR '':'' \<in> set l \<and> partition_colon l = (k, v) \<and> py_strip k = ''source_type'' \<and> py_strip v = x)"
proof (induction ls arbitrary: md)
  case (Cons l ls)
  from Cons.IH [of "metadata_line l md"] Cons.prems metadata_line_source [of l md x] show ?case by auto
qed simp

lemma merged_source:
  "source_type_of (fold (\<lambda>(k, v). AList.update k v) md acc) = Some x \<Longrightarrow>
     source_type_of acc = Some x \<or> (''source_type'', x) \<in> set md"
proof (induction md arbitrary: acc)
  case (Cons kv md)
  from Cons.IH [of "AList.update (fst kv) (snd kv) acc"] Cons.prems show ?case
    by (cases kv) (auto simp: source_type_of_def update_conv' split: if_splits)
qed simp

lemma update_distinct_keys: "distinct (map fst md) \<Longrightarrow> distinct (map fst (metadata_line l md))"
  by (simp add: metadata_line_def distinct_update split: prod.split)

lemma front_matter_distinct: "distinct (map fst (fst (parse_front_matter raw)))"
proof -
  have "distinct (map fst (fold metadata_line ls md))" if "distinct (map fst md)" for ls md
    using that by (induction ls arbitrary: md) (simp_all add: update_distinct_keys)
  then show ?thesis by (auto simp: parse_front_matter_def default_metadata_def split: option.splits)
qed

text \<open>Every line of the text goes, in order, into the section of the heading before it.\<close>

definition line_groups :: "splitter \<Rightarrow> (string \<times> string list) list \<Rightarrow> bool" where
  "line_groups st gs \<longleftrightarrow> sp_sections st = map (\<lambda>(h, ls). (h, py_join newline ls)) gs"

definition rendered :: "(string \<times> string list) list \<Rightarrow> string list" where
  "rendered gs = concat (map (\<lambda>(h, ls). (''## '' @ h) # ls) gs)"

definition body_line :: "string \<Rightarrow> string" where
  "body_line l = (if is_h2 l then ''## '' @ py_strip (drop 3 l) else l)"

lemma split_lines_keep:
  "line_groups st gs \<Longrightarrow>
   \<exists>gs'. line_groups (flush (fold split_line ls st)) gs' \<and>
     rendered gs' = rendered gs @ (''## '' @ sp_heading st) # sp_lines st @
       map body_line (filter (\<lambda>l. \<not> is_h1 l) ls)"
proof (induction ls arbitrary: st gs)
  case Nil
  then have "line_groups (flush st) (gs @ [(sp_heading st, sp_lines st)])"
    by (simp add: line_groups_def flush_def)
  then show ?case by (intro exI conjI) (auto simp: rendered_def)
next
  case (Cons l ls)
  consider "is_h1 l" | "\<not> is_h1 l" "is_h2 l" | "\<not> is_h1 l" "\<not> is_h2 l" by blast
  then show ?case
  proof cases
    case 1
    with Cons.IH [of "split_line l st" gs] Cons.prems show ?thesis
      by (auto simp: split_line_def line_groups_def)
  next
    case 2
    with Cons.prems have "line_groups (split_line l st) (gs @ [(sp_heading st, sp_lines st)])"
      by (simp add: split_line_def line_groups_def flush_def)
    from Cons.IH [OF this] 2 show ?thesis
      by (auto simp: split_line_def rendered_def body_line_def)
  next
    case 3
    with Cons.prems have "line_groups (split_line l st) gs" by (simp add: split_line_def line_groups_def)
    from Cons.IH [OF this] 3 show ?thesis by (auto simp: split_line_def body_line_def)
  qed
qed

section \<open>Writing a front matter and reading it back\<close>

text \<open>\<open>front_matter\<close> of \<open>scripts/prepare_public_docs.py\<close>, which generates the public files.\<close>

definition front_matter :: "string \<Rightarrow> string \<Rightarrow> string \<Rightarrow> string" where
  "front_matter source_type source_url publisher =
     ''<!--'' @ newline @
     ''source_type: '' @ source_type @ newline @
     ''source_url: '' @ source_url @ newline @
     ''source_publisher: '' @ publisher @ newline @
     ''retrieved: 2026-09-20'' @ newline @
     ''license_note: U.S. federal government work - public domain'' @ newline @
     ''-->'' @ newline"

lemma up_to_close_first:
  assumes "CHR ''>'' \<notin> set x"
  shows "up_to_close acc (x @ ''-->'' @ r) = Some (rev acc @ x, r)"
  using assms
proof (induction x arbitrary: acc)
  case (Cons c x)
  have "\<not> py_startswith ((c # x) @ ''-->'' @ r) ''-->''"
  proof (cases x)
    case (Cons b y)
    with Cons.prems show ?thesis by (cases y) auto
  qed simp
  with Cons show ?case by simp
qed simp

lemma metadata_line_entry:
  assumes "CHR '':'' \<notin> set k"
  shows "metadata_line (k @ '': '' @ v) md = AList.update (py_strip k) (py_strip v) md"
proof -
  have "partition_colon (k @ '': '' @ v) = (k, CHR '' '' # v)"
    using assms by (induction k) (auto simp: partition_colon_def)
  moreover have "py_strip (CHR '' '' # v) = py_strip v"
  proof -
    have "is_space (CHR '' '')" by code_simp
    then show ?thesis by (simp add: py_strip_def py_lstrip_def)
  qed
  ultimately show ?thesis by (simp add: metadata_line_def)
qed

lemma front_matter_remove_start:
  assumes "front_matter_match (dropWhile is_space raw) = Some (g, rest)"
  shows "front_matter_remove raw = takeWhile is_space raw @ rest"
  using assms
proof (induction raw)
  case Nil
  then show ?case by (simp add: front_matter_match_def)
next
  case (Cons c raw)
  show ?case
  proof (cases "is_space c")
    case True
    have "c \<noteq> CHR ''<''" using True by (auto simp: is_space_def)
    then have "front_matter_match (c # raw) = None" by (simp add: front_matter_match_def)
    with Cons True show ?thesis by simp
  next
    case False
    with Cons.prems show ?thesis by simp
  qed
qed


definition written_lines :: "string \<Rightarrow> string \<Rightarrow> string \<Rightarrow> string list" where
  "written_lines source_type source_url publisher =
     [''source_type'' @ '': '' @ source_type, ''source_url'' @ '': '' @ source_url,
      ''source_publisher'' @ '': '' @ publisher, ''retrieved'' @ '': '' @ ''2026-09-20'',
      ''license_note'' @ '': '' @ ''U.S. federal government work - public domain'']"

lemma front_matter_lines:
  "front_matter st url pub =
     ''<!--'' @ newline @ concat (map (\<lambda>l. l @ newline) (written_lines st url pub)) @ ''-->'' @ newline"
  by (simp add: front_matter_def written_lines_def)

lemma front_matter_group:
  assumes "\<forall>x\<in>{st, url, pub}. CHR ''>'' \<notin> set x"
  shows "front_matter_match (front_matter st url pub @ body) =
    Some (concat (map (\<lambda>l. l @ newline) (written_lines st url pub)), py_lstrip body)"
proof -
  let ?g = "concat (map (\<lambda>l. l @ newline) (written_lines st url pub))"
  have g: "CHR ''>'' \<notin> set ?g" using assms by (simp add: written_lines_def newline_def)
  have sp: "is_space (CHR 0x0A)" "\<not> is_space (CHR ''s'')" "\<not> is_space (CHR ''<'')" by code_simp+
  have l: "py_lstrip (newline @ ?g @ y) = ?g @ y" "py_lstrip (newline @ z) = py_lstrip z" for y z
    by (simp_all add: py_lstrip_def newline_def written_lines_def sp)
  have "front_matter_match (''<!--'' @ newline @ ?g @ ''-->'' @ newline @ body) = Some (?g, py_lstrip body)"
    using up_to_close_first [OF g, of "[]" "newline @ body"] l(1) [of "''-->'' @ newline @ body"] l(2) [of body]
    by (simp add: front_matter_match_def)
  then show ?thesis by (simp add: front_matter_lines)
qed

lemma written_lines_split:
  assumes "\<forall>x\<in>{st, url, pub}. list_all (\<lambda>c. \<not> is_linebreak c) x"
  shows "splitlines (concat (map (\<lambda>l. l @ newline) (written_lines st url pub))) = written_lines st url pub"
proof -
  have a: "list_all (\<lambda>c. \<not> is_linebreak c) ''source_type: ''"
    "list_all (\<lambda>c. \<not> is_linebreak c) ''source_url: ''"
    "list_all (\<lambda>c. \<not> is_linebreak c) ''source_publisher: ''"
    "list_all (\<lambda>c. \<not> is_linebreak c) ''retrieved: 2026-09-20''"
    "list_all (\<lambda>c. \<not> is_linebreak c) ''license_note: U.S. federal government work - public domain''"
    by code_simp+
  have clean: "list_all (list_all (\<lambda>c. \<not> is_linebreak c)) (written_lines st url pub)"
    using assms a by (simp add: written_lines_def)
  have "splitlines (concat (map (\<lambda>l. l @ newline) ls)) = ls"
    if "list_all (list_all (\<lambda>c. \<not> is_linebreak c)) ls" for ls
    using that by (induction ls) (simp_all add: splitlines_line)
  with clean show ?thesis by blast
qed

lemma written_lines_read:
  "fold metadata_line (written_lines st url pub) default_metadata =
     [(''source_type'', py_strip st), (''source_url'', py_strip url), (''source_publisher'', py_strip pub),
      (''retrieved'', ''2026-09-20''), (''license_note'', ''U.S. federal government work - public domain'')]"
proof -
  have "py_strip ''source_type'' = ''source_type''" "py_strip ''source_url'' = ''source_url''"
    "py_strip ''source_publisher'' = ''source_publisher''" "py_strip ''retrieved'' = ''retrieved''"
    "py_strip ''license_note'' = ''license_note''" "py_strip ''2026-09-20'' = ''2026-09-20''"
    "py_strip ''U.S. federal government work - public domain'' = ''U.S. federal government work - public domain''"
    by code_simp+
  note strips = this
  show ?thesis
    unfolding written_lines_def fold_simps comp_def
    by (subst metadata_line_entry, simp)+ (simp add: strips default_metadata_def)
qed

text \<open>The first of each key in an order by falling value: the best of each of the best keys.\<close>

lemma best_firsts:
  fixes s :: "nat \<Rightarrow> real"
  assumes "sorted_wrt (\<lambda>i j. s j \<le> s i) order"
  defines "is \<equiv> \<lambda>k D. take k (firsts D {} order)"
  shows "distinct (map D (is k D))" "sorted_wrt (\<lambda>i j. s j \<le> s i) (is k D)"
    "\<forall>i\<in>set (is k D). i \<in> set order \<and> (\<forall>j\<in>set order. D j = D i \<longrightarrow> s j \<le> s i)"
    "\<forall>j\<in>set order. D j \<notin> D ` set (is k D) \<longrightarrow> length (is k D) = k \<and> (\<forall>i\<in>set (is k D). s j \<le> s i)"
proof -
  let ?all = "firsts D {} order"
  have ord: "sorted_wrt (\<lambda>i j. s j \<le> s i) ?all" by (rule firsts_sorted [OF assms(1)])
  then show "sorted_wrt (\<lambda>i j. s j \<le> s i) (is k D)" unfolding is_def by (rule sorted_wrt_take)
  show "distinct (map D (is k D))"
    using firsts_distinct [of D "{}" order] by (simp add: is_def flip: take_map)
  have best: "\<exists>i\<in>set ?all. D i = D j \<and> s j \<le> s i" if "j \<in> set order" for j
    using firsts_represents [OF assms(1) that, of D "{}"] by auto
  have unique: "i = i'" if "i \<in> set ?all" "i' \<in> set ?all" "D i = D i'" for i i'
    using firsts_distinct [of D "{}" order] that by (auto simp: distinct_map inj_on_def)
  show "\<forall>i\<in>set (is k D). i \<in> set order \<and> (\<forall>j\<in>set order. D j = D i \<longrightarrow> s j \<le> s i)"
  proof
    fix i
    assume "i \<in> set (is k D)"
    then have i: "i \<in> set ?all" unfolding is_def by (rule in_set_takeD)
    then have "i \<in> set order" using firsts_subset by (rule subsetD [rotated])
    moreover have "s j \<le> s i" if "j \<in> set order" "D j = D i" for j
      using best [OF that(1)] unique [OF i] that(2) by metis
    ultimately show "i \<in> set order \<and> (\<forall>j\<in>set order. D j = D i \<longrightarrow> s j \<le> s i)" by blast
  qed
  show "\<forall>j\<in>set order. D j \<notin> D ` set (is k D) \<longrightarrow> length (is k D) = k \<and> (\<forall>i\<in>set (is k D). s j \<le> s i)"
  proof (intro ballI impI)
    fix j
    assume j: "j \<in> set order" "D j \<notin> D ` set (is k D)"
    from best [OF j(1)] obtain i' where i': "i' \<in> set ?all" "D i' = D j" "s j \<le> s i'" by blast
    with j(2) have "i' \<notin> set (take k ?all)" unfolding is_def by (metis imageI)
    with i'(1) have dr: "i' \<in> set (drop k ?all)" by (metis Un_iff append_take_drop_id set_append)
    then have "k < length ?all" by (cases "k < length ?all") simp_all
    moreover have "s j \<le> s i" if "i \<in> set (take k ?all)" for i
      using sorted_take_drop [OF ord that dr] i'(3) by simp
    ultimately show "length (is k D) = k \<and> (\<forall>i\<in>set (is k D). s j \<le> s i)" by (simp add: is_def)
  qed
qed

section \<open>Properties\<close>

text \<open>What the search relies on: numpy's ascending order of the positions, and a row for each text.\<close>

definition sorts_positions :: "(real list \<Rightarrow> nat list) \<Rightarrow> bool" where
  "sorts_positions argsort \<longleftrightarrow>
     (\<forall>xs. distinct (argsort xs) \<and> set (argsort xs) = {..<length xs} \<and>
           sorted (map (\<lambda>i. xs ! i) (argsort xs)))"

definition row_per_text :: "('v, 'm) vectorizing \<Rightarrow> bool" where
  "row_per_text vz \<longleftrightarrow>
     (\<forall>xs v m q. vz_fit vz xs = (v, Inr m) \<longrightarrow> length (vz_scores vz v m q) = length xs)"

text \<open>
  C18. The search returns the best section of each of the best documents.  On a freshly built index it
  never fails; its hits are at most \<open>k\<close>, of different documents, in descending order of
  their scores; each is a section with a positive score that no section of its document beats; and
  a document with a positive score that is not among them is not better than any of them, and left
  out only because there are \<open>k\<close> already.
\<close>

theorem search_returns_best_sections:
  assumes "sorts_positions argsort" "row_per_text vz"
    and built: "build_index vz docs empty_index = (Inr n, ix)"
    and q: "py_strip query \<noteq> []"
  shows "n = length docs \<and>
    (\<exists>scores is. scores = vz_scores vz (the (ri_vectorizer ix)) (the (ri_matrix ix)) query \<and>
       length scores = length docs \<and>
       search vz argsort ix query k = Inr (map (\<lambda>i. hit_of (docs ! i) (scores ! i)) is) \<and>
       length is \<le> k \<and> distinct (map (\<lambda>i. doc_id (docs ! i)) is) \<and>
       sorted_wrt (\<lambda>i j. scores ! j \<le> scores ! i) is \<and>
       (\<forall>i\<in>set is. i < length docs \<and> 0 < scores ! i \<and>
          (\<forall>j<length docs. doc_id (docs ! j) = doc_id (docs ! i) \<longrightarrow> scores ! j \<le> scores ! i)) \<and>
       (\<forall>j<length docs. 0 < scores ! j \<longrightarrow> doc_id (docs ! j) \<notin> (\<lambda>i. doc_id (docs ! i)) ` set is \<longrightarrow>
          length is = k \<and> (\<forall>i\<in>set is. scores ! j \<le> scores ! i)))"
proof -
  obtain v m where fit: "vz_fit vz (map doc_text docs) = (v, Inr m)" and ix: "n = length docs"
      "ri_documents ix = docs" "ri_vectorizer ix = Some v" "ri_matrix ix = Some m"
    using built by (auto simp: build_index_def split: if_splits prod.splits sum.splits)
  define scores where "scores = vz_scores vz v m query"
  have len: "length scores = length docs"
    using assms(2) fit by (auto simp: row_per_text_def scores_def)
  define order where "order = filter (\<lambda>i. 0 < scores ! i) (rev (argsort scores))"
  define D where "D = (\<lambda>i. doc_id (docs ! i))"
  have pos: "set (argsort scores) = {..<length docs}" "sorted (map (\<lambda>i. scores ! i) (argsort scores))"
    using assms(1) len by (auto simp: sorts_positions_def)
  have in_order: "set order = {i. i < length docs \<and> 0 < scores ! i}" unfolding order_def using pos(1) by auto
  have "sorted_wrt (\<lambda>i j. scores ! i \<le> scores ! j) (argsort scores)" using pos(2) unfolding sorted_map .
  then have ord: "sorted_wrt (\<lambda>i j. scores ! j \<le> scores ! i) order"
    unfolding order_def by (intro sorted_wrt_filter) (simp add: sorted_wrt_rev)
  let ?is = "take k (firsts D {} order)"
  have srch: "search vz argsort ix query k = Inr (map (\<lambda>i. hit_of (docs ! i) (scores ! i)) ?is)"
    using ix q collect_hits_firsts [of "rev (argsort scores)" docs scores k "{}" "[]"] pos(1)
    by (simp add: search_def Let_def flip: scores_def) (simp add: D_def order_def)
  note best = best_firsts [OF ord, where k = k and D = D]
  have "\<forall>i\<in>set ?is. i < length docs \<and> 0 < scores ! i \<and> (\<forall>j<length docs. D j = D i \<longrightarrow> scores ! j \<le> scores ! i)"
    using best(3) in_order by (metis (no_types, lifting) less_imp_le mem_Collect_eq not_le order_less_le_trans)
  then show ?thesis
    using ix srch len best(1,2,4) in_order unfolding D_def
    by (intro conjI exI [of _ scores] exI [of _ "take k (firsts (\<lambda>i. doc_id (docs ! i)) {} order)"]) (auto simp: scores_def)
qed

definition sample_argsort :: "real list \<Rightarrow> nat list" where
  "sample_argsort xs = sort_key (\<lambda>i. xs ! i) [0..<length xs]"

definition sample_section :: "string \<Rightarrow> string \<Rightarrow> document" where
  "sample_section i x =
     \<lparr>doc_id = i, doc_title = ''T'', doc_section = ''S'', doc_text = x, doc_metadata = default_metadata\<rparr>"

definition sample_vectorizing :: "(unit, nat list) vectorizing" where
  "sample_vectorizing = \<lparr>vz_fit = (\<lambda>xs. ((), Inr (map length xs))), vz_scores = (\<lambda>v m q. map real m)\<rparr>"

definition sample_documents :: "document list" where
  "sample_documents = [sample_section ''a'' ''12'', sample_section ''b'' ''1'', sample_section ''a'' ''1234'']"

lemma sample_tools: "sorts_positions sample_argsort" "row_per_text sample_vectorizing"
proof -
  have "sorted (map (\<lambda>i. xs ! i) (sort_key (\<lambda>i. xs ! i) [0..<length xs]))" for xs :: "real list"
    by (rule sorted_sort_key)
  then show "sorts_positions sample_argsort" by (simp add: sorts_positions_def sample_argsort_def atLeast0LessThan)
  show "row_per_text sample_vectorizing" by (simp add: row_per_text_def sample_vectorizing_def)
qed

theorem search_returns_best_sections_witness:
  "\<exists>ix. build_index sample_vectorizing sample_documents empty_index = (Inr 3, ix) \<and>
     (\<exists>hits. search sample_vectorizing sample_argsort ix ''q'' 1 = Inr hits \<and> length hits \<le> 1)"
proof -
  obtain ix where ix: "build_index sample_vectorizing sample_documents empty_index = (Inr 3, ix)"
    by (simp add: build_index_def sample_vectorizing_def sample_documents_def)
  have "py_strip ''q'' \<noteq> []" by code_simp
  from search_returns_best_sections [OF sample_tools ix this, of 1] ix show ?thesis by fastforce
qed

text \<open>
  The index refuses to guess: a search before the first successful fit raises, an empty corpus is
  refused without touching the index, and a blank query finds nothing.
\<close>

theorem search_guards:
  "search vz argsort empty_index query k =
     Inl (RuntimeError ''RetrievalIndex.search called before index()'')"
  "build_index vz [] ix = (Inl (ValueError ''Refusing to index an empty corpus''), ix)"
  by (simp_all add: search_def empty_index_def build_index_def)

text \<open>
  Splitting a markdown text loses no line: written out again, each section under its heading, the
  sections are the text's lines in their order, the title lines left out, after the heading
  \<open>Overview\<close> of the lines before the first section.
\<close>

theorem markdown_lines_are_kept:
  "\<exists>gs. snd (split_markdown raw) = map (\<lambda>(h, ls). (h, py_join newline ls)) gs \<and>
     concat (map (\<lambda>(h, ls). (''## '' @ h) # ls) gs) =
       ''## Overview'' # map body_line (filter (\<lambda>l. \<not> is_h1 l) (splitlines raw))"
proof -
  have "line_groups split_start []" by (simp add: line_groups_def split_start_def)
  from split_lines_keep [OF this, of "splitlines raw"] show ?thesis
    by (auto simp: split_markdown_def Let_def line_groups_def rendered_def split_start_def)
qed

text \<open>
  C36. The loader reads what the generator of the public files writes: for a source type, a URL and a
  publisher without line breaks and closing marks, the written front matter is read back as these
  values without their outer space, the retrieval date and the licence note, and the text after it
  is the body.
\<close>

theorem front_matter_read_back:
  assumes "\<forall>x\<in>{st, url, pub}. CHR ''>'' \<notin> set x \<and> list_all (\<lambda>c. \<not> is_linebreak c) x"
  shows "parse_front_matter (front_matter st url pub @ body) =
     ([(''source_type'', py_strip st), (''source_url'', py_strip url), (''source_publisher'', py_strip pub),
       (''retrieved'', ''2026-09-20''), (''license_note'', ''U.S. federal government work - public domain'')],
      py_lstrip body)"
proof -
  let ?raw = "front_matter st url pub @ body"
  obtain y where "?raw = CHR ''<'' # y" by (simp add: front_matter_def)
  moreover have "\<not> is_space (CHR ''<'')" by code_simp
  ultimately have strip: "dropWhile is_space ?raw = ?raw" "takeWhile is_space ?raw = []" by (simp_all only: dropWhile.simps takeWhile.simps if_False)
  have g: "front_matter_match ?raw = Some (concat (map (\<lambda>l. l @ newline) (written_lines st url pub)), py_lstrip body)"
    by (rule front_matter_group) (use assms in blast)
  have "splitlines (concat (map (\<lambda>l. l @ newline) (written_lines st url pub))) = written_lines st url pub"
    by (rule written_lines_split) (use assms in blast)
  then show ?thesis
    unfolding parse_front_matter_def py_lstrip_def [of ?raw] strip(1) g option.case prod.case
    by (simp only: front_matter_remove_start [of ?raw, unfolded strip, OF g] written_lines_read append_Nil)
qed

theorem front_matter_read_back_witness:
  "parse_front_matter (front_matter ''public_real'' ''https://x'' ''DOE'' @ ''# T'') =
     ([(''source_type'', ''public_real''), (''source_url'', ''https://x''), (''source_publisher'', ''DOE''),
       (''retrieved'', ''2026-09-20''), (''license_note'', ''U.S. federal government work - public domain'')],
      ''# T'')"
proof -
  have a: "list_all (\<lambda>c. \<not> is_linebreak c) ''public_real''" "list_all (\<lambda>c. \<not> is_linebreak c) ''https://x''"
    "list_all (\<lambda>c. \<not> is_linebreak c) ''DOE''" by code_simp+
  have b: "py_strip ''public_real'' = ''public_real''" "py_strip ''https://x'' = ''https://x''"
    "py_strip ''DOE'' = ''DOE''" "py_lstrip ''# T'' = ''# T''" by code_simp+
  have "\<forall>x\<in>{''public_real'', ''https://x'', ''DOE''}. CHR ''>'' \<notin> set x \<and> list_all (\<lambda>c. \<not> is_linebreak c) x"
    using a by simp
  from front_matter_read_back [OF this, of "''# T''"] show ?thesis by (simp add: b)
qed

text \<open>
  C20. Provenance is declared, never implied.  A corpus that loads has a public document; each of its
  documents is a non-empty section of one of the files, indexed under the file's stem with its title
  and heading in the text; and a source type other than \<open>illustrative\<close> is one that a line of
  the front matter at the start of its file declares.
\<close>

theorem provenance_is_declared:
  assumes "load_corpus dir files = Inr docs"
  shows "(\<exists>d\<in>set docs. source_type_of (doc_metadata d) = Some ''public_real'') \<and>
    (\<forall>d\<in>set docs. \<exists>(name, raw)\<in>set files. doc_id d = path_stem name \<and>
       (\<exists>b. py_strip b \<noteq> [] \<and> (doc_section d, b) \<in> set (snd (split_markdown (snd (parse_front_matter raw)))) \<and>
            doc_text d = doc_title d @ '' -- '' @ doc_section d @ newline @ py_strip b) \<and>
       (\<forall>x. source_type_of (doc_metadata d) = Some x \<longrightarrow> x \<noteq> ''illustrative'' \<longrightarrow>
          (\<exists>g rest l k v. front_matter_match (py_lstrip raw) = Some (g, rest) \<and> l \<in> set (splitlines g) \<and>
             CHR '':'' \<in> set l \<and> partition_colon l = (k, v) \<and> py_strip k = ''source_type'' \<and> py_strip v = x)))"
proof -
  have docs: "docs = concat (map file_documents (sort_key fst files))"
    using assms by (simp add: load_corpus_def Let_def split: if_splits)
  have public: "\<exists>d\<in>set docs. source_type_of (doc_metadata d) = Some ''public_real''"
    using assms unfolding load_corpus_def Let_def docs [symmetric] by (simp split: if_splits)
  have declared: "\<exists>g rest l k v. front_matter_match (py_lstrip raw) = Some (g, rest) \<and> l \<in> set (splitlines g) \<and>
      CHR '':'' \<in> set l \<and> partition_colon l = (k, v) \<and> py_strip k = ''source_type'' \<and> py_strip v = x"
    if src: "source_type_of (fold (\<lambda>(k, v). AList.update k v) (fst (parse_front_matter raw)) [(''source'', name)]) = Some x"
      and x: "x \<noteq> ''illustrative''" for raw name x
  proof -
    from merged_source [OF src] have "(''source_type'', x) \<in> set (fst (parse_front_matter raw))"
      by (simp add: source_type_of_def)
    then have "source_type_of (fst (parse_front_matter raw)) = Some x"
      by (simp add: source_type_of_def front_matter_distinct)
    with x obtain g rest where m: "front_matter_match (py_lstrip raw) = Some (g, rest)"
      "source_type_of (fold metadata_line (splitlines g) default_metadata) = Some x"
      by (auto simp: parse_front_matter_def source_type_of_def default_metadata_def split: option.splits)
    from metadata_lines_source [OF m(2)] m(1) x show ?thesis
      by (simp add: source_type_of_def default_metadata_def) blast
  qed
  have "\<exists>(name, raw)\<in>set files. doc_id d = path_stem name \<and>
       (\<exists>b. py_strip b \<noteq> [] \<and> (doc_section d, b) \<in> set (snd (split_markdown (snd (parse_front_matter raw)))) \<and>
            doc_text d = doc_title d @ '' -- '' @ doc_section d @ newline @ py_strip b) \<and>
       (\<forall>x. source_type_of (doc_metadata d) = Some x \<longrightarrow> x \<noteq> ''illustrative'' \<longrightarrow>
          (\<exists>g rest l k v. front_matter_match (py_lstrip raw) = Some (g, rest) \<and> l \<in> set (splitlines g) \<and>
             CHR '':'' \<in> set l \<and> partition_colon l = (k, v) \<and> py_strip k = ''source_type'' \<and> py_strip v = x))"
    if "d \<in> set docs" for d
  proof -
    from that docs obtain name raw where f: "(name, raw) \<in> set files" "d \<in> set (file_documents (name, raw))"
      by auto
    then obtain h b where "(h, b) \<in> set (snd (split_markdown (snd (parse_front_matter raw))))" "py_strip b \<noteq> []"
      "d = \<lparr>doc_id = path_stem name, doc_title = fst (split_markdown (snd (parse_front_matter raw))), doc_section = h,
        doc_text = fst (split_markdown (snd (parse_front_matter raw))) @ '' -- '' @ h @ newline @ py_strip b,
        doc_metadata = fold (\<lambda>(k, v). AList.update k v) (fst (parse_front_matter raw)) [(''source'', name)]\<rparr>"
      by (auto simp: file_documents_def case_prod_beta)
    with f(1) declared [of raw name] show ?thesis by (intro bexI [of _ "(name, raw)"]) auto
  qed
  with public show ?thesis by blast
qed

definition sample_file :: "string \<times> string" where
  "sample_file = (''PUB.md'', front_matter ''public_real'' ''https://x'' ''DOE'' @ ''# T'' @ newline @ ''body'')"

lemma sample_file_loads:
  "file_documents sample_file =
     [\<lparr>doc_id = ''PUB'', doc_title = ''T'', doc_section = ''Overview'',
       doc_text = ''T -- Overview'' @ newline @ ''body'',
       doc_metadata = [(''source'', ''PUB.md''), (''source_type'', ''public_real''), (''source_url'', ''https://x''),
         (''source_publisher'', ''DOE''), (''retrieved'', ''2026-09-20''),
         (''license_note'', ''U.S. federal government work - public domain'')]\<rparr>]"
  by code_simp

theorem provenance_is_declared_witness:
  "\<exists>docs. load_corpus ''kb'' [sample_file] = Inr docs \<and> length docs = 1 \<and>
     (\<forall>d\<in>set docs. doc_id d = path_stem (fst sample_file))"
proof -
  have "load_corpus ''kb'' [sample_file] = Inr (file_documents sample_file)"
    by (simp add: load_corpus_def sample_file_loads source_type_of_def)
  note loaded = this
  have "doc_id d = path_stem (fst sample_file)" if "d \<in> set (file_documents sample_file)" for d
    using bspec [OF provenance_is_declared [OF loaded, THEN conjunct2] that]
    by (elim bexE) (simp add: case_prod_beta)
  with loaded show ?thesis by (simp add: sample_file_loads)
qed

text \<open>
  A front matter counts only at the start of the text: behind any character that is neither white
  space nor the mark's first, the block is not read, the text is \<open>illustrative\<close> and the block
  stays in its body.
\<close>

theorem front_matter_must_come_first:
  assumes "\<not> is_space c" "c \<noteq> CHR ''<''"
  shows "parse_front_matter (c # raw) = ([(''source_type'', ''illustrative'')], c # raw)"
  using assms by (simp add: parse_front_matter_def py_lstrip_def front_matter_match_def default_metadata_def)

theorem front_matter_must_come_first_witness:
  "parse_front_matter (CHR ''~'' # newline @ front_matter ''public_real'' ''u'' ''p'') =
     ([(''source_type'', ''illustrative'')], CHR ''~'' # newline @ front_matter ''public_real'' ''u'' ''p'')"
proof -
  have "\<not> is_space (CHR ''~'')" by code_simp
  from front_matter_must_come_first [OF this, of "newline @ front_matter ''public_real'' ''u'' ''p''"]
  show ?thesis by simp
qed

text \<open>The vector store's file: what was stored last under a key is found, the other keys keep their texts.\<close>

theorem stored_text_is_found:
  "map_of (store_search query (length (store_load f) + 1) (store_upsert i x md t f)) =
     (map_of (store_load f))(i \<mapsto> \<lparr>st_text = x, st_metadata = md, st_indexed_at = t\<rparr>)"
proof -
  have "length (AList.update i v xs) \<le> length xs + 1" for v :: stored_text and xs
    by (induction xs) auto
  then show ?thesis by (simp add: store_search_def store_upsert_def store_load_def update_conv')
qed

end
