(* ===== verification/Knowledge.thy ===== *)
theory Knowledge
  imports StoreReads RootCause Retrieval
begin

text \<open>
  The Knowledge Agent (\<open>app/agents/knowledge/agent.py\<close>): it hears of an anomaly, queries the
  index with the sensors' pattern, looks for similar incidents of the past, writes both onto the
  incident and tells the Root-Cause Agent.  The index is the constructor's argument: a search
  function, which \<open>search\<close> of \<open>Retrieval\<close> provides.
\<close>

section \<open>State and handler\<close>

text \<open>\<open>_sop_texts\<close>: title, section and text of the first chunk seen of each document.\<close>

type_synonym sop_texts = "(string \<times> string \<times> string \<times> string) list"

definition sop_text :: "string \<Rightarrow> sop_texts \<Rightarrow> (string \<times> string \<times> string) option" where
  "sop_text i texts = map_of texts i"

definition remember :: "chunk \<Rightarrow> sop_texts \<Rightarrow> sop_texts" where
  "remember c texts =
     (if map_of texts (ck_doc_id c) = None
      then texts @ [(ck_doc_id c, ck_title c, ck_section c, ck_text c)] else texts)"

record kn_env =
  kne_search :: "string \<Rightarrow> nat \<Rightarrow> chunk list result"
  kne_faults :: "nat \<Rightarrow> exc option"
  kne_attempts :: nat

definition sensor_types_of :: "sensor_entry list \<Rightarrow> string list" where
  "sensor_types_of sensors = map (\<lambda>s. the (se_sensor_type s)) (filter (\<lambda>s. truthy_str (se_sensor_type s)) sensors)"

text \<open>
  \<open>_build_query\<close>.  The summary's \<open>matched_history\<close>, which it would add as well, is a key that
  no producer of a summary writes.
\<close>

definition build_query :: "sensor_entry list \<Rightarrow> string list \<Rightarrow> string" where
  "build_query sensors types =
     py_join '', '' (types @ [''cooling water pump''] @
       map (\<lambda>s. the (se_reason s)) (filter (\<lambda>s. truthy_str (se_reason s)) sensors))"

definition sop_hit :: "chunk \<Rightarrow> sop_chunk" where
  "sop_hit c =
     \<lparr>sc_doc_id = ck_doc_id c, sc_title = ck_title c, sc_section = ck_section c, sc_score = ck_score c,
      sc_excerpt = take 600 (ck_text c),
      sc_citation = ck_doc_id c @ '' / '' @ ck_title c @ '' -- '' @ ck_section c,
      sc_source_type = (case map_of (ck_metadata c) ''source_type'' of None \<Rightarrow> ''illustrative'' | Some s \<Rightarrow> s),
      sc_source_url = map_of (ck_metadata c) ''source_url''\<rparr>"

text \<open>The sensors of the incident as it is stored now.\<close>

definition fresh_sensors :: "string \<Rightarrow> db \<Rightarrow> sensor_entry list" where
  "fresh_sensors i d =
     (case get_incident i d of
        None \<Rightarrow> []
      | Some x \<Rightarrow> (case iv_summary (id_incident x) of None \<Rightarrow> [] | Some y \<Rightarrow> su_sensors y))"

record retrieved =
  rt_sensors :: "sensor_entry list"
  rt_types :: "string list"
  rt_query :: string
  rt_chunks :: "chunk list"

definition look_up :: "kn_env \<Rightarrow> sensor_entry list \<Rightarrow> retrieved result" where
  "look_up env sensors =
     (let types = sensor_types_of sensors; query = build_query sensors types in
      bindR (kne_search env query 4) (\<lambda>chunks.
        Inr \<lparr>rt_sensors = sensors, rt_types = types, rt_query = query, rt_chunks = chunks\<rparr>))"

text \<open>With less than five sensor types, the summary is read again and taken if it has five now.\<close>

definition retrieve :: "kn_env \<Rightarrow> string \<Rightarrow> sensor_entry list \<Rightarrow> db \<Rightarrow> retrieved result" where
  "retrieve env i sensors d =
     bindR (look_up env sensors) (\<lambda>r.
       if length (rt_types r) < 5 then
         (let fresh = fresh_sensors i d in
          if 5 \<le> length (sensor_types_of fresh) then look_up env fresh else Inr r)
       else Inr r)"

definition evidence_of :: "string \<Rightarrow> string \<Rightarrow> retrieved \<Rightarrow> time \<Rightarrow> db \<Rightarrow> evidence" where
  "evidence_of i equipment r t d =
     \<lparr>ev_incident_id = i, ev_collected_at = t, ev_query = rt_query r,
      ev_sop_chunks = map sop_hit (rt_chunks r),
      ev_matched_history = find_similar_history equipment (rt_types r) 3 d\<rparr>"

definition kn_persist :: "kn_env \<Rightarrow> string \<Rightarrow> evidence \<Rightarrow> time \<Rightarrow> db \<Rightarrow> unit result \<times> db" where
  "kn_persist env i e t d =
     retry_from (kne_attempts env) 1 (with_faults (kne_faults env) (save_incident_evidence i e t))
       (''Evidence write failed after '' @ nat_str (kne_attempts env) @ '' attempts'') d"

definition kn_handle ::
  "kn_env \<Rightarrow> bus_faults \<Rightarrow> string \<Rightarrow> string \<Rightarrow> sensor_entry list \<Rightarrow> time \<Rightarrow> sop_texts \<times> world \<Rightarrow>
     evidence result \<times> sop_texts \<times> world" where
  "kn_handle env bus i equipment sensors t s =
     (case s of (texts, w) \<Rightarrow>
        case retrieve env i sensors (w_db w) of
          Inl e \<Rightarrow> (Inl e, texts, w)
        | Inr r \<Rightarrow>
            (let texts' = fold remember (rt_chunks r) texts;
                 ev = evidence_of i equipment r t (w_db w) in
             case on_db (kn_persist env i ev t) w of
               (Inl e, w1) \<Rightarrow> (Inl e, texts', w1)
             | (Inr _, w1) \<Rightarrow>
                 (case publish bus (EvidenceReady i (rt_sensors r) ev) w1 of
                    (Inl e, w2) \<Rightarrow> (Inl e, texts', w2)
                  | (Inr _, w2) \<Rightarrow> (Inr ev, texts', w2))))"

text \<open>
  \<open>_on_anomaly\<close>: the working summary is the payload's \<open>summary\<close>, or is put together from the
  sensors and the equipment of the payload; exceptions of \<open>handle\<close> are logged.
\<close>

definition working_summary :: "anomaly_event \<Rightarrow> string \<times> sensor_entry list" where
  "working_summary ev =
     (case an_summary ev of
        Some x \<Rightarrow> (su_equipment_id x, su_sensors x)
      | None \<Rightarrow> (or_str (an_equipment ev) [], or_list (an_sensors ev)))"

definition kn_on_anomaly ::
  "kn_env \<Rightarrow> bus_faults \<Rightarrow> anomaly_event \<Rightarrow> time \<Rightarrow> sop_texts \<times> world \<Rightarrow> sop_texts \<times> world" where
  "kn_on_anomaly env bus ev t s =
     (case working_summary ev of (equipment, sensors) \<Rightarrow>
        if \<not> truthy_str (an_incident ev) \<or> sensors = [] then s
        else snd (kn_handle env bus (the (an_incident ev)) equipment sensors t s))"

section \<open>Facts\<close>

lemma kn_persist_cases:
  assumes "kn_persist env i e t d = (r, d')"
  shows "(r = Inr () \<and> save_incident_evidence i e t d = (Inr True, d')) \<or> ((\<exists>x. r = Inl x) \<and> d' = d)"
  using evidence_write.retry_all_or_nothing [OF assms [unfolded kn_persist_def]]
  by (auto simp: with_faults_def split: option.splits)

lemma kn_persist_succeeds:
  assumes "kne_faults env j = None" "1 \<le> j" "j \<le> kne_attempts env"
    and "parse_uuid i = Some u" "find_incident u d = Some r"
  shows "\<exists>d'. kn_persist env i e t d = (Inr (), d')"
proof -
  have "with_faults (kne_faults env) (save_incident_evidence i e t) j d =
      (Inr True, snd (save_incident_evidence i e t d))"
    using assms by (simp add: with_faults_def save_incident_evidence_def)
  from evidence_write.retry_succeeds [OF this] show ?thesis
    using assms(2,3) unfolding kn_persist_def by simp
qed

text \<open>What a successful write leaves: the evidence on the incident's row, and all else as before.\<close>

definition evidence_written :: "uuid \<Rightarrow> evidence \<Rightarrow> time \<Rightarrow> db \<Rightarrow> db \<Rightarrow> bool" where
  "evidence_written u e t d d' \<longleftrightarrow>
     d' = update_incident u (\<lambda>r. r\<lparr>inc_evidence := Some e, inc_updated_at := t\<rparr>) d \<and> find_incident u d \<noteq> None"

lemma save_evidence_written:
  "save_incident_evidence i e t d = (Inr True, d') \<Longrightarrow>
     \<exists>u. parse_uuid i = Some u \<and> evidence_written u e t d d'"
  by (auto simp: save_incident_evidence_def evidence_written_def split: option.splits)

text \<open>The ways a run ends.\<close>

lemma kn_handle_cases:
  assumes "kn_handle env bus i equipment sensors t (texts, w) = (res, texts', w')"
  obtains
      (nothing) e where "res = Inl e" "w' = w"
    | (unannounced) e u r where "res = Inl e" "parse_uuid i = Some u" "retrieve env i sensors (w_db w) = Inr r"
        "evidence_written u (evidence_of i equipment r t (w_db w)) t (w_db w) (w_db w')" "w_bus w' = w_bus w"
    | (announced) u r where "res = Inr (evidence_of i equipment r t (w_db w))" "parse_uuid i = Some u"
        "retrieve env i sensors (w_db w) = Inr r"
        "evidence_written u (evidence_of i equipment r t (w_db w)) t (w_db w) (w_db w')"
        "w_bus w' = w_bus w @ [EvidenceReady i (rt_sensors r) (evidence_of i equipment r t (w_db w))]"
proof (cases "retrieve env i sensors (w_db w)")
  case (Inl e)
  with assms have "res = Inl e" "w' = w" by (simp_all add: kn_handle_def)
  then show ?thesis by (rule nothing)
next
  case (Inr r)
  let ?ev = "evidence_of i equipment r t (w_db w)"
  obtain p d1 where p: "kn_persist env i ?ev t (w_db w) = (p, d1)" by (metis surj_pair)
  note run = assms [unfolded kn_handle_def prod.case Inr sum.case Let_def
      on_db_pair [where f = "kn_persist env i ?ev t", OF p]]
  from kn_persist_cases [OF p] show ?thesis
  proof (elim disjE conjE exE)
    assume "p = Inr ()" and saved: "save_incident_evidence i ?ev t (w_db w) = (Inr True, d1)"
    from save_evidence_written [OF saved] obtain u where u: "parse_uuid i = Some u" "evidence_written u ?ev t (w_db w) d1"
      by blast
    note done_run = run [unfolded \<open>p = Inr ()\<close> sum.case publish_def]
    show ?thesis
    proof (cases "bus (EvidenceReady i (rt_sensors r) ?ev)")
      case None
      with done_run have "res = Inr ?ev" "w_db w' = d1" "w_bus w' = w_bus w @ [EvidenceReady i (rt_sensors r) ?ev]"
        by auto
      with u Inr show ?thesis by (intro announced) simp_all
    next
      case (Some e)
      with done_run have "res = Inl e" "w_db w' = d1" "w_bus w' = w_bus w" by auto
      with u Inr show ?thesis by (intro unannounced) simp_all
    qed
  next
    fix x
    assume "p = Inl x" "d1 = w_db w"
    with run have "res = Inl x" "w' = w" by auto
    then show ?thesis by (rule nothing)
  qed
qed

lemma evidence_written_touches: "evidence_written u e t d d' \<Longrightarrow> touches_only u d d' \<and> trail u d' = trail u d"
  by (auto simp: evidence_written_def store_simps intro!: touches_only_intros)

lemma evidence_written_row:
  "evidence_written u e t d d' \<Longrightarrow> \<exists>r. find_incident u d = Some r \<and>
     find_incident u d' = Some (r\<lparr>inc_evidence := Some e, inc_updated_at := t\<rparr>)"
  by (auto simp: evidence_written_def store_simps)

text \<open>What the search returns comes from the index, whatever the scores and their order are.\<close>

lemma collect_hits_sound:
  "collect_hits scores docs k seen results is = Inr hits \<Longrightarrow>
   length results \<le> k \<Longrightarrow> distinct (map ck_doc_id results) \<Longrightarrow> ck_doc_id ` set results \<subseteq> seen \<Longrightarrow>
   \<forall>c\<in>set results. \<exists>d\<in>set docs. \<exists>x>0. c = hit_of d x \<Longrightarrow>
     length hits \<le> k \<and> distinct (map ck_doc_id hits) \<and> (\<forall>c\<in>set hits. \<exists>d\<in>set docs. \<exists>x>0. c = hit_of d x)"
proof (induction "is" arbitrary: seen results)
  case (Cons i "is")
  let ?d = "docs ! i" and ?x = "scores ! i"
  consider "?x \<le> 0 \<or> k \<le> length results" | "0 < ?x" "length results < k" "doc_id ?d \<in> seen" "i < length docs"
    | "0 < ?x" "length results < k" "doc_id ?d \<notin> seen" "i < length docs"
    using Cons.prems(1) by (fastforce simp: Let_def split: if_splits)
  then show ?case
  proof cases
    case 1
    then have "collect_hits scores docs k seen results is = Inr hits" using Cons.prems(1) by (simp add: Let_def)
    from Cons.IH [OF this Cons.prems(2-5)] show ?thesis .
  next
    case 2
    then have "collect_hits scores docs k seen results is = Inr hits" using Cons.prems(1) by (simp add: Let_def)
    from Cons.IH [OF this Cons.prems(2-5)] show ?thesis .
  next
    case 3
    have run: "collect_hits scores docs k (insert (doc_id ?d) seen) (results @ [hit_of ?d ?x]) is = Inr hits"
      using Cons.prems(1) 3 by (simp add: Let_def)
    have id: "ck_doc_id (hit_of ?d ?x) = doc_id ?d" by (simp add: hit_of_def)
    show ?thesis
    proof (rule Cons.IH [OF run])
      show "\<forall>c\<in>set (results @ [hit_of ?d ?x]). \<exists>d\<in>set docs. \<exists>x>0. c = hit_of d x"
        using Cons.prems(5) 3 nth_mem by auto
    qed (use Cons.prems 3 id in auto)
  qed
qed simp

lemma search_sound:
  assumes "search vz argsort ix query k = Inr hits"
  shows "length hits \<le> k \<and> distinct (map ck_doc_id hits) \<and>
    (\<forall>c\<in>set hits. \<exists>d\<in>set (ri_documents ix). \<exists>x>0. c = hit_of d x)"
  using assms collect_hits_sound [of _ "ri_documents ix" k "{}" "[]"]
  by (auto simp: search_def Let_def split: option.splits if_splits)

lemma find_similar_history_sound:
  "length (find_similar_history equipment types n d) \<le> n \<and>
   set (find_similar_history equipment types n d) \<subseteq> history_row_to_dict equipment ` set (db_historical d)"
  by (auto simp: find_similar_history_def similar_rows_def dest!: in_set_takeD)

lemma retrieve_found:
  assumes "retrieve env i sensors d = Inr r"
  shows "look_up env (rt_sensors r) = Inr r" "rt_sensors r = sensors \<or> rt_sensors r = fresh_sensors i d"
proof -
  have lu: "rt_sensors x = ss" if "look_up env ss = Inr x" for x ss
    using that by (auto simp: look_up_def Let_def bindR_Inr_iff)
  from assms obtain x where x: "look_up env sensors = Inr x"
    "r = x \<or> look_up env (fresh_sensors i d) = Inr r"
    by (auto simp: retrieve_def bindR_Inr_iff Let_def split: if_splits)
  with lu [of sensors x] lu [of "fresh_sensors i d" r]
  show "look_up env (rt_sensors r) = Inr r" "rt_sensors r = sensors \<or> rt_sensors r = fresh_sensors i d"
    by auto
qed

lemma look_up_chunks: "look_up env ss = Inr r \<Longrightarrow> kne_search env (rt_query r) 4 = Inr (rt_chunks r)"
  by (auto simp: look_up_def Let_def bindR_Inr_iff)

text \<open>Evidence that is grounded in an index and a history table.\<close>

definition well_sourced :: "document list \<Rightarrow> historical_row list \<Rightarrow> evidence \<Rightarrow> bool" where
  "well_sourced docs rows e \<longleftrightarrow>
     length (ev_sop_chunks e) \<le> 4 \<and> distinct (map sc_doc_id (ev_sop_chunks e)) \<and>
     (\<forall>c\<in>set (ev_sop_chunks e). \<exists>d\<in>set docs.
        sc_doc_id c = doc_id d \<and> sc_title c = doc_title d \<and> sc_section c = doc_section d \<and>
        sc_excerpt c = take 600 (doc_text d) \<and>
        sc_citation c = doc_id d @ '' / '' @ doc_title d @ '' -- '' @ doc_section d \<and>
        sc_source_type c = (case source_type_of (doc_metadata d) of None \<Rightarrow> ''illustrative'' | Some s \<Rightarrow> s)) \<and>
     length (ev_matched_history e) \<le> 3 \<and>
     (\<forall>h\<in>set (ev_matched_history e). \<exists>r\<in>set rows. \<exists>equipment. h = history_row_to_dict equipment r)"

lemma evidence_well_sourced:
  assumes "kne_search env = search vz argsort ix" "retrieve env i sensors d = Inr r"
  shows "well_sourced (ri_documents ix) (db_historical d) (evidence_of i equipment r t d)"
proof -
  have s: "search vz argsort ix (rt_query r) 4 = Inr (rt_chunks r)"
    using look_up_chunks [OF retrieve_found(1) [OF assms(2)]] assms(1) by simp
  have ids: "map sc_doc_id (map sop_hit cs) = map ck_doc_id cs" for cs by (simp add: sop_hit_def)
  have one: "\<exists>d\<in>set (ri_documents ix). sc_doc_id (sop_hit c) = doc_id d \<and> sc_title (sop_hit c) = doc_title d \<and>
      sc_section (sop_hit c) = doc_section d \<and> sc_excerpt (sop_hit c) = take 600 (doc_text d) \<and>
      sc_citation (sop_hit c) = doc_id d @ '' / '' @ doc_title d @ '' -- '' @ doc_section d \<and>
      sc_source_type (sop_hit c) = (case source_type_of (doc_metadata d) of None \<Rightarrow> ''illustrative'' | Some s \<Rightarrow> s)"
    if "c \<in> set (rt_chunks r)" for c
  proof -
    from search_sound [OF s] that obtain d x where "d \<in> set (ri_documents ix)" "c = hit_of d x" by blast
    then show ?thesis by (auto simp: sop_hit_def hit_of_def source_type_of_def)
  qed
  have "\<forall>h\<in>set (find_similar_history equipment (rt_types r) 3 d).
      \<exists>x\<in>set (db_historical d). \<exists>equipment. h = history_row_to_dict equipment x"
    using find_similar_history_sound [of equipment "rt_types r" 3 d] by blast
  with search_sound [OF s] one find_similar_history_sound [of equipment "rt_types r" 3 d] show ?thesis
    unfolding well_sourced_def evidence_of_def evidence.simps ids set_map ball_simps length_map by blast
qed

text \<open>What a run reads of the incident and of the history is not what it writes.\<close>

lemma fresh_sensors_row:
  "fresh_sensors i d =
     (case parse_uuid i of
        None \<Rightarrow> []
      | Some u \<Rightarrow> (case find_incident u d of
                     None \<Rightarrow> []
                   | Some r \<Rightarrow> (case inc_summary r of None \<Rightarrow> [] | Some y \<Rightarrow> su_sensors y)))"
  by (simp add: fresh_sensors_def get_incident_def incident_row_to_dict_def Let_def split: option.split)

lemma retrieve_after_evidence:
  assumes "evidence_written u e t d d'" "parse_uuid i = Some u" "kne_search env' = kne_search env"
  shows "retrieve env' i sensors d' = retrieve env i sensors d"
    and "evidence_of i equipment r t' d' = (evidence_of i equipment r t d)\<lparr>ev_collected_at := t'\<rparr>"
proof -
  have "fresh_sensors i d' = fresh_sensors i d"
    using evidence_written_row [OF assms(1)] assms(2) by (auto simp: fresh_sensors_row)
  moreover have "look_up env' = look_up env" by (simp add: fun_eq_iff look_up_def assms(3))
  ultimately show "retrieve env' i sensors d' = retrieve env i sensors d"
    unfolding retrieve_def by (simp only:)
  have "db_historical d' = db_historical d"
    using evidence_written_touches [OF assms(1)] by (simp add: touches_only_def)
  then show "evidence_of i equipment r t' d' = (evidence_of i equipment r t d)\<lparr>ev_collected_at := t'\<rparr>"
    by (simp add: evidence_of_def find_similar_history_def similar_rows_def)
qed

lemma remember_known: "map_of texts (ck_doc_id c) \<noteq> None \<Longrightarrow> remember c texts = texts"
  by (simp add: remember_def)

lemma fold_remember_keeps: "map_of texts x \<noteq> None \<Longrightarrow> map_of (fold remember cs texts) x = map_of texts x"
proof (induction cs arbitrary: texts)
  case (Cons c cs)
  then have "map_of (remember c texts) x = map_of texts x"
    by (auto simp: remember_def map_add_def split: option.split)
  with Cons show ?case by simp
qed simp

lemma fold_remember_has: "c \<in> set cs \<Longrightarrow> map_of (fold remember cs texts) (ck_doc_id c) \<noteq> None"
proof (induction cs arbitrary: texts)
  case (Cons c' cs)
  show ?case
  proof (cases "c \<in> set cs")
    case False
    with Cons.prems have "c' = c" by simp
    moreover have "map_of (remember c texts) (ck_doc_id c) \<noteq> None"
      by (simp add: remember_def map_add_def split: option.split)
    ultimately show ?thesis using fold_remember_keeps [of "remember c texts" "ck_doc_id c" cs] by simp
  qed (use Cons in simp)
qed simp

lemma fold_remember_again: "fold remember cs (fold remember cs texts) = fold remember cs texts"
proof -
  have "fold remember xs t = t" if "\<forall>c\<in>set xs. map_of t (ck_doc_id c) \<noteq> None" for xs t
    using that by (induction xs) (simp_all add: remember_known)
  then show ?thesis using fold_remember_has by blast
qed

lemma kn_handle_texts:
  assumes "kn_handle env bus i equipment sensors t (texts, w) = (res, texts', w')" "retrieve env i sensors (w_db w) = Inr r"
  shows "texts' = fold remember (rt_chunks r) texts"
  using assms by (auto simp: kn_handle_def Let_def split: sum.splits prod.splits)

section \<open>A run\<close>

definition sample_knowledge :: kn_env where
  "sample_knowledge =
     \<lparr>kne_search = search sample_vectorizing sample_argsort
        (snd (build_index sample_vectorizing sample_documents empty_index)),
      kne_faults = (\<lambda>k. None), kne_attempts = 3\<rparr>"

lemma sample_search_answers:
  "py_strip query \<noteq> [] \<Longrightarrow> \<exists>hits. kne_search sample_knowledge query k = Inr hits"
  using collect_hits_firsts [of "rev (sample_argsort [2, 1, 4])" sample_documents "[2, 1, 4]" k "{}" "[]"] sample_tools(1)
  by (fastforce simp: sample_knowledge_def search_def build_index_def sample_vectorizing_def sample_documents_def
      sample_section_def Let_def sorts_positions_def numeral_3_eq_3)

lemma sample_types: "sensor_types_of [plain_sensor] = [''temperature'']"
  by (simp add: sensor_types_of_def plain_sensor_def)

lemma sample_retrieves:
  assumes "find_incident 7 d = Some open_incident"
  shows "\<exists>r. retrieve sample_knowledge (uuid_str 7) [plain_sensor] d = Inr r"
proof -
  have q: "py_strip (build_query [plain_sensor] [''temperature'']) \<noteq> []" by code_simp
  have "fresh_sensors (uuid_str 7) d = [plain_sensor]"
    using assms by (simp add: fresh_sensors_row open_incident_def)
  moreover obtain hits where "kne_search sample_knowledge (build_query [plain_sensor] [''temperature'']) 4 = Inr hits"
    using sample_search_answers [OF q] by blast
  ultimately show ?thesis by (simp add: retrieve_def look_up_def sample_types Let_def)
qed

lemma sample_evidence_run:
  "\<exists>ev texts' w'. kn_handle sample_knowledge (\<lambda>_. None) (uuid_str 7) [] [plain_sensor] 5 ([], open_world)
     = (Inr ev, texts', w')"
proof -
  have f: "find_incident 7 (w_db open_world) = Some open_incident" by (simp add: open_facts)
  obtain r where r: "retrieve sample_knowledge (uuid_str 7) [plain_sensor] (w_db open_world) = Inr r"
    using sample_retrieves [OF f] by blast
  have k: "kne_faults sample_knowledge 1 = None" "(1::nat) \<le> 1" "1 \<le> kne_attempts sample_knowledge"
    by (simp_all add: sample_knowledge_def)
  obtain d' where "kn_persist sample_knowledge (uuid_str 7)
      (evidence_of (uuid_str 7) [] r 5 (w_db open_world)) 5 (w_db open_world) = (Inr (), d')"
    using kn_persist_succeeds [OF k sample_uuid(4) f] by blast
  with r show ?thesis by (simp add: kn_handle_def on_db_def publish_def Let_def)
qed

section \<open>Properties\<close>

text \<open>
  C17. Evidence is retrieved, never made up.  A run leaves the world as it was, or it writes onto the
  incident, and nowhere else, evidence whose chunks are at most four, of different documents of the
  index, quoted, cited and labelled with the source type of the document, and whose matches are at
  most three rows of the history table; it tells the Root-Cause Agent exactly that evidence, after it
  is stored.  The incident's status and history are untouched.
\<close>

theorem evidence_is_well_sourced:
  assumes "kn_handle env bus i equipment sensors t (texts, w) = (res, texts', w')"
    and "kne_search env = search vz argsort ix"
  shows "(w' = w \<and> (\<exists>e. res = Inl e)) \<or>
    (\<exists>u r ev. parse_uuid i = Some u \<and> find_incident u (w_db w) = Some r \<and>
       find_incident u (w_db w') = Some (r\<lparr>inc_evidence := Some ev, inc_updated_at := t\<rparr>) \<and>
       well_sourced (ri_documents ix) (db_historical (w_db w)) ev \<and>
       touches_only u (w_db w) (w_db w') \<and> trail u (w_db w') = trail u (w_db w) \<and>
       (case res of
          Inl e \<Rightarrow> w_bus w' = w_bus w
        | Inr x \<Rightarrow> x = ev \<and> (\<exists>ss. w_bus w' = w_bus w @ [EvidenceReady i ss ev])))"
proof -
  have wrote: "\<exists>x. parse_uuid i = Some u \<and> find_incident u (w_db w) = Some x \<and>
       find_incident u (w_db w') = Some (x\<lparr>inc_evidence := Some (evidence_of i equipment r t (w_db w)), inc_updated_at := t\<rparr>) \<and>
       well_sourced (ri_documents ix) (db_historical (w_db w)) (evidence_of i equipment r t (w_db w)) \<and>
       touches_only u (w_db w) (w_db w') \<and> trail u (w_db w') = trail u (w_db w)"
    if "parse_uuid i = Some u" "retrieve env i sensors (w_db w) = Inr r"
      "evidence_written u (evidence_of i equipment r t (w_db w)) t (w_db w) (w_db w')" for u r
    using that evidence_written_touches [OF that(3)] evidence_written_row [OF that(3)]
      evidence_well_sourced [OF assms(2) that(2), of equipment t] by blast
  from assms(1) show ?thesis
  proof (cases rule: kn_handle_cases)
    case (unannounced e u r)
    with wrote [OF unannounced(2,3,4)] show ?thesis by (fastforce simp only: sum.case)
  next
    case (announced u r)
    with wrote [OF announced(2,3,4)] show ?thesis by (fastforce simp only: sum.case)
  qed simp
qed

theorem evidence_is_well_sourced_witness:
  "\<exists>ev texts' w'. kn_handle sample_knowledge (\<lambda>_. None) (uuid_str 7) [] [plain_sensor] 5 ([], open_world) = (Inr ev, texts', w') \<and>
     (\<exists>ss. w_bus w' = [EvidenceReady (uuid_str 7) ss ev]) \<and> well_sourced sample_documents [] ev"
proof -
  obtain ev texts' w' where run:
    "kn_handle sample_knowledge (\<lambda>_. None) (uuid_str 7) [] [plain_sensor] 5 ([], open_world) = (Inr ev, texts', w')"
    using sample_evidence_run by blast
  have "kne_search sample_knowledge = search sample_vectorizing sample_argsort
      (snd (build_index sample_vectorizing sample_documents empty_index))"
    by (simp add: sample_knowledge_def)
  from evidence_is_well_sourced [OF run this]
  have "well_sourced sample_documents [] ev \<and> (\<exists>ss. w_bus w' = [EvidenceReady (uuid_str 7) ss ev])"
    by (auto simp: build_index_def sample_vectorizing_def sample_documents_def open_world_def sample_db_def)
  with run show ?thesis by blast
qed

text \<open>
  Repeating an event is harmless: a second run for the same event, on the world the first one left,
  finds the same evidence (with its own time of collection) and stores it in place of the first,
  changing nothing else; the texts remembered for the prompts are those of the first run.
\<close>

theorem repeated_event_finds_the_same:
  assumes "kn_handle env bus i equipment sensors t (texts, w) = (Inr ev, texts1, w1)"
    and "kn_handle env' bus' i equipment sensors t' (texts1, w1) = (Inr ev', texts2, w2)"
    and "kne_search env' = kne_search env"
  shows "ev' = ev\<lparr>ev_collected_at := t'\<rparr> \<and> texts2 = texts1 \<and>
    (\<exists>u r. parse_uuid i = Some u \<and> find_incident u (w_db w1) = Some r \<and>
       find_incident u (w_db w2) = Some (r\<lparr>inc_evidence := Some ev', inc_updated_at := t'\<rparr>) \<and>
       touches_only u (w_db w1) (w_db w2))"
proof -
  from assms(1) obtain u r where first: "ev = evidence_of i equipment r t (w_db w)" "parse_uuid i = Some u"
    "retrieve env i sensors (w_db w) = Inr r" "evidence_written u ev t (w_db w) (w_db w1)"
    by (cases rule: kn_handle_cases) auto
  have found: "retrieve env' i sensors (w_db w1) = Inr r"
    using retrieve_after_evidence(1) [OF first(4,2) assms(3)] first(3) by simp
  from assms(2) obtain u' r' where second: "ev' = evidence_of i equipment r' t' (w_db w1)" "parse_uuid i = Some u'"
    "retrieve env' i sensors (w_db w1) = Inr r'" "evidence_written u' ev' t' (w_db w1) (w_db w2)"
    by (cases rule: kn_handle_cases) auto
  have "ev' = ev\<lparr>ev_collected_at := t'\<rparr>"
    using second(1,3) found first(1) retrieve_after_evidence(2) [OF first(4,2) refl, of equipment r t'] by simp
  moreover have "texts2 = texts1"
    using kn_handle_texts [OF assms(1) first(3)] kn_handle_texts [OF assms(2) found] by (simp add: fold_remember_again)
  ultimately show ?thesis
    using second(2,4) evidence_written_touches evidence_written_row by blast
qed

theorem repeated_event_finds_the_same_witness:
  "\<exists>ev texts1 w1 ev' texts2 w2.
     kn_handle sample_knowledge (\<lambda>_. None) (uuid_str 7) [] [plain_sensor] 5 ([], open_world) = (Inr ev, texts1, w1) \<and>
     kn_handle sample_knowledge (\<lambda>_. None) (uuid_str 7) [] [plain_sensor] 6 (texts1, w1) = (Inr ev', texts2, w2) \<and>
     ev' = ev\<lparr>ev_collected_at := 6\<rparr>"
proof -
  obtain ev texts1 w1 where first:
    "kn_handle sample_knowledge (\<lambda>_. None) (uuid_str 7) [] [plain_sensor] 5 ([], open_world) = (Inr ev, texts1, w1)"
    using sample_evidence_run by blast
  then obtain u r where u: "parse_uuid (uuid_str 7) = Some u" "evidence_written u ev 5 (w_db open_world) (w_db w1)"
    "retrieve sample_knowledge (uuid_str 7) [plain_sensor] (w_db open_world) = Inr r"
    by (cases rule: kn_handle_cases) auto
  have r: "retrieve sample_knowledge (uuid_str 7) [plain_sensor] (w_db w1) = Inr r"
    using retrieve_after_evidence(1) [OF u(2,1) refl] u(3) by simp
  obtain x where x: "find_incident 7 (w_db w1) = Some x"
    using evidence_written_row [OF u(2)] u(1) by auto
  have k: "kne_faults sample_knowledge 1 = None" "(1::nat) \<le> 1" "1 \<le> kne_attempts sample_knowledge"
    by (simp_all add: sample_knowledge_def)
  obtain d' where "kn_persist sample_knowledge (uuid_str 7)
      (evidence_of (uuid_str 7) [] r 6 (w_db w1)) 6 (w_db w1) = (Inr (), d')"
    using kn_persist_succeeds [OF k sample_uuid(4) x] by blast
  with r obtain ev' texts2 w2 where second:
    "kn_handle sample_knowledge (\<lambda>_. None) (uuid_str 7) [] [plain_sensor] 6 (texts1, w1) = (Inr ev', texts2, w2)"
    by (simp add: kn_handle_def on_db_def publish_def Let_def)
  from first second repeated_event_finds_the_same [OF first second refl] show ?thesis by blast
qed

text \<open>A diagnosis that a run returns passed the check against the material it gathered.\<close>

lemma rc_handle_grounded:
  assumes "rc_handle env bus views i es t w = (Inr (Some dg), w')"
  obtains st where "views 0 = Some st"
    "\<forall>p\<in>set (dg_cited dg). grounded (mt_sensors (gather_material views st es))
       (mt_chunks (gather_material views st es)) (mt_history (gather_material views st es)) p"
proof -
  obtain st where st: "views 0 = Some st" "diagnose env bus i (gather_material views st es) t w = (Inr (Some dg), w')"
    using assms by (auto simp: rc_handle_def split: option.splits if_splits)
  have acc: "dg' = dg" if "accept_diagnosis env bus i r dg' t w = (Inr (Some dg), w')" for r dg'
    using that by (auto simp: accept_diagnosis_def Let_def split: sum.splits prod.splits if_splits)
  from st(2) obtain r where "check_answer (gather_material views st es) r = Valid dg"
    by (auto simp: diagnose_def dest: acc split: sum.splits verdict.splits prod.splits)
  from parse_and_validate_cases [OF this [unfolded check_answer_def]] st(1) that show ?thesis
    by (auto simp: list_all_iff)
qed

lemma await_signature_row:
  "\<forall>k. views k = Some st \<Longrightarrow> \<exists>n'. await_signature n views k st = (st, n')"
  by (induction n arbitrary: k) (auto simp: reread_def)

lemma gather_material_row:
  assumes "\<forall>k. views k = Some st" "ds_evidence st = Some ev"
  shows "gather_material views st es =
     \<lparr>mt_sensors = (case ds_summary st of Some x \<Rightarrow> su_sensors x | None \<Rightarrow> es),
      mt_chunks = ev_sop_chunks ev, mt_history = ev_matched_history ev\<rparr>"
proof -
  obtain k where "(if ds_sensor_count st < 5 then await_signature signature_attempts views 1 st else (st, 1)) = (st, k)"
    using await_signature_row [OF assms(1), of signature_attempts 1] by (cases "ds_sensor_count st < 5") auto
  then show ?thesis unfolding gather_material_def Let_def by (simp only: prod.case assms(2) option.case)
qed

text \<open>One procedure in the index, and a model that cites it.\<close>

definition procedure_index :: "(unit, nat list) retrieval_index" where
  "procedure_index = snd (build_index sample_vectorizing [sample_section ''SOP-1'' ''x''] empty_index)"

definition procedure_knowledge :: kn_env where
  "procedure_knowledge = sample_knowledge\<lparr>kne_search := search sample_vectorizing sample_argsort procedure_index\<rparr>"

definition citing_text :: string where
  "citing_text = ''Most likely cause: fan failure (confidence 87%).'' @ [CHR 0x0A] @
     ''Evidence:'' @ [CHR 0x0A] @ ''- SOP-1 says so [SOP citation]''"

definition citing_diagnosis :: diagnosis where
  "citing_diagnosis = \<lparr>dg_insufficient = False, dg_hypothesis = ''fan failure'', dg_confidence = 87,
     dg_cited = [\<lparr>cp_type = ''sop'', cp_ref = ''SOP-1'', cp_text = ''SOP-1 says so [SOP citation]''\<rparr>]\<rparr>"

lemma procedure_found:
  assumes "py_strip query \<noteq> []"
  shows "kne_search procedure_knowledge query 4 = Inr [hit_of (sample_section ''SOP-1'' ''x'') 1]"
  using assms
  by (simp add: procedure_knowledge_def procedure_index_def search_def build_index_def sample_vectorizing_def
      sample_section_def sample_argsort_def Let_def)

lemma citing_parse:
  assumes "sc_doc_id c = ''SOP-1''"
  shows "parse_and_validate citing_text [plain_sensor] [c] [] = Valid citing_diagnosis"
proof -
  let ?c = "\<lparr>sc_doc_id = ''SOP-1'', sc_title = [], sc_section = [], sc_score = 0, sc_excerpt = [],
     sc_citation = [], sc_source_type = [], sc_source_url = None\<rparr>"
  have "parse_and_validate citing_text [plain_sensor] [?c] [] = Valid citing_diagnosis" by code_simp
  moreover have "sop_keys [c] = sop_keys [?c]" using assms by (simp add: sop_keys_def)
  then have "validate_point p ss [c] hs = validate_point p ss [?c] hs" for p ss hs
    unfolding validate_point_def by (simp only:)
  then have "parse_and_validate citing_text [plain_sensor] [c] [] = parse_and_validate citing_text [plain_sensor] [?c] []"
    unfolding parse_and_validate_def by (simp only:)
  ultimately show ?thesis by simp
qed

lemma procedure_run:
  "\<exists>ev texts' w1. kn_handle procedure_knowledge (\<lambda>_. None) (uuid_str 7) [] [plain_sensor] 5 ([], open_world)
      = (Inr ev, texts', w1) \<and>
     (\<exists>w2. rc_handle (answering citing_text) (\<lambda>_. None) (current_views (uuid_str 7) w1) (uuid_str 7) [] 9 w1
        = (Inr (Some citing_diagnosis), w2))"
proof -
  have q: "py_strip (build_query [plain_sensor] [''temperature'']) \<noteq> []" by code_simp
  have f: "find_incident 7 (w_db open_world) = Some open_incident" by (simp add: open_facts)
  have "fresh_sensors (uuid_str 7) (w_db open_world) = [plain_sensor]"
    by (simp add: fresh_sensors_row f) (simp add: open_incident_def)
  then obtain r where r: "retrieve procedure_knowledge (uuid_str 7) [plain_sensor] (w_db open_world) = Inr r"
    "rt_chunks r = [hit_of (sample_section ''SOP-1'' ''x'') 1]"
    using procedure_found [OF q] by (simp add: retrieve_def look_up_def sample_types Let_def)
  let ?ev = "evidence_of (uuid_str 7) [] r 5 (w_db open_world)"
  have k: "kne_faults procedure_knowledge 1 = None" "(1::nat) \<le> 1" "1 \<le> kne_attempts procedure_knowledge"
    by (simp_all add: procedure_knowledge_def sample_knowledge_def)
  obtain d' where d': "kn_persist procedure_knowledge (uuid_str 7) ?ev 5 (w_db open_world) = (Inr (), d')"
    using kn_persist_succeeds [OF k sample_uuid(4) f] by blast
  with r(1) obtain texts' w1 where run: "kn_handle procedure_knowledge (\<lambda>_. None) (uuid_str 7) [] [plain_sensor] 5 ([], open_world)
      = (Inr ?ev, texts', w1)" by (simp add: kn_handle_def on_db_def publish_def Let_def)
  from run obtain u r' where wr: "evidence_written u ?ev 5 (w_db open_world) (w_db w1)" "parse_uuid (uuid_str 7) = Some u"
    by (cases rule: kn_handle_cases) auto
  then have row: "find_incident 7 (w_db w1) = Some (open_incident\<lparr>inc_evidence := Some ?ev, inc_updated_at := 5\<rparr>)"
    using evidence_written_row [OF wr(1)] by (simp add: open_facts)
  let ?st = "open_state\<lparr>ds_evidence := Some ?ev\<rparr>"
  have views: "\<forall>k. current_views (uuid_str 7) w1 k = Some ?st"
    by (simp add: current_views_def get_incident_diagnosis_state_def row)
      (simp add: open_state_def open_incident_def sample_incident_def)
  have m: "gather_material (current_views (uuid_str 7) w1) ?st [] =
      \<lparr>mt_sensors = [plain_sensor], mt_chunks = [sop_hit (hit_of (sample_section ''SOP-1'' ''x'') 1)], mt_history = []\<rparr>"
  proof -
    have "ds_evidence ?st = Some ?ev" by simp
    note gather_material_row [OF views this, of "[]"]
    moreover have "similar_rows e ty (w_db open_world) = []" for e ty
      by (simp add: similar_rows_def open_world_def sample_db_def)
    then have "ev_matched_history ?ev = []" by (simp add: evidence_of_def find_similar_history_def)
    moreover have "ds_summary ?st = Some (sample_summary\<lparr>su_sensors := [plain_sensor]\<rparr>)"
      by (simp add: open_state_def open_incident_def)
    ultimately show ?thesis by (simp add: evidence_of_def r(2))
  qed
  have parse: "parse_and_validate citing_text [plain_sensor] [sop_hit (hit_of (sample_section ''SOP-1'' ''x'') 1)] []
      = Valid citing_diagnosis"
    by (rule citing_parse) (simp add: sop_hit_def hit_of_def sample_section_def)
  have n: "rce_faults (answering citing_text) 1 = None" "(1::nat) \<le> 1" "1 \<le> rce_attempts (answering citing_text)" by simp_all
  obtain d2 where p: "rc_persist (answering citing_text) (uuid_str 7) (dg_hypothesis citing_diagnosis)
      (dg_confidence citing_diagnosis) (dg_cited citing_diagnosis) Investigating 9 (w_db w1) = (Inr (), d2)"
    using rc_persist_succeeds [OF n sample_uuid(4) row] by blast
  have free: "estimate_cost_usd a b [] \<lparr>us_prompt = None, us_completion = None, us_total = None\<rparr> = 0" for a b
    by (simp add: estimate_cost_usd_def token_split_def Let_def py_round_def half_even_def)
  have "ds_root_cause ?st = None" by (simp add: open_state_def)
  from rc_handle_undiagnosed [where views = "current_views (uuid_str 7) w1" and st = ?st, OF views [rule_format, of 0] this, of "answering citing_text" "\<lambda>_. None" "uuid_str 7" "[]" 9 w1]
  have "\<exists>w2. rc_handle (answering citing_text) (\<lambda>_. None) (current_views (uuid_str 7) w1) (uuid_str 7) [] 9 w1
      = (Inr (Some citing_diagnosis), w2)"
    using p by (simp add: m diagnose_def check_answer_def parse accept_diagnosis_def on_db_def publish_def free)
  with run show ?thesis by blast
qed

text \<open>
  C7. From the knowledge base to the diagnosis: when the Root-Cause Agent diagnoses an incident on the
  evidence the Knowledge Agent has just stored, every procedure the diagnosis cites is a document of
  the index, every past incident it cites is a row of the history table, and every sensor it cites is
  one of the incident's flagged sensors (of the event's, for an incident without a summary).
\<close>

theorem citations_lead_back_to_the_sources:
  assumes "kn_handle env bus i equipment sensors t (texts, w) = (Inr ev, texts', w1)"
    and "kne_search env = search vz argsort ix"
    and "rc_handle renv bus' (current_views i w1) i es t' w1 = (Inr (Some dg), w2)"
    and "p \<in> set (dg_cited dg)"
  shows "(cp_type p = ''sop'' \<and> (\<exists>d\<in>set (ri_documents ix). doc_id d = cp_ref p)) \<or>
    (cp_type p = ''history'' \<and> (\<exists>x\<in>set (db_historical (w_db w)). hr_source x = cp_ref p)) \<or>
    (cp_type p = ''sensor'' \<and> (\<exists>u r. parse_uuid i = Some u \<and> find_incident u (w_db w) = Some r \<and>
       (\<exists>s\<in>set (case inc_summary r of Some x \<Rightarrow> su_sensors x | None \<Rightarrow> es). se_sensor_type s = Some (cp_ref p))))"
proof -
  from assms(1) obtain u r where first: "ev = evidence_of i equipment r t (w_db w)" "parse_uuid i = Some u"
    "retrieve env i sensors (w_db w) = Inr r" "evidence_written u ev t (w_db w) (w_db w1)"
    by (cases rule: kn_handle_cases) auto
  have src: "well_sourced (ri_documents ix) (db_historical (w_db w)) ev"
    using evidence_well_sourced [OF assms(2) first(3)] first(1) by simp
  from evidence_written_row [OF first(4)] obtain x where x: "find_incident u (w_db w) = Some x"
    "find_incident u (w_db w1) = Some (x\<lparr>inc_evidence := Some ev, inc_updated_at := t\<rparr>)" by blast
  from rc_handle_grounded [OF assms(3)] obtain st where st: "current_views i w1 0 = Some st"
    "\<forall>p\<in>set (dg_cited dg). grounded (mt_sensors (gather_material (current_views i w1) st es))
       (mt_chunks (gather_material (current_views i w1) st es)) (mt_history (gather_material (current_views i w1) st es)) p"
    by blast
  have views: "\<forall>k. current_views i w1 k = Some st" using st(1) by (simp add: current_views_def)
  have row: "ds_evidence st = Some ev" "ds_summary st = inc_summary x"
    using st(1) first(2) x(2) by (auto simp: current_views_def get_incident_diagnosis_state_def)
  have "grounded (case inc_summary x of Some x \<Rightarrow> su_sensors x | None \<Rightarrow> es) (ev_sop_chunks ev) (ev_matched_history ev) p"
    using st(2) assms(4) row by (simp add: gather_material_row [OF views row(1)])
  then show ?thesis
    using src x(1) first(2) unfolding grounded_def well_sourced_def Let_def
    by (elim disjE conjE bexE) (fastforce simp: history_row_to_dict_def)+
qed

theorem citations_lead_back_to_the_sources_witness:
  "\<exists>ev texts' w1 w2. kn_handle procedure_knowledge (\<lambda>_. None) (uuid_str 7) [] [plain_sensor] 5 ([], open_world)
      = (Inr ev, texts', w1) \<and>
     rc_handle (answering citing_text) (\<lambda>_. None) (current_views (uuid_str 7) w1) (uuid_str 7) [] 9 w1
      = (Inr (Some citing_diagnosis), w2) \<and>
     (\<exists>d\<in>set (ri_documents procedure_index). doc_id d = ''SOP-1'')"
proof -
  obtain ev texts' w1 w2 where run: "kn_handle procedure_knowledge (\<lambda>_. None) (uuid_str 7) [] [plain_sensor] 5 ([], open_world)
      = (Inr ev, texts', w1)"
    "rc_handle (answering citing_text) (\<lambda>_. None) (current_views (uuid_str 7) w1) (uuid_str 7) [] 9 w1
      = (Inr (Some citing_diagnosis), w2)"
    using procedure_run by blast
  have ix: "kne_search procedure_knowledge = search sample_vectorizing sample_argsort procedure_index"
    by (simp add: procedure_knowledge_def)
  have p: "\<lparr>cp_type = ''sop'', cp_ref = ''SOP-1'', cp_text = ''SOP-1 says so [SOP citation]''\<rparr> \<in> set (dg_cited citing_diagnosis)"
    by (simp add: citing_diagnosis_def)
  from citations_lead_back_to_the_sources [OF run(1) ix run(2) p] run show ?thesis by auto
qed

end
