(* ===== verification/Risk.thy ===== *)
theory Risk
  imports StoreFacts
begin

text \<open>
  The Risk Agent (\<open>app/agents/risk/agent.py\<close>): deterministic severity, consequences and HITL
  level of a diagnosed incident, from the configuration \<open>hitl_thresholds.json\<close>.  A section of
  the configuration that is missing is \<open>None\<close>, as the file may leave it out; the keys inside
  a section that is present are taken to be there.
\<close>

section \<open>Configuration\<close>

record confidence_floor =
  cf_default :: real
  cf_rules :: "(real \<times> int) list"

record safety_floor =
  sf_below :: real
  sf_minimum :: int

record severity_thresholds =
  th_static :: real
  th_drift :: real
  th_medium :: real

record hitl_config =
  hc_base :: "(string \<times> int) list option"
  hc_floor :: "confidence_floor option"
  hc_safety :: "safety_floor option"
  hc_thresholds :: "severity_thresholds option"
  hc_amplifiers :: "(string \<times> string) list option"

definition empty_config :: hitl_config where
  "empty_config = \<lparr>hc_base = None, hc_floor = None, hc_safety = None, hc_thresholds = None,
                   hc_amplifiers = None\<rparr>"

text \<open>The file as it is in the repository.\<close>

definition shipped_base :: "(string \<times> int) list" where
  "shipped_base = [(''low'', 1), (''medium'', 2), (''high'', 2)]"

definition shipped_floor :: confidence_floor where
  "shipped_floor = \<lparr>cf_default = 0, cf_rules = [(50, 3), (70, 2)]\<rparr>"

definition shipped_safety :: safety_floor where
  "shipped_safety = \<lparr>sf_below = 85, sf_minimum = 2\<rparr>"

definition shipped_limits :: severity_thresholds where
  "shipped_limits = \<lparr>th_static = 1, th_drift = 10, th_medium = 0.3\<rparr>"

definition shipped_amplifiers :: "(string \<times> string) list" where
  "shipped_amplifiers =
     [(''equipment damage'', ''mechanical degradation signature present (vibration/pump condition)''),
      (''production loss'', ''cooling capacity or flow shortfall affects process output''),
      (''chemical imbalance'', ''water chemistry outside normal operating band''),
      (''unplanned shutdown'', ''failure mode can escalate to loss of the cooling loop'')]"

definition shipped_config :: hitl_config where
  "shipped_config =
     \<lparr>hc_base = Some shipped_base, hc_floor = Some shipped_floor, hc_safety = Some shipped_safety,
      hc_thresholds = Some shipped_limits, hc_amplifiers = Some shipped_amplifiers\<rparr>"

definition missing_severity :: "hitl_config \<Rightarrow> string option" where
  "missing_severity c =
     find (\<lambda>s. map_of (or_list (hc_base c)) s = None) [''low'', ''medium'', ''high'']"

text \<open>\<open>load_hitl_thresholds\<close>, given the parsed file.\<close>

definition load_hitl_thresholds :: "hitl_config \<Rightarrow> hitl_config result" where
  "load_hitl_thresholds c =
     (case missing_severity c of
        Some s \<Rightarrow> Inl (ValueError (''hitl config missing severity '' @ s))
      | None \<Rightarrow>
          if hc_floor c = None then Inl (ValueError ''hitl config missing confidence_floor'')
          else if hc_safety c = None then Inl (ValueError ''hitl config missing safety_floor'')
          else if hc_amplifiers c = None then Inl (ValueError ''hitl config missing consequence_amplifiers'')
          else Inr c)"

text \<open>\<open>config or load_hitl_thresholds()\<close>: an injected configuration that is empty counts as none.\<close>

definition config_or_load :: "hitl_config option \<Rightarrow> hitl_config \<Rightarrow> hitl_config result" where
  "config_or_load injected file_data =
     (case injected of
        None \<Rightarrow> load_hitl_thresholds file_data
      | Some c \<Rightarrow> if c = empty_config then load_hitl_thresholds file_data else Inr c)"

definition config_key :: "string \<Rightarrow> 'a option \<Rightarrow> 'a result" where
  "config_key k x = (case x of None \<Rightarrow> Inl (KeyError k) | Some v \<Rightarrow> Inr v)"

section \<open>The HITL level\<close>

fun floor_of_rules :: "real \<Rightarrow> (real \<times> int) list \<Rightarrow> int \<Rightarrow> int" where
  "floor_of_rules conf [] fl = fl"
| "floor_of_rules conf ((below, lvl) # rules) fl =
     floor_of_rules conf rules (if conf < below then max fl lvl else fl)"

definition effective_confidence :: "int option \<Rightarrow> confidence_floor \<Rightarrow> real" where
  "effective_confidence confidence cf =
     (case confidence of None \<Rightarrow> cf_default cf | Some c \<Rightarrow> of_int c)"

definition hitl_level_for :: "string \<Rightarrow> int option \<Rightarrow> hitl_config \<Rightarrow> int result" where
  "hitl_level_for severity confidence cfg =
     bindR (config_key ''severity_to_base_level'' (hc_base cfg)) (\<lambda>table.
     bindR (config_key severity (map_of table severity)) (\<lambda>base.
     bindR (config_key ''confidence_floor'' (hc_floor cfg)) (\<lambda>cf.
       (let conf = effective_confidence confidence cf;
            fl = floor_of_rules conf (cf_rules cf) 1
        in if severity = ''high'' then
             bindR (config_key ''safety_floor'' (hc_safety cfg)) (\<lambda>sf.
               Inr (max base (if conf < sf_below sf then max fl (sf_minimum sf) else fl)))
           else Inr (max base fl)))))"

section \<open>Consequences\<close>

definition consequence_keywords :: "(string \<times> string list) list" where
  "consequence_keywords =
     [(''equipment damage'',
        [''vibration'', ''pump'', ''bearing'', ''impeller'', ''degradation'', ''mechanical'',
         ''wear'', ''seizure'', ''misalignment'']),
      (''production loss'',
        [''flow'', ''temperature'', ''heat rejection'', ''cooling capacity'', ''load'',
         ''shutdown'', ''throughput'']),
      (''chemical imbalance'',
        [''ph'', ''conductivity'', ''chemistry'', ''dosing'', ''biocide'', ''scale'',
         ''corrosion'', ''inhibitor'']),
      (''unplanned shutdown'',
        [''failure'', ''seizure'', ''trip'', ''outage'', ''unplanned'', ''emergency'',
         ''loss of cooling'', ''loss of heat rejection''])]"

text \<open>The sensors of a summary that may be missing (\<open>anomaly_summary.get("sensors") or []\<close>).\<close>

definition sensors_of :: "summary option \<Rightarrow> sensor_entry list" where
  "sensors_of x = (case x of None \<Rightarrow> [] | Some s \<Rightarrow> su_sensors s)"

definition sensor_text :: "sensor_entry \<Rightarrow> string" where
  "sensor_text s =
     py_lower ('' '' @ (case se_sensor_type s of None \<Rightarrow> [] | Some ty \<Rightarrow> ty)) @
     (if truthy_str (se_reason s) then py_lower ('' '' @ the (se_reason s)) else [])"

definition consequence_text :: "string \<Rightarrow> summary option \<Rightarrow> string" where
  "consequence_text hypothesis x = py_lower hypothesis @ concat (map sensor_text (sensors_of x))"

fun consequences_from ::
  "string \<Rightarrow> hitl_config \<Rightarrow> (string \<times> string list) list \<Rightarrow> consequence list result" where
  "consequences_from txt cfg [] = Inr []"
| "consequences_from txt cfg ((c, ks) # rest) =
     (let hits = filter (\<lambda>k. py_in k txt) ks in
      if hits = [] then consequences_from txt cfg rest
      else bindR (config_key ''consequence_amplifiers'' (hc_amplifiers cfg)) (\<lambda>amp.
           bindR (consequences_from txt cfg rest) (\<lambda>out.
             Inr (\<lparr>cq_consequence = c,
                   cq_rationale = (case map_of amp c of
                       Some r \<Rightarrow> r
                     | None \<Rightarrow> ''matched on: '' @ py_join '', '' (take 3 hits))\<rparr> # out))))"

definition select_consequences ::
  "string \<Rightarrow> summary option \<Rightarrow> hitl_config \<Rightarrow> consequence list result" where
  "select_consequences hypothesis x cfg =
     consequences_from (consequence_text hypothesis x) cfg consequence_keywords"

section \<open>Severity\<close>

text \<open>The two scores of a sensor, each present when the sensor carries it.\<close>

definition sensor_scores :: "severity_thresholds \<Rightarrow> sensor_entry \<Rightarrow> real option list" where
  "sensor_scores th s = [map_option (\<lambda>m. m / th_static th) (se_static_margin s),
                         map_option (\<lambda>z. z / th_drift th) (se_drift_z s)]"

definition divides_by_zero :: "severity_thresholds \<Rightarrow> sensor_entry list \<Rightarrow> bool" where
  "divides_by_zero th ss \<longleftrightarrow>
     (th_static th = 0 \<and> list_ex (\<lambda>s. se_static_margin s \<noteq> None) ss) \<or>
     (th_drift th = 0 \<and> list_ex (\<lambda>s. se_drift_z s \<noteq> None) ss)"

definition severity_of_score :: "severity_thresholds \<Rightarrow> real \<Rightarrow> string" where
  "severity_of_score th w =
     (if w \<ge> 1 then ''high'' else if w \<ge> th_medium th then ''medium'' else ''low'')"

definition severity_from :: "summary option \<Rightarrow> hitl_config \<Rightarrow> string result" where
  "severity_from x cfg =
     bindR (config_key ''severity_thresholds'' (hc_thresholds cfg)) (\<lambda>th.
       if divides_by_zero th (sensors_of x) then Inl ZeroDivisionError
       else Inr (severity_of_score th (worst_of 0 (concat (map (sensor_scores th) (sensors_of x))))))"

section \<open>The agent\<close>

record risk_assessment =
  ra_incident_id :: string
  ra_severity :: string
  ra_consequences :: "consequence list"
  ra_hitl_level :: int

text \<open>
  What the agent computes from the state of an incident; a summary given with the event counts
  when the row has none.
\<close>

definition assess ::
  "hitl_config \<Rightarrow> string \<Rightarrow> summary option \<Rightarrow> string option \<Rightarrow> int option \<Rightarrow> risk_assessment result" where
  "assess cfg i x hypothesis confidence =
     bindR (severity_from x cfg) (\<lambda>severity.
     bindR (select_consequences (or_str hypothesis []) x cfg) (\<lambda>cons.
     bindR (hitl_level_for severity confidence cfg) (\<lambda>level.
       Inr \<lparr>ra_incident_id = i, ra_severity = severity, ra_consequences = cons,
            ra_hitl_level = level\<rparr>)))"

definition risk_handle ::
  "hitl_config option \<Rightarrow> hitl_config \<Rightarrow> string \<Rightarrow> summary option \<Rightarrow> time \<Rightarrow> db \<Rightarrow>
     risk_assessment result \<times> db" where
  "risk_handle injected file_data i event_summary t d =
     (case get_incident_diagnosis_state i d of
        None \<Rightarrow> (Inl (RuntimeError (''incident '' @ i @ '' not found for risk scoring'')), d)
      | Some st \<Rightarrow>
          (let x = (case ds_summary st of None \<Rightarrow> event_summary | Some s \<Rightarrow> Some s) in
           case bindR (config_or_load injected file_data) (\<lambda>cfg.
                  assess cfg i x (ds_root_cause st) (ds_confidence st)) of
             Inl e \<Rightarrow> (Inl e, d)
           | Inr a \<Rightarrow>
               (case save_risk_assessment i (ra_severity a) (ra_consequences a) (ra_hitl_level a)
                       (ra_hitl_level a) t d of
                  (Inl e, d') \<Rightarrow> (Inl e, d')
                | (Inr _, d') \<Rightarrow> (Inr a, d'))))"

section \<open>Facts about the level\<close>

lemma floor_of_rules_ge: "fl \<le> floor_of_rules conf rules fl"
proof (induction rules arbitrary: fl)
  case (Cons r rules)
  obtain b l where "r = (b, l)" by (cases r)
  with Cons [of "max fl l"] Cons [of fl] show ?case by auto
qed simp

lemma floor_of_rules_le_iff:
  "floor_of_rules conf rules fl \<le> n \<longleftrightarrow> fl \<le> n \<and> (\<forall>(b, l)\<in>set rules. conf < b \<longrightarrow> l \<le> n)"
proof (induction rules arbitrary: fl)
  case (Cons r rules)
  obtain b l where "r = (b, l)" by (cases r)
  with Cons show ?case by auto
qed simp

lemma floor_of_rules_antitone:
  assumes "c \<le> c'" shows "floor_of_rules c' rules fl \<le> floor_of_rules c rules fl"
proof -
  have "fl \<le> floor_of_rules c rules fl \<and>
        (\<forall>(b, l)\<in>set rules. c < b \<longrightarrow> l \<le> floor_of_rules c rules fl)"
    using floor_of_rules_le_iff [of c rules fl "floor_of_rules c rules fl"] by simp
  with assms show ?thesis by (auto simp: floor_of_rules_le_iff)
qed

lemma hitl_level_Inr_iff:
  "hitl_level_for sev confidence cfg = Inr n \<longleftrightarrow>
     (\<exists>table base cf. hc_base cfg = Some table \<and> map_of table sev = Some base \<and> hc_floor cfg = Some cf \<and>
        (let conf = effective_confidence confidence cf; fl = floor_of_rules conf (cf_rules cf) 1
         in if sev = ''high'' then \<exists>sf. hc_safety cfg = Some sf \<and>
                n = max base (if conf < sf_below sf then max fl (sf_minimum sf) else fl)
            else n = max base fl))"
proof (cases "hc_base cfg")
  case (Some table)
  note base = this
  show ?thesis
  proof (cases "map_of table sev")
    case (Some b)
    with base show ?thesis
      by (cases "hc_floor cfg"; cases "hc_safety cfg"; cases "sev = ''high''")
        (auto simp: hitl_level_for_def config_key_def Let_def simp del: or_simps)
  qed (use base in \<open>simp add: hitl_level_for_def config_key_def\<close>)
qed (simp add: hitl_level_for_def config_key_def)

section \<open>Facts about severity and consequences\<close>

lemma worst_of_superset:
  assumes "set xs \<subseteq> set ys" shows "worst_of w xs \<le> worst_of w ys"
  using assms worst_of_le_iff [of w ys "worst_of w ys"] by (auto simp: worst_of_le_iff)

lemma scores_mem:
  "Some v \<in> set (concat (map (sensor_scores th) ss)) \<longleftrightarrow>
     (\<exists>s\<in>set ss. (\<exists>m. se_static_margin s = Some m \<and> v = m / th_static th) \<or>
                  (\<exists>z. se_drift_z s = Some z \<and> v = z / th_drift th))"
proof -
  have one: "Some v \<in> set (sensor_scores th s) \<longleftrightarrow>
      (\<exists>m. se_static_margin s = Some m \<and> v = m / th_static th) \<or>
      (\<exists>z. se_drift_z s = Some z \<and> v = z / th_drift th)" for s
    by (cases "se_static_margin s"; cases "se_drift_z s") (simp_all add: sensor_scores_def)
  show ?thesis by (simp add: one)
qed

lemma scores_ex:
  "(\<exists>v. Some v \<in> set (concat (map (sensor_scores th) ss)) \<and> P v) \<longleftrightarrow>
     (\<exists>s\<in>set ss. (\<exists>m. se_static_margin s = Some m \<and> P (m / th_static th)) \<or>
                  (\<exists>z. se_drift_z s = Some z \<and> P (z / th_drift th)))"
  unfolding scores_mem by blast

lemma consequences_from_categories:
  assumes "hc_amplifiers cfg = Some amp"
  shows "\<exists>out. consequences_from txt cfg table = Inr out \<and>
           map cq_consequence out = map fst (filter (\<lambda>(c, ks). \<exists>k\<in>set ks. py_in k txt) table)"
proof (induction table)
  case (Cons e table)
  obtain c ks where e: "e = (c, ks)" by (cases e)
  show ?case
  proof (cases "filter (\<lambda>k. py_in k txt) ks = []")
    case True
    with Cons e show ?thesis by (auto simp: filter_empty_conv)
  next
    case False
    then have "\<exists>k\<in>set ks. py_in k txt" by (auto simp: filter_empty_conv)
    with Cons e False assms show ?thesis by (auto simp: config_key_def)
  qed
qed simp

lemma select_consequences_categories:
  assumes "hc_amplifiers cfg = Some amp"
  shows "\<exists>out. select_consequences h x cfg = Inr out \<and>
           map cq_consequence out =
             map fst (filter (\<lambda>(c, ks). \<exists>k\<in>set ks. py_in k (consequence_text h x)) consequence_keywords)"
  unfolding select_consequences_def by (rule consequences_from_categories [OF assms])

lemmas shipped_parts = shipped_base_def shipped_floor_def shipped_safety_def shipped_limits_def

lemma shipped_fields:
  "hc_base shipped_config = Some shipped_base"
  "hc_floor shipped_config = Some shipped_floor"
  "hc_safety shipped_config = Some shipped_safety"
  "hc_thresholds shipped_config = Some shipped_limits"
  "hc_amplifiers shipped_config = Some shipped_amplifiers"
  by (simp_all add: shipped_config_def)

lemma severity_shipped:
  "severity_from x shipped_config =
     Inr (severity_of_score shipped_limits
       (worst_of 0 (concat (map (sensor_scores shipped_limits) (sensors_of x)))))"
  by (simp add: severity_from_def shipped_fields config_key_def divides_by_zero_def shipped_limits_def)

lemma level_shipped:
  "hitl_level_for ''low'' c shipped_config =
     Inr (if c = None \<or> the c < 50 then 3 else if the c < 70 then 2 else 1)"
  "hitl_level_for ''medium'' c shipped_config = Inr (if c = None \<or> the c < 50 then 3 else 2)"
  "hitl_level_for ''high'' c shipped_config = Inr (if c = None \<or> the c < 50 then 3 else 2)"
  by (cases c; simp add: hitl_level_for_def shipped_fields shipped_parts config_key_def
      effective_confidence_def Let_def)+

lemma assess_shipped_total: "\<exists>a. assess shipped_config i x h c = Inr a"
proof -
  obtain out where "select_consequences (or_str h []) x shipped_config = Inr out"
    using select_consequences_categories [OF shipped_fields(5)] by blast
  moreover have "\<exists>n. hitl_level_for (severity_of_score shipped_limits w) c shipped_config = Inr n" for w
    by (simp add: severity_of_score_def level_shipped)
  ultimately show ?thesis by (auto simp: assess_def severity_shipped bindR_Inr_iff)
qed

lemma risk_handle_unfold:
  assumes "find_incident u d = Some r" "parse_uuid i = Some u"
  shows "risk_handle injected file_data i event_summary t d =
     (case bindR (config_or_load injected file_data) (\<lambda>cfg. assess cfg i
              (case inc_summary r of None \<Rightarrow> event_summary | Some s \<Rightarrow> Some s)
              (inc_root_cause r) (inc_confidence r)) of
        Inl e \<Rightarrow> (Inl e, d)
      | Inr a \<Rightarrow> (Inr a, snd (save_risk_assessment i (ra_severity a) (ra_consequences a)
                               (ra_hitl_level a) (ra_hitl_level a) t d)))"
  using assms
  by (auto simp: risk_handle_def get_incident_diagnosis_state_def save_risk_assessment_def Let_def
      split: sum.splits)

lemma risk_handle_shipped_runs:
  assumes "find_incident u d = Some r" "parse_uuid i = Some u"
  shows "\<exists>a d'. risk_handle (Some shipped_config) file_data i x t d = (Inr a, d')"
proof -
  have "config_or_load (Some shipped_config) file_data = Inr shipped_config"
    by (simp add: config_or_load_def shipped_config_def empty_config_def)
  then show ?thesis
    unfolding risk_handle_unfold [OF assms] by (auto split: sum.splits)
      (metis assess_shipped_total Inl_not_Inr sum.inject)+
qed

section \<open>Properties\<close>

text \<open>
  C10. The HITL level is exactly the largest of the base level of the severity, 1, the minimum of
  every confidence rule whose bound the confidence is below, and, for a high severity, the safety
  floor's minimum when the confidence is below the safety bound: no rule can lower it and nothing
  else can raise it.
\<close>

theorem hitl_level_is_maximum:
  assumes "hitl_level_for sev confidence cfg = Inr n"
    and "hc_base cfg = Some table" and "map_of table sev = Some base"
    and "hc_floor cfg = Some cf" and "hc_safety cfg = Some sf"
  shows "n \<le> m \<longleftrightarrow>
           base \<le> m \<and> 1 \<le> m \<and>
           (\<forall>(b, l)\<in>set (cf_rules cf). effective_confidence confidence cf < b \<longrightarrow> l \<le> m) \<and>
           (sev = ''high'' \<and> effective_confidence confidence cf < sf_below sf \<longrightarrow> sf_minimum sf \<le> m)"
  using assms by (auto simp: hitl_level_Inr_iff floor_of_rules_le_iff Let_def split: if_splits)

lemma hitl_level_is_maximum_witness:
  "hitl_level_for ''high'' (Some 40) shipped_config = Inr 3 \<and> (3::int) \<le> 3 \<and> \<not> (3::int) \<le> 2"
  using hitl_level_is_maximum [of "''high''" "Some 40" shipped_config 3 "shipped_base" 2
      shipped_floor shipped_safety 3]
  by (simp add: level_shipped shipped_fields shipped_parts)

text \<open>
  Ambiguity never lowers the gate: whatever the configuration, a lower (or missing) confidence
  gives a level at least as high.
\<close>

theorem ambiguity_never_lowers_the_level:
  assumes "hitl_level_for sev x cfg = Inr n" and "hitl_level_for sev y cfg = Inr m"
    and "\<And>cf. hc_floor cfg = Some cf \<Longrightarrow> effective_confidence x cf \<le> effective_confidence y cf"
  shows "m \<le> n"
proof -
  obtain table base cf where c: "hc_base cfg = Some table" "map_of table sev = Some base"
    "hc_floor cfg = Some cf"
    using assms(1) by (auto simp: hitl_level_Inr_iff)
  let ?x = "effective_confidence x cf" and ?y = "effective_confidence y cf"
  have le: "?x \<le> ?y" by (rule assms(3) [OF c(3)])
  note fl = floor_of_rules_antitone [OF le, of "cf_rules cf" 1]
  show ?thesis
    using assms(1,2) c le fl
    by (cases "sev = ''high''") (auto simp: hitl_level_Inr_iff Let_def max_def split: if_splits)
qed

lemma ambiguity_never_lowers_the_level_witness:
  "hitl_level_for ''high'' None shipped_config = Inr 3 \<and>
   hitl_level_for ''high'' (Some 90) shipped_config = Inr 2 \<and> (2::int) \<le> 3"
  using ambiguity_never_lowers_the_level [of "''high''" None shipped_config 3 "Some 90" 2]
  by (simp add: level_shipped shipped_fields shipped_parts effective_confidence_def)

text \<open>
  The configuration that ships routes every diagnosis as documented: level 1 only for a low
  severity with confidence at least 70, level 3 whenever the confidence is below 50 or missing,
  level 2 otherwise; and a high severity never gets level 1.
\<close>

theorem shipped_hitl_matrix:
  "(\<exists>n. hitl_level_for ''low'' c shipped_config = Inr n \<and> n \<in> {1, 2, 3} \<and>
       (n = 1 \<longleftrightarrow> (\<exists>k. c = Some k \<and> 70 \<le> k)) \<and>
       (n = 3 \<longleftrightarrow> c = None \<or> (\<exists>k. c = Some k \<and> k < 50))) \<and>
   hitl_level_for ''medium'' c shipped_config = hitl_level_for ''high'' c shipped_config \<and>
   hitl_level_for ''high'' c shipped_config =
     Inr (if c = None \<or> (\<exists>k. c = Some k \<and> k < 50) then 3 else 2)"
  by (cases c) (auto simp: level_shipped)

text \<open>
  For sensible thresholds (positive, the medium fraction at most 1) the severity is always
  computed; it is high exactly when some flagged sensor's static margin or drift reaches the
  configured bound, and low exactly when every one stays below the medium fraction of it.
\<close>

theorem severity_bands:
  assumes "hc_thresholds cfg = Some th" "0 < th_static th" "0 < th_drift th"
    and "0 < th_medium th" "th_medium th \<le> 1"
  shows "\<exists>s. severity_from x cfg = Inr s \<and> s \<in> {''low'', ''medium'', ''high''} \<and>
     (s = ''high'' \<longleftrightarrow> (\<exists>e\<in>set (sensors_of x).
        (\<exists>m. se_static_margin e = Some m \<and> th_static th \<le> m) \<or>
        (\<exists>z. se_drift_z e = Some z \<and> th_drift th \<le> z))) \<and>
     (s = ''low'' \<longleftrightarrow> (\<forall>e\<in>set (sensors_of x).
        (\<forall>m. se_static_margin e = Some m \<longrightarrow> m < th_medium th * th_static th) \<and>
        (\<forall>z. se_drift_z e = Some z \<longrightarrow> z < th_medium th * th_drift th)))"
proof -
  let ?scores = "concat (map (sensor_scores th) (sensors_of x))"
  let ?w = "worst_of 0 ?scores"
  have s: "severity_from x cfg = Inr (severity_of_score th ?w)"
    using assms by (simp add: severity_from_def config_key_def divides_by_zero_def)
  have high: "1 \<le> ?w \<longleftrightarrow> (\<exists>e\<in>set (sensors_of x).
        (\<exists>m. se_static_margin e = Some m \<and> th_static th \<le> m) \<or>
        (\<exists>z. se_drift_z e = Some z \<and> th_drift th \<le> z))"
    unfolding worst_of_ge_iff scores_ex using assms by (simp add: le_divide_eq)
  have low: "?w < th_medium th \<longleftrightarrow> (\<forall>e\<in>set (sensors_of x).
        (\<forall>m. se_static_margin e = Some m \<longrightarrow> m < th_medium th * th_static th) \<and>
        (\<forall>z. se_drift_z e = Some z \<longrightarrow> z < th_medium th * th_drift th))"
    unfolding not_le [of "th_medium th", symmetric] worst_of_ge_iff scores_ex
    using assms by (auto simp: le_divide_eq not_le)
  show ?thesis
    unfolding s high [symmetric] low [symmetric]
    using assms(5) by (auto simp: severity_of_score_def)
qed

lemma severity_bands_witness:
  "\<exists>s. severity_from (Some sample_summary) shipped_config = Inr s \<and> s = ''high''"
proof -
  have e: "sample_sensor \<in> set (sensors_of (Some sample_summary))" "se_static_margin sample_sensor = Some 1.3"
    by (simp_all add: sensors_of_def sample_summary_def sample_sensor_def)
  have "\<exists>e\<in>set (sensors_of (Some sample_summary)). \<exists>m. se_static_margin e = Some m \<and> th_static shipped_limits \<le> m"
    by (intro bexI [OF _ e(1)] exI [of _ "1.3"]) (simp add: e(2) shipped_limits_def)
  then show ?thesis
    using severity_bands [OF shipped_fields(4), of "Some sample_summary"]
    unfolding shipped_limits_def by auto
qed

definition severity_rank :: "string \<Rightarrow> nat" where
  "severity_rank s = (if s = ''high'' then 2 else if s = ''medium'' then 1 else 0)"

lemma severity_of_score_mono:
  "v \<le> w \<Longrightarrow> severity_rank (severity_of_score shipped_limits v)
                \<le> severity_rank (severity_of_score shipped_limits w)"
  by (simp add: severity_of_score_def severity_rank_def shipped_limits_def)

lemma py_in_append_right: "py_in k a \<Longrightarrow> py_in k (a @ b)"
  using py_in_append [of k a "[]" b] by simp

text \<open>
  C14. Under the shipped configuration a worse case is never gated lower: with further flagged
  sensors and a lower or missing confidence, the level does not fall and no consequence is lost.
\<close>

theorem assessment_monotone:
  assumes "sensors_of x' = sensors_of x @ extra"
    and "c' = None \<or> (\<exists>k k'. c = Some k \<and> c' = Some k' \<and> k' \<le> k)"
  shows "\<exists>a a'. assess shipped_config i x h c = Inr a \<and> assess shipped_config i x' h c' = Inr a' \<and>
           severity_rank (ra_severity a) \<le> severity_rank (ra_severity a') \<and>
           ra_hitl_level a \<le> ra_hitl_level a' \<and>
           set (map cq_consequence (ra_consequences a)) \<subseteq> set (map cq_consequence (ra_consequences a'))"
proof -
  let ?sc = "\<lambda>x. worst_of 0 (concat (map (sensor_scores shipped_limits) (sensors_of x)))"
  let ?sev = "\<lambda>x. severity_of_score shipped_limits (?sc x)"
  let ?h = "or_str h []"
  obtain out where out: "select_consequences ?h x shipped_config = Inr out"
    "map cq_consequence out = map fst (filter (\<lambda>(c, ks). \<exists>k\<in>set ks. py_in k (consequence_text ?h x))
       consequence_keywords)"
    using select_consequences_categories [OF shipped_fields(5)] by blast
  obtain out' where out': "select_consequences ?h x' shipped_config = Inr out'"
    "map cq_consequence out' = map fst (filter (\<lambda>(c, ks). \<exists>k\<in>set ks. py_in k (consequence_text ?h x'))
       consequence_keywords)"
    using select_consequences_categories [OF shipped_fields(5)] by blast
  have "?sc x \<le> ?sc x'" using assms(1) by (intro worst_of_superset) simp
  then have rank: "severity_rank (?sev x) \<le> severity_rank (?sev x')" by (rule severity_of_score_mono)
  have sev: "?sev y = ''low'' \<or> ?sev y = ''medium'' \<or> ?sev y = ''high''" for y
    by (simp add: severity_of_score_def)
  obtain n n' where n: "hitl_level_for (?sev x) c shipped_config = Inr n"
    "hitl_level_for (?sev x') c' shipped_config = Inr n'"
    using sev [of x] sev [of x'] by (auto simp: level_shipped)
  have level: "n \<le> n'"
    using n rank sev [of x] sev [of x'] assms(2)
    by (auto simp: level_shipped severity_rank_def split: if_splits)
  have conc: "consequence_text ?h x' = consequence_text ?h x @ concat (map sensor_text extra)"
    using assms(1) by (simp add: consequence_text_def)
  have "set (map cq_consequence out) \<subseteq> set (map cq_consequence out')"
    unfolding out(2) out'(2) conc using py_in_append_right by fastforce
  with rank level n out(1) out'(1) show ?thesis
    by (simp add: assess_def severity_shipped)
qed

lemma assessment_monotone_witness:
  "\<exists>a a'. assess shipped_config [] None None (Some 90) = Inr a \<and>
          assess shipped_config [] (Some sample_summary) None None = Inr a' \<and>
          severity_rank (ra_severity a) \<le> severity_rank (ra_severity a') \<and>
          ra_hitl_level a \<le> ra_hitl_level a' \<and>
          set (map cq_consequence (ra_consequences a)) \<subseteq> set (map cq_consequence (ra_consequences a'))"
  by (rule assessment_monotone [of _ _ "[sample_sensor]"]) (simp_all add: sensors_of_def sample_summary_def)

lemma assess_level: "assess cfg i x h c = Inr a \<Longrightarrow> 1 \<le> ra_hitl_level a"
proof -
  assume "assess cfg i x h c = Inr a"
  then obtain sev where "hitl_level_for sev c cfg = Inr (ra_hitl_level a)"
    by (auto simp: assess_def bindR_Inr_iff)
  then show ?thesis
    using floor_of_rules_ge [of 1]
    by (auto simp: hitl_level_Inr_iff Let_def le_max_iff_disj split: if_splits)
qed

lemma risk_handle_spec:
  assumes "risk_handle injected file_data i event_summary t d = (res, d')"
  shows "(\<exists>e. res = Inl e \<and> d' = d) \<or>
    (\<exists>a u r r'. res = Inr a \<and> parse_uuid i = Some u \<and> find_incident u d = Some r \<and>
       find_incident u d' = Some r' \<and> inc_status r' = RiskAssessed \<and>
       inc_risk_severity r' = Some (ra_severity a) \<and> inc_consequences r' = Some (ra_consequences a) \<and>
       inc_hitl_level r' = Some (ra_hitl_level a) \<and> inc_required_level r' = Some (ra_hitl_level a) \<and>
       trail u d' = trail u d @ [(RiskAssessed, ''risk-agent'')] \<and>
       1 \<le> ra_hitl_level a \<and> touches_only u d d')"
proof (cases "parse_uuid i")
  case None
  with assms show ?thesis by (auto simp: risk_handle_def get_incident_diagnosis_state_def)
next
  case (Some u)
  note u = this
  show ?thesis
  proof (cases "find_incident u d")
    case None
    with assms u show ?thesis by (auto simp: risk_handle_def get_incident_diagnosis_state_def)
  next
    case (Some r)
    note unf = risk_handle_unfold [OF Some u, of injected file_data event_summary t]
    show ?thesis
    proof (cases "\<exists>e. res = Inl e")
      case True
      with assms unf show ?thesis by (auto split: sum.splits)
    next
      case False
      then obtain a where a: "res = Inr a" by (cases res) auto
      with assms unf have d': "d' = snd (save_risk_assessment i (ra_severity a) (ra_consequences a)
          (ra_hitl_level a) (ra_hitl_level a) t d)"
        by (auto split: sum.splits)
      have "1 \<le> ra_hitl_level a"
        using assms a unf by (auto simp: bindR_Inr_iff dest!: assess_level split: sum.splits)
      then show ?thesis
        by (intro disjI2 exI [of _ a] exI [of _ u])
           (simp add: a u Some d' save_risk_assessment_def store_simps touches_only_intros)
    qed
  qed
qed

text \<open>
  C15. A run of the Risk Agent either fails and leaves the store as it was, or moves exactly the
  named incident to \<open>risk_assessed\<close>, stores the severity, the consequences and one level both
  as HITL level and as required approval level, appends exactly one history row, and touches no
  other incident, no approval and no external action.
\<close>

theorem risk_handle_effect:
  assumes "risk_handle injected file_data i event_summary t d = (res, d')"
  shows "(\<exists>e. res = Inl e \<and> d' = d) \<or>
    (\<exists>a u r r'. res = Inr a \<and> parse_uuid i = Some u \<and> find_incident u d = Some r \<and>
       find_incident u d' = Some r' \<and> inc_status r' = RiskAssessed \<and>
       inc_risk_severity r' = Some (ra_severity a) \<and> inc_consequences r' = Some (ra_consequences a) \<and>
       inc_hitl_level r' = Some (ra_hitl_level a) \<and> inc_required_level r' = Some (ra_hitl_level a) \<and>
       trail u d' = trail u d @ [(RiskAssessed, ''risk-agent'')] \<and>
       1 \<le> ra_hitl_level a \<and> touches_only u d d')"
  using risk_handle_spec [OF assms] by blast

lemma risk_handle_effect_witness:
  "\<exists>res d'. risk_handle (Some shipped_config) shipped_config (uuid_str 7) None 9 sample_db = (res, d') \<and>
     ((\<exists>e. res = Inl e \<and> d' = sample_db) \<or> (\<exists>a. res = Inr a \<and> status_of 7 d' = Some RiskAssessed))"
proof -
  obtain res d' where r: "risk_handle (Some shipped_config) shipped_config (uuid_str 7) None 9 sample_db = (res, d')"
    by (cases "risk_handle (Some shipped_config) shipped_config (uuid_str 7) None 9 sample_db")
  from risk_handle_effect [OF r] show ?thesis
    using r by (auto simp: status_of_def)
qed

end
