(* ===== verification/RecommendationParser.thy ===== *)
theory RecommendationParser
  imports Llm
begin

text \<open>
  Reading the planner's final answer (\<open>_parse_recommendation\<close> and
  \<open>_parse_product_reorder\<close> of \<open>app/agents/recommendation/agent.py\<close>): lines, numbered
  actions, the rationale, and the one typed line that orders a product.
\<close>

section \<open>Numbers in text\<close>

text \<open>
  \<open>float\<close> of a text of digits and dots, as a decimal: digits and the number of them after
  the point.  A second dot, or no digit, is a \<open>ValueError\<close>.
\<close>

type_synonym decimal = "nat \<times> nat"

definition decimal_value :: "decimal \<Rightarrow> real" where
  "decimal_value q = of_nat (fst q) / 10 ^ snd q"

definition parse_decimal :: "string \<Rightarrow> decimal option" where
  "parse_decimal s =
     (let a = takeWhile (\<lambda>c. c \<noteq> CHR 0x2E) s; r = dropWhile (\<lambda>c. c \<noteq> CHR 0x2E) s
      in case r of
           [] \<Rightarrow> if a = [] then None else Some (digits_value a, 0)
         | _ # f \<Rightarrow> if CHR 0x2E \<in> set f \<or> (a = [] \<and> f = []) then None
                    else Some (digits_value (a @ f), length f))"

text \<open>The format \<open>:g\<close>: six significant digits, no trailing zeros, an exponent when it is far out.\<close>

definition round_away :: "nat \<Rightarrow> nat \<Rightarrow> nat" where
  "round_away m e =
     (let q = m div 10 ^ e; r = m mod 10 ^ e
      in if 2 * r < 10 ^ e then q else if 2 * r > 10 ^ e then q + 1 else if even q then q else q + 1)"

definition strip_zeros :: "string \<Rightarrow> string" where
  "strip_zeros s = rev (dropWhile (\<lambda>c. c = CHR 0x30) (rev s))"

definition six_digits :: "decimal \<Rightarrow> nat \<times> int" where
  "six_digits q =
     (let n = length (nat_str (fst q)); x = int n - 1 - int (snd q)
      in if n \<le> 6 then (fst q, x)
         else if round_away (fst q) (n - 6) = 1000000 then (100000, x + 1)
         else (round_away (fst q) (n - 6), x))"

definition fmt_g :: "decimal \<Rightarrow> string" where
  "fmt_g q =
     (if fst q = 0 then ''0''
      else case six_digits q of (r, x) \<Rightarrow>
        (let ds = strip_zeros (nat_str r)
         in if x < -4 \<or> 6 \<le> x then
              take 1 ds @ (if length ds \<le> 1 then [] else ''.'' @ drop 1 ds) @ ''e'' @
              (if x < 0 then ''-'' else ''+'') @ (if \<bar>x\<bar> < 10 then ''0'' else []) @ nat_str (nat \<bar>x\<bar>)
            else if x < 0 then ''0.'' @ replicate (nat (- x) - 1) (CHR 0x30) @ ds
            else (let k = nat x + 1; whole = take k (ds @ replicate k (CHR 0x30)); frac = drop k ds
                  in whole @ (if frac = [] then [] else ''.'' @ frac))))"

section \<open>The product line\<close>

record product_reorder =
  pr_key :: string
  pr_quantity :: decimal
  pr_reason :: string

text \<open>Matching a prefix under \<open>re.IGNORECASE\<close>: the rest of the text.\<close>

fun drop_prefix_ci :: "string \<Rightarrow> string \<Rightarrow> string option" where
  "drop_prefix_ci [] s = Some s"
| "drop_prefix_ci (p # ps) [] = None"
| "drop_prefix_ci (p # ps) (c # s) =
     (if lower_char c = lower_char p then drop_prefix_ci ps s else None)"

definition product_keys :: "string list" where
  "product_keys = [''coagulant'', ''biocide'', ''corrosion_inhibitor'']"

fun match_product :: "string list \<Rightarrow> string \<Rightarrow> (string \<times> string) option" where
  "match_product [] s = None"
| "match_product (k # ks) s =
     (case drop_prefix_ci k s of Some r \<Rightarrow> Some (k, r) | None \<Rightarrow> match_product ks s)"

definition some_space :: "string \<Rightarrow> string option" where
  "some_space s = (if s \<noteq> [] \<and> is_space (hd s) then Some (py_lstrip s) else None)"

definition is_number_char :: "char \<Rightarrow> bool" where
  "is_number_char c \<longleftrightarrow> is_digit c \<or> c = CHR 0x2E"

text \<open>The optional tail of the line: the end, or \<open>because\<close>, space and the reason.\<close>

definition match_reason :: "string \<Rightarrow> string option option" where
  "match_reason s =
     (let r = py_lstrip s
      in if r = [] then Some None
         else case drop_prefix_ci ''because'' r of
           None \<Rightarrow> None
         | Some r' \<Rightarrow> (case some_space r' of None \<Rightarrow> None | Some reason \<Rightarrow> Some (Some reason)))"

text \<open>
  The regular expression, read left to right: the alternatives exclude each other, so there is
  nothing to backtrack.  The result is \<open>None\<close> when it does not match; a quantity that
  \<open>float\<close> rejects raises.
\<close>

definition parse_product_reorder :: "string \<Rightarrow> product_reorder option result" where
  "parse_product_reorder raw =
     (case match_product product_keys (py_strip raw) of
        None \<Rightarrow> Inr None
      | Some (k, r1) \<Rightarrow>
     (case some_space r1 of
        None \<Rightarrow> Inr None
      | Some r2 \<Rightarrow>
     (case drop_prefix_ci ''qty'' r2 of
        None \<Rightarrow> Inr None
      | Some r3 \<Rightarrow>
     (case drop_prefix_ci ''='' (py_lstrip r3) of
        None \<Rightarrow> Inr None
      | Some r4 \<Rightarrow>
     (let r5 = py_lstrip r4; num = takeWhile is_number_char r5; rest = dropWhile is_number_char r5
      in if num = [] then Inr None
         else case match_reason rest of
           None \<Rightarrow> Inr None
         | Some reason \<Rightarrow>
             (case parse_decimal num of
                None \<Rightarrow> Inl (ValueError ''could not convert string to float'')
              | Some q \<Rightarrow> Inr (Some \<lparr>pr_key = k, pr_quantity = q,
                  pr_reason = py_strip (or_str reason ''recommended by the Recommendation Agent'')\<rparr>)))))))"

section \<open>The lines of the answer\<close>

record parse_state =
  ps_actions :: "rec_action list"
  ps_rationale :: "string list"
  ps_reorder :: "product_reorder option"
  ps_in_rationale :: bool

definition parse_start :: parse_state where
  "parse_start = \<lparr>ps_actions = [], ps_rationale = [], ps_reorder = None, ps_in_rationale = False\<rparr>"

definition action_prefixes :: "string list" where
  "action_prefixes = [''1.'', ''2.'', ''3.'', ''4.'', ''5.'', ''6.'', ''7.'', ''8.'', ''9.'', ''-'', ''*'']"

definition action_prefix_of :: "string \<Rightarrow> string option" where
  "action_prefix_of stripped = find (\<lambda>p. py_startswith stripped p \<and> stripped \<noteq> p) action_prefixes"

definition numbered_action :: "nat \<Rightarrow> string \<Rightarrow> rec_action" where
  "numbered_action n txt =
     \<lparr>ra_action = Some txt, ra_priority = Some (int n + 1), ra_type = Some ''work_order'',
      ra_product_key = None, ra_quantity = None\<rparr>"

definition parse_line :: "string \<Rightarrow> parse_state \<Rightarrow> parse_state result" where
  "parse_line line s =
     (let stripped = py_strip line in
      if py_startswith (py_upper stripped) ''PRODUCT REORDER:'' then
        bindR (parse_product_reorder (drop 16 stripped)) (\<lambda>p. Inr (s\<lparr>ps_reorder := p\<rparr>))
      else if py_startswith (py_upper stripped) ''RATIONALE:'' then
        Inr (s\<lparr>ps_in_rationale := True, ps_rationale := ps_rationale s @ [py_strip (drop 10 stripped)]\<rparr>)
      else if ps_in_rationale s then
        (if py_startswith (py_upper stripped) ''HITL NOTE'' then Inr (s\<lparr>ps_in_rationale := False\<rparr>)
         else Inr (s\<lparr>ps_rationale := ps_rationale s @ [stripped]\<rparr>))
      else (case action_prefix_of stripped of
          None \<Rightarrow> Inr s
        | Some p \<Rightarrow> Inr (s\<lparr>ps_actions := ps_actions s @
            [numbered_action (length (ps_actions s)) (py_strip (drop (length p) stripped))]\<rparr>)))"

fun parse_lines :: "string list \<Rightarrow> parse_state \<Rightarrow> parse_state result" where
  "parse_lines [] s = Inr s"
| "parse_lines (l # ls) s = bindR (parse_line l s) (parse_lines ls)"

definition reorder_action :: "nat \<Rightarrow> product_reorder \<Rightarrow> rec_action" where
  "reorder_action n p =
     \<lparr>ra_action = Some (''Reorder '' @ fmt_g (pr_quantity p) @ '' of '' @ pr_key p @ '' ('' @ pr_reason p @ '')''),
      ra_priority = Some (int n + 1), ra_type = Some ''product_reorder'',
      ra_product_key = Some (pr_key p), ra_quantity = Some (decimal_value (pr_quantity p))\<rparr>"

definition fallback_action :: "string \<Rightarrow> rec_action" where
  "fallback_action txt =
     \<lparr>ra_action = Some (take 400 (py_strip (or_str (Some txt) ''No specific action parsed''))),
      ra_priority = Some 1, ra_type = Some ''manual'', ra_product_key = None, ra_quantity = None\<rparr>"

definition parse_recommendation :: "string \<Rightarrow> (rec_action list \<times> string) result" where
  "parse_recommendation txt =
     bindR (parse_lines (splitlines txt) parse_start) (\<lambda>s.
       (let acts = ps_actions s @
              (case ps_reorder s of None \<Rightarrow> [] | Some p \<Rightarrow> [reorder_action (length (ps_actions s)) p])
        in Inr (if acts = [] then [fallback_action txt] else acts,
                py_strip (py_join '' '' (filter (\<lambda>p. p \<noteq> []) (ps_rationale s))))))"

section \<open>Facts about the parser\<close>

lemma match_product_key: "match_product ks s = Some (k, r) \<Longrightarrow> k \<in> set ks"
  by (induction ks) (auto split: option.splits)

lemma parse_product_reorder_key:
  "parse_product_reorder raw = Inr (Some p) \<Longrightarrow> pr_key p \<in> set product_keys"
  unfolding parse_product_reorder_def Let_def
  by (auto split: option.splits if_splits prod.splits dest: match_product_key)

lemma decimal_nonneg: "0 \<le> decimal_value q"
  by (simp add: decimal_value_def)

definition parse_ok :: "parse_state \<Rightarrow> bool" where
  "parse_ok s \<longleftrightarrow>
     (\<forall>k < length (ps_actions s). \<exists>x. ps_actions s ! k = numbered_action k x \<and> x \<noteq> []) \<and>
     (\<forall>p. ps_reorder s = Some p \<longrightarrow> pr_key p \<in> set product_keys)"

lemma py_strip_not_blank: "s \<noteq> [] \<Longrightarrow> \<not> is_space (last s) \<Longrightarrow> py_strip s \<noteq> []"
proof -
  assume s: "s \<noteq> []" and l: "\<not> is_space (last s)"
  have "last s \<in> set s" using s by simp
  then have "py_lstrip s \<noteq> []" using l by (auto simp: py_lstrip_def dropWhile_eq_Nil_conv)
  moreover have "last (py_lstrip s) = last s"
    using \<open>py_lstrip s \<noteq> []\<close> unfolding py_lstrip_def
    by (metis last_appendR takeWhile_dropWhile_id)
  ultimately have "py_rstrip (py_lstrip s) \<noteq> []"
    using l by (auto simp: py_rstrip_def dropWhile_eq_Nil_conv)
       (metis last_in_set)
  then show ?thesis by (simp add: py_strip_def)
qed

lemma action_prefix_rest:
  assumes "action_prefix_of (py_strip line) = Some p"
  shows "py_strip (drop (length p) (py_strip line)) \<noteq> []"
proof -
  let ?s = "py_strip line"
  have p: "py_startswith ?s p" "?s \<noteq> p"
    using assms by (auto simp: action_prefix_of_def find_Some_iff)
  then obtain r where r: "?s = p @ r" "r \<noteq> []" by (auto simp: py_startswith_iff)
  then have "last ?s = last r" by simp
  moreover have "?s \<noteq> []" using r by simp
  ultimately have "\<not> is_space (last r)"
    using py_strip_no_outer_space(2) [of line "hd ?s" "tl ?s"] by simp
  with r show ?thesis using py_strip_not_blank [of r] by simp
qed

lemma parse_line_ok:
  assumes "parse_line l s = Inr s'" and "parse_ok s" shows "parse_ok s'"
proof -
  let ?str = "py_strip l"
  consider (prod) "py_startswith (py_upper ?str) ''PRODUCT REORDER:''"
    | (act) p where "action_prefix_of ?str = Some p"
        "s' = s\<lparr>ps_actions := ps_actions s @
            [numbered_action (length (ps_actions s)) (py_strip (drop (length p) ?str))]\<rparr>"
    | (other) "ps_actions s' = ps_actions s" "ps_reorder s' = ps_reorder s"
    using assms(1) unfolding parse_line_def Let_def
    by (auto simp del: py_startswith.simps split: if_splits option.splits)
  then show ?thesis
  proof cases
    case prod
    then obtain p where "parse_product_reorder (drop 16 ?str) = Inr p" "s' = s\<lparr>ps_reorder := p\<rparr>"
      using assms(1) by (auto simp: parse_line_def Let_def bindR_Inr_iff)
    with assms(2) show ?thesis by (auto simp: parse_ok_def dest: parse_product_reorder_key)
  next
    case act
    with assms(2) action_prefix_rest [OF act(1)] show ?thesis
      by (auto simp: parse_ok_def nth_append less_Suc_eq)
  next
    case other
    with assms(2) show ?thesis by (simp add: parse_ok_def)
  qed
qed

lemma parse_lines_ok: "parse_lines ls s = Inr s' \<Longrightarrow> parse_ok s \<Longrightarrow> parse_ok s'"
  by (induction ls arbitrary: s) (auto simp: bindR_Inr_iff dest: parse_line_ok)

lemma parse_start_ok: "parse_ok parse_start"
  by (simp add: parse_ok_def parse_start_def)

text \<open>
  Whatever text the model answers, if it parses then there is at least one action; the
  priorities are 1, 2, 3, ... in order; every action has one of the three types; a manual action
  is the only one and carries the whole text; and a product reorder, at most one and last, names
  a product of the closed list with a quantity that is not negative.
\<close>

theorem parse_recommendation_shape:
  assumes "parse_recommendation answer = Inr (acts, rationale)"
  shows "acts \<noteq> [] \<and>
    (\<forall>k < length acts. ra_priority (acts ! k) = Some (int k + 1)) \<and>
    (acts = [fallback_action answer] \<or>
     (\<exists>works orders. acts = works @ orders \<and> length orders \<le> 1 \<and>
        (\<forall>a\<in>set works. ra_type a = Some ''work_order'' \<and> (\<exists>x. x \<noteq> [] \<and> ra_action a = Some x)) \<and>
        (\<forall>a\<in>set orders. ra_type a = Some ''product_reorder'' \<and>
           (\<exists>k q. k \<in> set product_keys \<and> ra_product_key a = Some k \<and> ra_quantity a = Some q \<and> 0 \<le> q))))"
proof -
  obtain s where s: "parse_lines (splitlines answer) parse_start = Inr s"
    and acts: "acts = (let al = ps_actions s @
        (case ps_reorder s of None \<Rightarrow> [] | Some p \<Rightarrow> [reorder_action (length (ps_actions s)) p])
      in if al = [] then [fallback_action answer] else al)"
    using assms by (auto simp: parse_recommendation_def bindR_Inr_iff Let_def)
  have ok: "parse_ok s" by (rule parse_lines_ok [OF s parse_start_ok])
  have works: "\<forall>a\<in>set (ps_actions s). ra_type a = Some ''work_order'' \<and> (\<exists>x. x \<noteq> [] \<and> ra_action a = Some x)"
    using ok by (fastforce simp: parse_ok_def in_set_conv_nth numbered_action_def)
  have prio: "\<forall>k < length (ps_actions s). ra_priority (ps_actions s ! k) = Some (int k + 1)"
    using ok by (fastforce simp: parse_ok_def numbered_action_def)
  show ?thesis
  proof (cases "ps_reorder s")
    case None
    then have a: "acts = (if ps_actions s = [] then [fallback_action answer] else ps_actions s)"
      using acts by simp
    show ?thesis
    proof (cases "ps_actions s = []")
      case True
      with a show ?thesis by (simp add: fallback_action_def)
    next
      case False
      have "\<exists>works orders. acts = works @ orders \<and> length orders \<le> 1 \<and>
          (\<forall>a\<in>set works. ra_type a = Some ''work_order'' \<and> (\<exists>x. x \<noteq> [] \<and> ra_action a = Some x)) \<and>
          (\<forall>a\<in>set orders. ra_type a = Some ''product_reorder'' \<and>
             (\<exists>k q. k \<in> set product_keys \<and> ra_product_key a = Some k \<and> ra_quantity a = Some q \<and> 0 \<le> q))"
        using works False a
        by (intro exI [of _ "ps_actions s"] exI [of _ "[]"]) simp
      with False prio a show ?thesis by simp
    qed
  next
    case (Some p)
    let ?o = "reorder_action (length (ps_actions s)) p"
    have a: "acts = ps_actions s @ [?o]" using acts Some by simp
    have "pr_key p \<in> set product_keys" using ok Some by (simp add: parse_ok_def)
    then have o: "ra_type ?o = Some ''product_reorder'' \<and>
        (\<exists>k q. k \<in> set product_keys \<and> ra_product_key ?o = Some k \<and> ra_quantity ?o = Some q \<and> 0 \<le> q)"
      by (simp add: reorder_action_def decimal_nonneg)
    have "\<forall>k < length acts. ra_priority (acts ! k) = Some (int k + 1)"
      using prio by (auto simp: a nth_append less_Suc_eq reorder_action_def)
    moreover have "\<exists>works orders. acts = works @ orders \<and> length orders \<le> 1 \<and>
        (\<forall>a\<in>set works. ra_type a = Some ''work_order'' \<and> (\<exists>x. x \<noteq> [] \<and> ra_action a = Some x)) \<and>
        (\<forall>a\<in>set orders. ra_type a = Some ''product_reorder'' \<and>
           (\<exists>k q. k \<in> set product_keys \<and> ra_product_key a = Some k \<and> ra_quantity a = Some q \<and> 0 \<le> q))"
      using works o by (intro exI [of _ "ps_actions s"] exI [of _ "[?o]"]) (simp add: a)
    ultimately show ?thesis by (simp add: a)
  qed
qed

lemma parse_recommendation_shape_witness:
  "\<exists>acts rationale.
     parse_recommendation ''1. Inspect pump'' = Inr (acts, rationale) \<and> length acts = 1 \<and> acts \<noteq> [] \<and>
     (\<forall>k < length acts. ra_priority (acts ! k) = Some (int k + 1))"
proof -
  have "parse_recommendation ''1. Inspect pump'' =
      Inr ([numbered_action 0 ''Inspect pump''], [])" by code_simp
  from parse_recommendation_shape [OF this] this show ?thesis by simp
qed

end
