(* ===== verification/Recommendation.thy ===== *)
theory Recommendation
  imports RecommendationParser
begin

text \<open>
  The Recommendation Agent (\<open>app/agents/recommendation/agent.py\<close>): the planner loop with its
  two typed tools, the visible tool-call log, and the write that gates the incident.  The language
  model is the parameter \<open>re_llm\<close>; a message carries the data its prompt renders (\<open>Prompts\<close>).
\<close>

section \<open>What is sent to the model\<close>

record rec_context =
  rx_incident :: string
  rx_summary :: "summary option"
  rx_hypothesis :: string
  rx_confidence :: "int option"
  rx_risk_severity :: "string option"
  rx_level :: "int option"
  rx_consequences :: "string list"

datatype chat_message =
    SystemPrompt
  | ContextPrompt rec_context
  | AssistantCalls string "tool_call list"
  | ToolMessage string tool_result
  | StopCalling

text \<open>
  What the agent runs against: the model (given the number of the call, the messages and whether
  tools are offered), the database's views of jsonb and uuid text, the rates of the cost estimate,
  and the faults of the final write.
\<close>

record rec_env =
  re_llm :: "nat \<Rightarrow> chat_message list \<Rightarrow> bool \<Rightarrow> llm_response result"
  re_jsonb_text :: "symptoms \<Rightarrow> string"
  re_cast_uuid :: "string \<Rightarrow> uuid option"
  re_flat_input :: "real option"
  re_flat_output :: "real option"
  re_faults :: "nat \<Rightarrow> exc option"
  re_attempts :: nat

section \<open>Tools\<close>

definition execute_tool :: "rec_env \<Rightarrow> string \<Rightarrow> (string \<times> string) list \<Rightarrow> db \<Rightarrow> tool_result" where
  "execute_tool env name args d =
     (if name = ''get_equipment_maintenance_status'' then
        MaintenanceResult (get_equipment_maintenance_status (dict_get ''equipment_id'' [] args) d)
      else if name = ''get_similar_incident_outcomes'' then
        (case get_similar_incident_outcomes (re_jsonb_text env) (re_cast_uuid env)
                (dict_get ''equipment_id'' [] args) (dict_get ''symptom_pattern'' [] args) d of
           Inl e \<Rightarrow> ToolError (exc_str e)
         | Inr outcomes \<Rightarrow> OutcomesResult outcomes)
      else ToolError (''unknown tool '' @ [CHR 0x27] @ name @ [CHR 0x27]))"

definition tool_entry_of :: "rec_env \<Rightarrow> nat \<Rightarrow> time \<Rightarrow> db \<Rightarrow> tool_call \<Rightarrow> tool_entry" where
  "tool_entry_of env round_no t d c =
     \<lparr>te_round = round_no, te_tool = tc_name c, te_arguments = tc_arguments c,
      te_result = execute_tool env (tc_name c) (tc_arguments c) d, te_at = t\<rparr>"

section \<open>The planner loop\<close>

definition max_tool_rounds :: nat where
  "max_tool_rounds = 4"

text \<open>
  After the last round the model is called once more without tools; only this exit adds the cost
  of its call to the incident.
\<close>

definition forced_answer ::
  "rec_env \<Rightarrow> string \<Rightarrow> nat \<Rightarrow> chat_message list \<Rightarrow> tool_entry list \<Rightarrow> time \<Rightarrow> db \<Rightarrow>
     (string \<times> tool_entry list) result \<times> db" where
  "forced_answer env i k msgs tlog t d =
     (case re_llm env k (msgs @ [StopCalling]) False of
        Inl e \<Rightarrow> (Inl e, d)
      | Inr r \<Rightarrow>
          (let cost = estimate_cost_usd (re_flat_input env) (re_flat_output env) (lr_model r) (lr_usage r)
           in if cost > 0 then
                (case add_incident_cost i cost t d of
                   (Inl e, d') \<Rightarrow> (Inl e, d')
                 | (Inr _, d') \<Rightarrow> (Inr (lr_content r, tlog), d'))
              else (Inr (lr_content r, tlog), d)))"

fun planner_rounds ::
  "rec_env \<Rightarrow> string \<Rightarrow> nat \<Rightarrow> nat \<Rightarrow> chat_message list \<Rightarrow> tool_entry list \<Rightarrow> time \<Rightarrow> db \<Rightarrow>
     (string \<times> tool_entry list) result \<times> db" where
  "planner_rounds env i 0 k msgs tlog t d = forced_answer env i k msgs tlog t d"
| "planner_rounds env i (Suc n) k msgs tlog t d =
     (case re_llm env k msgs True of
        Inl e \<Rightarrow> (Inl e, d)
      | Inr r \<Rightarrow>
          if lr_tool_calls r = [] then (Inr (lr_content r, tlog), d)
          else
            (let entries = map (tool_entry_of env k t d) (lr_tool_calls r);
                 msgs' = msgs @ [AssistantCalls (lr_content r) (lr_tool_calls r)] @
                   map (\<lambda>(c, e). ToolMessage (tc_id c) (te_result e)) (zip (lr_tool_calls r) entries)
             in planner_rounds env i n (Suc k) msgs' (tlog @ entries) t d))"

definition planner_loop ::
  "rec_env \<Rightarrow> string \<Rightarrow> rec_context \<Rightarrow> time \<Rightarrow> db \<Rightarrow> (string \<times> tool_entry list) result \<times> db" where
  "planner_loop env i ctx t d =
     planner_rounds env i max_tool_rounds 1 [SystemPrompt, ContextPrompt ctx] [] t d"

section \<open>The agent\<close>

record rec_result =
  rr_incident :: string
  rr_level :: int
  rr_next :: status

text \<open>
  The view \<open>get_incident_for_decision\<close> returns has no key \<open>consequences\<close>, so the list
  taken from it is always empty.
\<close>

definition rec_context_of :: "string \<Rightarrow> diagnosis_state \<Rightarrow> decision_view \<Rightarrow> rec_context" where
  "rec_context_of i st v =
     \<lparr>rx_incident = i, rx_summary = ds_summary st, rx_hypothesis = or_str (ds_root_cause st) [],
      rx_confidence = ds_confidence st, rx_risk_severity = dv_risk_severity v,
      rx_level = dv_hitl_level v, rx_consequences = []\<rparr>"

definition next_status_for :: "int \<Rightarrow> status" where
  "next_status_for level = (if level \<le> 1 then AutoInformed else AwaitingApproval)"

definition rationale_text :: "int \<Rightarrow> string \<Rightarrow> string" where
  "rationale_text level parsed =
     ''[HITL Level '' @ int_str level @ '' applies to this recommendation: '' @
     (if level \<le> 1 then ''informational -- recorded and visible, no approval required.]''
      else ''a human must approve before any action is executed.]'') @
     [CHR 0x0A] @ parsed"

definition no_risk_error :: "string \<Rightarrow> exc" where
  "no_risk_error i =
     RuntimeError (''incident '' @ i @ '' has no risk assessment; orchestrator ordering violated'')"

definition rec_persist ::
  "rec_env \<Rightarrow> string \<Rightarrow> rec_action list \<Rightarrow> string \<Rightarrow> tool_entry list \<Rightarrow> status \<Rightarrow> time \<Rightarrow> db \<Rightarrow>
     unit result \<times> db" where
  "rec_persist env i acts rationale tlog next_status t d =
     retry_from (re_attempts env) 1
       (with_faults (re_faults env) (save_recommendation i acts rationale tlog next_status t))
       (''Recommendation write failed after '' @ nat_str (re_attempts env) @ '' attempts'') d"

definition rec_handle ::
  "rec_env \<Rightarrow> bus_faults \<Rightarrow> string \<Rightarrow> time \<Rightarrow> world \<Rightarrow> rec_result result \<times> world" where
  "rec_handle env bus i t w =
     (case get_incident_diagnosis_state i (w_db w) of
        None \<Rightarrow> (Inl (RuntimeError (''incident '' @ i @ '' not found for recommendation'')), w)
      | Some st \<Rightarrow>
     (case get_incident_for_decision i (w_db w) of
        None \<Rightarrow> (Inl (no_risk_error i), w)
      | Some v \<Rightarrow>
     if dv_risk_severity v = None then
       (Inl (no_risk_error i), w)
     else
     (case on_db (planner_loop env i (rec_context_of i st v) t) w of
        (Inl e, w1) \<Rightarrow> (Inl e, w1)
      | (Inr (txt, tlog), w1) \<Rightarrow>
     (case parse_recommendation txt of
        Inl e \<Rightarrow> (Inl e, w1)
      | Inr (acts, parsed_rationale) \<Rightarrow>
     (let level = or_int (dv_hitl_level v) 2; next_status = next_status_for level in
      case on_db (rec_persist env i acts (rationale_text level parsed_rationale) tlog next_status t) w1 of
        (Inl e, w2) \<Rightarrow> (Inl e, w2)
      | (Inr _, w2) \<Rightarrow>
          (case publish bus (StageCompleted
                  \<lparr>sg_stage = Some ''recommendation'', sg_incident = Some i, sg_severity = None,
                   sg_level = Some level, sg_next = Some next_status, sg_confidence = None\<rparr>) w2 of
             (Inl e, w3) \<Rightarrow> (Inl e, w3)
           | (Inr _, w3) \<Rightarrow> (Inr \<lparr>rr_incident = i, rr_level = level, rr_next = next_status\<rparr>, w3)))))))"

section \<open>Facts about the loop\<close>

lemma forced_answer_same:
  assumes "re_llm env k (msgs @ [StopCalling]) False = re_llm env' k (msgs @ [StopCalling]) False"
    and "re_flat_input env = re_flat_input env'" "re_flat_output env = re_flat_output env'"
  shows "forced_answer env i k msgs tlog t d = forced_answer env' i k msgs tlog t d"
  unfolding forced_answer_def assms by (rule refl)

lemma planner_rounds_calls:
  assumes "\<And>j msgs. k \<le> j \<Longrightarrow> j < k + n \<Longrightarrow> llm j msgs True = re_llm env j msgs True"
    and "\<And>msgs. llm (k + n) msgs False = re_llm env (k + n) msgs False"
  shows "planner_rounds (env\<lparr>re_llm := llm\<rparr>) i n k msgs tlog t d = planner_rounds env i n k msgs tlog t d"
  using assms
proof (induction n arbitrary: k msgs tlog)
  case 0
  then show ?case by (auto intro!: forced_answer_same)
next
  case (Suc n)
  have entry: "tool_entry_of (env\<lparr>re_llm := llm\<rparr>) = tool_entry_of env"
    by (intro ext) (simp add: tool_entry_of_def execute_tool_def)
  have "planner_rounds (env\<lparr>re_llm := llm\<rparr>) i n (Suc k) ms lg t d = planner_rounds env i n (Suc k) ms lg t d"
    for ms lg
    using Suc.prems(1) Suc.prems(2) by (intro Suc.IH) auto
  moreover have "llm k msgs True = re_llm env k msgs True" by (rule Suc.prems(1)) simp_all
  ultimately show ?case by (simp add: entry Let_def split: sum.splits)
qed

text \<open>What a run of the loop may do to the store: nothing, or the cost of the forced call.\<close>

definition cost_only :: "uuid \<Rightarrow> time \<Rightarrow> db \<Rightarrow> db \<Rightarrow> bool" where
  "cost_only u t d d' \<longleftrightarrow>
     d' = d \<or> (\<exists>c. d' = update_incident u (\<lambda>r. r\<lparr>inc_cost := c r, inc_updated_at := t\<rparr>) d)"

lemma add_incident_cost_only:
  "add_incident_cost i c t d = (r, d') \<Longrightarrow> parse_uuid i = Some u \<Longrightarrow> cost_only u t d d'"
  by (auto simp: add_incident_cost_def cost_only_def split: option.splits)

lemma planner_rounds_spec:
  assumes "planner_rounds env i n k msgs tlog t d = (r, d')" and "parse_uuid i = Some u"
  shows "cost_only u t d d' \<and>
     (\<forall>txt lg. r = Inr (txt, lg) \<longrightarrow>
        (\<exists>new. lg = tlog @ new \<and>
           (\<forall>e\<in>set new. k \<le> te_round e \<and> te_round e < k + n \<and>
              te_result e = execute_tool env (te_tool e) (te_arguments e) d)))"
  using assms(1)
proof (induction n arbitrary: k msgs tlog)
  case 0
  then show ?case
    using add_incident_cost_only [OF _ assms(2)]
    by (auto simp: forced_answer_def cost_only_def Let_def split: sum.splits if_splits prod.splits)
next
  case (Suc n)
  show ?case
  proof (cases "re_llm env k msgs True")
    case (Inl e)
    with Suc.prems show ?thesis by (auto simp: cost_only_def)
  next
    case (Inr resp)
    show ?thesis
    proof (cases "lr_tool_calls resp = []")
      case True
      with Suc.prems Inr show ?thesis by (auto simp: cost_only_def)
    next
      case False
      let ?new = "map (tool_entry_of env k t d) (lr_tool_calls resp)"
      obtain ms where "planner_rounds env i n (Suc k) ms (tlog @ ?new) t d = (r, d')"
        using Suc.prems Inr False by (auto simp: Let_def)
      from Suc.IH [OF this] show ?thesis
        by (auto simp: tool_entry_of_def) (metis Suc_leD Suc_le_eq add_Suc_right less_or_eq_imp_le
            not_less_eq_eq append_assoc)+
    qed
  qed
qed

section \<open>Facts about the handler\<close>

lemma cost_only_touches: "cost_only u t d d' \<Longrightarrow> touches_only u d d'"
  by (auto simp: cost_only_def intro!: touches_only_intros)

lemma cost_only_trail: "cost_only u t d d' \<Longrightarrow> trail v d' = trail v d"
  by (auto simp: cost_only_def store_simps)

lemma cost_only_find:
  "cost_only u t d d' \<Longrightarrow> find_incident u d = Some r \<Longrightarrow>
     \<exists>c x. find_incident u d' = Some (r\<lparr>inc_cost := c, inc_updated_at := x\<rparr>)"
  unfolding cost_only_def
proof (elim disjE exE)
  assume "d' = d" "find_incident u d = Some r"
  then have "find_incident u d' = Some (r\<lparr>inc_cost := inc_cost r, inc_updated_at := inc_updated_at r\<rparr>)"
    by simp
  then show ?thesis by blast
qed (auto simp: store_simps)

lemma planner_loop_spec:
  assumes "planner_loop env i ctx t d = (r, d')" and "parse_uuid i = Some u"
  shows "cost_only u t d d'"
    and "r = Inr (txt, lg) \<Longrightarrow> e \<in> set lg \<Longrightarrow>
      1 \<le> te_round e \<and> te_round e \<le> max_tool_rounds \<and>
      te_result e = execute_tool env (te_tool e) (te_arguments e) d"
  using planner_rounds_spec [OF assms(1) [unfolded planner_loop_def] assms(2)] by auto

lemma rec_persist_cases:
  assumes "rec_persist env i acts ra lg nx t d = (r, d')"
  shows "(r = Inr () \<and> save_recommendation i acts ra lg nx t d = (Inr True, d')) \<or>
         ((\<exists>e. r = Inl e) \<and> d' = d)"
  using recommendation_write.retry_all_or_nothing [OF assms [unfolded rec_persist_def]]
  by (auto simp: with_faults_def split: option.splits)

lemma save_recommendation_ok:
  assumes "save_recommendation i acts ra lg nx t d = (Inr True, d')" and "parse_uuid i = Some u"
    and "find_incident u d = Some r"
  shows "\<exists>r'. find_incident u d' = Some r' \<and> inc_status r' = nx \<and> inc_actions r' = Some (map ActDict acts) \<and>
     inc_rationale r' = Some ra \<and> inc_tool_log r' = Some lg \<and>
     inc_hitl_level r' = inc_hitl_level r \<and> inc_required_level r' = inc_required_level r \<and>
     inc_site r' = inc_site r \<and> inc_risk_severity r' = inc_risk_severity r" (is ?A)
    and "trail u d' = trail u d @ [(Recommended, ''recommendation-agent''), (nx, ''hitl-gate'')]" (is ?B)
proof -
  have d': "d' = snd (save_recommendation i acts ra lg nx t d)" using assms(1) by simp
  show ?A unfolding d' using assms(2,3) by (simp add: save_recommendation_def Let_def store_simps)
  show ?B unfolding d' using assms(2,3) by (simp add: save_recommendation_def Let_def store_simps)
qed

text \<open>
  A successful run decomposes into the loop, the parser, the write and the event.
\<close>

lemma rec_handle_ok:
  assumes "rec_handle env bus i t w = (Inr rr, w')"
  obtains st v ans lg acts pr d1 d2 level where
    "get_incident_diagnosis_state i (w_db w) = Some st"
    "get_incident_for_decision i (w_db w) = Some v" "dv_risk_severity v \<noteq> None"
    "planner_loop env i (rec_context_of i st v) t (w_db w) = (Inr (ans, lg), d1)"
    "parse_recommendation ans = Inr (acts, pr)" "level = or_int (dv_hitl_level v) 2"
    "rec_persist env i acts (rationale_text level pr) lg (next_status_for level) t d1 = (Inr (), d2)"
    "rr = \<lparr>rr_incident = i, rr_level = level, rr_next = next_status_for level\<rparr>"
    "w' = w\<lparr>w_db := d2, w_bus := w_bus w @ [StageCompleted
       \<lparr>sg_stage = Some ''recommendation'', sg_incident = Some i, sg_severity = None,
        sg_level = Some level, sg_next = Some (next_status_for level), sg_confidence = None\<rparr>]\<rparr>"
proof -
  obtain st where st: "get_incident_diagnosis_state i (w_db w) = Some st"
    using assms by (auto simp: rec_handle_def split: option.splits)
  obtain v where v: "get_incident_for_decision i (w_db w) = Some v" and risk: "dv_risk_severity v \<noteq> None"
    using assms st by (auto simp: rec_handle_def split: option.splits if_splits)
  obtain ans lg d1 where loop: "planner_loop env i (rec_context_of i st v) t (w_db w) = (Inr (ans, lg), d1)"
    using assms st v risk
    by (cases "planner_loop env i (rec_context_of i st v) t (w_db w)")
       (auto simp: rec_handle_def on_db_def split: sum.splits)
  obtain acts pr where parsed: "parse_recommendation ans = Inr (acts, pr)"
    using assms st v risk loop by (auto simp: rec_handle_def on_db_def split: sum.splits)
  let ?level = "or_int (dv_hitl_level v) 2"
  obtain r2 d2 where persist:
    "rec_persist env i acts (rationale_text ?level pr) lg (next_status_for ?level) t d1 = (r2, d2)"
    by (cases "rec_persist env i acts (rationale_text ?level pr) lg (next_status_for ?level) t d1")
  have r2: "r2 = Inr ()"
    using assms st v risk loop parsed persist
    by (cases r2) (auto simp: rec_handle_def on_db_def Let_def)
  show thesis
  proof (rule that [OF st v risk loop parsed refl])
    show "rec_persist env i acts (rationale_text ?level pr) lg (next_status_for ?level) t d1 = (Inr (), d2)"
      using persist r2 by simp
  qed (use assms st v risk loop parsed persist r2 in
        \<open>auto simp: rec_handle_def on_db_def Let_def publish_def split: option.splits\<close>)
qed

lemma rec_persist_succeeds:
  assumes "re_faults env j = None" "1 \<le> j" "j \<le> re_attempts env"
    and "parse_uuid i = Some u" "find_incident u d = Some r"
  shows "\<exists>d'. rec_persist env i acts ra lg nx t d = (Inr (), d')"
proof -
  have "with_faults (re_faults env) (save_recommendation i acts ra lg nx t) j d =
      (Inr True, snd (save_recommendation i acts ra lg nx t d))"
    using assms by (simp add: with_faults_def save_recommendation_def Let_def)
  from recommendation_write.retry_succeeds [OF this] show ?thesis
    using assms(2,3) unfolding rec_persist_def by simp
qed

lemma rec_handle_frame:
  assumes "rec_handle env bus i t w = (res, w')"
  shows "w_db w' = w_db w \<or> (\<exists>u. parse_uuid i = Some u \<and> touches_only u (w_db w) (w_db w'))"
proof (cases "parse_uuid i")
  case None
  with assms show ?thesis by (simp add: rec_handle_def get_incident_diagnosis_state_def)
next
  case (Some u)
  show ?thesis
  proof (cases "\<exists>st v. get_incident_diagnosis_state i (w_db w) = Some st \<and>
      get_incident_for_decision i (w_db w) = Some v \<and> dv_risk_severity v \<noteq> None")
    case False
    with assms show ?thesis by (auto simp: rec_handle_def split: option.splits if_splits)
  next
    case True
    then obtain st v where sv: "get_incident_diagnosis_state i (w_db w) = Some st"
      "get_incident_for_decision i (w_db w) = Some v" "dv_risk_severity v \<noteq> None" by blast
    obtain x d1 where loop: "planner_loop env i (rec_context_of i st v) t (w_db w) = (x, d1)"
      by (cases "planner_loop env i (rec_context_of i st v) t (w_db w)")
    have t1: "touches_only u (w_db w) d1"
      by (rule cost_only_touches [OF planner_loop_spec(1) [OF loop Some]])
    note unf = assms [unfolded rec_handle_def sv(1) sv(2) option.case on_db_pair [where f = "planner_loop env i (rec_context_of i st v) t", OF loop]]
    show ?thesis
    proof (cases "\<exists>ans lg acts pr. x = Inr (ans, lg) \<and> parse_recommendation ans = Inr (acts, pr)")
      case False
      with unf sv(3) t1 Some show ?thesis by (auto split: sum.splits prod.splits)
    next
      case True
      then obtain ans lg acts pr where x: "x = Inr (ans, lg)" "parse_recommendation ans = Inr (acts, pr)"
        by blast
      let ?lv = "or_int (dv_hitl_level v) 2"
      obtain y d2 where persist:
        "rec_persist env i acts (rationale_text ?lv pr) lg (next_status_for ?lv) t d1 = (y, d2)"
        by (cases "rec_persist env i acts (rationale_text ?lv pr) lg (next_status_for ?lv) t d1")
      have t2: "touches_only u d1 d2"
        using rec_persist_cases [OF persist] save_recommendation_touches [OF _ Some] by auto
      have "w_db w' = d2"
        using unf sv(3) x persist
        by (auto simp: on_db_def publish_def Let_def split: sum.splits option.splits)
      with touches_only_trans [OF t1 t2] Some show ?thesis by blast
    qed
  qed
qed

text \<open>
  When the model answers every call, every answer parses, and the bus and one attempt of the write
  meet no fault, the agent succeeds on every incident that has a risk assessment.
\<close>

definition rec_live :: "rec_env \<Rightarrow> bool" where
  "rec_live env \<longleftrightarrow>
     (\<forall>k msgs tools. \<exists>r. re_llm env k msgs tools = Inr r \<and> (\<exists>p. parse_recommendation (lr_content r) = Inr p)) \<and>
     (\<exists>j. 1 \<le> j \<and> j \<le> re_attempts env \<and> re_faults env j = None)"

lemma planner_rounds_total:
  assumes "rec_live env" and "parse_uuid i = Some u"
  shows "\<exists>ans lg d'. planner_rounds env i n k msgs tlog t d = (Inr (ans, lg), d') \<and>
           (\<exists>p. parse_recommendation ans = Inr p)"
proof (induction n arbitrary: k msgs tlog)
  case 0
  obtain r p where "re_llm env k (msgs @ [StopCalling]) False = Inr r" "parse_recommendation (lr_content r) = Inr p"
    using assms(1) unfolding rec_live_def by blast
  then show ?case
    using assms(2) by (auto simp: forced_answer_def Let_def add_incident_cost_def split: option.splits)
next
  case (Suc n)
  obtain r p where "re_llm env k msgs True = Inr r" "parse_recommendation (lr_content r) = Inr p"
    using assms(1) unfolding rec_live_def by blast
  then show ?case using Suc.IH by (auto simp: Let_def)
qed

lemma rec_handle_succeeds:
  assumes "rec_live env" and "\<And>e. bus e = None" and u: "parse_uuid i = Some u"
    and r: "find_incident u (w_db w) = Some r" and risk: "inc_risk_severity r \<noteq> None"
  shows "\<exists>rr w'. rec_handle env bus i t w = (Inr rr, w')"
proof -
  obtain st where st: "get_incident_diagnosis_state i (w_db w) = Some st"
    using u r by (simp add: get_incident_diagnosis_state_def)
  have v: "get_incident_for_decision i (w_db w) = Some (decision_view_of r)"
    using u r by (simp add: get_incident_for_decision_def)
  have sev: "dv_risk_severity (decision_view_of r) \<noteq> None" using risk by (simp add: decision_view_of_def)
  obtain ans lg d1 acts pr where loop:
    "planner_loop env i (rec_context_of i st (decision_view_of r)) t (w_db w) = (Inr (ans, lg), d1)"
    "parse_recommendation ans = Inr (acts, pr)"
    using planner_rounds_total [OF assms(1) u] unfolding planner_loop_def by (metis surj_pair)
  obtain r1 where r1: "find_incident u d1 = Some r1"
    using cost_only_find [OF planner_loop_spec(1) [OF loop(1) u] r] by blast
  let ?lv = "or_int (dv_hitl_level (decision_view_of r)) 2"
  obtain d2 where persist:
    "rec_persist env i acts (rationale_text ?lv pr) lg (next_status_for ?lv) t d1 = (Inr (), d2)"
    using assms(1) rec_persist_succeeds [OF _ _ _ u r1] unfolding rec_live_def by metis
  show ?thesis
    using st v sev loop persist assms(2) by (simp add: rec_handle_def on_db_def publish_def Let_def)
qed

section \<open>What the properties state\<close>

text \<open>
  The condition on the incident after a recommendation was written: the parsed actions, the log,
  the gate's status for the level, and everything the risk assessment stored.
\<close>

definition recommended_as :: "incident \<Rightarrow> rec_result \<Rightarrow> incident \<Rightarrow> bool" where
  "recommended_as r rr r' \<longleftrightarrow>
     rr_level rr = or_int (inc_hitl_level r) 2 \<and> rr_next rr = next_status_for (rr_level rr) \<and>
     inc_status r' = rr_next rr \<and> inc_hitl_level r' = inc_hitl_level r \<and>
     inc_required_level r' = inc_required_level r \<and> inc_site r' = inc_site r \<and>
     inc_risk_severity r' = inc_risk_severity r \<and>
     (\<exists>acts. acts \<noteq> [] \<and> inc_actions r' = Some (map ActDict acts))"

definition rec_event :: "string \<Rightarrow> rec_result \<Rightarrow> bus_event" where
  "rec_event i rr = StageCompleted
     \<lparr>sg_stage = Some ''recommendation'', sg_incident = Some i, sg_severity = None,
      sg_level = Some (rr_level rr), sg_next = Some (rr_next rr), sg_confidence = None\<rparr>"

lemma decision_view_fields [simp]:
  "dv_hitl_level (decision_view_of r) = inc_hitl_level r"
  "dv_status (decision_view_of r) = inc_status r"
  "dv_required_level (decision_view_of r) = inc_required_level r"
  "dv_risk_severity (decision_view_of r) = inc_risk_severity r"
  "dv_actions (decision_view_of r) = inc_actions r"
  "dv_site_id (decision_view_of r) = uuid_str (inc_site r)"
  "dv_equipment_id (decision_view_of r) = uuid_str (inc_equipment r)"
  by (simp_all add: decision_view_of_def)

lemma parse_recommendation_nonempty: "parse_recommendation a = Inr (acts, pr) \<Longrightarrow> acts \<noteq> []"
  by (auto simp: parse_recommendation_def bindR_Inr_iff Let_def split: if_splits option.splits)

lemma rec_handle_effect:
  assumes "rec_handle env bus i t w = (Inr rr, w')"
  shows "\<exists>u r r'. parse_uuid i = Some u \<and> find_incident u (w_db w) = Some r \<and>
     find_incident u (w_db w') = Some r' \<and> inc_risk_severity r \<noteq> None \<and> recommended_as r rr r' \<and>
     trail u (w_db w') = trail u (w_db w) @ [(Recommended, ''recommendation-agent''), (rr_next rr, ''hitl-gate'')] \<and>
     touches_only u (w_db w) (w_db w') \<and> w_bus w' = w_bus w @ [rec_event i rr]"
proof -
  obtain st v ans lg acts pr d1 d2 level where h:
    "get_incident_diagnosis_state i (w_db w) = Some st"
    "get_incident_for_decision i (w_db w) = Some v" "dv_risk_severity v \<noteq> None"
    "planner_loop env i (rec_context_of i st v) t (w_db w) = (Inr (ans, lg), d1)"
    "parse_recommendation ans = Inr (acts, pr)" "level = or_int (dv_hitl_level v) 2"
    "rec_persist env i acts (rationale_text level pr) lg (next_status_for level) t d1 = (Inr (), d2)"
    "rr = \<lparr>rr_incident = i, rr_level = level, rr_next = next_status_for level\<rparr>"
    "w' = w\<lparr>w_db := d2, w_bus := w_bus w @ [StageCompleted
       \<lparr>sg_stage = Some ''recommendation'', sg_incident = Some i, sg_severity = None,
        sg_level = Some level, sg_next = Some (next_status_for level), sg_confidence = None\<rparr>]\<rparr>"
    using assms by (rule rec_handle_ok)
  from h(2) obtain u r where u: "parse_uuid i = Some u" and r: "find_incident u (w_db w) = Some r"
    and v: "v = decision_view_of r"
    by (auto simp: get_incident_for_decision_def split: option.splits)
  have cost: "cost_only u t (w_db w) d1" by (rule planner_loop_spec(1) [OF h(4) u])
  then obtain c x where r1: "find_incident u d1 = Some (r\<lparr>inc_cost := c, inc_updated_at := x\<rparr>)"
    using cost_only_find r by blast
  have save: "save_recommendation i acts (rationale_text level pr) lg (next_status_for level) t d1 = (Inr True, d2)"
    using rec_persist_cases [OF h(7)] by simp
  note ok = save_recommendation_ok [OF save u r1]
  have touches: "touches_only u (w_db w) d2"
    by (rule touches_only_trans [OF cost_only_touches [OF cost] save_recommendation_touches [OF save u]])
  from ok(1) obtain r' where r': "find_incident u d2 = Some r'" "inc_status r' = next_status_for level"
    "inc_actions r' = Some (map ActDict acts)" "inc_hitl_level r' = inc_hitl_level r"
    "inc_required_level r' = inc_required_level r" "inc_site r' = inc_site r"
    "inc_risk_severity r' = inc_risk_severity r" by auto
  have "recommended_as r rr r'"
    using r' h(6,8) v parse_recommendation_nonempty [OF h(5)] by (auto simp: recommended_as_def)
  with u r r'(1) h(3,8,9) v ok(2) cost_only_trail [OF cost] touches show ?thesis
    by (auto simp: rec_event_def)
qed

text \<open>
  C23. When the Recommendation Agent returns, the incident had a risk assessment; it now carries a
  non-empty list of actions and the status of the HITL gate for its level (\<open>auto_informed\<close>
  exactly for level 1, \<open>awaiting_approval\<close> above), reached over \<open>recommended\<close> with one
  history row for each; the level and the site are as before, and no other incident, decision or
  external action is touched.
\<close>

theorem recommendation_lands_on_gate:
  assumes "rec_handle env bus i t w = (Inr rr, w')"
  shows "\<exists>u r r'. parse_uuid i = Some u \<and> find_incident u (w_db w) = Some r \<and>
     find_incident u (w_db w') = Some r' \<and> inc_risk_severity r \<noteq> None \<and> recommended_as r rr r' \<and>
     (inc_status r' = AutoInformed \<longleftrightarrow> or_int (inc_hitl_level r) 2 \<le> 1) \<and>
     (inc_status r' = AwaitingApproval \<longleftrightarrow> 2 \<le> or_int (inc_hitl_level r) 2) \<and>
     trail u (w_db w') = trail u (w_db w) @ [(Recommended, ''recommendation-agent''), (rr_next rr, ''hitl-gate'')] \<and>
     touches_only u (w_db w) (w_db w') \<and> w_bus w' = w_bus w @ [rec_event i rr]"
proof -
  have gate: "recommended_as r rr r' \<Longrightarrow>
     (inc_status r' = AutoInformed \<longleftrightarrow> or_int (inc_hitl_level r) 2 \<le> 1) \<and>
     (inc_status r' = AwaitingApproval \<longleftrightarrow> 2 \<le> or_int (inc_hitl_level r) 2)" for r r'
    by (auto simp: recommended_as_def next_status_for_def split: if_splits)
  show ?thesis using rec_handle_effect [OF assms] gate by blast
qed

text \<open>
  A model that calls one tool and then answers, and the sample incident after its risk assessment.
\<close>

definition sample_call :: tool_call where
  "sample_call = \<lparr>tc_id = ''c1'', tc_name = ''get_equipment_maintenance_status'',
                  tc_arguments = [(''equipment_id'', uuid_str 3)]\<rparr>"

definition sample_llm :: "nat \<Rightarrow> chat_message list \<Rightarrow> bool \<Rightarrow> llm_response result" where
  "sample_llm k msgs tools = Inr
     \<lparr>lr_content = ''1. Inspect pump'', lr_tool_calls = (if k = 1 then [sample_call] else []),
      lr_model = ''m'', lr_usage = \<lparr>us_prompt = None, us_completion = None, us_total = None\<rparr>\<rparr>"

definition sample_env :: rec_env where
  "sample_env =
     \<lparr>re_llm = sample_llm, re_jsonb_text = (\<lambda>x. []), re_cast_uuid = parse_uuid,
      re_flat_input = None, re_flat_output = None, re_faults = (\<lambda>k. None), re_attempts = 3\<rparr>"

definition risked_incident :: incident where
  "risked_incident = sample_incident\<lparr>inc_status := RiskAssessed, inc_risk_severity := Some ''high'',
     inc_hitl_level := Some 2, inc_required_level := Some 2\<rparr>"

definition risked_world :: world where
  "risked_world = \<lparr>w_db = sample_db\<lparr>db_incidents := [risked_incident]\<rparr>, w_bus = []\<rparr>"

lemma risked_find [simp]:
  "find_incident u (w_db risked_world) = (if u = 7 then Some risked_incident else None)"
  by (auto simp: find_incident_def risked_world_def risked_incident_def sample_incident_def)

lemma sample_answer: "parse_recommendation ''1. Inspect pump'' = Inr ([numbered_action 0 ''Inspect pump''], [])"
  by code_simp

lemma sample_loop:
  "planner_loop sample_env i ctx t d =
     (Inr (''1. Inspect pump'', [tool_entry_of sample_env 1 t d sample_call]), d)"
  by (simp add: planner_loop_def max_tool_rounds_def numeral_eq_Suc sample_env_def sample_llm_def Let_def)

lemma sample_rec_runs: "\<exists>rr w'. rec_handle sample_env (\<lambda>_. None) (uuid_str 7) 4 risked_world = (Inr rr, w')"
proof -
  obtain st where st: "get_incident_diagnosis_state (uuid_str 7) (w_db risked_world) = Some st"
    by (simp add: get_incident_diagnosis_state_def)
  have v: "get_incident_for_decision (uuid_str 7) (w_db risked_world) = Some (decision_view_of risked_incident)"
    by (simp add: get_incident_for_decision_def)
  have risk: "inc_risk_severity risked_incident = Some ''high''" "inc_hitl_level risked_incident = Some 2"
    by (simp_all add: risked_incident_def)
  have env: "re_faults sample_env j = None" "re_attempts sample_env = 3" for j
    by (simp_all add: sample_env_def)
  obtain d' where p: "rec_persist sample_env (uuid_str 7) [numbered_action 0 ''Inspect pump''] (rationale_text 2 [])
      [tool_entry_of sample_env 1 4 (w_db risked_world) sample_call] (next_status_for 2) 4
      (w_db risked_world) = (Inr (), d')"
    using rec_persist_succeeds [OF env(1) _ _ sample_uuid(4), of 1 "w_db risked_world" risked_incident
        "[numbered_action 0 ''Inspect pump'']" "rationale_text 2 []"
        "[tool_entry_of sample_env 1 4 (w_db risked_world) sample_call]" "next_status_for 2" 4]
    by (simp add: env del: One_nat_def) blast
  show ?thesis
    unfolding rec_handle_def st v on_db_def sample_loop option.case prod.case sum.case sample_answer Let_def
    by (simp add: risk p publish_def del: One_nat_def)
qed

lemma recommendation_lands_on_gate_witness:
  "\<exists>rr w' r'. rec_handle sample_env (\<lambda>_. None) (uuid_str 7) 4 risked_world = (Inr rr, w') \<and>
     find_incident 7 (w_db w') = Some r' \<and> inc_status r' = AwaitingApproval"
proof -
  obtain rr w' where h: "rec_handle sample_env (\<lambda>_. None) (uuid_str 7) 4 risked_world = (Inr rr, w')"
    using sample_rec_runs by blast
  from recommendation_lands_on_gate [OF h] have
    "\<exists>r'. find_incident 7 (w_db w') = Some r' \<and> inc_status r' = AwaitingApproval"
    by (auto simp: risked_incident_def split: if_splits)
  with h show ?thesis by blast
qed

text \<open>
  C38. The planner always returns, after at most five calls of the model: the result of the loop
  depends on nothing but the answers to the calls 1 to 4, which offer the tools, and to call 5,
  which does not.
\<close>

theorem planner_bounded_calls:
  assumes "\<And>k msgs. 1 \<le> k \<Longrightarrow> k \<le> max_tool_rounds \<Longrightarrow> llm k msgs True = re_llm env k msgs True"
    and "\<And>msgs. llm (Suc max_tool_rounds) msgs False = re_llm env (Suc max_tool_rounds) msgs False"
  shows "planner_loop (env\<lparr>re_llm := llm\<rparr>) i ctx t d = planner_loop env i ctx t d"
  unfolding planner_loop_def
  using assms by (intro planner_rounds_calls) (auto simp: max_tool_rounds_def)

lemma planner_bounded_calls_witness:
  "\<forall>i ctx t d. planner_loop (sample_env\<lparr>re_llm := (\<lambda>k msgs tools. if k \<le> 5 then sample_llm k msgs tools
       else Inl (OtherError ''never called''))\<rparr>) i ctx t d = planner_loop sample_env i ctx t d"
  by (intro allI planner_bounded_calls) (simp_all add: sample_env_def max_tool_rounds_def)

text \<open>
  The tool log is the truth: every entry lies in one of the four rounds and holds exactly what
  its tool, called with its arguments, returns on the store as it was when the planning began; and
  the planning changes nothing of the store but the cost of the incident.
\<close>

theorem tool_log_is_truthful:
  assumes "planner_loop env i ctx t d = (Inr (answer, entries), d')" and "parse_uuid i = Some u"
  shows "(\<forall>e\<in>set entries. 1 \<le> te_round e \<and> te_round e \<le> max_tool_rounds \<and>
            te_result e = execute_tool env (te_tool e) (te_arguments e) d) \<and>
         touches_only u d d' \<and> status_of u d' = status_of u d \<and> trail u d' = trail u d"
proof -
  have c: "cost_only u t d d'" by (rule planner_loop_spec(1) [OF assms])
  have "status_of u d' = status_of u d"
    using c by (auto simp: cost_only_def status_of_def store_simps option.map_comp comp_def)
  then show ?thesis
    using planner_loop_spec(2) [OF assms refl] cost_only_touches [OF c] cost_only_trail [OF c] by blast
qed

lemma tool_log_is_truthful_witness:
  "\<forall>ctx. planner_loop sample_env (uuid_str 7) ctx 4 sample_db =
     (Inr (''1. Inspect pump'', [tool_entry_of sample_env 1 4 sample_db sample_call]), sample_db) \<and>
   (\<forall>e\<in>set [tool_entry_of sample_env 1 4 sample_db sample_call].
      te_result e = execute_tool sample_env (te_tool e) (te_arguments e) sample_db)"
  using tool_log_is_truthful [OF sample_loop sample_uuid(4)] sample_loop by blast

text \<open>
  The retried write of the recommendation is all or nothing, and it succeeds as soon as one of
  its attempts meets no fault and the incident exists: a failed write leaves the store as it was,
  and never half of the two status moves.
\<close>

theorem recommendation_write_all_or_nothing:
  assumes "rec_persist env i acts ra lg nx t d = (r, d')"
  shows "(\<forall>e. r = Inl e \<longrightarrow> d' = d) \<and>
         (r = Inr () \<longrightarrow> save_recommendation i acts ra lg nx t d = (Inr True, d')) \<and>
         (r = Inr () \<longleftrightarrow>
            (\<exists>j u x. 1 \<le> j \<and> j \<le> re_attempts env \<and> re_faults env j = None \<and>
               parse_uuid i = Some u \<and> find_incident u d = Some x))"
proof -
  have one: "\<exists>j u x. 1 \<le> j \<and> j \<le> re_attempts env \<and> re_faults env j = None \<and>
      parse_uuid i = Some u \<and> find_incident u d = Some x" if r: "r = Inr ()"
  proof -
    obtain j where j: "1 \<le> j" "j < 1 + re_attempts env"
      "with_faults (re_faults env) (save_recommendation i acts ra lg nx t) j d = (Inr True, d')"
      using recommendation_write.retry_all_or_nothing [OF assms [unfolded rec_persist_def]] r by auto
    then have "re_faults env j = None" "save_recommendation i acts ra lg nx t d = (Inr True, d')"
      by (auto simp: with_faults_def split: option.splits)
    then have "\<exists>u x. parse_uuid i = Some u \<and> find_incident u d = Some x"
      by (auto simp: save_recommendation_def split: option.splits)
    with j \<open>re_faults env j = None\<close> show ?thesis by auto
  qed
  have two: "r = Inr ()" if "1 \<le> j" "j \<le> re_attempts env" "re_faults env j = None"
    "parse_uuid i = Some u" "find_incident u d = Some x" for j u x
    using rec_persist_succeeds [OF that(3,1,2,4,5), of acts ra lg nx t] assms by auto
  show ?thesis using rec_persist_cases [OF assms] one two by blast
qed

lemma recommendation_write_all_or_nothing_witness:
  "\<exists>d'. rec_persist (sample_env\<lparr>re_faults := (\<lambda>k. if k < 3 then Some (OtherError []) else None)\<rparr>)
      (uuid_str 7) [] [] [] AwaitingApproval 4 sample_db = (Inr (), d')"
proof -
  let ?env = "sample_env\<lparr>re_faults := (\<lambda>k. if k < 3 then Some (OtherError []) else None)\<rparr>"
  obtain r d' where r: "rec_persist ?env (uuid_str 7) [] [] [] AwaitingApproval 4 sample_db = (r, d')"
    by (cases "rec_persist ?env (uuid_str 7) [] [] [] AwaitingApproval 4 sample_db")
  have "r = Inr ()"
    using recommendation_write_all_or_nothing [OF r]
    by (auto simp: sample_env_def intro!: exI [of _ "3 :: nat"])
  with r show ?thesis by blast
qed

end
