(* ===== verification/Orchestrator.thy ===== *)
theory Orchestrator
  imports Risk Recommendation
begin

text \<open>
  The Orchestrator (\<open>app/agents/orchestrator/agent.py\<close>): the transition table, the handler of
  the stage-completion events and the HITL gate.  The two stage agents are injected, as in the
  code; their contract is the locale \<open>stage_agents\<close>, interpreted below on the models of the
  Risk and the Recommendation Agent.  \<open>_in_flight\<close> is the set the handler reads and writes.
\<close>

section \<open>The transition table\<close>

fun valid_transitions :: "status \<Rightarrow> status list" where
  "valid_transitions Open = [Investigating, NeedsHumanReview, Resolved]"
| "valid_transitions Investigating = [RiskAssessed, NeedsHumanReview, Resolved]"
| "valid_transitions RiskAssessed = [Recommended, NeedsHumanReview, Resolved]"
| "valid_transitions Recommended = [AwaitingApproval, AutoInformed, NeedsHumanReview, Resolved]"
| "valid_transitions AwaitingApproval = [Approved, Rejected, Resolved]"
| "valid_transitions AutoInformed = [Resolved]"
| "valid_transitions Approved = [ActionTaken, ActionFailed, Resolved]"
| "valid_transitions ActionTaken = [Resolved]"
| "valid_transitions ActionFailed = [ActionTaken, Resolved]"
| "valid_transitions Rejected = [Resolved, Investigating]"
| "valid_transitions NeedsHumanReview = [Investigating, Resolved]"
| "valid_transitions Resolved = []"

definition is_valid_transition :: "status \<Rightarrow> status \<Rightarrow> bool" where
  "is_valid_transition current nxt \<longleftrightarrow> nxt \<in> set (valid_transitions current)"

section \<open>Legal paths\<close>

fun legal_path :: "status list \<Rightarrow> bool" where
  "legal_path [] = True"
| "legal_path [s] = True"
| "legal_path (s # s' # rest) = (is_valid_transition s s' \<and> legal_path (s' # rest))"

lemma resolvable: "s \<noteq> Resolved \<Longrightarrow> is_valid_transition s Resolved"
  by (cases s) (simp_all add: is_valid_transition_def)

text \<open>Backwards along a path: the last status that is not an execution status decides.\<close>

lemma before_execution:
  "is_valid_transition s t \<Longrightarrow>
     (t \<in> {ActionTaken, ActionFailed} \<longrightarrow> s \<in> {Approved, ActionFailed}) \<and>
     (t = Approved \<longrightarrow> s = AwaitingApproval)"
  by (cases s) (auto simp: is_valid_transition_def)

lemma legal_path_snoc: "legal_path (xs @ [s, t]) \<longleftrightarrow> legal_path (xs @ [s]) \<and> is_valid_transition s t"
  by (induction xs rule: legal_path.induct) auto

lemma legal_path_execution:
  "legal_path (Open # path) \<Longrightarrow> last (Open # path) \<in> {ActionTaken, ActionFailed} \<Longrightarrow>
     \<exists>xs ys. path = xs @ [AwaitingApproval, Approved] @ ys"
proof (induction path rule: rev_induct)
  case (snoc t path)
  have t: "t \<in> {ActionTaken, ActionFailed}" using snoc.prems(2) by simp
  define s where "s = last (Open # path)"
  obtain pre where pre: "Open # path = pre @ [s]"
    unfolding s_def by (metis append_butlast_last_id list.distinct(1))
  then have "legal_path (pre @ [s, t])" using snoc.prems(1) by (metis append_Cons append.assoc append_Nil)
  then have lp: "legal_path (Open # path)" "is_valid_transition s t"
    unfolding legal_path_snoc using pre by simp_all
  show ?case
  proof (cases "s = ActionFailed")
    case True
    then obtain xs ys where "path = xs @ [AwaitingApproval, Approved] @ ys"
      using snoc.IH [OF lp(1)] s_def by auto
    then show ?thesis by (intro exI [of _ xs] exI [of _ "ys @ [t]"]) simp
  next
    case False
    then have s: "s = Approved" using before_execution [OF lp(2)] t by auto
    then obtain q where path: "path = q @ [Approved]"
      using s_def by (metis append_butlast_last_id last_ConsL last_ConsR status.distinct(11))
    obtain pre2 x where pre2: "Open # q = pre2 @ [x]" by (metis append_butlast_last_id list.distinct(1))
    have "legal_path (pre2 @ [x, Approved])" using lp(1) path pre2 by (metis append_Cons append.assoc append_Nil)
    then have "x = AwaitingApproval" using before_execution legal_path_snoc by blast
    then obtain q' where "q = q' @ [AwaitingApproval]"
      using pre2 by (cases q rule: rev_cases) auto
    with path show ?thesis by auto
  qed
qed simp

section \<open>Stage drivers\<close>

type_synonym risk_stage = "string \<Rightarrow> time \<Rightarrow> world \<Rightarrow> risk_assessment result \<times> world"

type_synonym rec_stage = "string \<Rightarrow> time \<Rightarrow> world \<Rightarrow> rec_result result \<times> world"

definition risk_event :: "string \<Rightarrow> risk_assessment \<Rightarrow> bus_event" where
  "risk_event i a = StageCompleted
     \<lparr>sg_stage = Some ''risk'', sg_incident = Some i, sg_severity = Some (ra_severity a),
      sg_level = Some (ra_hitl_level a), sg_next = None, sg_confidence = None\<rparr>"

definition trigger_risk :: "risk_stage \<Rightarrow> bus_faults \<Rightarrow> string \<Rightarrow> time \<Rightarrow> world \<Rightarrow> unit result \<times> world" where
  "trigger_risk risk bus i t w =
     (case risk i t w of
        (Inl e, w1) \<Rightarrow> (Inl e, w1)
      | (Inr a, w1) \<Rightarrow> publish bus (risk_event i a) w1)"

definition trigger_recommendation ::
  "rec_stage \<Rightarrow> bus_faults \<Rightarrow> string \<Rightarrow> time \<Rightarrow> world \<Rightarrow> unit result \<times> world" where
  "trigger_recommendation recm bus i t w =
     (case recm i t w of
        (Inl e, w1) \<Rightarrow> (Inl e, w1)
      | (Inr rr, w1) \<Rightarrow> publish bus (rec_event i rr) w1)"

definition apply_hitl_gate :: "string \<Rightarrow> time \<Rightarrow> world \<Rightarrow> unit result \<times> world" where
  "apply_hitl_gate i t w =
     (case get_incident_for_decision i (w_db w) of
        None \<Rightarrow> (Inr (), w)
      | Some v \<Rightarrow>
          (let level = or_int (dv_required_level v) 2; expected = next_status_for level
           in if dv_status v \<noteq> expected then
                (case on_db (transition_incident i expected ''orchestrator''
                        (Some (''HITL gate enforcement (level '' @ int_str level @ '')''))
                        (Some (DetGate expected (dv_status v))) t) w of
                   (Inl e, w') \<Rightarrow> (Inl e, w')
                 | (Inr _, w') \<Rightarrow> (Inr (), w'))
              else (Inr (), w)))"

definition run_stage ::
  "risk_stage \<Rightarrow> rec_stage \<Rightarrow> bus_faults \<Rightarrow> string \<Rightarrow> string \<Rightarrow> time \<Rightarrow> world \<Rightarrow> unit result \<times> world" where
  "run_stage risk recm bus stage i t w =
     (if stage = ''root_cause'' then trigger_risk risk bus i t w
      else if stage = ''risk'' then trigger_recommendation recm bus i t w
      else if stage = ''recommendation'' then apply_hitl_gate i t w
      else (Inr (), w))"

text \<open>The event handler: every exception of a stage is caught and logged.\<close>

definition on_stage_completed ::
  "risk_stage \<Rightarrow> rec_stage \<Rightarrow> bus_faults \<Rightarrow> stage_event \<Rightarrow> time \<Rightarrow> string set \<times> world \<Rightarrow> string set \<times> world" where
  "on_stage_completed risk recm bus ev t s =
     (case s of (inflight, w) \<Rightarrow>
        if \<not> truthy_str (sg_stage ev) \<or> \<not> truthy_str (sg_incident ev) then (inflight, w)
        else
          (let i = the (sg_incident ev) in
           if i \<in> inflight then (inflight, w)
           else (insert i inflight - {i},
                 snd (run_stage risk recm bus (the (sg_stage ev)) i t w))))"

text \<open>
  A broker that delivers each published stage event once, in order: the position of the next
  message, the handler's set and the world, for at most \<open>n\<close> messages.
\<close>

fun deliver_stages ::
  "risk_stage \<Rightarrow> rec_stage \<Rightarrow> bus_faults \<Rightarrow> (nat \<Rightarrow> time) \<Rightarrow> nat \<Rightarrow> nat \<Rightarrow> string set \<times> world \<Rightarrow>
     nat \<times> string set \<times> world" where
  "deliver_stages risk recm bus clk 0 p s = (p, s)"
| "deliver_stages risk recm bus clk (Suc n) p s =
     (if p < length (w_bus (snd s)) then
        (case w_bus (snd s) ! p of
           StageCompleted ev \<Rightarrow>
             deliver_stages risk recm bus clk n (Suc p) (on_stage_completed risk recm bus ev (clk p) s)
         | _ \<Rightarrow> deliver_stages risk recm bus clk n (Suc p) s)
      else (p, s))"

section \<open>The contract of the stage agents\<close>

locale stage_agents =
  fixes risk :: risk_stage and recm :: rec_stage
  assumes risk_ok: "risk i t w = (Inr a, w') \<Longrightarrow>
      1 \<le> ra_hitl_level a \<and> w_bus w' = w_bus w \<and>
      (\<exists>u r r'. parse_uuid i = Some u \<and> find_incident u (w_db w) = Some r \<and>
         find_incident u (w_db w') = Some r' \<and> inc_status r' = RiskAssessed \<and>
         inc_risk_severity r' \<noteq> None \<and> inc_hitl_level r' = Some (ra_hitl_level a) \<and>
         inc_required_level r' = Some (ra_hitl_level a) \<and>
         trail u (w_db w') = trail u (w_db w) @ [(RiskAssessed, ''risk-agent'')] \<and>
         touches_only u (w_db w) (w_db w'))"
    and risk_fail: "risk i t w = (Inl e, w') \<Longrightarrow> w' = w"
    and rec_ok: "recm i t w = (Inr rr, w') \<Longrightarrow>
      \<exists>u r r'. parse_uuid i = Some u \<and> find_incident u (w_db w) = Some r \<and>
         find_incident u (w_db w') = Some r' \<and> inc_risk_severity r \<noteq> None \<and> recommended_as r rr r' \<and>
         trail u (w_db w') = trail u (w_db w) @ [(Recommended, ''recommendation-agent''), (rr_next rr, ''hitl-gate'')] \<and>
         touches_only u (w_db w) (w_db w') \<and> w_bus w' = w_bus w @ [rec_event i rr]"
    and rec_frame: "recm i t w = (res, w') \<Longrightarrow>
      w_db w' = w_db w \<or> (\<exists>u. parse_uuid i = Some u \<and> touches_only u (w_db w) (w_db w'))"
begin

lemma gate_frame:
  assumes "apply_hitl_gate i t w = (r, w')"
  shows "w_db w' = w_db w \<or> (\<exists>u. parse_uuid i = Some u \<and> touches_only u (w_db w) (w_db w'))"
proof (cases "parse_uuid i")
  case None
  with assms show ?thesis by (simp add: apply_hitl_gate_def get_incident_for_decision_def)
next
  case (Some u)
  have t: "transition_incident i s a x y t (w_db w) = (z, d') \<Longrightarrow> touches_only u (w_db w) d'" for s a x y z d'
    using transition_incident_touches Some by blast
  show ?thesis
    using assms Some t
    by (auto simp: apply_hitl_gate_def on_db_def Let_def split: option.splits if_splits sum.splits prod.splits)
qed

text \<open>One delivery changes at most the incident it names, and leaves the set of running passes.\<close>

lemma stage_frame:
  assumes "on_stage_completed risk recm bus ev t (fl, w) = (fl', w')"
  shows "fl' = fl \<and>
    (w_db w' = w_db w \<or> (\<exists>i u. sg_incident ev = Some i \<and> parse_uuid i = Some u \<and> touches_only u (w_db w) (w_db w')))"
proof (cases "truthy_str (sg_stage ev) \<and> truthy_str (sg_incident ev) \<and> the (sg_incident ev) \<notin> fl")
  case False
  with assms show ?thesis by (auto simp: on_stage_completed_def Let_def split: if_splits)
next
  case True
  then obtain i where i: "sg_incident ev = Some i" "i \<notin> fl"
    by (cases "sg_incident ev") auto
  let ?frame = "\<lambda>w'. w_db w' = w_db w \<or> (\<exists>u. parse_uuid i = Some u \<and> touches_only u (w_db w) (w_db w'))"
  obtain x y where xy: "risk i t w = (x, y)" by (cases "risk i t w")
  have risk: "?frame (snd (trigger_risk risk bus i t w))"
  proof (cases x)
    case (Inl e)
    with risk_fail [of i t w e y] xy show ?thesis by (simp add: trigger_risk_def)
  next
    case (Inr a)
    with risk_ok [of i t w a y] xy show ?thesis by (auto simp: trigger_risk_def)
  qed
  obtain x2 y2 where xy2: "recm i t w = (x2, y2)" by (cases "recm i t w")
  have recm: "?frame (snd (trigger_recommendation recm bus i t w))"
    using rec_frame [OF xy2] xy2 by (cases x2) (auto simp: trigger_recommendation_def)
  have gate: "?frame (snd (apply_hitl_gate i t w))"
    by (rule gate_frame) (rule surjective_pairing)
  have "?frame (snd (run_stage risk recm bus (the (sg_stage ev)) i t w))"
    unfolding run_stage_def using risk recm gate by simp
  with assms True i show ?thesis by (auto simp: on_stage_completed_def Let_def)
qed

lemma stage_step:
  assumes "sg_stage ev = Some stage" "stage \<noteq> []" "sg_incident ev = Some i" "i \<noteq> []" "i \<notin> fl"
  shows "on_stage_completed risk recm bus ev t (fl, w) = (fl, snd (run_stage risk recm bus stage i t w))"
  using assms by (auto simp: on_stage_completed_def Let_def)

lemma gate_noop:
  assumes "parse_uuid i = Some u" "find_incident u (w_db w) = Some r"
    and "inc_status r = next_status_for (or_int (inc_required_level r) 2)"
  shows "apply_hitl_gate i t w = (Inr (), w)"
  using assms by (simp add: apply_hitl_gate_def get_incident_for_decision_def Let_def)

lemma deliver_step:
  assumes "p < length (w_bus w)" "w_bus w ! p = StageCompleted ev"
  shows "deliver_stages risk recm bus clk (Suc n) p (fl, w) =
     deliver_stages risk recm bus clk n (Suc p) (on_stage_completed risk recm bus ev (clk p) (fl, w))"
  using assms by simp

lemma deliver_done:
  "w_bus w = ms \<Longrightarrow> length ms = p \<Longrightarrow> deliver_stages risk recm bus clk n p (fl, w) = (p, fl, w)"
  by (cases n) auto

text \<open>
  The whole pipeline: from one root-cause event, with a broker that loses nothing and agents that
  succeed, to the HITL gate, after four deliveries; the second recommendation event (the agent and
  the orchestrator both publish one) finds the gate in place and changes nothing.
\<close>

lemma pipeline:
  assumes ev: "w_bus wa = ms @ [StageCompleted ev]" "sg_stage ev = Some ''root_cause''" "sg_incident ev = Some i"
    and i: "i \<noteq> []" "i \<notin> fl" and bus: "\<And>e. bus e = None"
    and r1: "risk i (clk (length ms)) wa = (Inr a, w1)"
    and live: "\<And>u r t w. parse_uuid i = Some u \<Longrightarrow> find_incident u (w_db w) = Some r \<Longrightarrow>
        inc_risk_severity r \<noteq> None \<Longrightarrow> \<exists>rr w'. recm i t w = (Inr rr, w')"
  shows "\<exists>u w rr. parse_uuid i = Some u \<and>
     deliver_stages risk recm bus clk (4 + n) (length ms) (fl, wa) = (length ms + 4, fl, w) \<and>
     w_bus w = w_bus wa @ [risk_event i a, rec_event i rr, rec_event i rr] \<and>
     rr_level rr = ra_hitl_level a \<and>
     status_of u (w_db w) = Some (next_status_for (ra_hitl_level a)) \<and>
     trail u (w_db w) = trail u (w_db wa) @
       [(RiskAssessed, ''risk-agent''), (Recommended, ''recommendation-agent''),
        (next_status_for (ra_hitl_level a), ''hitl-gate'')] \<and>
     touches_only u (w_db wa) (w_db w)"
proof -
  let ?del = "deliver_stages risk recm bus clk"
  let ?p = "length ms"
  obtain u r ra where a: "1 \<le> ra_hitl_level a" "w_bus w1 = w_bus wa" and u: "parse_uuid i = Some u"
    and ra: "find_incident u (w_db w1) = Some ra" "inc_status ra = RiskAssessed"
      "inc_risk_severity ra \<noteq> None" "inc_hitl_level ra = Some (ra_hitl_level a)"
      "inc_required_level ra = Some (ra_hitl_level a)"
    and tr1: "trail u (w_db w1) = trail u (w_db wa) @ [(RiskAssessed, ''risk-agent'')]"
    and to1: "touches_only u (w_db wa) (w_db w1)"
    using risk_ok [OF r1] by blast
  let ?w2 = "w1\<lparr>w_bus := w_bus wa @ [risk_event i a]\<rparr>"
  have s1: "?del (4 + n) ?p (fl, wa) = ?del (3 + n) (Suc ?p) (fl, ?w2)"
    using ev i bus r1 a(2)
    by (simp add: numeral_eq_Suc deliver_step stage_step run_stage_def trigger_risk_def publish_def)
  obtain rr w3 where r3: "recm i (clk (Suc ?p)) ?w2 = (Inr rr, w3)"
    using live [of u ?w2 ra "clk (Suc ?p)"] u ra by auto
  obtain rb where rb: "find_incident u (w_db w3) = Some rb" "recommended_as ra rr rb"
    and tr3: "trail u (w_db w3) = trail u (w_db w1) @ [(Recommended, ''recommendation-agent''), (rr_next rr, ''hitl-gate'')]"
    and to3: "touches_only u (w_db w1) (w_db w3)" and b3: "w_bus w3 = w_bus ?w2 @ [rec_event i rr]"
    using rec_ok [OF r3] u ra(1) by auto
  have lvl: "rr_level rr = ra_hitl_level a"
    using rb(2) ra(4) a(1) by (simp add: recommended_as_def)
  have nxt: "rr_next rr = next_status_for (ra_hitl_level a)"
    using rb(2) lvl by (simp add: recommended_as_def)
  let ?w4 = "w3\<lparr>w_bus := w_bus w3 @ [rec_event i rr]\<rparr>"
  have s2: "?del (3 + n) (Suc ?p) (fl, ?w2) = ?del (2 + n) (Suc (Suc ?p)) (fl, ?w4)"
    using ev i bus r3
    by (simp add: numeral_eq_Suc nth_append risk_event_def stage_step run_stage_def
        trigger_recommendation_def publish_def)
  have gate: "apply_hitl_gate i t ?w4 = (Inr (), ?w4)" for t
    using rb ra(5) a(1) lvl u
    by (intro gate_noop [where u = u and r = rb]) (auto simp: recommended_as_def)
  have b4: "w_bus ?w4 = ms @ [StageCompleted ev, risk_event i a, rec_event i rr, rec_event i rr]"
    using b3 ev(1) by simp
  have s3: "?del (2 + n) (Suc (Suc ?p)) (fl, ?w4) = ?del (1 + n) (Suc (Suc (Suc ?p))) (fl, ?w4)"
    using i gate b4 by (simp add: numeral_eq_Suc nth_append rec_event_def stage_step run_stage_def)
  have s4: "?del (1 + n) (Suc (Suc (Suc ?p))) (fl, ?w4) = ?del n (?p + 4) (fl, ?w4)"
    using i gate b4
    by (simp add: numeral_eq_Suc nth_append rec_event_def stage_step run_stage_def)
  have s5: "?del n (?p + 4) (fl, ?w4) = (?p + 4, fl, ?w4)"
    by (rule deliver_done [OF b4]) simp
  have st: "status_of u (w_db w3) = Some (next_status_for (ra_hitl_level a))"
    using rb nxt by (simp add: status_of_def recommended_as_def)
  show ?thesis
    using s1 s2 s3 s4 s5 u b3 lvl st tr1 tr3 nxt touches_only_trans [OF to1 to3]
    by (intro exI [of _ u] exI [of _ ?w4] exI [of _ rr]) simp
qed

end

section \<open>The agents of the program meet the contract\<close>

definition risk_stage_of :: "hitl_config option \<Rightarrow> hitl_config \<Rightarrow> risk_stage" where
  "risk_stage_of injected file_data i t w = on_db (risk_handle injected file_data i None t) w"

lemma risk_stage_split:
  "risk_stage_of injected file_data i t w = (res, w') \<longleftrightarrow>
     (\<exists>d'. risk_handle injected file_data i None t (w_db w) = (res, d') \<and> w' = w\<lparr>w_db := d'\<rparr>)"
  by (auto simp: risk_stage_of_def on_db_def split: prod.splits)

interpretation stages: stage_agents "risk_stage_of injected file_data" "rec_handle env bus"
  for injected file_data env bus
proof
  show "1 \<le> ra_hitl_level a \<and> w_bus w' = w_bus w \<and>
      (\<exists>u r r'. parse_uuid i = Some u \<and> find_incident u (w_db w) = Some r \<and>
         find_incident u (w_db w') = Some r' \<and> inc_status r' = RiskAssessed \<and>
         inc_risk_severity r' \<noteq> None \<and> inc_hitl_level r' = Some (ra_hitl_level a) \<and>
         inc_required_level r' = Some (ra_hitl_level a) \<and>
         trail u (w_db w') = trail u (w_db w) @ [(RiskAssessed, ''risk-agent'')] \<and>
         touches_only u (w_db w) (w_db w'))"
    if "risk_stage_of injected file_data i t w = (Inr a, w')" for i t w a w'
    using that risk_handle_spec by (fastforce simp: risk_stage_split)
  show "w' = w" if "risk_stage_of injected file_data i t w = (Inl e, w')" for i t w e w'
    using that risk_handle_spec by (fastforce simp: risk_stage_split)
qed (rule rec_handle_effect, assumption, rule rec_handle_frame)

text \<open>A store with one diagnosed incident and its root-cause event on the bus.\<close>

lemma uuid_str_nonempty: "uuid_str u \<noteq> []"
  by (simp add: uuid_str_def Let_def)

definition start_event :: stage_event where
  "start_event = \<lparr>sg_stage = Some ''root_cause'', sg_incident = Some (uuid_str 7), sg_severity = None,
     sg_level = None, sg_next = None, sg_confidence = Some 90\<rparr>"

definition start_world :: world where
  "start_world = \<lparr>w_db = sample_db, w_bus = [StageCompleted start_event]\<rparr>"

lemma sample_env_live: "rec_live sample_env"
  unfolding rec_live_def
  by (auto simp: sample_env_def sample_llm_def sample_answer intro: exI [of _ 1])

section \<open>Properties\<close>

text \<open>
  C25. From the root-cause event of an incident the pipeline reaches the HITL gate: with a broker
  that delivers every message, a model that answers, and a Risk Agent that succeeds, four
  deliveries empty the queue; the incident has gone through \<open>risk_assessed\<close> and
  \<open>recommended\<close> to \<open>auto_informed\<close> (level 1) or \<open>awaiting_approval\<close> (above) with
  exactly one history row for each move, although the recommendation event arrives twice, and no
  other incident, decision or external action is touched.
\<close>

theorem pipeline_reaches_the_gate:
  assumes "w_bus wa = ms @ [StageCompleted ev]" "sg_stage ev = Some ''root_cause''" "sg_incident ev = Some i"
    and "i \<noteq> []" "i \<notin> fl" and "\<And>e. bus e = None" and "rec_live env"
    and "risk_stage_of injected file_data i (clk (length ms)) wa = (Inr a, w1)"
  shows "\<exists>u w rr. parse_uuid i = Some u \<and>
     deliver_stages (risk_stage_of injected file_data) (rec_handle env bus) bus clk (4 + n) (length ms) (fl, wa) =
       (length ms + 4, fl, w) \<and>
     w_bus w = w_bus wa @ [risk_event i a, rec_event i rr, rec_event i rr] \<and>
     rr_level rr = ra_hitl_level a \<and>
     status_of u (w_db w) = Some (next_status_for (ra_hitl_level a)) \<and>
     trail u (w_db w) = trail u (w_db wa) @
       [(RiskAssessed, ''risk-agent''), (Recommended, ''recommendation-agent''),
        (next_status_for (ra_hitl_level a), ''hitl-gate'')] \<and>
     touches_only u (w_db wa) (w_db w)"
  using assms(1-6,8) by (rule stages.pipeline) (rule rec_handle_succeeds [OF assms(7,6)])

lemma pipeline_reaches_the_gate_witness:
  "\<exists>w. deliver_stages (risk_stage_of (Some shipped_config) shipped_config) (rec_handle sample_env (\<lambda>_. None))
      (\<lambda>_. None) int 4 0 ({}, start_world) = (4, {}, w) \<and>
     status_of 7 (w_db w) \<in> {Some AutoInformed, Some AwaitingApproval} \<and>
     length (trail 7 (w_db w)) = 3"
proof -
  have f: "find_incident 7 (w_db start_world) = Some sample_incident" by (simp add: start_world_def)
  obtain a w1 where r: "risk_stage_of (Some shipped_config) shipped_config (uuid_str 7)
      (int (length ([] :: bus_event list))) start_world
      = (Inr a, w1)"
    using risk_handle_shipped_runs [OF f sample_uuid(4)] unfolding risk_stage_of_def on_db_def
    by (metis (no_types, lifting) prod.case)
  have b: "w_bus start_world = [] @ [StageCompleted start_event]" by (simp add: start_world_def)
  have t: "trail 7 (w_db start_world) = []"
    by (simp add: start_world_def trail_def incident_history_def sample_db_def)
  show ?thesis
    using pipeline_reaches_the_gate [where wa = start_world and ms = "[]" and ev = start_event and
        i = "uuid_str 7" and fl = "{}" and bus = "\<lambda>_. None" and env = sample_env and
        injected = "Some shipped_config" and file_data = shipped_config and clk = int and n = 0,
        OF b _ _ _ _ refl sample_env_live r] t
    by (auto simp: start_event_def uuid_str_nonempty next_status_for_def)
qed


text \<open>
  The transition table: \<open>resolved\<close> is terminal and reachable from every other status, and
  every legal path that starts at \<open>open\<close> and reaches an execution status (\<open>action_taken\<close> or
  \<open>action_failed\<close>) passes through \<open>awaiting_approval\<close> and \<open>approved\<close> before.
\<close>

theorem no_execution_without_approval_in_table:
  assumes "legal_path (Open # path)" and "last (Open # path) \<in> {ActionTaken, ActionFailed}"
  shows "valid_transitions Resolved = [] \<and> (\<forall>s. s \<noteq> Resolved \<longrightarrow> is_valid_transition s Resolved) \<and>
    (\<exists>xs ys. path = xs @ [AwaitingApproval, Approved] @ ys)"
  using legal_path_execution [OF assms] resolvable by simp

lemma no_execution_without_approval_in_table_witness:
  "\<exists>xs ys. [Investigating, RiskAssessed, Recommended, AwaitingApproval, Approved, ActionTaken] =
     xs @ [AwaitingApproval, Approved] @ ys"
  using no_execution_without_approval_in_table
    [of "[Investigating, RiskAssessed, Recommended, AwaitingApproval, Approved, ActionTaken]"]
  by (simp add: is_valid_transition_def)

text \<open>
  The gate does not consult that table: delivering the recommendation event of an incident
  once more after its approval moves it from \<open>approved\<close> back to \<open>awaiting_approval\<close>, a move
  the table does not allow.
\<close>

theorem replayed_event_reopens_approved:
  assumes "sg_stage ev = Some ''recommendation''" "sg_incident ev = Some i" "i \<noteq> []" "i \<notin> fl"
    and "parse_uuid i = Some u" "find_incident u (w_db w) = Some r"
    and "inc_status r = Approved" "inc_required_level r = Some n" "2 \<le> n"
  shows "status_of u (w_db (snd (on_stage_completed risk recm bus ev t (fl, w)))) = Some AwaitingApproval \<and>
    \<not> is_valid_transition Approved AwaitingApproval"
  using assms
  by (auto simp: on_stage_completed_def Let_def run_stage_def apply_hitl_gate_def
      get_incident_for_decision_def next_status_for_def on_db_def transition_incident_def status_of_def
      store_simps is_valid_transition_def)

lemma replayed_event_reopens_approved_witness:
  "status_of 7 (w_db (snd (on_stage_completed (risk_stage_of None shipped_config) (rec_handle sample_env (\<lambda>_. None))
      (\<lambda>_. None) (start_event\<lparr>sg_stage := Some ''recommendation''\<rparr>) 9
      ({}, \<lparr>w_db = sample_db\<lparr>db_incidents := [sample_incident\<lparr>inc_status := Approved, inc_required_level := Some 2\<rparr>]\<rparr>,
            w_bus = []\<rparr>)))) = Some AwaitingApproval"
proof -
  have "find_incident 7 (sample_db\<lparr>db_incidents := [sample_incident\<lparr>inc_status := Approved, inc_required_level := Some 2\<rparr>]\<rparr>)
      = Some (sample_incident\<lparr>inc_status := Approved, inc_required_level := Some 2\<rparr>)"
    by (simp add: find_incident_def sample_incident_def)
  then show ?thesis
    using uuid_str_nonempty by (intro replayed_event_reopens_approved [THEN conjunct1]) (auto simp: start_event_def)
qed

end
