(* ===== verification/Security.thy ===== *)
theory Security
  imports EventBus
begin

text \<open>
  Token validation, the role table and the request guards (\<open>app/core/security.py\<close>,
  \<open>app/api/auth.py\<close>).  PyJWT is outside the code: what the service uses of it are two
  parameters, the key a token resolves to and the claims a token decodes to under a key.
\<close>

section \<open>The role table\<close>

text \<open>The policy file as JSON: keys that are missing are \<open>None\<close>.\<close>

record policy_file =
  pf_roles :: "(string \<times> int option) list option"
  pf_incident_read_roles :: "string list option"
  pf_chat_roles :: "string list option"
  pf_resolve_roles :: "string list option"
  pf_simulator_roles :: "string list option"

record rbac_policy =
  rp_max_level :: "(string \<times> int) list"
  rp_incident_read_roles :: "string list"
  rp_chat_roles :: "string list"
  rp_resolve_roles :: "string list"
  rp_simulator_roles :: "string list"

definition load_rbac_policy :: "policy_file option \<Rightarrow> rbac_policy result" where
  "load_rbac_policy f =
     (case f of
        None \<Rightarrow> Inl (RuntimeError ''RBAC policy file not found'')
      | Some d \<Rightarrow> Inr
          \<lparr>rp_max_level = map (\<lambda>(name, lv). (name, case lv of None \<Rightarrow> 0 | Some n \<Rightarrow> n)) (or_list (pf_roles d)),
           rp_incident_read_roles = or_list (pf_incident_read_roles d),
           rp_chat_roles = or_list (pf_chat_roles d), rp_resolve_roles = or_list (pf_resolve_roles d),
           rp_simulator_roles = or_list (pf_simulator_roles d)\<rparr>)"

text \<open>The keys of a JSON object are distinct, so looking up the first is \<open>dict.get\<close>.\<close>

definition level_for :: "rbac_policy \<Rightarrow> string \<Rightarrow> int" where
  "level_for p role = (case map_of (rp_max_level p) role of None \<Rightarrow> 0 | Some n \<Rightarrow> n)"

definition can_read_incidents :: "rbac_policy \<Rightarrow> string \<Rightarrow> bool" where
  "can_read_incidents p role \<longleftrightarrow> role \<in> set (rp_incident_read_roles p)"

definition can_chat :: "rbac_policy \<Rightarrow> string \<Rightarrow> bool" where
  "can_chat p role \<longleftrightarrow> role \<in> set (rp_chat_roles p)"

definition can_resolve :: "rbac_policy \<Rightarrow> string \<Rightarrow> bool" where
  "can_resolve p role \<longleftrightarrow> role \<in> set (rp_resolve_roles p)"

definition can_control_simulator :: "rbac_policy \<Rightarrow> string \<Rightarrow> bool" where
  "can_control_simulator p role \<longleftrightarrow> role \<in> set (rp_simulator_roles p)"

text \<open>\<open>config/rbac-policy.json\<close> as it is in the repository.\<close>

definition shipped_policy_file :: policy_file where
  "shipped_policy_file =
     \<lparr>pf_roles = Some [(''Operator'', Some 0), (''MaintenanceEngineer'', Some 2), (''PlantManager'', Some 3)],
      pf_incident_read_roles = Some [''Operator'', ''MaintenanceEngineer'', ''PlantManager''],
      pf_chat_roles = Some [''Operator'', ''MaintenanceEngineer'', ''PlantManager''],
      pf_resolve_roles = Some [''MaintenanceEngineer'', ''PlantManager''],
      pf_simulator_roles = Some [''MaintenanceEngineer'', ''PlantManager'']\<rparr>"

section \<open>Principals\<close>

datatype roles_claim = RoleList "string list" | RoleName string

record claims =
  cl_site_id :: "string option"
  cl_roles :: "roles_claim option"
  cl_preferred_username :: "string option"
  cl_name :: "string option"
  cl_sub :: "string option"
  cl_iss :: "string option"

record principal =
  pl_token :: string
  pl_payload :: claims

definition site_id :: "principal \<Rightarrow> string" where
  "site_id p = or_str (cl_site_id (pl_payload p)) []"

definition role_of :: "principal \<Rightarrow> string" where
  "role_of p =
     (case cl_roles (pl_payload p) of
        None \<Rightarrow> []
      | Some (RoleList rs) \<Rightarrow> (case rs of [] \<Rightarrow> [] | r # _ \<Rightarrow> r)
      | Some (RoleName r) \<Rightarrow> r)"

definition username :: "principal \<Rightarrow> string" where
  "username p =
     or_str (cl_preferred_username (pl_payload p))
       (or_str (cl_name (pl_payload p)) (or_str (cl_sub (pl_payload p)) ''unknown''))"

section \<open>Validating a token\<close>

datatype jwt_error = ExpiredSignature | InvalidAudience | OtherJwtError string

record 'k jwt_env =
  jw_key :: "string \<Rightarrow> string + 'k"
  jw_decode :: "string \<Rightarrow> 'k \<Rightarrow> jwt_error + claims"
  jw_issuers :: "string list"

text \<open>\<open>TokenRejected\<close> with its message, or the principal.\<close>

definition bearer_token :: "string \<Rightarrow> string" where
  "bearer_token header =
     (let token = py_strip header
      in if py_startswith (py_lower token) ''bearer '' then py_strip (drop 7 token) else token)"

definition validate_token :: "'k jwt_env \<Rightarrow> string \<Rightarrow> string + principal" where
  "validate_token env header =
     (let token = bearer_token header in
      if token = [] then Inl ''no bearer token presented''
      else case jw_key env token of
        Inl e \<Rightarrow> Inl (''cannot resolve signing key: '' @ e)
      | Inr key \<Rightarrow>
          (case jw_decode env token key of
             Inl ExpiredSignature \<Rightarrow> Inl ''token has expired''
           | Inl InvalidAudience \<Rightarrow> Inl ''token audience mismatch''
           | Inl (OtherJwtError e) \<Rightarrow> Inl (''token validation failed: '' @ e)
           | Inr payload \<Rightarrow>
               if \<not> (\<exists>i\<in>set (jw_issuers env). cl_iss payload = Some i) then
                 Inl (''untrusted issuer '' @ (case cl_iss payload of None \<Rightarrow> ''None'' | Some i \<Rightarrow> py_repr i))
               else
                 (let p = \<lparr>pl_token = token, pl_payload = payload\<rparr> in
                  if site_id p = [] \<or> role_of p = [] then Inl ''token carries no site_id/role claims''
                  else Inr p)))"

definition require_principal :: "'k jwt_env \<Rightarrow> string \<Rightarrow> principal result" where
  "require_principal env header =
     (case validate_token env header of
        Inl msg \<Rightarrow> Inl (HttpError 401 msg)
      | Inr p \<Rightarrow> Inr p)"

record validation_answer =
  va_valid :: bool
  va_sub :: "string option"
  va_role :: string
  va_site_id :: string
  va_username :: string

definition validate_endpoint :: "'k jwt_env \<Rightarrow> string option \<Rightarrow> validation_answer result" where
  "validate_endpoint env token =
     (case validate_token env (or_str token []) of
        Inl msg \<Rightarrow> Inl (HttpError 401 msg)
      | Inr p \<Rightarrow> Inr \<lparr>va_valid = True, va_sub = cl_sub (pl_payload p), va_role = role_of p,
                       va_site_id = site_id p, va_username = username p\<rparr>)"

section \<open>Guards\<close>

definition ensure_site :: "principal \<Rightarrow> string option \<Rightarrow> unit result" where
  "ensure_site p incident_site =
     (case incident_site of
        None \<Rightarrow> Inr ()
      | Some s \<Rightarrow>
          if py_lower s \<noteq> py_lower (site_id p) then
            Inl (HttpError 403 ''this incident belongs to another site and is outside your access scope'')
          else Inr ())"

definition ensure_role :: "principal \<Rightarrow> string list \<Rightarrow> string \<Rightarrow> unit result" where
  "ensure_role p allowed capability =
     (if role_of p \<notin> set allowed then
        Inl (HttpError 403 (''role '' @ [CHR 0x27] @ role_of p @ [CHR 0x27] @ '' is not permitted to '' @ capability))
      else Inr ())"

definition ensure_approval_level :: "rbac_policy \<Rightarrow> principal \<Rightarrow> int \<Rightarrow> unit result" where
  "ensure_approval_level pol p required =
     (let allowed = level_for pol (role_of p) in
      if allowed < required then
        Inl (HttpError 403 (''role '' @ [CHR 0x27] @ role_of p @ [CHR 0x27] @ '' cannot decide a HITL level '' @
               int_str required @ '' recommendation (maximum approved level for this role: '' @
               int_str allowed @ '')''))
      else Inr ())"

section \<open>Facts\<close>

definition shipped_policy :: rbac_policy where
  "shipped_policy = projr (load_rbac_policy (Some shipped_policy_file))"

lemma shipped_level_for:
  "level_for shipped_policy role =
     (if role = ''MaintenanceEngineer'' then 2 else if role = ''PlantManager'' then 3 else 0)"
  by (simp add: shipped_policy_def load_rbac_policy_def shipped_policy_file_def level_for_def)

lemma ensure_site_ok: "ensure_site p (Some s) = Inr x \<longleftrightarrow> py_lower s = py_lower (site_id p)"
  by (simp add: ensure_site_def)

lemma ensure_level_ok: "ensure_approval_level pol p lv = Inr x \<longleftrightarrow> lv \<le> level_for pol (role_of p)"
  by (simp add: ensure_approval_level_def Let_def not_less)

lemma validate_token_spec:
  assumes "validate_token env header = Inr p"
  shows "pl_token p = bearer_token header \<and> pl_token p \<noteq> [] \<and>
    (\<exists>key. jw_key env (pl_token p) = Inr key \<and> jw_decode env (pl_token p) key = Inr (pl_payload p)) \<and>
    (\<exists>i\<in>set (jw_issuers env). cl_iss (pl_payload p) = Some i) \<and> site_id p \<noteq> [] \<and> role_of p \<noteq> []"
  using assms
  by (auto simp: validate_token_def Let_def split: if_splits sum.splits jwt_error.splits)

definition sample_claims :: claims where
  "sample_claims =
     \<lparr>cl_site_id = Some (uuid_str 2), cl_roles = Some (RoleList [''PlantManager'']),
      cl_preferred_username = Some ''pm'', cl_name = None, cl_sub = None, cl_iss = Some ''https://idp''\<rparr>"

definition sample_principal :: principal where
  "sample_principal = \<lparr>pl_token = ''tok'', pl_payload = sample_claims\<rparr>"

definition sample_jwt :: "unit jwt_env" where
  "sample_jwt = \<lparr>jw_key = (\<lambda>t. Inr ()), jw_decode = (\<lambda>t k. Inr sample_claims), jw_issuers = [''https://idp'']\<rparr>"

section \<open>Properties\<close>

text \<open>
  C11. A request passes authentication only with a token whose key resolves and whose signature,
  audience and lifetime the decoder accepts, from a trusted issuer, with a site and a role; every
  other header is answered with 401.
\<close>

theorem only_verified_tokens_pass:
  "case require_principal env header of
     Inl e \<Rightarrow> (\<exists>msg. e = HttpError 401 msg)
   | Inr p \<Rightarrow> pl_token p = bearer_token header \<and> pl_token p \<noteq> [] \<and>
       (\<exists>key. jw_key env (pl_token p) = Inr key \<and> jw_decode env (pl_token p) key = Inr (pl_payload p)) \<and>
       (\<exists>i\<in>set (jw_issuers env). cl_iss (pl_payload p) = Some i) \<and> site_id p \<noteq> [] \<and> role_of p \<noteq> []"
proof (cases "validate_token env header")
  case (Inr p)
  then have "require_principal env header = Inr p" by (simp add: require_principal_def)
  then show ?thesis using validate_token_spec [OF Inr] by auto
qed (simp add: require_principal_def)

end
