(* ===== verification/IncidentsApi.thy ===== *)
theory IncidentsApi
  imports Orchestrator Security
begin

text \<open>
  The incident, diagnosis and decision API of the agent service (\<open>app/api/incidents.py\<close>).  A
  handler takes the role table and the principal its dependency \<open>require_principal\<close> produced;
  \<open>with_principal\<close> composes the two.  An \<open>HTTPException\<close> is \<open>HttpError\<close>; a request
  body is the string (or no string) under the one key the handler reads.
\<close>

section \<open>Authentication of a request\<close>

definition with_principal ::
  "'k jwt_env \<Rightarrow> string \<Rightarrow> (principal \<Rightarrow> 's \<Rightarrow> 'a result \<times> 's) \<Rightarrow> 's \<Rightarrow> 'a result \<times> 's" where
  "with_principal env header handler s =
     (case require_principal env header of Inl e \<Rightarrow> (Inl e, s) | Inr p \<Rightarrow> handler p s)"

text \<open>A handler that only reads.\<close>

definition reading_only :: "(principal \<Rightarrow> 's \<Rightarrow> 'a result) \<Rightarrow> principal \<Rightarrow> 's \<Rightarrow> 'a result \<times> 's" where
  "reading_only f p s = (f p s, s)"

definition not_found :: exc where
  "not_found = HttpError 404 ''incident not found''"

definition wrong_site :: exc where
  "wrong_site = HttpError 403 ''requested site is outside your assigned site scope''"

section \<open>Reading\<close>

record incident_page =
  pg_items :: "incident_view list"
  pg_total :: nat
  pg_limit :: int
  pg_offset :: int

text \<open>
  The declared query parameters are checked before the handler runs: a status outside
  \<open>STATUS_FILTER\<close>, a limit outside 1 to 200 or a negative offset is a 422.
\<close>

definition list_query_ok :: "string option \<Rightarrow> int \<Rightarrow> int \<Rightarrow> bool" where
  "list_query_ok st lmt off \<longleftrightarrow>
     (case st of None \<Rightarrow> True | Some s \<Rightarrow> status_of_str s \<noteq> None) \<and> 1 \<le> lmt \<and> lmt \<le> 200 \<and> 0 \<le> off"

definition get_incidents ::
  "rbac_policy \<Rightarrow> string option \<Rightarrow> string option \<Rightarrow> int \<Rightarrow> int \<Rightarrow> principal \<Rightarrow> db \<Rightarrow> incident_page result" where
  "get_incidents pol st site lmt off p d =
     (if \<not> list_query_ok st lmt off then Inl (HttpError 422 ''Unprocessable Entity'')
      else bindR (ensure_role p (rp_incident_read_roles pol) ''list incidents'') (\<lambda>_.
        let scoped = site_id p in
        if truthy_str site \<and> py_lower (the site) \<noteq> py_lower scoped then Inl wrong_site
        else
          (let (items, total) = list_incidents (Option.bind st status_of_str) (Some scoped) (nat lmt) (nat off) d
           in Inr \<lparr>pg_items = items, pg_total = total, pg_limit = lmt, pg_offset = off\<rparr>)))"

text \<open>The look-up with its site check, the first statements of every handler of one incident.\<close>

definition get_incident_by_id :: "string \<Rightarrow> principal \<Rightarrow> db \<Rightarrow> incident_detail result" where
  "get_incident_by_id i p d =
     (case get_incident i d of
        None \<Rightarrow> Inl not_found
      | Some v \<Rightarrow> bindR (ensure_site p (Some (iv_site_id (id_incident v)))) (\<lambda>_. Inr v))"

record evidence_answer =
  ea_incident_id :: string
  ea_collected_at :: "time option"
  ea_evidence :: "evidence option"

definition get_incident_evidence :: "string \<Rightarrow> principal \<Rightarrow> db \<Rightarrow> evidence_answer result" where
  "get_incident_evidence i p d =
     bindR (get_incident_by_id i p d) (\<lambda>v. let inc = id_incident v in
       Inr \<lparr>ea_incident_id = iv_id inc, ea_collected_at = map_option ev_collected_at (iv_retrieved inc),
            ea_evidence = iv_retrieved inc\<rparr>)"

record root_cause_answer =
  ra_incident_id :: string
  ra_status :: status
  ra_hypothesis :: "string option"
  ra_confidence :: "int option"
  ra_cited :: "cited_point list"

definition get_incident_root_cause :: "string \<Rightarrow> principal \<Rightarrow> db \<Rightarrow> root_cause_answer result" where
  "get_incident_root_cause i p d =
     bindR (get_incident_by_id i p d) (\<lambda>v. let inc = id_incident v; rc = iv_root_cause inc in
       Inr \<lparr>ra_incident_id = iv_id inc, ra_status = iv_status inc, ra_hypothesis = map_option rc_hypothesis rc,
            ra_confidence = Option.bind rc rc_confidence, ra_cited = or_list (Option.bind rc rc_cited)\<rparr>)"

record risk_answer =
  ka_incident_id :: string
  ka_status :: status
  ka_severity :: "string option"
  ka_consequences :: "consequence list"
  ka_level :: "int option"
  ka_required_level :: "int option"
  ka_assessed_at :: "time option"

definition get_incident_risk :: "string \<Rightarrow> principal \<Rightarrow> db \<Rightarrow> risk_answer result" where
  "get_incident_risk i p d =
     bindR (get_incident_by_id i p d) (\<lambda>v. let inc = id_incident v; rk = iv_risk inc in
       Inr \<lparr>ka_incident_id = iv_id inc, ka_status = iv_status inc, ka_severity = map_option rk_severity rk,
            ka_consequences = or_list (Option.bind rk rk_consequences), ka_level = Option.bind rk rk_level,
            ka_required_level = iv_required_level inc, ka_assessed_at = Option.bind rk rk_assessed_at\<rparr>)"

record recommendation_answer =
  na_incident_id :: string
  na_status :: status
  na_actions :: "json_action list"
  na_rationale :: "string option"
  na_tool_log :: "tool_entry list"
  na_level :: "int option"
  na_recommended_at :: "time option"

definition get_incident_recommendation :: "string \<Rightarrow> principal \<Rightarrow> db \<Rightarrow> recommendation_answer result" where
  "get_incident_recommendation i p d =
     bindR (get_incident_by_id i p d) (\<lambda>v. let inc = id_incident v; rec = iv_recommendation inc in
       Inr \<lparr>na_incident_id = iv_id inc, na_status = iv_status inc,
            na_actions = or_list (map_option rv_actions rec), na_rationale = Option.bind rec rv_rationale,
            na_tool_log = or_list (Option.bind rec rv_tool_log), na_level = Option.bind (iv_risk inc) rk_level,
            na_recommended_at = Option.bind rec rv_recommended_at\<rparr>)"

record history_answer =
  ha_incident_id :: string
  ha_current :: status
  ha_transitions :: "history_view list"

definition get_state_history :: "string \<Rightarrow> principal \<Rightarrow> db \<Rightarrow> history_answer result" where
  "get_state_history i p d =
     bindR (get_incident_by_id i p d) (\<lambda>v. bindR (get_incident_state_history i d) (\<lambda>rows.
       Inr \<lparr>ha_incident_id = iv_id (id_incident v), ha_current = iv_status (id_incident v),
            ha_transitions = rows\<rparr>))"

definition get_incident_action :: "string \<Rightarrow> principal \<Rightarrow> db \<Rightarrow> action_record result" where
  "get_incident_action i p d =
     (case get_incident_action_record i d of
        None \<Rightarrow> Inl not_found
      | Some r \<Rightarrow> bindR (ensure_site p (Some (ar_site_id r))) (\<lambda>_. Inr r))"

record sensors_answer =
  sa_site_id :: string
  sa_sensors :: "latest_view list"

definition get_latest_sensor_readings ::
  "rbac_policy \<Rightarrow> string \<Rightarrow> principal \<Rightarrow> db \<Rightarrow> sensors_answer result" where
  "get_latest_sensor_readings pol site p d =
     bindR (ensure_role p (rp_incident_read_roles pol) ''view sensor readings'') (\<lambda>_.
       if py_lower site \<noteq> py_lower (site_id p) then Inl wrong_site
       else Inr \<lparr>sa_site_id = site, sa_sensors = latest_readings_for_site site d\<rparr>)"

section \<open>The human decision\<close>

record decision_answer =
  da_incident_id :: string
  da_decision :: status
  da_decided_by :: string
  da_decided_at :: time
  da_status :: status
  da_level :: int
  da_justification :: "string option"

text \<open>
  Publishing the approval: only for an approval, only with a bus, and an exception of the bus is
  logged and swallowed.
\<close>

definition approval_event :: "string \<Rightarrow> string \<Rightarrow> time \<Rightarrow> int \<Rightarrow> string option \<Rightarrow> bus_event" where
  "approval_event i decided_by decided_at level corr = IncidentApproved
     \<lparr>ae_incident = Some i, ae_decided_by = Some decided_by, ae_decided_at = Some decided_at,
      ae_level = Some level, ae_correlation = corr\<rparr>"

definition announce_decision ::
  "bus_faults option \<Rightarrow> string option \<Rightarrow> string \<Rightarrow> status \<Rightarrow> string \<Rightarrow> time \<Rightarrow> int \<Rightarrow> world \<Rightarrow> world" where
  "announce_decision bus corr i decision decided_by decided_at level w =
     (if decision = Approved then
        (case bus of None \<Rightarrow> w
         | Some faults \<Rightarrow> snd (publish faults (approval_event i decided_by decided_at level corr) w))
      else w)"

definition decision_level :: "decision_view \<Rightarrow> int" where
  "decision_level v = or_int (dv_hitl_level v) (or_int (dv_required_level v) 2)"

definition record_decision ::
  "rbac_policy \<Rightarrow> bus_faults option \<Rightarrow> string option \<Rightarrow> string \<Rightarrow> string option \<Rightarrow> status \<Rightarrow> time \<Rightarrow>
     principal \<Rightarrow> world \<Rightarrow> decision_answer result \<times> world" where
  "record_decision pol bus corr i justification decision t p w =
     (let decided_by = username p in
      case get_incident_for_decision i (w_db w) of
        None \<Rightarrow> (Inl not_found, w)
      | Some v \<Rightarrow>
          (case ensure_site p (Some (dv_site_id v)) of
             Inl e \<Rightarrow> (Inl e, w)
           | Inr _ \<Rightarrow>
               if dv_status v \<noteq> AwaitingApproval then
                 (Inl (HttpError 409 (''incident status is '' @ py_repr (status_str (dv_status v)) @
                    ''; only '' @ py_repr ''awaiting_approval'' @ '' can be '' @ status_str decision)), w)
               else
                 (let level = decision_level v in
                  case ensure_approval_level pol p level of
                    Inl e \<Rightarrow> (Inl e, w)
                  | Inr _ \<Rightarrow>
                      if decision = Rejected \<and> level \<ge> 3 \<and> py_strip (or_str justification []) = [] then
                        (Inl (HttpError 422 ''justification is required to reject at HITL level 3''), w)
                      else
                        (case on_db (record_approval i decision decided_by (Some level) justification t) w of
                           (Inl e, w1) \<Rightarrow> (Inl e, w1)
                         | (Inr None, w1) \<Rightarrow> (Inl not_found, w1)
                         | (Inr (Some decided_at), w1) \<Rightarrow>
                             (let w2 = announce_decision bus corr i decision decided_by decided_at level w1;
                                  after = get_incident_for_decision i (w_db w2)
                              in (Inr \<lparr>da_incident_id = i, da_decision = decision, da_decided_by = decided_by,
                                       da_decided_at = decided_at,
                                       da_status = (case after of None \<Rightarrow> decision | Some a \<Rightarrow> dv_status a),
                                       da_level = level, da_justification = justification\<rparr>, w2))))))"

definition approve_incident ::
  "rbac_policy \<Rightarrow> bus_faults option \<Rightarrow> string option \<Rightarrow> string \<Rightarrow> string option \<Rightarrow> time \<Rightarrow>
     principal \<Rightarrow> world \<Rightarrow> decision_answer result \<times> world" where
  "approve_incident pol bus corr i justification t p w =
     record_decision pol bus corr i justification Approved t p w"

definition reject_incident ::
  "rbac_policy \<Rightarrow> bus_faults option \<Rightarrow> string option \<Rightarrow> string \<Rightarrow> string option \<Rightarrow> time \<Rightarrow>
     principal \<Rightarrow> world \<Rightarrow> decision_answer result \<times> world" where
  "reject_incident pol bus corr i justification t p w =
     record_decision pol bus corr i justification Rejected t p w"

section \<open>Resolving by hand\<close>

record resolve_answer =
  sv_incident_id :: string
  sv_status :: status
  sv_resolved_at :: time

definition resolve_incident ::
  "rbac_policy \<Rightarrow> string \<Rightarrow> string option \<Rightarrow> time \<Rightarrow> principal \<Rightarrow> world \<Rightarrow> resolve_answer result \<times> world" where
  "resolve_incident pol i remark t p w =
     (case bindR (ensure_role p (rp_resolve_roles pol) ''resolve incidents'')
             (\<lambda>_. get_incident_by_id i p (w_db w)) of
        Inl e \<Rightarrow> (Inl e, w)
      | Inr v \<Rightarrow>
          (let st = iv_status (id_incident v) in
           if st = Resolved then (Inl (HttpError 409 ''incident is already resolved''), w)
           else if \<not> is_valid_transition st Resolved then
             (Inl (HttpError 409 (''cannot resolve an incident in status '' @ py_repr (status_str st))), w)
           else
             (case on_db (resolve_incident_manually i (username p) remark t) w of
                (None, w1) \<Rightarrow> (Inl not_found, w1)
              | (Some (s, tm), w1) \<Rightarrow>
                  (Inr \<lparr>sv_incident_id = i, sv_status = s, sv_resolved_at = tm\<rparr>, w1))))"

section \<open>Facts\<close>

lemma get_incident_some:
  "get_incident i d = Some v \<Longrightarrow>
     \<exists>u r. parse_uuid i = Some u \<and> find_incident u d = Some r \<and> id_incident v = incident_row_to_dict d r"
  by (auto simp: get_incident_def Let_def split: option.splits)

lemma get_incident_by_id_ok:
  "get_incident_by_id i p d = Inr v \<longleftrightarrow>
     get_incident i d = Some v \<and> py_lower (iv_site_id (id_incident v)) = py_lower (site_id p)"
  by (auto simp: get_incident_by_id_def bindR_Inr_iff ensure_site_ok split: option.splits)

lemma announce_decision_db [simp]: "w_db (announce_decision bus corr i dec who tm lv w) = w_db w"
  by (simp add: announce_decision_def split: option.splits)

lemma announce_decision_bus:
  "w_bus (announce_decision bus corr i dec who tm lv w) =
     w_bus w @ (if dec = Approved \<and> (\<exists>f. bus = Some f \<and> f (approval_event i who tm lv corr) = None)
                then [approval_event i who tm lv corr] else [])"
  by (auto simp: announce_decision_def publish_def split: option.splits)

text \<open>The guards of a decision on a stored row, as one predicate.\<close>

definition may_decide ::
  "rbac_policy \<Rightarrow> string option \<Rightarrow> status \<Rightarrow> principal \<Rightarrow> incident \<Rightarrow> bool" where
  "may_decide pol justification decision p r \<longleftrightarrow>
     inc_status r = AwaitingApproval \<and> py_lower (uuid_str (inc_site r)) = py_lower (site_id p) \<and>
     decision_level (decision_view_of r) \<le> level_for pol (role_of p) \<and>
     \<not> (decision = Rejected \<and> decision_level (decision_view_of r) \<ge> 3 \<and> py_strip (or_str justification []) = [])"

lemma decision_view_simps [simp]:
  "dv_status (decision_view_of r) = inc_status r" "dv_site_id (decision_view_of r) = uuid_str (inc_site r)"
  by (simp_all add: decision_view_of_def)

lemma insert_history_next: "next_id (insert_history u a b c r e t d) = Suc (next_id d)"
  by (simp add: insert_history_def)

lemma insert_approval_rows:
  "db_approvals (insert_approval u decision who lv just t d) = db_approvals d @
     [\<lparr>ap_id = next_id d, ap_name = status_str decision @ '' by '' @ who, ap_incident = u,
       ap_decision = decision, ap_decided_by = who, ap_decided_at = t, ap_level = lv, ap_justification = just\<rparr>]"
  by (simp add: insert_approval_def)

lemma record_approval_found:
  assumes "parse_uuid i = Some u" "find_incident u d = Some r"
  shows "\<exists>d'. record_approval i decision who lv just t d = (Inr (Some t), d') \<and>
     find_incident u d' = Some (r\<lparr>inc_status := decision, inc_updated_at := t\<rparr>) \<and>
     (\<forall>v. v \<noteq> u \<longrightarrow> find_incident v d' = find_incident v d) \<and>
     (db_approvals d' = db_approvals d @
        [\<lparr>ap_id = Suc (next_id d), ap_name = status_str decision @ '' by '' @ who, ap_incident = u, ap_decision = decision,
          ap_decided_by = who, ap_decided_at = t, ap_level = lv, ap_justification = just\<rparr>]) \<and>
     trail u d' = trail u d @ [(decision, who)] \<and> db_actions d' = db_actions d"
  using assms by (simp add: record_approval_def Let_def store_simps insert_approval_rows insert_history_next)

lemma record_decision_cases:
  assumes "record_decision pol bus corr i just dec t p w = (x, w')"
  shows "(\<exists>c msg. x = Inl (HttpError c msg) \<and> c \<in> {403, 404, 409, 422} \<and> w' = w) \<and>
       \<not> (\<exists>u r. parse_uuid i = Some u \<and> find_incident u (w_db w) = Some r \<and> may_decide pol just dec p r) \<or>
     (\<exists>u r d'. parse_uuid i = Some u \<and> find_incident u (w_db w) = Some r \<and> may_decide pol just dec p r \<and>
        record_approval i dec (username p) (Some (decision_level (decision_view_of r))) just t (w_db w) =
          (Inr (Some t), d') \<and>
        w' = announce_decision bus corr i dec (username p) t (decision_level (decision_view_of r)) (w\<lparr>w_db := d'\<rparr>) \<and>
        x = Inr \<lparr>da_incident_id = i, da_decision = dec, da_decided_by = username p, da_decided_at = t,
                 da_status = dec, da_level = decision_level (decision_view_of r), da_justification = just\<rparr>)"
proof (cases "get_incident_for_decision i (w_db w)")
  case None
  then have "\<not> (\<exists>u r. parse_uuid i = Some u \<and> find_incident u (w_db w) = Some r)"
    by (auto simp: get_incident_for_decision_def)
  moreover have "x = Inl not_found \<and> w' = w"
    using assms None by (simp add: record_decision_def)
  ultimately show ?thesis by (auto simp: not_found_def)
next
  case (Some v)
  then obtain u r where u: "parse_uuid i = Some u" and r: "find_incident u (w_db w) = Some r"
    and v: "v = decision_view_of r"
    by (auto simp: get_incident_for_decision_def split: option.splits)
  obtain d' where d': "record_approval i dec (username p) (Some (decision_level v)) just t (w_db w) = (Inr (Some t), d')"
    "find_incident u d' = Some (r\<lparr>inc_status := dec, inc_updated_at := t\<rparr>)"
    using record_approval_found [OF u r] by blast
  have after: "get_incident_for_decision i d' = Some (decision_view_of (r\<lparr>inc_status := dec, inc_updated_at := t\<rparr>))"
    using u d'(2) by (simp add: get_incident_for_decision_def)
  show ?thesis
  proof (cases "may_decide pol just dec p r")
    case True
    then have "(x, w') = (Inr \<lparr>da_incident_id = i, da_decision = dec, da_decided_by = username p, da_decided_at = t,
                 da_status = dec, da_level = decision_level v, da_justification = just\<rparr>,
        announce_decision bus corr i dec (username p) t (decision_level v) (w\<lparr>w_db := d'\<rparr>))"
      using assms Some d'(1) after v
      by (auto simp: record_decision_def may_decide_def Let_def ensure_site_def ensure_approval_level_def
          on_db_pair split: if_splits)
    with True u r d'(1) v show ?thesis by simp
  next
    case False
    then have "\<exists>c msg. x = Inl (HttpError c msg) \<and> c \<in> {403, 404, 409, 422} \<and> w' = w"
      using assms Some v
      by (auto simp: record_decision_def may_decide_def Let_def ensure_site_def ensure_approval_level_def
          split: if_splits)
    with False u r show ?thesis by auto
  qed
qed

section \<open>A sample request\<close>

definition awaiting_row :: incident where
  "awaiting_row = sample_incident\<lparr>inc_status := AwaitingApproval, inc_hitl_level := Some 3\<rparr>"

definition awaiting_world :: world where
  "awaiting_world = \<lparr>w_db = sample_db\<lparr>db_incidents := [awaiting_row]\<rparr>, w_bus = []\<rparr>"

lemma awaiting_find [simp]: "find_incident u (w_db awaiting_world) = (if u = 7 then Some awaiting_row else None)"
  by (auto simp: find_incident_def awaiting_world_def awaiting_row_def sample_incident_def)

lemma awaiting_row_simps [simp]:
  "inc_status awaiting_row = AwaitingApproval" "inc_site awaiting_row = 2"
  "decision_level (decision_view_of awaiting_row) = 3"
  by (simp_all add: awaiting_row_def sample_incident_def decision_level_def decision_view_of_def)

lemma awaiting_more [simp]:
  "db_approvals (w_db awaiting_world) = []" "next_id (w_db awaiting_world) = 100"
  "inc_hitl_level awaiting_row = Some 3"
  by (simp_all add: awaiting_world_def awaiting_row_def sample_db_def)

lemma sample_principal_simps [simp]:
  "site_id sample_principal = uuid_str 2" "role_of sample_principal = ''PlantManager''"
  "username sample_principal = ''pm''"
  by (simp_all add: sample_principal_def sample_claims_def site_id_def role_of_def username_def or_str_def uuid_str_def)

lemma sample_login: "require_principal sample_jwt ''Bearer tok'' = Inr sample_principal"
proof -
  have "bearer_token ''Bearer tok'' = ''tok''" by code_simp
  with sample_principal_simps show ?thesis
    by (simp add: require_principal_def validate_token_def sample_jwt_def sample_principal_def sample_claims_def
        uuid_str_def Let_def)
qed

lemma sample_may_decide: "may_decide shipped_policy (Some ''ok'') dec sample_principal awaiting_row"
proof -
  have "py_strip ''ok'' = ''ok''" by code_simp
  then show ?thesis by (simp add: may_decide_def shipped_level_for)
qed

lemma decision_succeeds:
  assumes "parse_uuid i = Some u" "find_incident u (w_db w) = Some r" "may_decide pol just dec p r"
  shows "(\<exists>a. fst (record_decision pol bus corr i just dec t p w) = Inr a \<and> da_status a = dec) \<and>
    status_of u (w_db (snd (record_decision pol bus corr i just dec t p w))) = Some dec"
proof -
  let ?r = "record_decision pol bus corr i just dec t p w" and ?lv = "decision_level (decision_view_of r)"
  from record_decision_cases [OF prod.collapse [symmetric], of pol bus corr i just dec t p w] assms
  obtain d' where d': "record_approval i dec (username p) (Some ?lv) just t (w_db w) = (Inr (Some t), d')"
    "snd ?r = announce_decision bus corr i dec (username p) t ?lv (w\<lparr>w_db := d'\<rparr>)"
    "\<exists>a. fst ?r = Inr a \<and> da_status a = dec"
    by fastforce
  with record_approval_found [OF assms(1,2), of dec "username p" "Some ?lv" just t]
  show ?thesis by (auto simp: status_of_def)
qed

lemma decided_is_refused:
  assumes "status_of u (w_db w) = Some s" "parse_uuid i = Some u" "s \<noteq> AwaitingApproval"
  shows "\<exists>c msg. record_decision pol bus corr i just dec t p w = (Inl (HttpError c msg), w) \<and> c \<in> {403, 409}"
  using assms
  by (auto simp: record_decision_def get_incident_for_decision_def status_of_def ensure_site_def Let_def)

lemma low_role_is_refused:
  assumes "parse_uuid i = Some u" "find_incident u (w_db w) = Some r"
    "level_for pol (role_of p) < decision_level (decision_view_of r)"
  shows "\<exists>msg c. record_decision pol bus corr i just dec t p w = (Inl (HttpError c msg), w) \<and> c \<in> {403, 409}"
  using assms
  by (auto simp: record_decision_def get_incident_for_decision_def ensure_site_def ensure_approval_level_def Let_def)

lemma decision_level_positive:
  assumes "\<forall>n. inc_hitl_level r = Some n \<longrightarrow> 0 \<le> n" "\<forall>n. inc_required_level r = Some n \<longrightarrow> 0 \<le> n"
  shows "1 \<le> decision_level (decision_view_of r)"
  using assms
  by (auto simp: decision_level_def decision_view_of_def or_int_def order.order_iff_strict split: option.splits)

lemma get_incidents_ok:
  assumes "get_incidents pol st site lmt off p d = Inr pg"
  shows "list_query_ok st lmt off \<and> role_of p \<in> set (rp_incident_read_roles pol) \<and>
    (pg_items pg, pg_total pg) = list_incidents (Option.bind st status_of_str) (Some (site_id p)) (nat lmt) (nat off) d"
  using assms
  by (auto simp: get_incidents_def Let_def bindR_Inr_iff ensure_role_def split: if_splits prod.splits)

lemma list_page_items:
  assumes "v \<in> set (fst (list_page st (Some u) lmt off d))"
  shows "\<exists>r\<in>set (db_incidents d). v = incident_row_to_dict d r \<and> inc_site r = u"
  using assms
  by (auto simp: list_page_def Let_def site_filter_def dest!: in_set_takeD in_set_dropD)

lemma site_scoped_page:
  assumes "site_id p \<noteq> []" "get_incidents pol st site lmt off p d = Inr pg" "v \<in> set (pg_items pg)"
  shows "\<exists>r\<in>set (db_incidents d). v = incident_row_to_dict d r \<and> parse_uuid (site_id p) = Some (inc_site r)"
proof (cases "parse_uuid (site_id p)")
  case None
  with get_incidents_ok [OF assms(2)] assms(1,3) show ?thesis by (simp add: list_incidents_def)
next
  case (Some u)
  with get_incidents_ok [OF assms(2)] assms(1)
  have "pg_items pg = fst (list_page (Option.bind st status_of_str) (Some u) (nat lmt) (nat off) d)"
    by (metis fst_conv list_incidents_def option.sel option.simps(5) or_simps(10))
  with list_page_items assms(3) Some show ?thesis by metis
qed

lemma stored_detail:
  assumes "parse_uuid i = Some u" "find_incident u d = Some r"
  shows "\<exists>v. get_incident i d = Some v \<and> id_incident v = incident_row_to_dict d r"
  using assms by (simp add: get_incident_def Let_def)

lemma view_simps [simp]:
  "iv_site_id (incident_row_to_dict d r) = uuid_str (inc_site r)"
  "iv_status (incident_row_to_dict d r) = inc_status r"
  by (simp_all add: incident_row_to_dict_def)

lemma foreign_incident:
  assumes "parse_uuid i = Some u" "find_incident u d = Some r" "py_lower (uuid_str (inc_site r)) \<noteq> py_lower (site_id p)"
  shows "\<exists>msg. get_incident_by_id i p d = Inl (HttpError 403 msg)"
  using stored_detail [OF assms(1,2)] assms(3) by (auto simp: get_incident_by_id_def ensure_site_def)

text \<open>The guards of a manual resolution on the row the identifier names.\<close>

definition may_resolve :: "rbac_policy \<Rightarrow> principal \<Rightarrow> incident \<Rightarrow> bool" where
  "may_resolve pol p r \<longleftrightarrow>
     role_of p \<in> set (rp_resolve_roles pol) \<and> py_lower (uuid_str (inc_site r)) = py_lower (site_id p) \<and>
     inc_status r \<noteq> Resolved"

definition named_row :: "string \<Rightarrow> db \<Rightarrow> incident option" where
  "named_row i d = Option.bind (parse_uuid i) (\<lambda>u. find_incident u d)"

lemma named_row_some: "named_row i d = Some r \<longleftrightarrow> parse_uuid i = Some (inc_id r) \<and> find_incident (inc_id r) d = Some r"
  by (auto simp: named_row_def bind_eq_Some_conv dest: find_incident_id)

lemma resolve_refused:
  assumes "\<not> (\<exists>r. named_row i (w_db w) = Some r \<and> may_resolve pol p r)"
  shows "\<exists>c msg. resolve_incident pol i remark t p w = (Inl (HttpError c msg), w) \<and> c \<in> {403, 404, 409}"
proof (cases "named_row i (w_db w)")
  case None
  then have "get_incident i (w_db w) = None"
    by (auto simp: named_row_def get_incident_def split: option.splits)
  then show ?thesis
    by (simp add: resolve_incident_def get_incident_by_id_def not_found_def ensure_role_def bindR_def)
next
  case (Some r)
  obtain v where v: "get_incident i (w_db w) = Some v" "id_incident v = incident_row_to_dict (w_db w) r"
    using Some stored_detail unfolding named_row_some by blast
  with Some assms show ?thesis
    by (auto simp: resolve_incident_def get_incident_by_id_def ensure_role_def ensure_site_def may_resolve_def Let_def)
qed

lemma resolve_accepted:
  assumes "named_row i (w_db w) = Some r" "may_resolve pol p r"
  shows "resolve_incident pol i remark t p w =
    (Inr \<lparr>sv_incident_id = i, sv_status = Resolved, sv_resolved_at = t\<rparr>,
     w\<lparr>w_db := snd (resolve_incident_manually i (username p) remark t (w_db w))\<rparr>)"
proof -
  obtain v where v: "get_incident i (w_db w) = Some v" "id_incident v = incident_row_to_dict (w_db w) r"
    using assms(1) stored_detail unfolding named_row_some by blast
  have "fst (resolve_incident_manually i (username p) remark t (w_db w)) = Some (Resolved, t)"
    using assms(1) unfolding named_row_some by (simp add: resolve_incident_manually_def Let_def)
  then have "resolve_incident_manually i (username p) remark t (w_db w) =
      (Some (Resolved, t), snd (resolve_incident_manually i (username p) remark t (w_db w)))"
    by (metis prod.collapse)
  from on_db_pair [of "resolve_incident_manually i (username p) remark t", OF this] v assms(2) show ?thesis
    by (simp add: resolve_incident_def get_incident_by_id_def ensure_role_def ensure_site_def may_resolve_def
        resolvable Let_def)
qed

lemma resolve_effects:
  assumes "parse_uuid i = Some u" "find_incident u d = Some r" "d' = snd (resolve_incident_manually i who remark t d)"
  shows "find_incident u d' = Some (r\<lparr>inc_status := Resolved, inc_resolved_at := Some t, inc_updated_at := t\<rparr>)"
    "\<forall>v. v \<noteq> u \<longrightarrow> find_incident v d' = find_incident v d"
    "trail u d' = trail u d @ [(Resolved, who)]" "db_approvals d' = db_approvals d" "db_actions d' = db_actions d"
  using assms by (simp_all add: resolve_incident_manually_def Let_def store_simps)

section \<open>Properties\<close>

text \<open>
  C3. A decision changes something only for an incident that awaits approval, at the caller's own
  site, at a level the caller's role may decide, and with a justification when it is a rejection
  at level 3.  It then sets the status, adds one history entry and one approval row, all in the
  name of the token's user, touches no other incident, executes nothing, and announces the
  incident on the bus exactly when it is an approval and the bus takes the message.
\<close>

theorem decision_is_guarded_and_recorded:
  assumes "record_decision pol bus corr i just dec t p w = (x, w')" "w' \<noteq> w"
  shows "\<exists>u r lv. parse_uuid i = Some u \<and> find_incident u (w_db w) = Some r \<and>
    inc_status r = AwaitingApproval \<and> py_lower (uuid_str (inc_site r)) = py_lower (site_id p) \<and>
    lv = or_int (inc_hitl_level r) (or_int (inc_required_level r) 2) \<and> lv \<le> level_for pol (role_of p) \<and>
    (dec = Rejected \<and> 3 \<le> lv \<longrightarrow> py_strip (or_str just []) \<noteq> []) \<and>
    status_of u (w_db w') = Some dec \<and> trail u (w_db w') = trail u (w_db w) @ [(dec, username p)] \<and>
    (\<forall>v. v \<noteq> u \<longrightarrow> find_incident v (w_db w') = find_incident v (w_db w)) \<and>
    (db_approvals (w_db w') = db_approvals (w_db w) @
       [\<lparr>ap_id = Suc (next_id (w_db w)), ap_name = status_str dec @ '' by '' @ username p, ap_incident = u, ap_decision = dec,
         ap_decided_by = username p, ap_decided_at = t, ap_level = Some lv, ap_justification = just\<rparr>]) \<and>
    db_actions (w_db w') = db_actions (w_db w) \<and>
    w_bus w' = w_bus w @ (if dec = Approved \<and> (\<exists>f. bus = Some f \<and> f (approval_event i (username p) t lv corr) = None)
                          then [approval_event i (username p) t lv corr] else [])"
proof -
  from record_decision_cases [OF assms(1)] assms(2) obtain u r d' where
    ur: "parse_uuid i = Some u" "find_incident u (w_db w) = Some r" "may_decide pol just dec p r" and
    d': "record_approval i dec (username p) (Some (decision_level (decision_view_of r))) just t (w_db w) = (Inr (Some t), d')" and
    w': "w' = announce_decision bus corr i dec (username p) t (decision_level (decision_view_of r)) (w\<lparr>w_db := d'\<rparr>)"
    by auto
  have lv: "decision_level (decision_view_of r) = or_int (inc_hitl_level r) (or_int (inc_required_level r) 2)"
    by (simp add: decision_level_def decision_view_of_def)
  have db: "w_db w' = d'" by (simp add: w')
  note wrote = record_approval_found [OF ur(1,2), of dec "username p" "Some (decision_level (decision_view_of r))" just t]
  show ?thesis
  proof (intro exI conjI)
    show "w_bus w' = w_bus w @ (if dec = Approved \<and> (\<exists>f. bus = Some f \<and>
        f (approval_event i (username p) t (decision_level (decision_view_of r)) corr) = None)
      then [approval_event i (username p) t (decision_level (decision_view_of r)) corr] else [])"
      by (simp add: w' announce_decision_bus)
  qed (use ur wrote d' in \<open>auto simp: may_decide_def lv db status_of_def\<close>)
qed

theorem decision_is_guarded_and_recorded_witness:
  "db_approvals (w_db (snd (approve_incident shipped_policy None None (uuid_str 7) (Some ''ok'') 5
       sample_principal awaiting_world))) =
     [\<lparr>ap_id = 101, ap_name = ''approved by pm'', ap_incident = 7, ap_decision = Approved,
       ap_decided_by = ''pm'', ap_decided_at = 5, ap_level = Some 3, ap_justification = Some ''ok''\<rparr>]"
proof -
  let ?r = "record_decision shipped_policy None None (uuid_str 7) (Some ''ok'') Approved 5 sample_principal awaiting_world"
  have ne: "snd ?r \<noteq> awaiting_world"
  proof
    assume eq: "snd ?r = awaiting_world"
    with decision_succeeds [of "uuid_str 7" 7 awaiting_world awaiting_row shipped_policy "Some ''ok''" Approved
        sample_principal None None 5] sample_may_decide
    show False by (simp add: status_of_def)
  qed
  show ?thesis
    using decision_is_guarded_and_recorded [of shipped_policy None None "uuid_str 7" "Some ''ok''" Approved 5
        sample_principal awaiting_world "fst ?r" "snd ?r"] ne
    by (auto simp: approve_incident_def)
qed



text \<open>
  C6. Under the role table in the repository an operator, or any role that is not in it, decides
  nothing, and a maintenance engineer nothing of level 3: whatever levels (not negative) the risk
  stage stored, and also when it stored none.
\<close>

theorem shipped_roles_cannot_decide_above_their_level:
  assumes "parse_uuid i = Some u" "find_incident u (w_db w) = Some r"
    "\<forall>n. inc_hitl_level r = Some n \<longrightarrow> 0 \<le> n" "\<forall>n. inc_required_level r = Some n \<longrightarrow> 0 \<le> n"
    "role_of p \<notin> {''MaintenanceEngineer'', ''PlantManager''} \<or>
     role_of p = ''MaintenanceEngineer'' \<and> inc_hitl_level r = Some 3"
  shows "\<exists>c msg. record_decision shipped_policy bus corr i just dec t p w = (Inl (HttpError c msg), w) \<and> c \<in> {403, 409}"
proof -
  have "level_for shipped_policy (role_of p) < decision_level (decision_view_of r)"
    using assms(5) decision_level_positive [OF assms(3,4)]
    by (auto simp: shipped_level_for decision_level_def decision_view_of_def)
  from low_role_is_refused [OF assms(1,2) this] show ?thesis by blast
qed

theorem shipped_roles_cannot_decide_above_their_level_witness:
  "\<exists>p. role_of p = ''Operator'' \<and>
     (\<exists>c msg. record_decision shipped_policy None None (uuid_str 7) None Approved 5 p awaiting_world =
        (Inl (HttpError c msg), awaiting_world))"
proof -
  let ?p = "sample_principal\<lparr>pl_payload := sample_claims\<lparr>cl_roles := Some (RoleName ''Operator'')\<rparr>\<rparr>"
  have role: "role_of ?p = ''Operator''" by (simp add: role_of_def)
  have "inc_required_level awaiting_row = None" by (simp add: awaiting_row_def sample_incident_def)
  with shipped_roles_cannot_decide_above_their_level [of "uuid_str 7" 7 awaiting_world awaiting_row ?p None None
      None Approved 5] role
  show ?thesis by auto
qed

text \<open>
  A rejection at level 2 needs no justification: with the body empty it succeeds.
\<close>

theorem rejection_without_justification:
  assumes "parse_uuid i = Some u" "find_incident u (w_db w) = Some r" "inc_status r = AwaitingApproval"
    "py_lower (uuid_str (inc_site r)) = py_lower (site_id p)" "inc_hitl_level r = Some 2"
    "2 \<le> level_for pol (role_of p)"
  shows "\<exists>a. fst (reject_incident pol bus corr i None t p w) = Inr a \<and> da_status a = Rejected \<and>
     da_justification a = None"
proof -
  have m: "may_decide pol None Rejected p r"
    using assms by (simp add: may_decide_def decision_level_def decision_view_of_def)
  let ?r = "record_decision pol bus corr i None Rejected t p w"
  from record_decision_cases [OF prod.collapse [symmetric], of pol bus corr i None Rejected t p w] m assms(1,2)
  show ?thesis by (auto simp: reject_incident_def)
qed

theorem rejection_without_justification_witness:
  "\<exists>w a. fst (reject_incident shipped_policy None None (uuid_str 7) None 5 sample_principal w) = Inr a \<and>
     da_status a = Rejected"
proof -
  let ?r = "awaiting_row\<lparr>inc_hitl_level := Some 2\<rparr>"
  let ?w = "awaiting_world\<lparr>w_db := sample_db\<lparr>db_incidents := [?r]\<rparr>\<rparr>"
  have "find_incident 7 (w_db ?w) = Some ?r"
    by (simp add: find_incident_def awaiting_row_def sample_incident_def)
  with rejection_without_justification [of "uuid_str 7" 7 ?w ?r sample_principal shipped_policy None None 5]
  show ?thesis by (auto simp: shipped_level_for)
qed



text \<open>
  A manual resolution takes effect exactly when the caller's role may resolve, the incident is at
  the caller's site and it is not resolved yet; from every other status, also while its approved
  operations are being executed.  It then sets the status, records it under the token's user and
  touches no other incident, no approval, no execution record and nothing on the bus; otherwise
  the answer is 403, 404 or 409 and nothing changes.
\<close>

theorem manual_resolution:
  "case resolve_incident pol i remark t p w of (x, w') \<Rightarrow>
     (case named_row i (w_db w) of
        Some r \<Rightarrow>
          if role_of p \<in> set (rp_resolve_roles pol) \<and> py_lower (uuid_str (inc_site r)) = py_lower (site_id p) \<and>
             inc_status r \<noteq> Resolved
          then x = Inr \<lparr>sv_incident_id = i, sv_status = Resolved, sv_resolved_at = t\<rparr> \<and>
            find_incident (inc_id r) (w_db w') =
              Some (r\<lparr>inc_status := Resolved, inc_resolved_at := Some t, inc_updated_at := t\<rparr>) \<and>
            trail (inc_id r) (w_db w') = trail (inc_id r) (w_db w) @ [(Resolved, username p)] \<and>
            (\<forall>v. v \<noteq> inc_id r \<longrightarrow> find_incident v (w_db w') = find_incident v (w_db w)) \<and>
            db_approvals (w_db w') = db_approvals (w_db w) \<and> db_actions (w_db w') = db_actions (w_db w) \<and>
            w_bus w' = w_bus w
          else (\<exists>c msg. x = Inl (HttpError c msg) \<and> c \<in> {403, 404, 409}) \<and> w' = w
      | None \<Rightarrow> (\<exists>c msg. x = Inl (HttpError c msg) \<and> c \<in> {403, 404}) \<and> w' = w)"
proof (cases "named_row i (w_db w)")
  case None
  then have "get_incident i (w_db w) = None"
    by (auto simp: named_row_def get_incident_def split: option.splits)
  then show ?thesis using None
    by (auto simp: resolve_incident_def get_incident_by_id_def not_found_def ensure_role_def bindR_def)
next
  case (Some r)
  show ?thesis
  proof (cases "may_resolve pol p r")
    case True
    have u: "parse_uuid i = Some (inc_id r)" "find_incident (inc_id r) (w_db w) = Some r"
      using Some unfolding named_row_some by simp_all
    from True show ?thesis
      using resolve_effects [OF u refl, of "username p" remark t]
      by (simp add: resolve_accepted [OF Some True] Some may_resolve_def)
  next
    case False
    then have "\<exists>c msg. resolve_incident pol i remark t p w = (Inl (HttpError c msg), w) \<and> c \<in> {403, 404, 409}"
      using resolve_refused [of i w pol p] Some by simp
    then show ?thesis using False Some by (auto simp: may_resolve_def)
  qed
qed

theorem manual_resolution_witness:
  "status_of 7 (w_db (snd (resolve_incident shipped_policy (uuid_str 7) None 5 sample_principal awaiting_world))) =
     Some Resolved"
proof -
  have id: "inc_id awaiting_row = 7" by (simp add: awaiting_row_def sample_incident_def)
  have row: "named_row (uuid_str 7) (w_db awaiting_world) = Some awaiting_row"
    by (simp add: named_row_some id)
  have roles: "''PlantManager'' \<in> set (rp_resolve_roles shipped_policy)"
    by (simp add: shipped_policy_def load_rbac_policy_def shipped_policy_file_def)
  show ?thesis
    using manual_resolution [where pol = shipped_policy and i = "uuid_str 7" and remark = None and t = 5 and
        p = sample_principal and w = awaiting_world] roles
    by (simp add: row id status_of_def split: prod.splits)
qed

end
