(* ===== verification/Platform.thy ===== *)
theory Platform
  imports ActionLoop Detection Knowledge IncidentsApi
begin

text \<open>
  The platform as one system: every agent, the decision endpoints and the people at the enterprise
  system take turns, in any order and any number, on the store, the bus and the remote system.  A
  step is one handler run (\<open>platform_step\<close>); what holds in every reachable state is proved by
  rule induction over the steps.
\<close>

section \<open>Steps that decide nothing\<close>

definition execution_status :: "status \<Rightarrow> bool" where
  "execution_status s \<longleftrightarrow> s \<in> {Approved, ActionTaken, ActionFailed}"

text \<open>
  What the pipeline agents do to the store, seen from the decision: no approval, no execution
  record, and a status changes only to one that is not an execution status.
\<close>

definition calm :: "db \<Rightarrow> db \<Rightarrow> bool" where
  "calm d d' \<longleftrightarrow>
     db_approvals d' = db_approvals d \<and> db_actions d' = db_actions d \<and>
     (\<forall>u s. status_of u d' = Some s \<longrightarrow> execution_status s \<longrightarrow> status_of u d = Some s)"

lemma calm_refl [simp]: "calm d d"
  by (simp add: calm_def)

lemma calm_trans: "calm d d' \<Longrightarrow> calm d' d'' \<Longrightarrow> calm d d''"
  by (auto simp: calm_def)

lemma calm_same:
  "db_incidents d' = db_incidents d \<Longrightarrow> db_approvals d' = db_approvals d \<Longrightarrow> db_actions d' = db_actions d \<Longrightarrow> calm d d'"
  by (simp add: calm_def status_of_def find_incident_def)

lemma calm_history: "calm d (insert_history u a b c r e t d)"
  by (rule calm_same) (simp_all add: frame_simps)

lemma calm_audit: "calm d (insert_audit x u c ad t d)"
  by (rule calm_same) (simp_all add: frame_simps)

lemma calm_update:
  assumes "\<And>r. inc_id (f r) = inc_id r" "\<And>r. inc_status (f r) = inc_status r \<or> \<not> execution_status (inc_status (f r))"
  shows "calm d (update_incident u f d)"
  using assms(2)
  by (auto simp: calm_def status_of_def find_update_incident [OF assms(1)] frame_simps split: if_splits) metis+

lemmas calm_intros = calm_trans [OF calm_update calm_history] calm_update calm_history calm_audit

lemma save_root_cause_calm:
  "save_root_cause i h c cited st t d = (r, d') \<Longrightarrow> \<not> execution_status st \<Longrightarrow> calm d d'"
  by (auto simp: save_root_cause_def split: option.splits intro!: calm_trans [OF calm_update calm_history])

lemma add_incident_cost_calm: "add_incident_cost i c t d = (r, d') \<Longrightarrow> calm d d'"
  by (auto simp: add_incident_cost_def split: option.splits intro!: calm_update)

lemma save_incident_evidence_calm: "save_incident_evidence i e t d = (r, d') \<Longrightarrow> calm d d'"
  by (auto simp: save_incident_evidence_def split: option.splits intro!: calm_update)

lemma transition_incident_calm:
  "transition_incident i st a x y t d = (r, d') \<Longrightarrow> \<not> execution_status st \<Longrightarrow> calm d d'"
  by (auto simp: transition_incident_def split: option.splits intro!: calm_trans [OF calm_update calm_history])

lemma save_recommendation_calm:
  assumes "save_recommendation i acts ra tlog nx t d = (r, d')" "\<not> execution_status nx"
  shows "calm d d'"
  using assms
  by (auto simp: save_recommendation_def Let_def execution_status_def split: option.splits
      intro!: calm_trans [OF calm_trans [OF calm_trans [OF calm_update calm_history] calm_update] calm_history])

lemma resolve_manually_calm: "resolve_incident_manually i who remark t d = (r, d') \<Longrightarrow> calm d d'"
  by (auto simp: resolve_incident_manually_def Let_def execution_status_def split: option.splits
      intro!: calm_trans [OF calm_trans [OF calm_update calm_history] calm_audit])

lemma next_status_calm: "\<not> execution_status (next_status_for n)"
  by (simp add: next_status_for_def execution_status_def)

section \<open>The pipeline agents decide nothing\<close>

lemma touches_only_calm:
  assumes "touches_only u d d'" "\<And>s. status_of u d' = Some s \<Longrightarrow> status_of u d = Some s \<or> \<not> execution_status s"
  shows "calm d d'"
  unfolding calm_def
proof (intro conjI allI impI)
  fix v s
  assume "status_of v d' = Some s" "execution_status s"
  then show "status_of v d = Some s"
    using assms by (cases "v = u") (auto simp: touches_only_def status_of_def)
qed (use assms(1) in \<open>simp_all add: touches_only_def\<close>)

lemma rc_persist_calm:
  "rc_persist env i h c cited st t d = (r, d') \<Longrightarrow> \<not> execution_status st \<Longrightarrow> calm d d'"
  by (drule rc_persist_cases) (auto intro: save_root_cause_calm)

lemma accept_diagnosis_calm:
  assumes "accept_diagnosis env bus i r dg t w = (res, w')"
  shows "calm (w_db w) (w_db w')"
proof -
  obtain p d1 where p: "rc_persist env i (dg_hypothesis dg) (dg_confidence dg) (dg_cited dg) Investigating t (w_db w) = (p, d1)"
    by (metis surj_pair)
  obtain q d2 where q: "add_incident_cost i (estimate_cost_usd (rce_flat_input env) (rce_flat_output env)
      (lr_model r) (lr_usage r)) t d1 = (q, d2)" by (metis surj_pair)
  have c1: "calm (w_db w) d1" by (rule rc_persist_calm [OF p]) (simp add: execution_status_def)
  have c2: "calm (w_db w) d2" using c1 add_incident_cost_calm [OF q] by (rule calm_trans)
  show ?thesis
    using assms c1 c2
    by (auto simp: accept_diagnosis_def Let_def on_db_def p q publish_def
        split: sum.splits option.splits if_splits)
qed

lemma diagnose_calm: "diagnose env bus i m t w = (res, w') \<Longrightarrow> calm (w_db w) (w_db w')"
  by (auto simp: diagnose_def on_db_def execution_status_def dest: accept_diagnosis_calm rc_persist_calm
      split: sum.splits verdict.splits prod.splits)

lemma rc_handle_event_calm: "calm (w_db w) (w_db (snd (rc_handle_event env bus views x sensors t (fl, w))))"
proof -
  have "calm (w_db w) (w_db (snd (rc_handle env bus views i sensors t w)))" for i
    using diagnose_calm [OF surjective_pairing]
    by (auto simp: rc_handle_def split: option.splits)
  then show ?thesis by (simp add: rc_handle_event_def Let_def)
qed

lemma kn_on_anomaly_calm: "calm (w_db w) (w_db (snd (kn_on_anomaly env bus ev t (texts, w))))"
proof -
  have written: "evidence_written u e t d d' \<Longrightarrow> calm d d'" for u e d d'
    by (auto simp: evidence_written_def intro: calm_update)
  have "calm (w_db w) (w_db (snd (snd (kn_handle env bus i equipment sensors t (texts, w)))))" for i equipment sensors
    by (cases "kn_handle env bus i equipment sensors t (texts, w)" rule: prod_cases3)
      (auto elim!: kn_handle_cases dest: written)
  then show ?thesis by (simp add: kn_on_anomaly_def split: prod.split)
qed

lemma cost_only_calm: "cost_only u t d d' \<Longrightarrow> calm d d'"
  by (auto simp: cost_only_def intro!: calm_update)

lemma rec_handle_calm:
  assumes "rec_handle env bus i t w = (res, w')"
  shows "calm (w_db w) (w_db w')"
proof (cases "parse_uuid i")
  case None
  with assms show ?thesis by (simp add: rec_handle_def get_incident_diagnosis_state_def)
next
  case u: (Some u)
  show ?thesis
  proof (cases "\<exists>st v. get_incident_diagnosis_state i (w_db w) = Some st \<and>
      get_incident_for_decision i (w_db w) = Some v \<and> dv_risk_severity v \<noteq> None")
    case False
    with assms show ?thesis by (auto simp: rec_handle_def split: option.splits if_splits)
  next
    case True
    then obtain st v where sv: "get_incident_diagnosis_state i (w_db w) = Some st"
      "get_incident_for_decision i (w_db w) = Some v" "dv_risk_severity v \<noteq> None" by blast
    obtain x d1 where loop: "planner_loop env i (rec_context_of i st v) t (w_db w) = (x, d1)" by (metis surj_pair)
    have c1: "calm (w_db w) d1" by (rule cost_only_calm [OF planner_loop_spec(1) [OF loop u]])
    have c2: "rec_persist env i acts ra tlog (next_status_for n) t d1 = (r, d2) \<Longrightarrow> calm (w_db w) d2" for acts ra tlog n r d2
      using calm_trans [OF c1] save_recommendation_calm [OF _ next_status_calm]
      by (auto dest!: rec_persist_cases intro: c1)
    note unf = assms [unfolded rec_handle_def sv(1) sv(2) option.case
      on_db_pair [where f = "planner_loop env i (rec_context_of i st v) t", OF loop]]
    show ?thesis
      using unf sv(3) c1
      by (auto simp: on_db_def publish_def Let_def dest: c2 split: sum.splits prod.splits option.splits)
  qed
qed

lemma risk_stage_calm:
  assumes "risk_stage_of injected file_data i t w = (res, w')"
  shows "calm (w_db w) (w_db w')"
proof -
  obtain d' where d': "risk_handle injected file_data i None t (w_db w) = (res, d')" "w_db w' = d'"
    using assms by (auto simp: risk_stage_split)
  from risk_handle_spec [OF d'(1)] show ?thesis
    unfolding d'(2)
  proof (elim disjE exE conjE)
    fix a u r r'
    assume "touches_only u (w_db w) d'" "find_incident u d' = Some r'" "inc_status r' = RiskAssessed"
    then show "calm (w_db w) d'"
      by (elim touches_only_calm) (simp add: status_of_def execution_status_def)
  qed simp
qed

lemma gate_calm:
  assumes "apply_hitl_gate i t w = (r, w')"
  shows "calm (w_db w) (w_db w')"
  using assms
  by (auto simp: apply_hitl_gate_def on_db_def Let_def split: option.splits if_splits sum.splits prod.splits
      intro: transition_incident_calm [OF _ next_status_calm])

lemma on_stage_calm:
  "calm (w_db w) (w_db (snd (on_stage_completed (risk_stage_of injected file_data) (rec_handle env bus) bus ev t (fl, w))))"
proof -
  have "calm (w_db w) (w_db (snd (run_stage (risk_stage_of injected file_data) (rec_handle env bus) bus stage i t w)))"
    for stage i
    using risk_stage_calm rec_handle_calm gate_calm [OF surjective_pairing]
    by (auto simp: run_stage_def trigger_risk_def trigger_recommendation_def split: sum.splits prod.splits)
  then show ?thesis by (simp add: on_stage_completed_def Let_def)
qed

lemma upsert_once_calm:
  assumes "upsert_once eq sev su t d = (r, d')"
  shows "calm d d'"
proof -
  have new: "calm d (d\<lparr>db_incidents := db_incidents d @ [new_incident (next_id d) site e sev su t], next_id := n\<rparr>)"
    for site e n
  proof -
    have find_app: "find P (xs @ [y]) = (case find P xs of None \<Rightarrow> if P y then Some y else None | Some z \<Rightarrow> Some z)"
      for P and xs :: "incident list" and y
      by (induction xs) auto
    show ?thesis
      by (auto simp: calm_def status_of_def find_incident_def find_app new_incident_def execution_status_def
          split: option.splits if_splits)
  qed
  from assms show ?thesis
    by (auto simp: upsert_once_def new split: option.splits intro!: calm_update)
qed

interpretation calm_intake: detection_relation calm
  by unfold_locales (auto intro: calm_trans upsert_once_calm calm_same)

interpretation calm_poll: closing_invariant "calm d0" for d0
proof
  fix d i u e en sy rc ac wk rs so t
  assume d: "calm d0 d" "parse_uuid i = Some u" "status_of u d = Some ActionTaken"
  have learned: "calm d (d\<lparr>db_historical := hs, next_id := n\<rparr>)" for d hs n by (rule calm_same) simp_all
  have "calm d (snd (close_incident_loop i e en sy rc ac wk rs so ''action-agent'' t d))"
    unfolding close_incident_loop_def Let_def
    by (auto simp: execution_status_def split: option.splits
        intro!: calm_trans [OF _ learned] calm_trans [OF calm_trans [OF calm_update calm_history] calm_audit])
  with d(1) show "calm d0 (snd (close_incident_loop i e en sy rc ac wk rs so ''action-agent'' t d))"
    by (rule calm_trans)
qed

lemma poll_calm:
  assumes "check_resolutions env fl w = (r, w')"
  shows "calm (own_db w) (own_db w')"
  using assms calm_poll.check_incidents_keeps [OF _ calm_refl]
  by (auto simp: check_resolutions_def split: sum.splits)

section \<open>An execution stays inside its incident\<close>

text \<open>Every order and every reorder at the enterprise system belongs to an incident of the set.\<close>

definition owned :: "uuid set \<Rightarrow> cmms \<Rightarrow> bool" where
  "owned A c \<longleftrightarrow>
     (\<forall>r\<in>set (cm_orders c). \<exists>u\<in>A. wo_incident r = Some u) \<and>
     (\<forall>r\<in>set (cm_reorders c). \<exists>u\<in>A. ro_incident r = Some u)"

definition request_for :: "uuid set \<Rightarrow> cmms_request \<Rightarrow> bool" where
  "request_for A req \<longleftrightarrow>
     (case req of
        CreateWorkOrder e d p b i \<Rightarrow> \<exists>u\<in>A. uuid_or_none i = Some u
      | RequestReorder k q i b \<Rightarrow> \<exists>u\<in>A. uuid_or_none i = Some u
      | _ \<Rightarrow> True)"

lemma route_owned:
  assumes "owned A c" "request_for A req"
  shows "owned A (snd (route req t c))"
proof (cases req)
  case (ResolveWorkOrder i n)
  with assms(1) show ?thesis
    by (fastforce simp: route_def svc_resolve_work_order_def fetch_order_def owned_def resolve_row_def Let_def
        split: option.split)
qed (use assms in \<open>auto simp: route_def svc_create_work_order_def svc_reorder_def owned_def request_for_def Let_def
       split: option.splits\<close>)

lemma serve_owned: "owned A c \<Longrightarrow> request_for A req \<Longrightarrow> owned A (snd (serve raw key header t req c))"
  using route_owned [of A c req t] by (auto simp: serve_def split: option.split prod.split)

lemma request_from_keeps:
  assumes "\<And>k c. P c \<Longrightarrow> P (snd (net k req c))"
  shows "request_from net n k le req c = (r, c') \<Longrightarrow> P c \<Longrightarrow> P c'"
proof (induction n arbitrary: k le c)
  case (Suc n)
  obtain x c1 where net: "net k req c = (x, c1)" by (metis surj_pair)
  with assms [OF Suc.prems(2), of k] have "P c1" by simp
  with Suc net show ?case by (auto split: net_outcome.splits sum.splits if_splits)
qed simp

text \<open>The calls of a run go over a network to the service.\<close>

definition over_mock :: "(nat \<Rightarrow> cmms net) \<Rightarrow> bool" where
  "over_mock net \<longleftrightarrow> (\<forall>k. \<exists>fates raw key header t. net k = over_network fates (serve raw key header t))"

lemma cmms_request_owned:
  assumes "net = over_network fates (serve raw key header t)" "owned A c" "request_for A req"
    "cmms_request net n req c = (r, c')"
  shows "owned A c'"
proof -
  have "owned A (snd (net k req c))" if "owned A c" for k c
    using serve_owned [OF that assms(3)] that
    by (simp add: assms(1) over_network_def split: fate.split)
  from request_from_keeps [where P = "owned A", OF this assms(4) [unfolded cmms_request_def] assms(2)]
  show ?thesis .
qed

lemma parse_uuid_or_none: "parse_uuid i = Some u \<Longrightarrow> uuid_or_none i = Some u"
proof -
  have "parse_uuid [] = None" by code_simp
  then show "parse_uuid i = Some u \<Longrightarrow> uuid_or_none i = Some u" by (auto simp: uuid_or_none_def)
qed

lemma call_cmms_owned:
  assumes "over_mock (ax_net env)" "call_cmms env k i oper eq c = (r, c')" "parse_uuid i = Some u" "u \<in> A" "owned A c"
  shows "owned A c'"
proof -
  obtain fates raw key header t where "ax_net env k = over_network fates (serve raw key header t)"
    using assms(1) unfolding over_mock_def by metis
  note keeps = cmms_request_owned [OF this assms(5)]
  show ?thesis
    using assms(2-4) parse_uuid_or_none [OF assms(3)]
    by (auto simp: call_cmms_def create_work_order_def request_reorder_def request_for_def
        split: if_splits elim!: keeps [rotated])
qed

text \<open>What a run for incident \<open>u\<close> may do.\<close>

definition run_of :: "uuid \<Rightarrow> cmms action_world \<Rightarrow> cmms action_world \<Rightarrow> bool" where
  "run_of u w w' \<longleftrightarrow>
     (\<forall>v. v \<noteq> u \<longrightarrow> status_of v (own_db w') = status_of v (own_db w)) \<and>
     db_approvals (own_db w') = db_approvals (own_db w) \<and>
     (\<forall>x\<in>set (db_actions (own_db w')). x \<in> set (db_actions (own_db w)) \<or> ac_incident x = u) \<and>
     (\<forall>A. u \<in> A \<longrightarrow> owned A (aw_remote w) \<longrightarrow> owned A (aw_remote w'))"

lemma run_of_refl [simp]: "run_of u w w"
  by (simp add: run_of_def)

lemma run_of_trans: "run_of u w w' \<Longrightarrow> run_of u w' w'' \<Longrightarrow> run_of u w w''"
  unfolding run_of_def by fastforce

lemma run_of_publish [simp]: "run_of u w (publish_quietly env e w') \<longleftrightarrow> run_of u w w'"
  by (simp add: run_of_def)

lemma record_execution_run:
  "record_execution env k i oper oc ref resp err w = (r, w') \<Longrightarrow> parse_uuid i = Some u \<Longrightarrow> run_of u w w'"
  by (auto simp: record_execution_def run_of_def status_of_def store_simps record_action_execution_def
      find_incident_def split: option.splits)

lemma save_result_run:
  "save_result env i st dt exs ab da w = (r, w') \<Longrightarrow> parse_uuid i = Some u \<Longrightarrow> run_of u w w'"
  by (auto simp: save_result_def save_action_result_def run_of_def status_of_def store_simps Let_def
      split: option.splits if_splits)

lemma call_run:
  assumes "over_mock (ax_net env)" "call_cmms env k i oper eq (aw_remote w) = (b, c)" "parse_uuid i = Some u"
  shows "run_of u w (w\<lparr>aw_remote := c\<rparr>)"
  using call_cmms_owned [OF assms(1,2,3)] by (auto simp: run_of_def)

lemma execute_op_run:
  assumes "over_mock (ax_net env)" "execute_op env k i eq oper w = (r, w')" "parse_uuid i = Some u"
  shows "run_of u w w'"
proof -
  obtain r1 w1 where rec: "record_execution env k i oper ''pending'' None None None w = (r1, w1)" by (metis surj_pair)
  note c1 = record_execution_run [OF rec assms(3)]
  obtain b c where call: "call_cmms env k i oper eq (aw_remote w1) = (b, c)" by (metis surj_pair)
  note c2 = run_of_trans [OF c1 call_run [OF assms(1) call assms(3)]]
  have c3: "run_of u w w3"
    if "record_execution env k i oper ''succeeded'' rf rs None (w1\<lparr>aw_remote := c\<rparr>) = (x, w3)" for rf rs x w3
    by (rule run_of_trans [OF c2 record_execution_run [OF that assms(3)]])
  show ?thesis
    using assms(2) rec call c1 c2
    by (auto simp: execute_op_def Let_def dest: c3 split: sum.splits prod.splits)
qed

lemma execute_ops_run:
  assumes "over_mock (ax_net env)" "parse_uuid i = Some u"
  shows "execute_ops env i eq k ops exs fls w = (r, w') \<Longrightarrow> run_of u w w'"
proof (induction ops arbitrary: k exs fls w)
  case (Cons oper ops)
  from Cons.prems show ?case
  proof (cases rule: execute_ops_round)
    case (executed x w1)
    from run_of_trans [OF execute_op_run [OF assms(1) executed(1) assms(2)] Cons.IH [OF executed(2)]] show ?thesis .
  next
    case (failed e w1 w2)
    from run_of_trans [OF run_of_trans [OF execute_op_run [OF assms(1) failed(1) assms(2)]
          record_execution_run [OF failed(2) assms(2)]] Cons.IH [OF failed(3)]] show ?thesis .
  next
    case (raised e e')
    from execute_op_run [OF assms(1) raised(1) assms(2)] show ?thesis .
  qed
qed simp

lemma action_handle_run:
  assumes "over_mock (ax_net env)" "action_handle env p w = (r, w')" "w' \<noteq> w"
  shows "\<exists>u. status_of u (own_db w) = Some Approved \<and> run_of u w w'"
proof -
  obtain i view where i: "ae_incident p = Some i" and v: "get_incident_for_decision i (own_db w) = Some view"
    using assms(2,3) by (auto simp: action_handle_def split: option.splits)
  from decision_view_Some [OF v] obtain u inc where u: "parse_uuid i = Some u"
    "find_incident u (own_db w) = Some inc" "view = decision_view_of inc" by blast
  have st: "inc_status inc = Approved"
    using assms(2,3) i v u by (auto simp: action_handle_def split: if_splits)
  have fin: "run_of u w2 w3" if "finish_execution env i ab da m exs fls w2 = (x, w3)" for ab da m exs fls w2 x w3
    using that save_result_run [OF _ u(1)]
    by (auto simp: finish_execution_def split: if_splits prod.splits sum.splits)
  have "run_of u w w'"
    using assms(2) i v u st
    by (auto simp: action_handle_def Let_def split: if_splits prod.splits sum.splits
        dest: fin save_result_run [OF _ u(1)] execute_ops_run [OF assms(1) u(1)]
        intro: run_of_trans)
  with u st show ?thesis by (auto simp: status_of_def)
qed

section \<open>The steps of the platform\<close>

text \<open>
  The policy and the token environment are fixed.  The people and systems outside may do anything
  the code lets them: any stream, any event in any order, any model answer, any request with any
  token, and at the enterprise system any request that creates neither an order nor a reorder
  (creating those is the Action Agent's part).
\<close>

inductive platform_step :: "rbac_policy \<Rightarrow> 'k jwt_env \<Rightarrow> cmms action_world \<Rightarrow> cmms action_world \<Rightarrow> bool"
  for pol :: rbac_policy and jwt :: "'k jwt_env" where
  detects: "dt_world s = aw_own w \<Longrightarrow>
    platform_step pol jwt w (w\<lparr>aw_own := dt_world (fst (consume cfg es s acked))\<rparr>)"
| collects: "platform_step pol jwt w (w\<lparr>aw_own := snd (kn_on_anomaly kenv bus ev t (texts, aw_own w))\<rparr>)"
| diagnoses: "platform_step pol jwt w
    (w\<lparr>aw_own := snd (rc_handle_event env bus views x sensors t (fl, aw_own w))\<rparr>)"
| advances: "platform_step pol jwt w (w\<lparr>aw_own := snd (on_stage_completed (risk_stage_of injected file_data)
    (rec_handle renv bus) bus sev t (fl, aw_own w))\<rparr>)"
| decides: "dec \<in> {Approved, Rejected} \<Longrightarrow> platform_step pol jwt w (w\<lparr>aw_own :=
    snd (with_principal jwt header (record_decision pol obus corr i just dec t) (aw_own w))\<rparr>)"
| resolves: "platform_step pol jwt w (w\<lparr>aw_own :=
    snd (with_principal jwt header (resolve_incident pol i remark t) (aw_own w))\<rparr>)"
| executes: "over_mock (ax_net aenv) \<Longrightarrow> platform_step pol jwt w (on_incident_approved aenv fl ev w)"
| polls: "mock_poll aenv \<Longrightarrow> platform_step pol jwt w (snd (check_resolutions aenv fl w))"
| serves: "(\<forall>e d p b i. req \<noteq> CreateWorkOrder e d p b i) \<Longrightarrow> (\<forall>k q i b. req \<noteq> RequestReorder k q i b) \<Longrightarrow>
    platform_step pol jwt w (w\<lparr>aw_remote := snd (serve raw key header t req (aw_remote w))\<rparr>)"

inductive_cases platform_stepE: "platform_step pol jwt w w'"

text \<open>
  An approval a verified caller gave, within the level of the caller's role.
\<close>

definition rightful :: "rbac_policy \<Rightarrow> 'k jwt_env \<Rightarrow> approval_row \<Rightarrow> bool" where
  "rightful pol jwt a \<longleftrightarrow>
     (\<exists>header p lv. require_principal jwt header = Inr p \<and> ap_decided_by a = username p \<and>
        ap_level a = Some lv \<and> lv \<le> level_for pol (role_of p))"

definition was_approved :: "rbac_policy \<Rightarrow> 'k jwt_env \<Rightarrow> db \<Rightarrow> uuid \<Rightarrow> bool" where
  "was_approved pol jwt d u \<longleftrightarrow>
     (\<exists>a\<in>set (db_approvals d). ap_incident a = u \<and> ap_decision a = Approved \<and> rightful pol jwt a)"

definition gated :: "rbac_policy \<Rightarrow> 'k jwt_env \<Rightarrow> cmms action_world \<Rightarrow> bool" where
  "gated pol jwt w \<longleftrightarrow>
     (\<forall>u s. status_of u (own_db w) = Some s \<longrightarrow> execution_status s \<longrightarrow> was_approved pol jwt (own_db w) u) \<and>
     (\<forall>x\<in>set (db_actions (own_db w)). was_approved pol jwt (own_db w) (ac_incident x)) \<and>
     owned {u. was_approved pol jwt (own_db w) u} (aw_remote w)"

lemma gated_calm:
  assumes "gated pol jwt w" "calm (own_db w) (own_db w')" "aw_remote w' = aw_remote w"
  shows "gated pol jwt w'"
proof -
  have "was_approved pol jwt (own_db w') = was_approved pol jwt (own_db w)"
    using assms(2) by (simp add: was_approved_def fun_eq_iff calm_def)
  with assms show ?thesis by (auto simp: gated_def calm_def)
qed

lemma gated_run:
  assumes "gated pol jwt w" "run_of u w w'" "status_of u (own_db w) = Some Approved"
  shows "gated pol jwt w'"
proof -
  have ab: "was_approved pol jwt (own_db w') = was_approved pol jwt (own_db w)"
    using assms(2) by (simp add: was_approved_def fun_eq_iff run_of_def)
  have u: "was_approved pol jwt (own_db w) u"
    using assms(1,3) by (auto simp: gated_def execution_status_def)
  have "owned {u. was_approved pol jwt (own_db w) u} (aw_remote w')"
    using assms(1,2) u unfolding gated_def run_of_def by blast
  moreover have "was_approved pol jwt (own_db w) v"
    if "status_of v (own_db w') = Some s" "execution_status s" for v s
    using that assms(1,2) u by (cases "v = u") (auto simp: gated_def run_of_def)
  ultimately show ?thesis
    using assms(1,2) u by (auto simp: gated_def run_of_def ab)
qed

lemma owned_mono: "owned A c \<Longrightarrow> A \<subseteq> B \<Longrightarrow> owned B c"
  unfolding owned_def by blast

lemma gated_decision:
  assumes "gated pol jwt w" "require_principal jwt header = Inr p"
    "record_decision pol bus corr i just dec t p (aw_own w) = (x, o')" "dec \<in> {Approved, Rejected}"
  shows "gated pol jwt (w\<lparr>aw_own := o'\<rparr>)"
  using record_decision_cases [OF assms(3)]
proof (elim disjE exE conjE)
  assume "o' = aw_own w"
  then show ?thesis using assms(1) by simp
next
  fix u r d'
  let ?lv = "decision_level (decision_view_of r)" and ?d = "own_db w" and ?w = "w\<lparr>aw_own := o'\<rparr>"
  assume u: "parse_uuid i = Some u" "find_incident u (w_db (aw_own w)) = Some r" "may_decide pol just dec p r"
    and d': "record_approval i dec (username p) (Some ?lv) just t (w_db (aw_own w)) = (Inr (Some t), d')"
    and o': "o' = announce_decision bus corr i dec (username p) t ?lv ((aw_own w)\<lparr>w_db := d'\<rparr>)"
  have own: "own_db ?w = d'" by (simp add: own_db_def o')
  from record_approval_found [OF u(1,2), of dec "username p" "Some ?lv" just t] d'
  have f: "status_of u d' = Some dec" "\<forall>v. v \<noteq> u \<longrightarrow> status_of v d' = status_of v ?d"
    "db_actions d' = db_actions ?d"
    and ap: "\<exists>a. db_approvals d' = db_approvals ?d @ [a] \<and> ap_incident a = u \<and> ap_decision a = dec \<and>
        ap_decided_by a = username p \<and> ap_level a = Some ?lv"
    by (auto simp: status_of_def own_db_def)
  have more: "was_approved pol jwt ?d v \<Longrightarrow> was_approved pol jwt d' v" for v
    using ap by (auto simp: was_approved_def)
  have here: "was_approved pol jwt d' u" if "dec = Approved"
    using ap that u(3) assms(2) unfolding was_approved_def rightful_def may_decide_def by force
  have "was_approved pol jwt d' v" if "status_of v d' = Some s" "execution_status s" for v s
  proof (cases "v = u")
    case True
    with that f(1) assms(4) here show ?thesis by (auto simp: execution_status_def)
  next
    case False
    with that f(2) assms(1) more show ?thesis by (simp add: gated_def)
  qed
  moreover have "owned {v. was_approved pol jwt d' v} (aw_remote w)"
    using assms(1) more unfolding gated_def by (blast intro: owned_mono)
  ultimately show ?thesis using assms(1) more f(3) by (simp add: gated_def own)
qed

lemma gated_step: "platform_step pol jwt w w' \<Longrightarrow> gated pol jwt w \<Longrightarrow> gated pol jwt w'"
proof (induction rule: platform_step.induct)
  case (detects s w cfg es acked)
  have "calm (own_db w) (own_db (w\<lparr>aw_own := dt_world (fst (consume cfg es s acked))\<rparr>))"
    using calm_intake.consume_step [of s cfg es acked] detects(1) by (simp add: own_db_def det_db_def)
  with detects(2) show ?case by (rule gated_calm) simp
next
  case (collects w kenv bus ev t texts)
  show ?case
    by (rule gated_calm [OF collects]) (simp_all add: own_db_def kn_on_anomaly_calm)
next
  case (diagnoses w env bus views x sensors t fl)
  show ?case
    by (rule gated_calm [OF diagnoses]) (simp_all add: own_db_def rc_handle_event_calm)
next
  case (advances w injected file_data renv bus sev t fl)
  show ?case
    by (rule gated_calm [OF advances]) (simp_all add: own_db_def on_stage_calm)
next
  case (decides dec w header obus corr i just t)
  show ?case
  proof (cases "require_principal jwt header")
    case (Inl e)
    with decides show ?thesis by (simp add: with_principal_def)
  next
    case (Inr p)
    from gated_decision [OF decides(2) Inr surjective_pairing decides(1), of obus corr i just t] Inr
    show ?thesis by (simp add: with_principal_def)
  qed
next
  case (resolves w header i remark t)
  have "calm (w_db o1) (w_db (snd (resolve_incident pol i remark t p o1)))" for p and o1 :: world
    using resolve_manually_calm [of i "username p" remark t "w_db o1"]
    by (auto simp: resolve_incident_def on_db_def Let_def split: sum.splits prod.splits option.splits)
  then show ?case
    by (intro gated_calm [OF resolves]) (auto simp: own_db_def with_principal_def split: sum.splits)
next
  case (executes aenv w fl ev)
  show ?case
  proof (cases "on_incident_approved aenv fl ev w = w")
    case False
    then have ne: "snd (action_handle aenv ev w) \<noteq> w" and
      eq: "on_incident_approved aenv fl ev w = snd (action_handle aenv ev w)"
      by (auto simp: on_incident_approved_def split: if_splits)
    from action_handle_run [OF executes(1) surjective_pairing ne] executes(2) show ?thesis
      unfolding eq by (auto intro: gated_run)
  qed (use executes in simp)
next
  case (polls aenv w fl)
  have "aw_remote (snd (check_resolutions aenv fl w)) = aw_remote w"
    using check_incidents_remote [OF surjective_pairing polls(1)]
    by (auto simp: check_resolutions_def split: sum.splits)
  with poll_calm [OF surjective_pairing] show ?case by (rule gated_calm [OF polls(2)])
next
  case (serves req w raw key header t)
  have "request_for A req" for A using serves(1,2) by (cases req) (auto simp: request_for_def)
  from serve_owned [OF _ this] serves(3) show ?case by (simp add: gated_def own_db_def)
qed

lemma gated_reachable: "(platform_step pol jwt)\<^sup>*\<^sup>* w w' \<Longrightarrow> gated pol jwt w \<Longrightarrow> gated pol jwt w'"
  by (induction rule: rtranclp_induct) (auto intro: gated_step)

section \<open>A short history\<close>

definition pending_row :: incident where
  "pending_row = sample_approved\<lparr>inc_status := AwaitingApproval\<rparr>"

definition pending_world :: "cmms action_world" where
  "pending_world =
     \<lparr>aw_own = \<lparr>w_db = sample_db\<lparr>db_incidents := [pending_row]\<rparr>, w_bus = []\<rparr>, aw_remote = sample_cmms\<rparr>"

definition decided_world :: "cmms action_world" where
  "decided_world = pending_world\<lparr>aw_own :=
     snd (with_principal sample_jwt ''Bearer tok''
       (record_decision shipped_policy None None (uuid_str 7) None Approved 0) (aw_own pending_world))\<rparr>"

lemma pending_find: "find_incident u (w_db (aw_own pending_world)) = (if u = 7 then Some pending_row else None)"
  by (auto simp: find_incident_def pending_world_def pending_row_def sample_approved_def sample_incident_def)

lemma decided_facts:
  "find_incident 7 (own_db decided_world) = Some sample_approved"
  "db_actions (own_db decided_world) = []" "aw_remote decided_world = sample_cmms"
proof -
  let ?d = "w_db (aw_own pending_world)"
  have "may_decide shipped_policy None Approved sample_principal pending_row"
    by (simp add: may_decide_def shipped_level_for decision_level_def decision_view_of_def pending_row_def
        sample_approved_def sample_incident_def)
  with record_decision_cases [OF surjective_pairing, of shipped_policy None None "uuid_str 7" None Approved 0
      sample_principal "aw_own pending_world"]
  obtain r d' where d': "find_incident 7 ?d = Some r"
    "record_approval (uuid_str 7) Approved ''pm'' (Some (decision_level (decision_view_of r))) None 0 ?d = (Inr (Some 0), d')"
    "own_db decided_world = d'"
    by (fastforce simp: pending_find decided_world_def with_principal_def sample_login own_db_def)
  from record_approval_found [OF sample_uuid(4) d'(1), of Approved "''pm''" "Some (decision_level (decision_view_of r))"
      None 0] d' pending_find [of 7]
  show "find_incident 7 (own_db decided_world) = Some sample_approved" "db_actions (own_db decided_world) = []"
    by (auto simp: pending_row_def sample_approved_def sample_incident_def pending_world_def sample_db_def)
qed (simp add: decided_world_def pending_world_def)

lemma short_history:
  "\<exists>w. (platform_step shipped_policy sample_jwt)\<^sup>*\<^sup>* pending_world w \<and> cm_orders (aw_remote w) = [sample_order 50]"
proof -
  have s1: "platform_step shipped_policy sample_jwt pending_world decided_world"
    unfolding decided_world_def by (rule decides) simp
  have net: "over_mock (ax_net reliable_env)"
    unfolding over_mock_def reliable_env_def by (simp, blast)
  have k: "get_executed_action_kinds (uuid_str 7) (own_db decided_world) = []"
    by (simp add: get_executed_action_kinds_def decided_facts)
  from reliable_run [OF decided_facts(1) k] obtain x w' where
    w': "action_handle reliable_env sample_approval decided_world = (Inr (Executed [x]), w')"
    "cm_orders (aw_remote w') = [sample_order 50]"
    by (auto simp: decided_facts sample_cmms_def)
  have "on_incident_approved reliable_env {} sample_approval decided_world = w'"
    using w'(1) by (simp add: on_incident_approved_def sample_approval_def)
  then have s2: "platform_step shipped_policy sample_jwt decided_world w'"
    using executes [OF net, of shipped_policy sample_jwt decided_world "{}" sample_approval] by simp
  from s1 s2 w'(2) show ?thesis by (meson converse_rtranclp_into_rtranclp r_into_rtranclp)
qed

section \<open>Properties\<close>

text \<open>
  C2. Whatever the agents, the callers, the bus, the models and the network do, in any order: started
  without executions, in every reachable state each work order and each reorder at the enterprise
  system, each execution record, and each incident that is approved, executed or failed belongs to
  an incident for which the store holds an approval; and that approval is in the name of a caller
  whose token was verified and whose role may decide the level it was given at.
\<close>

theorem no_effect_without_a_rightful_approval:
  assumes "(platform_step pol jwt)\<^sup>*\<^sup>* w0 w"
    "\<forall>u s. status_of u (own_db w0) = Some s \<longrightarrow> s \<notin> {Approved, ActionTaken, ActionFailed}"
    "db_actions (own_db w0) = []" "cm_orders (aw_remote w0) = []" "cm_reorders (aw_remote w0) = []"
  shows "let approved = (\<lambda>u. \<exists>a\<in>set (db_approvals (own_db w)). ap_incident a = u \<and> ap_decision a = Approved \<and>
           (\<exists>header p lv. require_principal jwt header = Inr p \<and> ap_decided_by a = username p \<and>
              ap_level a = Some lv \<and> lv \<le> level_for pol (role_of p)))
    in (\<forall>r\<in>set (cm_orders (aw_remote w)). \<exists>u. wo_incident r = Some u \<and> approved u) \<and>
       (\<forall>r\<in>set (cm_reorders (aw_remote w)). \<exists>u. ro_incident r = Some u \<and> approved u) \<and>
       (\<forall>x\<in>set (db_actions (own_db w)). approved (ac_incident x)) \<and>
       (\<forall>u s. status_of u (own_db w) = Some s \<longrightarrow> s \<in> {Approved, ActionTaken, ActionFailed} \<longrightarrow> approved u)"
proof -
  have "gated pol jwt w0"
    using assms(2-5) by (auto simp: gated_def execution_status_def owned_def)
  from gated_reachable [OF assms(1) this] show ?thesis
    unfolding gated_def owned_def was_approved_def rightful_def execution_status_def Let_def by blast
qed

theorem no_effect_without_a_rightful_approval_witness:
  "\<exists>w. (platform_step shipped_policy sample_jwt)\<^sup>*\<^sup>* pending_world w \<and> cm_orders (aw_remote w) = [sample_order 50] \<and>
     (\<exists>a\<in>set (db_approvals (own_db w)). ap_incident a = 7 \<and> ap_decision a = Approved)"
proof -
  obtain w where w: "(platform_step shipped_policy sample_jwt)\<^sup>*\<^sup>* pending_world w"
    "cm_orders (aw_remote w) = [sample_order 50]" using short_history by blast
  have st: "\<forall>u s. status_of u (own_db pending_world) = Some s \<longrightarrow> s \<notin> {Approved, ActionTaken, ActionFailed}"
    using pending_find by (auto simp: own_db_def status_of_def pending_row_def split: if_splits)
  have start: "db_actions (own_db pending_world) = []" "cm_orders (aw_remote pending_world) = []"
    "cm_reorders (aw_remote pending_world) = []"
    by (simp_all add: own_db_def pending_world_def sample_db_def sample_cmms_def)
  have "wo_incident (sample_order 50) = Some 7" by (simp add: sample_order_def)
  with no_effect_without_a_rightful_approval [OF w(1) st start] w show ?thesis by (auto simp: Let_def)
qed

end
