(* ===== verification/OidcProvider.thy ===== *)
theory OidcProvider
  imports Security "HOL-Library.AList"
begin

text \<open>
  The local OpenID provider (\<open>oidc-provider/app\<close>): users and password hashes, the login form,
  the code store, the token endpoint with PKCE and refresh.  The cryptography is outside the code:
  \<open>scrypt\<close>, the S256 transform, random values, the signature of a token and its check are
  parameters.  The pages are modelled by what the templates are filled with.
\<close>

section \<open>Configuration\<close>

record oidc_config =
  oc_issuer :: string
  oc_client_id :: string
  oc_client_secret :: string
  oc_access_minutes :: int
  oc_code_ttl :: int
  oc_api_key :: string
  oc_issuer_internal :: string
  oc_redirects :: string

fun split_char :: "char \<Rightarrow> string \<Rightarrow> string list" where
  "split_char c [] = [[]]"
| "split_char c (x # s) =
     (if x = c then [] # split_char c s
      else case split_char c s of [] \<Rightarrow> [[x]] | p # ps \<Rightarrow> (x # p) # ps)"

definition default_oidc_config :: oidc_config where
  "default_oidc_config =
     \<lparr>oc_issuer = ''http://localhost:8090'', oc_client_id = ''processguard-frontend'',
      oc_client_secret = ''processguard-frontend-secret'', oc_access_minutes = 60, oc_code_ttl = 120,
      oc_api_key = ''oidc-dev-key-change-me'', oc_issuer_internal = ''http://localhost:8090'',
      oc_redirects = ''http://localhost:5173/auth/callback,http://127.0.0.1:5173/auth/callback,http://localhost:8090/dev/callback''\<rparr>"

definition allowed_redirects :: "oidc_config \<Rightarrow> string list" where
  "allowed_redirects cfg = filter (\<lambda>u. u \<noteq> []) (map py_strip (split_char (CHR '','') (oc_redirects cfg)))"

definition allowed_redirect :: "oidc_config \<Rightarrow> string \<Rightarrow> bool" where
  "allowed_redirect cfg uri \<longleftrightarrow>
     (\<exists>a\<in>set (allowed_redirects cfg).
        uri = a \<or> py_startswith uri (a @ (if CHR ''?'' \<notin> set a then ''?'' else ''#'')))"

section \<open>Users and passwords\<close>

record user =
  us_email :: string
  us_password :: string
  us_role :: string
  us_site :: string
  us_name :: string

definition site_12_id :: string where
  "site_12_id = ''11111111-1111-1111-1111-111111111111''"

definition site_07_id :: string where
  "site_07_id = ''22222222-2222-2222-2222-222222222222''"

definition users :: "user list" where
  "users =
     [\<lparr>us_email = ''operator@site12.demo'', us_password = ''operator-pass'', us_role = ''Operator'',
       us_site = site_12_id, us_name = ''Site 12 Operator''\<rparr>,
      \<lparr>us_email = ''maintenance@site12.demo'', us_password = ''maintenance-pass'',
       us_role = ''MaintenanceEngineer'', us_site = site_12_id, us_name = ''Site 12 Maintenance Engineer''\<rparr>,
      \<lparr>us_email = ''manager@site12.demo'', us_password = ''manager-pass'', us_role = ''PlantManager'',
       us_site = site_12_id, us_name = ''Site 12 Plant Manager''\<rparr>,
      \<lparr>us_email = ''operator@site07.demo'', us_password = ''operator07-pass'', us_role = ''Operator'',
       us_site = site_07_id, us_name = ''Site 07 Operator''\<rparr>]"

definition site_names :: "(string \<times> string) list" where
  "site_names =
     [(site_12_id, ''Site 12 - Paper Mill Cooling Tower''),
      (site_07_id, ''Site 07 - Leather Tannery Effluent Line'')]"

definition site_name_of :: "string \<Rightarrow> string" where
  "site_name_of s = (case map_of site_names s of None \<Rightarrow> [] | Some n \<Rightarrow> n)"

definition find_user :: "string \<Rightarrow> user option" where
  "find_user email = find (\<lambda>u. us_email u = py_lower (py_strip email)) users"

text \<open>Bytes are numbers below 256; \<open>bytes.hex\<close> and \<open>bytes.fromhex\<close>.\<close>

definition bytes_hex :: "nat list \<Rightarrow> string" where
  "bytes_hex bs = concat (map (\<lambda>b. [hex_digit (b div 16), hex_digit (b mod 16)]) bs)"

fun bytes_fromhex :: "string \<Rightarrow> nat list option" where
  "bytes_fromhex [] = Some []"
| "bytes_fromhex [c] = (if is_space c then Some [] else None)"
| "bytes_fromhex (c # d # s) =
     (if is_space c then bytes_fromhex (d # s)
      else case (hex_val c, hex_val d) of
        (Some a, Some b) \<Rightarrow> map_option ((#) (16 * a + b)) (bytes_fromhex s)
      | _ \<Rightarrow> None)"

type_synonym scrypt = "nat list \<Rightarrow> string \<Rightarrow> nat list"

definition hash_password :: "scrypt \<Rightarrow> nat list \<Rightarrow> string \<Rightarrow> string" where
  "hash_password scrypt salt password =
     ''scrypt$'' @ bytes_hex salt @ ''$'' @ bytes_hex (scrypt salt password)"

text \<open>\<open>s.split("$", 2)\<close> unpacked into three names: \<open>None\<close> when there are fewer parts.\<close>

definition split_once :: "string \<Rightarrow> (string \<times> string) option" where
  "split_once s =
     (case dropWhile (\<lambda>c. c \<noteq> CHR ''$'') s of
        [] \<Rightarrow> None
      | _ # rest \<Rightarrow> Some (takeWhile (\<lambda>c. c \<noteq> CHR ''$'') s, rest))"

definition verify_password :: "scrypt \<Rightarrow> string \<Rightarrow> string \<Rightarrow> bool" where
  "verify_password scrypt password stored =
     (case split_once stored of
        None \<Rightarrow> False
      | Some (scheme, rest) \<Rightarrow>
          (case split_once rest of
             None \<Rightarrow> False
           | Some (salt_hex, digest_hex) \<Rightarrow>
               if scheme \<noteq> ''scrypt'' then False
               else (case bytes_fromhex salt_hex of
                   None \<Rightarrow> False
                 | Some salt \<Rightarrow> bytes_hex (scrypt salt password) = digest_hex)))"

section \<open>Tokens\<close>

text \<open>The claims of a token; a claim it does not carry is \<open>None\<close>.  Times are in seconds.\<close>

record token_payload =
  tp_typ :: "string option"
  tp_iss :: "string option"
  tp_aud :: "string option"
  tp_sub :: "string option"
  tp_name :: "string option"
  tp_preferred_username :: "string option"
  tp_email :: "string option"
  tp_roles :: "string list option"
  tp_site_id :: "string option"
  tp_site_name :: "string option"
  tp_iat :: int
  tp_nbf :: "int option"
  tp_exp :: int
  tp_oid :: "string option"
  tp_nonce :: "string option"
  tp_jti :: "string option"

record token_crypto =
  tc_encode :: "token_payload \<Rightarrow> string"
  tc_decode :: "string \<Rightarrow> string \<Rightarrow> time \<Rightarrow> token_payload option"
  tc_s256 :: "string \<Rightarrow> string"
  tc_oid :: "string \<Rightarrow> string"
  tc_scrypt :: scrypt

definition seconds :: "time \<Rightarrow> int" where
  "seconds t = t div 1000000"

definition access_payload :: "oidc_config \<Rightarrow> token_crypto \<Rightarrow> user \<Rightarrow> string \<Rightarrow> string \<Rightarrow> time \<Rightarrow> token_payload" where
  "access_payload cfg tc u client nonce t =
     \<lparr>tp_typ = None, tp_iss = Some (oc_issuer cfg),
      tp_aud = Some (if client = [] then oc_client_id cfg else client), tp_sub = Some (us_email u),
      tp_name = Some (us_name u), tp_preferred_username = Some (us_email u), tp_email = Some (us_email u),
      tp_roles = Some [us_role u], tp_site_id = Some (us_site u), tp_site_name = Some (site_name_of (us_site u)),
      tp_iat = seconds t, tp_nbf = Some (seconds t - 5), tp_exp = seconds t + oc_access_minutes cfg * 60,
      tp_oid = Some (tc_oid tc (''pgai-demo:'' @ us_email u)),
      tp_nonce = (if nonce = [] then None else Some nonce), tp_jti = None\<rparr>"

definition refresh_payload :: "oidc_config \<Rightarrow> string \<Rightarrow> string \<Rightarrow> string \<Rightarrow> time \<Rightarrow> token_payload" where
  "refresh_payload cfg jti email client t =
     \<lparr>tp_typ = Some ''refresh'', tp_iss = Some (oc_issuer cfg), tp_aud = Some client, tp_sub = Some email,
      tp_name = None, tp_preferred_username = None, tp_email = None, tp_roles = None, tp_site_id = None,
      tp_site_name = None, tp_iat = seconds t, tp_nbf = None, tp_exp = seconds t + 60 * 60 * 24,
      tp_oid = None, tp_nonce = None, tp_jti = Some jti\<rparr>"

section \<open>The login form\<close>

record auth_request =
  aq_response_type :: string
  aq_client_id :: string
  aq_redirect_uri :: string
  aq_scope :: string
  aq_state :: string
  aq_nonce :: string
  aq_code_challenge :: string
  aq_method :: string

record code_record =
  cr_email :: string
  cr_client_id :: string
  cr_redirect_uri :: string
  cr_scope :: string
  cr_nonce :: string
  cr_code_challenge :: string
  cr_method :: string
  cr_created :: time

type_synonym codes = "(string \<times> code_record) list"

record token_answer =
  ta_access_token :: string
  ta_expires_in :: int
  ta_refresh_token :: string
  ta_scope :: string

datatype oidc_response =
    ErrorPage string nat
  | LoginPage auth_request string string
  | Redirect string
  | Tokens token_answer
  | OAuthError nat string string

definition html_escape_char :: "char \<Rightarrow> string" where
  "html_escape_char c =
     (if c = CHR ''&'' then ''&amp;'' else if c = CHR ''<'' then ''&lt;'' else if c = CHR ''>'' then ''&gt;''
      else if c = CHR 0x22 then ''&quot;'' else if c = CHR 0x27 then ''&#x27;'' else [c])"

definition html_escape :: "string \<Rightarrow> string" where
  "html_escape s = concat (map html_escape_char s)"

definition valid_auth_request :: "oidc_config \<Rightarrow> auth_request \<Rightarrow> bool" where
  "valid_auth_request cfg q \<longleftrightarrow>
     aq_response_type q = ''code'' \<and> aq_client_id q = oc_client_id cfg \<and> allowed_redirect cfg (aq_redirect_uri q)"

text \<open>
  The form page holds the request in hidden fields as it came in, the escaped email and the error
  text as it came in.
\<close>

definition authorize_get :: "oidc_config \<Rightarrow> auth_request \<Rightarrow> string \<Rightarrow> string option \<Rightarrow> oidc_response" where
  "authorize_get cfg q email err =
     (if \<not> valid_auth_request cfg q then
        ErrorPage ''Invalid authorization request (client_id or redirect_uri).'' 400
      else
        LoginPage q
          (if html_escape email = [] then [] else '' value='' @ [CHR 0x22] @ html_escape email @ [CHR 0x22])
          (if truthy_str err then ''<p class='' @ [CHR 0x22] @ ''error'' @ [CHR 0x22] @ ''>'' @ the err @ ''</p>'' else []))"

text \<open>\<open>urllib.parse.quote\<close> of a text whose characters have codes below 256.\<close>

definition url_safe :: "char \<Rightarrow> bool" where
  "url_safe c \<longleftrightarrow>
     is_digit c \<or> (let n = of_char c :: nat in (65 \<le> n \<and> n \<le> 90) \<or> (97 \<le> n \<and> n \<le> 122)) \<or>
     c \<in> {CHR ''_'', CHR ''.'', CHR ''-'', CHR 0x7E, CHR 0x2F}"

definition percent :: "nat \<Rightarrow> string" where
  "percent n = [CHR 0x25] @ py_upper [hex_digit (n div 16), hex_digit (n mod 16)]"

definition url_quote :: "string \<Rightarrow> string" where
  "url_quote s = concat (map (\<lambda>c. let n = of_char c :: nat in
      if url_safe c then [c] else if n < 128 then percent n
      else percent (192 + n div 64) @ percent (128 + n mod 64)) s)"

definition cleanup_codes :: "oidc_config \<Rightarrow> time \<Rightarrow> codes \<Rightarrow> codes" where
  "cleanup_codes cfg t cs = filter (\<lambda>(c, r). \<not> t - cr_created r > oc_code_ttl cfg * 1000000) cs"

text \<open>\<open>code\<close> is what \<open>secrets.token_urlsafe(32)\<close> draws; assigning a key replaces its value.\<close>

definition authorize_post ::
  "oidc_config \<Rightarrow> token_crypto \<Rightarrow> nat list \<Rightarrow> string \<Rightarrow> time \<Rightarrow> auth_request \<Rightarrow> string \<Rightarrow> string \<Rightarrow> codes \<Rightarrow>
     oidc_response \<times> codes" where
  "authorize_post cfg tc salt code t q email password cs =
     (if \<not> valid_auth_request cfg q then (ErrorPage ''Invalid authorization request.'' 400, cs)
      else case find_user email of
        None \<Rightarrow> (ErrorPage ''Invalid email or password.'' 401, cs)
      | Some u \<Rightarrow>
          if \<not> verify_password (tc_scrypt tc) password (hash_password (tc_scrypt tc) salt (us_password u)) then
            (ErrorPage ''Invalid email or password.'' 401, cs)
          else
            (Redirect (aq_redirect_uri q @ (if CHR ''?'' \<in> set (aq_redirect_uri q) then ''&'' else ''?'') @
                ''code='' @ url_quote code @ ''&state='' @ url_quote (aq_state q)),
             AList.update code
               \<lparr>cr_email = us_email u, cr_client_id = aq_client_id q, cr_redirect_uri = aq_redirect_uri q,
                cr_scope = aq_scope q, cr_nonce = aq_nonce q, cr_code_challenge = aq_code_challenge q,
                cr_method = aq_method q, cr_created = t\<rparr> (cleanup_codes cfg t cs)))"

section \<open>The token endpoint\<close>

record token_form =
  tf_grant_type :: string
  tf_client_id :: string
  tf_client_secret :: string
  tf_code :: string
  tf_redirect_uri :: string
  tf_code_verifier :: string
  tf_refresh_token :: string

text \<open>\<open>hmac.compare_digest\<close> of two strings accepts ASCII only.\<close>

definition is_ascii :: "string \<Rightarrow> bool" where
  "is_ascii s \<longleftrightarrow> (\<forall>c\<in>set s. (of_char c :: nat) < 128)"

definition compare_digest :: "string \<Rightarrow> string \<Rightarrow> bool result" where
  "compare_digest a b =
     (if is_ascii a \<and> is_ascii b then Inr (a = b)
      else Inl (TypeError ''comparing strings with non-ASCII characters is not supported''))"

definition invalid_grant :: "string \<Rightarrow> oidc_response" where
  "invalid_grant why = OAuthError 400 ''invalid_grant'' why"

definition pkce_failed :: oidc_response where
  "pkce_failed = invalid_grant ''PKCE verification failed''"

text \<open>The check of the verifier: an error answer, or nothing when it holds or none is required.\<close>

definition check_pkce :: "token_crypto \<Rightarrow> string \<Rightarrow> code_record \<Rightarrow> oidc_response option result" where
  "check_pkce tc verifier r =
     (if cr_code_challenge r = [] then Inr None
      else if verifier = [] \<or> or_str (Some (cr_method r)) ''S256'' \<noteq> ''S256'' then Inr (Some pkce_failed)
      else bindR (compare_digest (tc_s256 tc verifier) (cr_code_challenge r))
        (\<lambda>same. Inr (if same then None else Some pkce_failed)))"

definition code_grant ::
  "oidc_config \<Rightarrow> token_crypto \<Rightarrow> string \<Rightarrow> time \<Rightarrow> token_form \<Rightarrow> codes \<Rightarrow> oidc_response result \<times> codes" where
  "code_grant cfg tc jti t f cs =
     (let cs' = AList.delete (tf_code f) cs in
      (case map_of cs (tf_code f) of
         None \<Rightarrow> Inr (invalid_grant ''code expired or unknown'')
       | Some r \<Rightarrow>
           if cr_client_id r \<noteq> tf_client_id f \<or> cr_redirect_uri r \<noteq> tf_redirect_uri f then
             Inr (invalid_grant ''client/redirect mismatch'')
           else bindR (check_pkce tc (tf_code_verifier f) r) (\<lambda>bad.
             case bad of
               Some answer \<Rightarrow> Inr answer
             | None \<Rightarrow>
                 (case find_user (cr_email r) of
                    None \<Rightarrow> Inr (invalid_grant [])
                  | Some u \<Rightarrow> Inr (Tokens
                      \<lparr>ta_access_token = tc_encode tc (access_payload cfg tc u (tf_client_id f) (cr_nonce r) t),
                       ta_expires_in = oc_access_minutes cfg * 60,
                       ta_refresh_token = tc_encode tc (refresh_payload cfg jti (us_email u) (tf_client_id f) t),
                       ta_scope = cr_scope r\<rparr>))),
       cs'))"

definition refresh_grant :: "oidc_config \<Rightarrow> token_crypto \<Rightarrow> time \<Rightarrow> token_form \<Rightarrow> oidc_response" where
  "refresh_grant cfg tc t f =
     (case tc_decode tc (tf_refresh_token f) (tf_client_id f) t of
        None \<Rightarrow> invalid_grant ''refresh token invalid or expired''
      | Some claims \<Rightarrow>
          if tp_typ claims \<noteq> Some ''refresh'' then invalid_grant ''not a refresh token''
          else (case find_user (case tp_sub claims of None \<Rightarrow> [] | Some s \<Rightarrow> s) of
              None \<Rightarrow> invalid_grant []
            | Some u \<Rightarrow> Tokens
                \<lparr>ta_access_token = tc_encode tc (access_payload cfg tc u (tf_client_id f) [] t),
                 ta_expires_in = oc_access_minutes cfg * 60, ta_refresh_token = tf_refresh_token f,
                 ta_scope = ''openid''\<rparr>))"

definition token_endpoint ::
  "oidc_config \<Rightarrow> token_crypto \<Rightarrow> string \<Rightarrow> time \<Rightarrow> token_form \<Rightarrow> codes \<Rightarrow> oidc_response result \<times> codes" where
  "token_endpoint cfg tc jti t f cs =
     (if tf_client_id f \<noteq> oc_client_id cfg then (Inr (OAuthError 401 ''invalid_client'' []), cs)
      else
        (case (if tf_client_secret f = [] then Inr True else compare_digest (tf_client_secret f) (oc_client_secret cfg)) of
           Inl e \<Rightarrow> (Inl e, cs)
         | Inr ok \<Rightarrow>
             if \<not> ok then (Inr (OAuthError 401 ''invalid_client'' []), cs)
             else if tf_grant_type f = ''authorization_code'' then code_grant cfg tc jti t f cs
             else if tf_grant_type f = ''refresh_token'' then (Inr (refresh_grant cfg tc t f), cs)
             else (Inr (OAuthError 400 ''unsupported_grant_type'' []), cs)))"

section \<open>Metadata and the directory\<close>

text \<open>\<open>urlparse(u).netloc\<close> of an absolute URL: what stands between the slashes and the path.\<close>

definition url_netloc :: "string \<Rightarrow> string" where
  "url_netloc u =
     (case dropWhile (\<lambda>c. c \<noteq> CHR '':'') u of
        c # a # b # rest \<Rightarrow>
          if a = CHR 0x2F \<and> b = CHR 0x2F then takeWhile (\<lambda>c. c \<notin> {CHR 0x2F, CHR ''?'', CHR ''#''}) rest else []
      | _ \<Rightarrow> [])"

definition issuer_for_request :: "oidc_config \<Rightarrow> string option \<Rightarrow> string" where
  "issuer_for_request cfg host_header =
     (let host = py_lower (or_str host_header []) in
      case find (\<lambda>u. py_lower (url_netloc u) = host) [oc_issuer_internal cfg, oc_issuer cfg] of
        None \<Rightarrow> oc_issuer cfg
      | Some u \<Rightarrow> u)"

record discovery_document =
  dc_issuer :: string
  dc_authorization_endpoint :: string
  dc_token_endpoint :: string
  dc_userinfo_endpoint :: string
  dc_jwks_uri :: string

definition discovery :: "oidc_config \<Rightarrow> string option \<Rightarrow> discovery_document" where
  "discovery cfg host =
     (let issuer = issuer_for_request cfg host in
      \<lparr>dc_issuer = issuer, dc_authorization_endpoint = issuer @ ''/authorize'',
       dc_token_endpoint = issuer @ ''/token'', dc_userinfo_endpoint = issuer @ ''/me'',
       dc_jwks_uri = issuer @ ''/jwks.json''\<rparr>)"

record directory_entry =
  de_email :: string
  de_role :: string
  de_site_id :: string
  de_site_name :: string
  de_display_name :: string

definition api_key_guard :: "oidc_config \<Rightarrow> string \<Rightarrow> unit result" where
  "api_key_guard cfg key =
     bindR (compare_digest key (oc_api_key cfg)) (\<lambda>same. if same then Inr () else Inl (HttpError 401 ''invalid api key''))"

definition me :: "oidc_config \<Rightarrow> string \<Rightarrow> directory_entry list result" where
  "me cfg key =
     bindR (api_key_guard cfg key) (\<lambda>_. Inr (map (\<lambda>u.
       \<lparr>de_email = us_email u, de_role = us_role u, de_site_id = us_site u,
        de_site_name = site_name_of (us_site u), de_display_name = us_name u\<rparr>) users))"

section \<open>Histories of the provider\<close>

datatype oidc_request =
    Login "nat list" string time auth_request string string
  | Call string time token_form

text \<open>A history: the requests so far with their answers, and the codes the provider holds.\<close>

inductive provider :: "oidc_config \<Rightarrow> token_crypto \<Rightarrow> (oidc_request \<times> oidc_response result) list \<Rightarrow> codes \<Rightarrow> bool"
  for cfg :: oidc_config and tc :: token_crypto where
  start: "provider cfg tc [] []"
| login: "provider cfg tc h cs \<Longrightarrow> authorize_post cfg tc salt code t q email pw cs = (r, cs') \<Longrightarrow>
    provider cfg tc (h @ [(Login salt code t q email pw, Inr r)]) cs'"
| call: "provider cfg tc h cs \<Longrightarrow> token_endpoint cfg tc jti t f cs = (r, cs') \<Longrightarrow>
    provider cfg tc (h @ [(Call jti t f, r)]) cs'"

inductive_cases provider_snocE: "provider cfg tc (h @ [e]) cs"

section \<open>Facts\<close>

lemma hex_digits:
  assumes "n < 16"
  shows "hex_val (hex_digit n) = Some n" "\<not> is_space (hex_digit n)" "hex_digit n \<noteq> CHR ''$''"
proof -
  have v: "(of_char (hex_digit n) :: nat) = (if n < 10 then 48 + n else 87 + n)"
    using assms by (simp add: hex_digit_def)
  show "hex_val (hex_digit n) = Some n" using assms by (simp add: hex_val_def v)
  show "\<not> is_space (hex_digit n)" using assms by (auto simp: is_space_def v)
  have "(of_char (CHR ''$'') :: nat) = 36" by simp
  with v show "hex_digit n \<noteq> CHR ''$''" by (auto split: if_splits)
qed

lemma bytes_hex_Cons: "bytes_hex (b # bs) = hex_digit (b div 16) # hex_digit (b mod 16) # bytes_hex bs"
  by (simp add: bytes_hex_def)

lemma nibbles: "(b :: nat) < 256 \<Longrightarrow> b div 16 < 16" "(b :: nat) mod 16 < 16"
  by simp_all

lemma fromhex_hex: "\<forall>b\<in>set bs. b < 256 \<Longrightarrow> bytes_fromhex (bytes_hex bs) = Some bs"
proof (induction bs)
  case (Cons b bs)
  then have "b div 16 < 16" by (simp add: nibbles)
  with Cons show ?case by (simp add: bytes_hex_Cons hex_digits nibbles(2))
qed (simp add: bytes_hex_def)

lemma bytes_hex_inj:
  assumes "\<forall>b\<in>set as. b < 256" "\<forall>b\<in>set bs. b < 256" "bytes_hex as = bytes_hex bs"
  shows "as = bs"
  using fromhex_hex [OF assms(1)] fromhex_hex [OF assms(2)] assms(3) by (metis option.inject)

lemma bytes_hex_no_dollar: "\<forall>b\<in>set bs. b < 256 \<Longrightarrow> CHR ''$'' \<notin> set (bytes_hex bs)"
proof (induction bs)
  case (Cons b bs)
  then have b: "b div 16 < 16" by (simp add: nibbles)
  have "CHR ''$'' \<notin> set (bytes_hex bs)" using Cons by simp
  then show ?case
    unfolding bytes_hex_Cons using hex_digits(3) [OF b] hex_digits(3) [OF nibbles(2), of b] by (metis set_ConsD)
qed (simp add: bytes_hex_def)

lemma split_once_at: "CHR ''$'' \<notin> set a \<Longrightarrow> split_once (a @ CHR ''$'' # b) = Some (a, b)"
proof -
  assume a: "CHR ''$'' \<notin> set a"
  then have "dropWhile (\<lambda>c. c \<noteq> CHR ''$'') (a @ CHR ''$'' # b) = CHR ''$'' # b"
    "takeWhile (\<lambda>c. c \<noteq> CHR ''$'') (a @ CHR ''$'' # b) = a"
    by (induction a) auto
  then show ?thesis by (simp add: split_once_def)
qed

text \<open>Hashing and checking: a password is accepted exactly when its digest under the salt is the same.\<close>

lemma verify_hashed:
  assumes "\<forall>b\<in>set salt. b < 256" "\<And>pw. \<forall>b\<in>set (scrypt salt pw). b < 256"
  shows "verify_password scrypt given (hash_password scrypt salt password) \<longleftrightarrow> scrypt salt given = scrypt salt password"
proof -
  have "split_once (hash_password scrypt salt password) =
      Some (''scrypt'', bytes_hex salt @ CHR ''$'' # bytes_hex (scrypt salt password))"
    using split_once_at [of "''scrypt''" "bytes_hex salt @ CHR ''$'' # bytes_hex (scrypt salt password)"]
    by (simp add: hash_password_def)
  with split_once_at [OF bytes_hex_no_dollar [OF assms(1)]] fromhex_hex [OF assms(1)]
    bytes_hex_inj [OF assms(2) assms(2)]
  show ?thesis by (auto simp: verify_password_def)
qed

lemma login_cases:
  assumes "authorize_post cfg tc salt code t q email pw cs = (r, cs')"
  shows "(\<exists>msg n. r = ErrorPage msg n) \<and> cs' = cs \<or>
    (\<exists>uri u. r = Redirect uri \<and> find_user email = Some u \<and> valid_auth_request cfg q \<and>
       verify_password (tc_scrypt tc) pw (hash_password (tc_scrypt tc) salt (us_password u)) \<and>
       cs' = AList.update code
               \<lparr>cr_email = us_email u, cr_client_id = aq_client_id q, cr_redirect_uri = aq_redirect_uri q,
                cr_scope = aq_scope q, cr_nonce = aq_nonce q, cr_code_challenge = aq_code_challenge q,
                cr_method = aq_method q, cr_created = t\<rparr> (cleanup_codes cfg t cs))"
  using assms by (auto simp: authorize_post_def split: if_splits option.splits)

lemma cleanup_map_of: "map_of (cleanup_codes cfg t cs) c = Some r \<Longrightarrow> distinct (map fst cs) \<Longrightarrow> map_of cs c = Some r"
proof -
  assume "map_of (cleanup_codes cfg t cs) c = Some r" and d: "distinct (map fst cs)"
  then have "(c, r) \<in> set cs" by (auto simp: cleanup_codes_def dest: map_of_SomeD)
  with d show "map_of cs c = Some r" by simp
qed

lemma cleanup_distinct: "distinct (map fst cs) \<Longrightarrow> distinct (map fst (cleanup_codes cfg t cs))"
  by (simp add: cleanup_codes_def distinct_map_filter)

definition codes_spent :: "oidc_config \<Rightarrow> token_form \<Rightarrow> bool" where
  "codes_spent cfg f \<longleftrightarrow> tf_grant_type f = ''authorization_code''"

text \<open>What a call does to the code it names, and what an answer with tokens rests on.\<close>

lemma call_codes:
  assumes "token_endpoint cfg tc jti t f cs = (r, cs')"
  shows "(cs' = cs \<and> (codes_spent cfg f \<longrightarrow> (\<forall>a. r \<noteq> Inr (Tokens a)))) \<or>
    (codes_spent cfg f \<and> cs' = AList.delete (tf_code f) cs) \<or> (cs' = cs \<and> \<not> codes_spent cfg f)"
  using assms
  by (auto simp: token_endpoint_def codes_spent_def code_grant_def Let_def split: if_splits sum.splits)

lemma check_pkce_ok:
  "check_pkce tc v r = Inr None \<longleftrightarrow>
     cr_code_challenge r = [] \<or>
     (v \<noteq> [] \<and> cr_method r \<in> {[], ''S256''} \<and> tc_s256 tc v = cr_code_challenge r \<and>
      is_ascii (tc_s256 tc v) \<and> is_ascii (cr_code_challenge r))"
  by (auto simp: check_pkce_def bindR_Inr_iff compare_digest_def or_str_def split: if_splits)

lemma code_grant_tokens:
  assumes "token_endpoint cfg tc jti t f cs = (Inr (Tokens a), cs')" "codes_spent cfg f"
  shows "tf_client_id f = oc_client_id cfg \<and>
    (\<exists>r u. map_of cs (tf_code f) = Some r \<and> cr_client_id r = tf_client_id f \<and> cr_redirect_uri r = tf_redirect_uri f \<and>
       check_pkce tc (tf_code_verifier f) r = Inr None \<and> find_user (cr_email r) = Some u \<and>
       ta_access_token a = tc_encode tc (access_payload cfg tc u (tf_client_id f) (cr_nonce r) t) \<and>
       ta_refresh_token a = tc_encode tc (refresh_payload cfg jti (us_email u) (tf_client_id f) t))"
proof -
  have g: "tf_client_id f = oc_client_id cfg" "code_grant cfg tc jti t f cs = (Inr (Tokens a), cs')"
    using assms by (simp_all add: token_endpoint_def codes_spent_def split: if_splits sum.splits)
  then obtain r where r: "map_of cs (tf_code f) = Some r"
    by (cases "map_of cs (tf_code f)") (simp_all add: code_grant_def Let_def invalid_grant_def)
  have m: "cr_client_id r = tf_client_id f" "cr_redirect_uri r = tf_redirect_uri f"
    using g(2) r by (simp_all add: code_grant_def Let_def invalid_grant_def split: if_splits)
  have p: "check_pkce tc (tf_code_verifier f) r = Inr None"
  proof -
    obtain x where x: "check_pkce tc (tf_code_verifier f) r = Inr x"
      using g(2) r m by (auto simp: code_grant_def Let_def bindR_Inr_iff)
    have "x = None \<or> x = Some pkce_failed"
      using x by (auto simp: check_pkce_def bindR_Inr_iff split: if_splits)
    moreover have "x \<noteq> Some pkce_failed"
      using g(2) r m x by (auto simp: code_grant_def Let_def pkce_failed_def invalid_grant_def)
    ultimately show ?thesis using x by blast
  qed
  obtain u where u: "find_user (cr_email r) = Some u"
    using g(2) r m p by (cases "find_user (cr_email r)") (simp_all add: code_grant_def Let_def invalid_grant_def)
  have "a = \<lparr>ta_access_token = tc_encode tc (access_payload cfg tc u (tf_client_id f) (cr_nonce r) t),
      ta_expires_in = oc_access_minutes cfg * 60,
      ta_refresh_token = tc_encode tc (refresh_payload cfg jti (us_email u) (tf_client_id f) t), ta_scope = cr_scope r\<rparr>"
    using g(2) r m p u by (simp add: code_grant_def Let_def)
  with g(1) r m p u show ?thesis by simp
qed

text \<open>The entry is a login that gave the code with the record, for the user it names.\<close>

definition login_behind ::
  "oidc_config \<Rightarrow> token_crypto \<Rightarrow> string \<Rightarrow> code_record \<Rightarrow> oidc_request \<times> oidc_response result \<Rightarrow> bool" where
  "login_behind cfg tc c r e \<longleftrightarrow>
     (\<exists>salt q email pw uri u.
        e = (Login salt c (cr_created r) q email pw, Inr (Redirect uri)) \<and>
        find_user email = Some u \<and> cr_email r = us_email u \<and> valid_auth_request cfg q \<and>
        verify_password (tc_scrypt tc) pw (hash_password (tc_scrypt tc) salt (us_password u)) \<and>
        cr_client_id r = aq_client_id q \<and> cr_redirect_uri r = aq_redirect_uri q \<and>
        cr_code_challenge r = aq_code_challenge q \<and> cr_method r = aq_method q)"

definition exchanges :: "oidc_config \<Rightarrow> string \<Rightarrow> oidc_request \<times> oidc_response result \<Rightarrow> bool" where
  "exchanges cfg c e \<longleftrightarrow>
     (\<exists>jti t f a. e = (Call jti t f, Inr (Tokens a)) \<and> codes_spent cfg f \<and> tf_code f = c)"

text \<open>A record the provider holds stems from a login whose code has not been exchanged since.\<close>

definition stems_from_login ::
  "oidc_config \<Rightarrow> token_crypto \<Rightarrow> (oidc_request \<times> oidc_response result) list \<Rightarrow> string \<Rightarrow> code_record \<Rightarrow> bool" where
  "stems_from_login cfg tc h c r \<longleftrightarrow>
     (\<exists>pre e post. h = pre @ e # post \<and> login_behind cfg tc c r e \<and> \<not> list_ex (exchanges cfg c) post)"

lemma stems_snoc:
  assumes "stems_from_login cfg tc h c r" "\<not> exchanges cfg c e"
  shows "stems_from_login cfg tc (h @ [e]) c r"
  using assms unfolding stems_from_login_def
  by (metis append_Cons append.assoc list_ex_append list_ex_iff empty_iff list.set(1) set_ConsD)

lemma provider_codes:
  "provider cfg tc h cs \<Longrightarrow>
     distinct (map fst cs) \<and> (\<forall>c r. map_of cs c = Some r \<longrightarrow> stems_from_login cfg tc h c r)"
proof (induction rule: provider.induct)
  case (login h cs salt code t q email pw r cs')
  let ?e = "(Login salt code t q email pw, Inr r)"
  have no: "\<not> exchanges cfg c ?e" for c by (simp add: exchanges_def)
  from login_cases [OF login(2)] show ?case
  proof (elim disjE exE conjE)
    fix msg n assume "cs' = cs"
    with login(3) stems_snoc [OF _ no] show ?thesis by auto
  next
    fix uri and u :: user
    let ?rec = "\<lparr>cr_email = us_email u, cr_client_id = aq_client_id q, cr_redirect_uri = aq_redirect_uri q,
      cr_scope = aq_scope q, cr_nonce = aq_nonce q, cr_code_challenge = aq_code_challenge q,
      cr_method = aq_method q, cr_created = t\<rparr>"
    assume r: "r = Redirect uri" and ok: "find_user email = Some u" "valid_auth_request cfg q"
      "verify_password (tc_scrypt tc) pw (hash_password (tc_scrypt tc) salt (us_password u))"
      and cs': "cs' = AList.update code ?rec (cleanup_codes cfg t cs)"
    have "login_behind cfg tc code ?rec ?e" by (simp add: login_behind_def r ok)
    then have new: "stems_from_login cfg tc (h @ [?e]) code ?rec"
      unfolding stems_from_login_def by (intro exI [of _ h] exI [of _ ?e] exI [of _ "[]"]) simp
    have old: "stems_from_login cfg tc (h @ [?e]) c x" if "map_of (cleanup_codes cfg t cs) c = Some x" for c x
      using cleanup_map_of [OF that] login(3) stems_snoc [OF _ no] by blast
    show ?thesis
      using login(3) new old by (auto simp: cs' update_conv' distinct_update cleanup_distinct)
  qed
next
  case (call h cs jti t f r cs')
  let ?e = "(Call jti t f, r)"
  have IH: "distinct (map fst cs)" "\<And>c x. map_of cs c = Some x \<Longrightarrow> stems_from_login cfg tc h c x"
    using call(3) by auto
  from call_codes [OF call(2)] show ?case
  proof (elim disjE conjE)
    assume cs': "cs' = cs" and "codes_spent cfg f \<longrightarrow> (\<forall>a. r \<noteq> Inr (Tokens a))"
    then have "\<not> exchanges cfg c ?e" for c by (auto simp: exchanges_def)
    from stems_snoc [OF _ this] IH show ?thesis by (simp add: cs')
  next
    assume cs': "cs' = AList.delete (tf_code f) cs"
    have "\<not> exchanges cfg c ?e" if "c \<noteq> tf_code f" for c using that by (auto simp: exchanges_def)
    from stems_snoc [OF _ this] IH show ?thesis
      by (auto simp: cs' delete_conv' distinct_delete split: if_splits)
  next
    assume cs': "cs' = cs" and "\<not> codes_spent cfg f"
    then have "\<not> exchanges cfg c ?e" for c by (auto simp: exchanges_def)
    from stems_snoc [OF _ this] IH show ?thesis by (simp add: cs')
  qed
qed simp

text \<open>The claims the agent service reads of a token.\<close>

definition claims_of :: "token_payload \<Rightarrow> claims" where
  "claims_of p =
     \<lparr>cl_site_id = tp_site_id p, cl_roles = map_option RoleList (tp_roles p),
      cl_preferred_username = tp_preferred_username p, cl_name = tp_name p, cl_sub = tp_sub p, cl_iss = tp_iss p\<rparr>"

lemma find_user_mem: "find_user email = Some u \<Longrightarrow> u \<in> set users"
  unfolding find_user_def by (metis find_Some_iff nth_mem)

lemma find_user_facts: "find_user email = Some u \<Longrightarrow> us_role u \<noteq> [] \<and> us_site u \<noteq> [] \<and> us_email u \<noteq> []"
proof -
  have "\<forall>u\<in>set users. us_role u \<noteq> [] \<and> us_site u \<noteq> [] \<and> us_email u \<noteq> []" by code_simp
  then show "find_user email = Some u \<Longrightarrow> ?thesis" using find_user_mem by blast
qed

definition sample_tokens :: token_crypto where
  "sample_tokens =
     \<lparr>tc_encode = (\<lambda>p. or_str (tp_typ p) ''access''), tc_decode = (\<lambda>raw aud t. None), tc_s256 = (\<lambda>v. v),
      tc_oid = (\<lambda>x. x), tc_scrypt = (\<lambda>salt pw. map of_char pw)\<rparr>"

definition sample_auth :: auth_request where
  "sample_auth =
     \<lparr>aq_response_type = ''code'', aq_client_id = ''processguard-frontend'',
      aq_redirect_uri = ''http://localhost:8090/dev/callback'', aq_scope = ''openid'', aq_state = ''s'',
      aq_nonce = [], aq_code_challenge = [], aq_method = []\<rparr>"

definition sample_code :: code_record where
  "sample_code =
     \<lparr>cr_email = ''manager@site12.demo'', cr_client_id = ''processguard-frontend'',
      cr_redirect_uri = ''http://localhost:8090/dev/callback'', cr_scope = ''openid'', cr_nonce = [],
      cr_code_challenge = [], cr_method = [], cr_created = 0\<rparr>"

definition sample_form :: token_form where
  "sample_form =
     \<lparr>tf_grant_type = ''authorization_code'', tf_client_id = ''processguard-frontend'', tf_client_secret = [],
      tf_code = ''c1'', tf_redirect_uri = ''http://localhost:8090/dev/callback'', tf_code_verifier = [],
      tf_refresh_token = []\<rparr>"

lemma sample_user: "\<exists>u. find_user ''manager@site12.demo'' = Some u \<and> us_role u = ''PlantManager'' \<and>
    us_password u = ''manager-pass'' \<and> us_site u = site_12_id \<and> us_email u = ''manager@site12.demo''"
proof -
  have "py_lower (py_strip ''manager@site12.demo'') = ''manager@site12.demo''" by code_simp
  then show ?thesis by (simp add: find_user_def users_def)
qed

lemma sample_login_answer:
  "\<exists>uri. authorize_post default_oidc_config sample_tokens [] ''c1'' 0 sample_auth ''manager@site12.demo''
      ''manager-pass'' [] = (Redirect uri, [(''c1'', sample_code)])"
proof -
  have ok: "valid_auth_request default_oidc_config sample_auth" by code_simp
  obtain u where u: "find_user ''manager@site12.demo'' = Some u" "us_password u = ''manager-pass''"
    "us_email u = ''manager@site12.demo''" using sample_user by blast
  have "verify_password (tc_scrypt sample_tokens) ''manager-pass''
      (hash_password (tc_scrypt sample_tokens) [] ''manager-pass'')" by code_simp
  with ok u show ?thesis
    by (simp add: authorize_post_def cleanup_codes_def sample_code_def) (simp add: sample_auth_def)
qed

lemma sample_exchange:
  "\<exists>a. token_endpoint default_oidc_config sample_tokens ''j'' t sample_form [(''c1'', sample_code)] =
     (Inr (Tokens a), [])"
proof -
  obtain u where u: "find_user ''manager@site12.demo'' = Some u" using sample_user by blast
  then show ?thesis
    by (simp add: token_endpoint_def code_grant_def check_pkce_def sample_form_def sample_code_def
        default_oidc_config_def Let_def)
qed

section \<open>Properties\<close>

text \<open>
  C12. However the provider is used, tokens come out of the code grant only after a login: when a
  request is answered with tokens, the history holds a login that was given this code, with the
  password of the user the tokens are for, for the same client and redirect address, with the
  S256 challenge that the verifier answers (or none), and between the two no other request was
  answered with tokens for the code.
\<close>

theorem tokens_follow_a_login:
  assumes "provider cfg tc h cs" "token_endpoint cfg tc jti t f cs = (Inr (Tokens a), cs')"
    "tf_grant_type f = ''authorization_code''"
  shows "\<exists>pre post salt t0 q email pw uri u.
    h = pre @ (Login salt (tf_code f) t0 q email pw, Inr (Redirect uri)) # post \<and>
    find_user email = Some u \<and>
    verify_password (tc_scrypt tc) pw (hash_password (tc_scrypt tc) salt (us_password u)) \<and>
    aq_client_id q = tf_client_id f \<and> tf_client_id f = oc_client_id cfg \<and>
    aq_redirect_uri q = tf_redirect_uri f \<and> allowed_redirect cfg (aq_redirect_uri q) \<and>
    (aq_code_challenge q = [] \<or> tc_s256 tc (tf_code_verifier f) = aq_code_challenge q) \<and>
    (\<exists>nonce. ta_access_token a = tc_encode tc (access_payload cfg tc u (tf_client_id f) nonce t)) \<and>
    \<not> (\<exists>jti' t' f' a'. (Call jti' t' f', Inr (Tokens a')) \<in> set post \<and>
         tf_grant_type f' = ''authorization_code'' \<and> tf_code f' = tf_code f)"
proof -
  have sp: "codes_spent cfg f" using assms(3) by (simp add: codes_spent_def)
  from code_grant_tokens [OF assms(2) sp] obtain r u where
    r: "tf_client_id f = oc_client_id cfg" "map_of cs (tf_code f) = Some r" "cr_client_id r = tf_client_id f"
      "cr_redirect_uri r = tf_redirect_uri f" "check_pkce tc (tf_code_verifier f) r = Inr None"
      "find_user (cr_email r) = Some u"
      "ta_access_token a = tc_encode tc (access_payload cfg tc u (tf_client_id f) (cr_nonce r) t)" by blast
  from provider_codes [OF assms(1)] r(2) obtain pre e post where
    e: "h = pre @ e # post" "login_behind cfg tc (tf_code f) r e" "\<not> list_ex (exchanges cfg (tf_code f)) post"
    unfolding stems_from_login_def by blast
  from e(2) obtain salt q email pw uri u' where
    l: "e = (Login salt (tf_code f) (cr_created r) q email pw, Inr (Redirect uri))" "find_user email = Some u'"
      "cr_email r = us_email u'" "valid_auth_request cfg q"
      "verify_password (tc_scrypt tc) pw (hash_password (tc_scrypt tc) salt (us_password u'))"
      "cr_client_id r = aq_client_id q" "cr_redirect_uri r = aq_redirect_uri q"
      "cr_code_challenge r = aq_code_challenge q" unfolding login_behind_def by blast
  have same: "u' = u"
  proof -
    have "u' \<in> set users" by (rule find_user_mem [OF l(2)])
    moreover have "\<forall>v\<in>set users. find_user (us_email v) = Some v" by code_simp
    ultimately show ?thesis using r(6) l(3) by simp
  qed
  have pk: "aq_code_challenge q = [] \<or> tc_s256 tc (tf_code_verifier f) = aq_code_challenge q"
    using r(5) l(8) by (auto simp: check_pkce_ok)
  have once: "\<not> (\<exists>jti' t' f' a'. (Call jti' t' f', Inr (Tokens a')) \<in> set post \<and>
         tf_grant_type f' = ''authorization_code'' \<and> tf_code f' = tf_code f)"
    using e(3) by (auto simp: list_ex_iff exchanges_def codes_spent_def)
  have redir: "allowed_redirect cfg (aq_redirect_uri q)" using l(4) by (simp add: valid_auth_request_def)
  show ?thesis
    by (rule exI [of _ pre], rule exI [of _ post], rule exI [of _ salt], rule exI [of _ "cr_created r"],
        rule exI [of _ q], rule exI [of _ email], rule exI [of _ pw], rule exI [of _ uri], rule exI [of _ u])
      (use e(1) l r pk once redir same in auto)
qed

theorem tokens_follow_a_login_witness:
  "\<exists>h cs pre post salt t0 q email pw uri. provider default_oidc_config sample_tokens h cs \<and>
     h = pre @ (Login salt ''c1'' t0 q email pw, Inr (Redirect uri)) # post"
proof -
  obtain uri where l: "authorize_post default_oidc_config sample_tokens [] ''c1'' 0 sample_auth ''manager@site12.demo''
      ''manager-pass'' [] = (Redirect uri, [(''c1'', sample_code)])" using sample_login_answer by blast
  note h = login [OF start l]
  obtain a where a: "token_endpoint default_oidc_config sample_tokens ''j'' 60000000 sample_form [(''c1'', sample_code)] =
     (Inr (Tokens a), [])" using sample_exchange by blast
  have g: "tf_grant_type sample_form = ''authorization_code''" "tf_code sample_form = ''c1''"
    by (simp_all add: sample_form_def)
  from tokens_follow_a_login [OF h a g(1)] h show ?thesis unfolding g(2) by blast
qed



text \<open>
  A code is good for longer than its lifetime: expired codes are only dropped when the next user
  logs in.  Under the default configuration a code is exchanged an hour after it was given,
  although its lifetime is two minutes.
\<close>

theorem expired_code_is_exchanged:
  "\<exists>uri cs a. authorize_post default_oidc_config sample_tokens [] ''c1'' 0 sample_auth ''manager@site12.demo''
       ''manager-pass'' [] = (Redirect uri, cs) \<and>
     token_endpoint default_oidc_config sample_tokens ''j'' (3600 * 1000000) sample_form cs = (Inr (Tokens a), []) \<and>
     oc_code_ttl default_oidc_config = 120"
  using sample_login_answer sample_exchange [of "3600 * 1000000"] by (fastforce simp: default_oidc_config_def)

end
