(* ===== verification/Ask.thy ===== *)
theory Ask
  imports IncidentsApi RootCauseParser
begin

text \<open>
  The grounded questions (\<open>app/api/ask.py\<close>): the context built from the record of one
  incident, one call of the model, the check of every bullet line with the Root-Cause Agent's
  citation checker, and the endpoint with its guards.  The model is a parameter on the user prompt
  (the system prompt is a constant text), and so are Python's renderings of floats, dates and
  symptoms; the en dash and the bullet sign U+2022 are outside the model's characters, the dash is
  part of the renderings.
\<close>

section \<open>The context\<close>

record renderings =
  rd_real :: "real \<Rightarrow> string"
  rd_date :: "time \<Rightarrow> string"
  rd_symptoms :: "symptoms \<Rightarrow> string"
  rd_dash :: string

text \<open>An f-string prints a missing value as \<open>None\<close>.\<close>

definition or_none :: "('a \<Rightarrow> string) \<Rightarrow> 'a option \<Rightarrow> string" where
  "or_none f x = (case x of None \<Rightarrow> ''None'' | Some y \<Rightarrow> f y)"

definition sensor_context :: "renderings \<Rightarrow> sensor_entry \<Rightarrow> string" where
  "sensor_context r s =
     ''- sensor: '' @ or_none id (se_sensor_type s) @ '' value='' @ rd_real r (se_value s) @ se_unit s @
     '' (normal '' @ or_none (rd_real r) (se_normal_min s) @ rd_dash r @ or_none (rd_real r) (se_normal_max s) @
     ''; '' @ or_str (se_reason s) ''outside normal range'' @ '')''"

definition anomaly_context :: "renderings \<Rightarrow> sensor_entry list \<Rightarrow> string list" where
  "anomaly_context r ss =
     [''DETECTED ANOMALY (as recorded at detection time):''] @
     (if ss = [] then [''- (summary unavailable)''] else map (sensor_context r) ss)"

definition root_cause_context :: "root_cause_view option \<Rightarrow> string list" where
  "root_cause_context rc =
     [''RECORDED ROOT CAUSE:''] @
     (case rc of
        Some v \<Rightarrow>
          if rc_hypothesis v = [] then [''- (diagnosis not complete yet)'']
          else (''- '' @ rc_hypothesis v @ '' (confidence '' @ or_none int_str (rc_confidence v) @ ''%)'') #
               map (\<lambda>p. ''  - '' @ cp_text p) (or_list (rc_cited v))
      | None \<Rightarrow> [''- (diagnosis not complete yet)''])"

definition sop_context :: "renderings \<Rightarrow> sop_chunk \<Rightarrow> string" where
  "sop_context r c =
     ''- SOP ['' @ sc_doc_id c @ ''] '' @ sc_title c @ '' -- '' @ sc_section c @ '' (score '' @ rd_real r (sc_score c) @
     ''): '' @ take 280 (sc_excerpt c)"

definition history_context :: "renderings \<Rightarrow> history_match \<Rightarrow> string" where
  "history_context r h =
     ''- HIST ['' @ hm_source h @ ''] '' @ hm_equipment_name h @ '' ('' @ take 10 (rd_date r (hm_occurred_at h)) @
     ''): symptoms='' @ rd_symptoms r (hm_symptoms h) @ ''; root cause: '' @ hm_root_cause h @
     ''; resolution: '' @ hm_resolution h"

definition evidence_context :: "renderings \<Rightarrow> sop_chunk list \<Rightarrow> history_match list \<Rightarrow> string list" where
  "evidence_context r cs hs =
     [''RECORDED EVIDENCE:''] @ map (sop_context r) cs @ map (history_context r) hs @
     (if cs = [] \<and> hs = [] then [''- (none yet)''] else [])"

definition risk_context :: "risk_view option \<Rightarrow> string list" where
  "risk_context k =
     [''RISK ASSESSMENT:''] @
     (case k of
        Some v \<Rightarrow>
          if rk_severity v = [] then [''- (not assessed yet)'']
          else [''- severity '' @ rk_severity v @ '', HITL level '' @ or_none int_str (rk_level v) @ '' (consequences: '' @
                or_str (Some (py_join '', '' (map (\<lambda>c. or_str (Some (cq_consequence c)) ''?'') (or_list (rk_consequences v)))))
                  ''(none listed)'' @ '')'']
      | None \<Rightarrow> [''- (not assessed yet)''])"

text \<open>An action that is a text and not an object has no \<open>get\<close>.\<close>

fun action_lines :: "json_action list \<Rightarrow> string list result" where
  "action_lines [] = Inr []"
| "action_lines (ActText s # as) = Inl (OtherError ''AttributeError'')"
| "action_lines (ActDict a # as) =
     bindR (action_lines as) (\<lambda>ls. Inr ((''  - action: '' @ or_str (ra_action a) ''?'') # ls))"

definition recommendation_context :: "recommendation_view option \<Rightarrow> string list result" where
  "recommendation_context x =
     (case x of
        Some v \<Rightarrow>
          if truthy_str (rv_rationale v) \<or> rv_actions v \<noteq> [] then
            bindR (action_lines (rv_actions v)) (\<lambda>ls.
              Inr ([''RECOMMENDATION:'', ''- rationale: '' @ or_str (rv_rationale v) ''(none)''] @ ls))
          else Inr [''RECOMMENDATION:'', ''- (not generated yet)'']
      | None \<Rightarrow> Inr [''RECOMMENDATION:'', ''- (not generated yet)''])"

definition recorded_sensors :: "incident_view \<Rightarrow> sensor_entry list" where
  "recorded_sensors v = (case iv_summary v of None \<Rightarrow> [] | Some s \<Rightarrow> su_sensors s)"

definition recorded_chunks :: "incident_view \<Rightarrow> sop_chunk list" where
  "recorded_chunks v = (case iv_retrieved v of None \<Rightarrow> [] | Some e \<Rightarrow> ev_sop_chunks e)"

definition recorded_history :: "incident_view \<Rightarrow> history_match list" where
  "recorded_history v = (case iv_retrieved v of None \<Rightarrow> [] | Some e \<Rightarrow> ev_matched_history e)"

definition build_context :: "renderings \<Rightarrow> incident_view \<Rightarrow> string result" where
  "build_context r v =
     bindR (recommendation_context (iv_recommendation v)) (\<lambda>ls. Inr (py_join newline
       (anomaly_context r (recorded_sensors v) @ [[]] @ root_cause_context (iv_root_cause v) @ [[]] @
        evidence_context r (recorded_chunks v) (recorded_history v) @ [[]] @ risk_context (iv_risk v) @ [[]] @ ls)))"

definition ask_prompt :: "string \<Rightarrow> string \<Rightarrow> string" where
  "ask_prompt ctx question =
     ''INCIDENT CONTEXT (the ONLY material you may use):'' @ newline @ ctx @ newline @ newline @
     ''OPERATOR QUESTION: '' @ question @ newline @
     ''If this question cannot be answered from the context above, reply with exactly: '' @ [CHR 0x22] @
     ''I don'' @ [CHR 0x27] @ ''t have evidence for that.'' @ [CHR 0x22]"

section \<open>The answer\<close>

definition max_question_chars :: nat where
  "max_question_chars = 500"

definition max_answer_chars :: nat where
  "max_answer_chars = 1500"

definition declining :: string where
  "declining = ''i don'' @ [CHR 0x27] @ ''t have evidence''"

definition insufficient_answer :: string where
  "insufficient_answer = ''I don'' @ [CHR 0x27] @ ''t have evidence for that.''"

record ask_answer =
  aq_question :: string
  aq_answer :: string
  aq_citations :: "cited_point list"
  aq_grounded :: bool
  aq_model :: string
  aq_provider :: string
  aq_asked_at :: "time option"

definition no_evidence_answer :: "string \<Rightarrow> ask_answer" where
  "no_evidence_answer q =
     \<lparr>aq_question = q, aq_answer = insufficient_answer, aq_citations = [], aq_grounded = False,
      aq_model = ''none'', aq_provider = ''none'', aq_asked_at = None\<rparr>"

text \<open>The claim of a bullet line, if the line is one and claims something.\<close>

definition ask_bullet :: "string \<Rightarrow> string option" where
  "ask_bullet line =
     (let s = py_strip line in
      if s = [] \<or> hd s \<notin> {CHR ''-'', CHR ''*''} then None
      else (let p = py_strip (dropWhile (\<lambda>c. c \<in> {CHR ''-'', CHR ''*'', CHR '' ''}) s)
            in if p = [] then None else Some p))"

definition claims_of :: "string \<Rightarrow> string list" where
  "claims_of answer = List.map_filter ask_bullet (splitlines answer)"

definition check_claim :: "incident_view \<Rightarrow> string \<Rightarrow> (string \<times> string) option" where
  "check_claim v point = validate_point point (recorded_sensors v) (recorded_chunks v) (recorded_history v)"

definition cite :: "incident_view \<Rightarrow> string \<Rightarrow> cited_point option" where
  "cite v point = map_option (\<lambda>(ty, ref). \<lparr>cp_type = ty, cp_ref = ref, cp_text = point\<rparr>) (check_claim v point)"

record ask_env =
  ak_llm :: "string \<Rightarrow> llm_response result"
  ak_provider :: string
  ak_render :: renderings

definition judge_answer :: "string \<Rightarrow> incident_view \<Rightarrow> string \<Rightarrow> llm_response \<Rightarrow> ask_answer" where
  "judge_answer provider v q r =
     (let answer = py_strip (lr_content r) in
      if py_startswith (py_lower answer) declining then no_evidence_answer q
      else
        (let points = claims_of answer; cited = List.map_filter (cite v) points in
         if \<exists>p\<in>set points. check_claim v p = None then no_evidence_answer q
         else \<lparr>aq_question = q, aq_answer = take max_answer_chars answer, aq_citations = cited,
               aq_grounded = (cited \<noteq> []), aq_model = lr_model r, aq_provider = provider, aq_asked_at = None\<rparr>))"

definition grounded_answer :: "ask_env \<Rightarrow> incident_view \<Rightarrow> string \<Rightarrow> ask_answer result" where
  "grounded_answer env v q =
     bindR (build_context (ak_render env) v) (\<lambda>ctx.
       bindR (ak_llm env (ask_prompt ctx q)) (\<lambda>r. Inr (judge_answer (ak_provider env) v q r)))"

section \<open>The endpoint\<close>

definition question_required :: exc where
  "question_required = HttpError 422 ''question is required''"

definition question_too_long :: exc where
  "question_too_long = HttpError 422 (''question must be <= '' @ nat_str max_question_chars @ '' characters'')"

definition asked_question :: "string option \<Rightarrow> string result" where
  "asked_question body =
     (let q = py_strip (or_str body []) in
      if q = [] then Inl question_required
      else if length q > max_question_chars then Inl question_too_long else Inr q)"

definition ask_about_incident ::
  "rbac_policy \<Rightarrow> ask_env \<Rightarrow> string \<Rightarrow> string option \<Rightarrow> time \<Rightarrow> principal \<Rightarrow> db \<Rightarrow> ask_answer result" where
  "ask_about_incident pol env i body t p d =
     bindR (ensure_role p (rp_chat_roles pol) ''use grounded Q&A'') (\<lambda>_.
       bindR (get_incident_by_id i p d) (\<lambda>v.
         bindR (asked_question body) (\<lambda>q.
           bindR (grounded_answer env (id_incident v) q) (\<lambda>a. Inr (a\<lparr>aq_asked_at := Some t\<rparr>)))))"

section \<open>Facts\<close>

lemma py_in_join: "py_in p l \<Longrightarrow> l \<in> set ls \<Longrightarrow> py_in p (py_join sep ls)"
proof (induction sep ls rule: py_join.induct)
  case (3 sep s u r)
  show ?case
  proof (cases "l = s")
    case True
    with 3(2) py_in_append [of p s "[]" "sep @ py_join sep (u # r)"] show ?thesis by simp
  next
    case False
    with 3 have "py_in p (py_join sep (u # r))" by auto
    with py_in_append [of p "py_join sep (u # r)" "s @ sep" "[]"] show ?thesis by simp
  qed
qed simp_all

text \<open>The reference of a citation stands in the context the model was given.\<close>

definition shown_in :: "string \<Rightarrow> cited_point \<Rightarrow> bool" where
  "shown_in ctx c \<longleftrightarrow>
     (cp_type c = ''sensor'' \<and> py_in (''- sensor: '' @ cp_ref c) ctx) \<or>
     (cp_type c = ''sop'' \<and> py_in (''SOP ['' @ cp_ref c @ '']'') ctx) \<or>
     (cp_type c = ''history'' \<and> py_in (''HIST ['' @ cp_ref c @ '']'') ctx)"

lemma sensor_shown:
  assumes "s \<in> set ss" "se_sensor_type s = Some ty"
  shows "\<exists>l\<in>set (anomaly_context r ss). py_in (''- sensor: '' @ ty) l"
proof -
  have "\<exists>b. sensor_context r s = [] @ (''- sensor: '' @ ty) @ b"
    by (simp add: sensor_context_def or_none_def assms(2))
  then have "py_in (''- sensor: '' @ ty) (sensor_context r s)" unfolding py_in_iff by blast
  with assms(1) show ?thesis by (auto simp: anomaly_context_def)
qed

lemma chunk_shown:
  assumes "c \<in> set cs"
  shows "\<exists>l\<in>set (evidence_context r cs hs). py_in (''SOP ['' @ sc_doc_id c @ '']'') l"
proof -
  have "\<exists>b. sop_context r c = ''- '' @ (''SOP ['' @ sc_doc_id c @ '']'') @ b" by (simp add: sop_context_def)
  then have "py_in (''SOP ['' @ sc_doc_id c @ '']'') (sop_context r c)" unfolding py_in_iff by blast
  with assms show ?thesis by (auto simp: evidence_context_def)
qed

lemma history_shown:
  assumes "h \<in> set hs"
  shows "\<exists>l\<in>set (evidence_context r cs hs). py_in (''HIST ['' @ hm_source h @ '']'') l"
proof -
  have "\<exists>b. history_context r h = ''- '' @ (''HIST ['' @ hm_source h @ '']'') @ b" by (simp add: history_context_def)
  then have "py_in (''HIST ['' @ hm_source h @ '']'') (history_context r h)" unfolding py_in_iff by blast
  with assms show ?thesis by (auto simp: evidence_context_def)
qed

lemma grounded_is_shown:
  assumes "build_context r v = Inr ctx" "grounded (recorded_sensors v) (recorded_chunks v) (recorded_history v) c"
  shows "shown_in ctx c"
proof -
  let ?a = "anomaly_context r (recorded_sensors v)"
  let ?e = "evidence_context r (recorded_chunks v) (recorded_history v)"
  from assms(1) obtain ls where ctx: "ctx = py_join newline
      (?a @ [[]] @ root_cause_context (iv_root_cause v) @ [[]] @ ?e @ [[]] @ risk_context (iv_risk v) @ [[]] @ ls)"
    by (auto simp: build_context_def bindR_Inr_iff)
  have seen: "py_in p ctx" if "py_in p l" "l \<in> set ?a \<union> set ?e" for p l
    using that unfolding ctx by (intro py_in_join [of p l]) auto
  consider x where "cp_type c = ''sensor''" "x \<in> set (recorded_sensors v)" "se_sensor_type x = Some (cp_ref c)"
    | x where "cp_type c = ''sop''" "x \<in> set (recorded_chunks v)" "sc_doc_id x = cp_ref c"
    | x where "cp_type c = ''history''" "x \<in> set (recorded_history v)" "hm_source x = cp_ref c"
    using assms(2) unfolding grounded_def Let_def by blast
  then show ?thesis
  proof cases
    case 1
    with sensor_shown [OF 1(2,3)] seen show ?thesis unfolding shown_in_def by blast
  next
    case 2
    with chunk_shown [OF 2(2)] seen show ?thesis unfolding shown_in_def by (metis UnCI)
  next
    case 3
    with history_shown [OF 3(2)] seen show ?thesis unfolding shown_in_def by (metis UnCI)
  qed
qed

lemma judged_answer:
  "judge_answer provider v q r = no_evidence_answer q \<or>
   (aq_question (judge_answer provider v q r) = q \<and>
    aq_answer (judge_answer provider v q r) = take max_answer_chars (py_strip (lr_content r)) \<and>
    map cp_text (aq_citations (judge_answer provider v q r)) = claims_of (py_strip (lr_content r)) \<and>
    aq_grounded (judge_answer provider v q r) = (aq_citations (judge_answer provider v q r) \<noteq> []) \<and>
    list_all (grounded (recorded_sensors v) (recorded_chunks v) (recorded_history v))
      (aq_citations (judge_answer provider v q r)))"
proof -
  let ?ps = "claims_of (py_strip (lr_content r))"
  have "List.map_filter (cite v) ?ps = map (\<lambda>p. the (cite v p)) ?ps \<and>
      map cp_text (map (\<lambda>p. the (cite v p)) ?ps) = ?ps \<and>
      list_all (grounded (recorded_sensors v) (recorded_chunks v) (recorded_history v)) (map (\<lambda>p. the (cite v p)) ?ps)"
    if ok: "\<not> (\<exists>p\<in>set ?ps. check_claim v p = None)"
  proof -
    have each: "cite v p \<noteq> None \<and> cp_text (the (cite v p)) = p \<and>
        grounded (recorded_sensors v) (recorded_chunks v) (recorded_history v) (the (cite v p))" if "p \<in> set ?ps" for p
      using ok that validate_point_grounded [of p] by (fastforce simp: cite_def check_claim_def)
    then have "List.map_filter (cite v) ?ps = map (\<lambda>p. the (cite v p)) ?ps" by (intro map_filter_all) auto
    moreover from each have "map cp_text (map (\<lambda>p. the (cite v p)) ?ps) = ?ps" by (auto intro: map_idI)
    ultimately show ?thesis using each by (simp add: list_all_iff)
  qed
  then show ?thesis unfolding judge_answer_def Let_def by auto
qed

lemma ask_ok:
  assumes "ask_about_incident pol env i body t p d = Inr a"
  obtains v q ctx r where "role_of p \<in> set (rp_chat_roles pol)" "get_incident i d = Some v"
    "py_lower (iv_site_id (id_incident v)) = py_lower (site_id p)" "asked_question body = Inr q"
    "build_context (ak_render env) (id_incident v) = Inr ctx" "ak_llm env (ask_prompt ctx q) = Inr r"
    "a = (judge_answer (ak_provider env) (id_incident v) q r)\<lparr>aq_asked_at := Some t\<rparr>"
  using assms
  by (auto simp: ask_about_incident_def ensure_role_def bindR_Inr_iff get_incident_by_id_ok grounded_answer_def
      split: if_splits)

lemma asked_question_ok: "asked_question body = Inr q \<Longrightarrow> q \<noteq> [] \<and> length q \<le> max_question_chars"
  by (auto simp: asked_question_def Let_def split: if_splits)

section \<open>Properties\<close>

text \<open>
  C21. An answer to a question is grounded in the incident's record.  Every answer the endpoint gives is
  to a principal with a chat role at the incident's site, for a question of 1 to 500 characters, and
  has at most 1500 characters; it is the fixed sentence without a citation, or the model's answer,
  whose bullet claims are exactly the citations, and every citation is grounded in the recorded
  sensors, documents and matched incidents and refers to what the model was shown.
\<close>

theorem ask_answer_is_grounded:
  assumes "ask_about_incident pol env i body t p d = Inr a"
  shows "\<exists>v. get_incident i d = Some v \<and> role_of p \<in> set (rp_chat_roles pol) \<and>
    py_lower (iv_site_id (id_incident v)) = py_lower (site_id p) \<and>
    aq_question a \<noteq> [] \<and> length (aq_question a) \<le> 500 \<and> length (aq_answer a) \<le> 1500 \<and>
    aq_grounded a = (aq_citations a \<noteq> []) \<and>
    ((aq_answer a = insufficient_answer \<and> aq_citations a = []) \<or>
     (\<exists>ctx r. build_context (ak_render env) (id_incident v) = Inr ctx \<and>
        ak_llm env (ask_prompt ctx (aq_question a)) = Inr r \<and>
        aq_answer a = take 1500 (py_strip (lr_content r)) \<and>
        map cp_text (aq_citations a) = claims_of (py_strip (lr_content r)) \<and>
        list_all (\<lambda>c. grounded (recorded_sensors (id_incident v)) (recorded_chunks (id_incident v))
          (recorded_history (id_incident v)) c \<and> shown_in ctx c) (aq_citations a)))"
proof -
  from assms obtain v q ctx r where ok: "role_of p \<in> set (rp_chat_roles pol)" "get_incident i d = Some v"
    "py_lower (iv_site_id (id_incident v)) = py_lower (site_id p)" "asked_question body = Inr q"
    "build_context (ak_render env) (id_incident v) = Inr ctx" "ak_llm env (ask_prompt ctx q) = Inr r"
    and a: "a = (judge_answer (ak_provider env) (id_incident v) q r)\<lparr>aq_asked_at := Some t\<rparr>"
    by (rule ask_ok)
  from asked_question_ok [OF ok(4)] have q: "q \<noteq> []" "length q \<le> 500" by (simp_all add: max_question_chars_def)
  have short: "length insufficient_answer \<le> 1500" by (simp add: insufficient_answer_def)
  from judged_answer [of "ak_provider env" "id_incident v" q r] show ?thesis
  proof
    assume "judge_answer (ak_provider env) (id_incident v) q r = no_evidence_answer q"
    with a ok q short show ?thesis by (simp add: no_evidence_answer_def)
  next
    assume "aq_question (judge_answer (ak_provider env) (id_incident v) q r) = q \<and>
      aq_answer (judge_answer (ak_provider env) (id_incident v) q r) = take max_answer_chars (py_strip (lr_content r)) \<and>
      map cp_text (aq_citations (judge_answer (ak_provider env) (id_incident v) q r)) = claims_of (py_strip (lr_content r)) \<and>
      aq_grounded (judge_answer (ak_provider env) (id_incident v) q r) =
        (aq_citations (judge_answer (ak_provider env) (id_incident v) q r) \<noteq> []) \<and>
      list_all (grounded (recorded_sensors (id_incident v)) (recorded_chunks (id_incident v))
        (recorded_history (id_incident v))) (aq_citations (judge_answer (ak_provider env) (id_incident v) q r))"
    with a ok q grounded_is_shown [OF ok(5)] show ?thesis
      by (auto simp: max_answer_chars_def list_all_iff)
  qed
qed

definition plain_renderings :: renderings where
  "plain_renderings = \<lparr>rd_real = (\<lambda>x. int_str \<lfloor>x\<rfloor>), rd_date = int_str, rd_symptoms = (\<lambda>x. []), rd_dash = ''-''\<rparr>"

definition plain_reply :: "string \<Rightarrow> llm_response" where
  "plain_reply content =
     \<lparr>lr_content = content, lr_tool_calls = [], lr_model = ''m'',
      lr_usage = \<lparr>us_prompt = None, us_completion = None, us_total = None\<rparr>\<rparr>"

definition replying :: "string \<Rightarrow> ask_env" where
  "replying content =
     \<lparr>ak_llm = (\<lambda>prompt. Inr (plain_reply content)),
      ak_provider = ''groq'', ak_render = plain_renderings\<rparr>"

lemma sample_ask:
  obtains v :: incident_detail where "recorded_sensors (id_incident v) = su_sensors sample_summary"
    "recorded_chunks (id_incident v) = []" "recorded_history (id_incident v) = []"
    "ask_about_incident shipped_policy (replying content) (uuid_str 7) (Some ''why?'') 5 sample_principal (w_db awaiting_world) =
       Inr ((judge_answer ''groq'' (id_incident v) ''why?'' (plain_reply content))\<lparr>aq_asked_at := Some 5\<rparr>)"
proof -
  have q: "asked_question (Some ''why?'') = Inr ''why?''" by code_simp
  obtain v where v: "get_incident (uuid_str 7) (w_db awaiting_world) = Some v"
    "id_incident v = incident_row_to_dict (w_db awaiting_world) awaiting_row"
    by (simp add: get_incident_def Let_def)
  have parts: "iv_site_id (id_incident v) = uuid_str 2" "iv_recommendation (id_incident v) = None"
    "iv_summary (id_incident v) = Some sample_summary" "iv_retrieved (id_incident v) = None"
    by (simp_all add: v(2) incident_row_to_dict_def awaiting_row_def sample_incident_def)
  have role: "ensure_role sample_principal (rp_chat_roles shipped_policy) cap = Inr ()" for cap
    by (simp add: ensure_role_def shipped_policy_def load_rbac_policy_def shipped_policy_file_def)
  have "get_incident_by_id (uuid_str 7) sample_principal (w_db awaiting_world) = Inr v"
    using v(1) parts(1) by (simp add: get_incident_by_id_ok)
  then show ?thesis
    using parts q role
    by (intro that [of v]) (simp_all add: ask_about_incident_def grounded_answer_def replying_def build_context_def
        recommendation_context_def recorded_sensors_def recorded_chunks_def recorded_history_def)
qed

theorem ask_answer_is_grounded_witness:
  "\<exists>a. ask_about_incident shipped_policy (replying ''- temperature is high [sensor reading]'') (uuid_str 7) (Some ''why?'') 5
      sample_principal (w_db awaiting_world) = Inr a \<and> aq_question a \<noteq> [] \<and> length (aq_answer a) \<le> 1500 \<and>
    aq_citations a = [\<lparr>cp_type = ''sensor'', cp_ref = ''temperature'', cp_text = ''temperature is high [sensor reading]''\<rparr>]"
proof -
  let ?r = "plain_reply ''- temperature is high [sensor reading]''"
  obtain v :: incident_detail where v: "recorded_sensors (id_incident v) = su_sensors sample_summary"
    "recorded_chunks (id_incident v) = []" "recorded_history (id_incident v) = []"
    and a: "ask_about_incident shipped_policy (replying ''- temperature is high [sensor reading]'') (uuid_str 7)
      (Some ''why?'') 5 sample_principal (w_db awaiting_world) =
      Inr ((judge_answer ''groq'' (id_incident v) ''why?'' ?r)\<lparr>aq_asked_at := Some 5\<rparr>)"
    by (rule sample_ask) (rule that; assumption)
  have c: "claims_of (py_strip (lr_content ?r)) = [''temperature is high [sensor reading]'']"
    "\<not> py_startswith (py_lower (py_strip (lr_content ?r))) declining" by code_simp+
  have "validate_point ''temperature is high [sensor reading]'' (su_sensors sample_summary) [] [] =
      Some (''sensor'', ''temperature'')" by code_simp
  with c v have "aq_citations (judge_answer ''groq'' (id_incident v) ''why?'' ?r) =
      [\<lparr>cp_type = ''sensor'', cp_ref = ''temperature'', cp_text = ''temperature is high [sensor reading]''\<rparr>]"
    unfolding judge_answer_def Let_def
    by (simp add: check_claim_def cite_def List.map_filter_simps)
  with a ask_answer_is_grounded [OF a] show ?thesis by auto
qed

text \<open>
  The model is asked only after the guards: where two models make the endpoint answer differently,
  the principal has a chat role and the incident's site, the question is acceptable and the context
  could be built, and the models differ on that prompt or in their provider.
\<close>

theorem model_is_asked_after_the_guards:
  assumes "ask_about_incident pol env i body t p d \<noteq> ask_about_incident pol env' i body t p d"
    "ak_render env' = ak_render env"
  shows "\<exists>v q ctx. role_of p \<in> set (rp_chat_roles pol) \<and> get_incident i d = Some v \<and>
    py_lower (iv_site_id (id_incident v)) = py_lower (site_id p) \<and>
    asked_question body = Inr q \<and> q \<noteq> [] \<and> length q \<le> 500 \<and>
    build_context (ak_render env) (id_incident v) = Inr ctx \<and>
    (ak_llm env (ask_prompt ctx q) \<noteq> ak_llm env' (ask_prompt ctx q) \<or> ak_provider env \<noteq> ak_provider env')"
proof -
  have role: "role_of p \<in> set (rp_chat_roles pol)"
    using assms(1) by (auto simp: ask_about_incident_def ensure_role_def split: if_splits)
  obtain v :: incident_detail where v: "get_incident_by_id i p d = Inr v"
    using assms(1) role by (cases "get_incident_by_id i p d") (auto simp: ask_about_incident_def ensure_role_def)
  obtain q where q: "asked_question body = Inr q"
    using assms(1) role v by (cases "asked_question body") (auto simp: ask_about_incident_def ensure_role_def)
  have differ: "grounded_answer env (id_incident v) q \<noteq> grounded_answer env' (id_incident v) q"
    using assms(1) role v q by (auto simp: ask_about_incident_def ensure_role_def)
  then obtain ctx where ctx: "build_context (ak_render env) (id_incident v) = Inr ctx"
    using assms(2) by (cases "build_context (ak_render env) (id_incident v)") (auto simp: grounded_answer_def)
  with differ assms(2) have "ak_llm env (ask_prompt ctx q) \<noteq> ak_llm env' (ask_prompt ctx q) \<or> ak_provider env \<noteq> ak_provider env'"
    by (auto simp: grounded_answer_def)
  with role v q ctx asked_question_ok [OF q] show ?thesis
    by (auto simp: get_incident_by_id_ok max_question_chars_def)
qed

theorem model_is_asked_after_the_guards_witness:
  "\<exists>v. get_incident (uuid_str 7) (w_db awaiting_world) = Some v \<and>
     py_lower (iv_site_id (id_incident v)) = py_lower (site_id sample_principal)"
proof -
  let ?ask = "\<lambda>c. ask_about_incident shipped_policy (replying c) (uuid_str 7) (Some ''why?'') 5 sample_principal (w_db awaiting_world)"
  obtain v :: incident_detail where v: "?ask ''a'' = Inr ((judge_answer ''groq'' (id_incident v) ''why?'' (plain_reply ''a''))\<lparr>aq_asked_at := Some 5\<rparr>)"
    by (rule sample_ask) (rule that; assumption)
  obtain v' :: incident_detail where v': "?ask ''b'' = Inr ((judge_answer ''groq'' (id_incident v') ''why?'' (plain_reply ''b''))\<lparr>aq_asked_at := Some 5\<rparr>)"
    by (rule sample_ask) (rule that; assumption)
  have plain: "py_strip ''a'' = ''a''" "py_strip ''b'' = ''b''" "claims_of ''a'' = []" "claims_of ''b'' = []"
    "\<not> py_startswith (py_lower ''a'') declining" "\<not> py_startswith (py_lower ''b'') declining" by code_simp+
  have "?ask ''a'' \<noteq> ?ask ''b''"
    unfolding v v' by (simp add: judge_answer_def plain max_answer_chars_def plain_reply_def)
  from model_is_asked_after_the_guards [OF this] show ?thesis
    by (auto simp: replying_def)
qed

text \<open>
  Prose is returned unchecked.  An answer without a bullet line is returned as the model wrote it,
  up to 1500 characters, whatever it says, marked as not grounded.
\<close>

theorem prose_is_returned_unchecked:
  assumes "ask_about_incident pol env i body t p d = Inr a" "\<And>prompt. ak_llm env prompt = Inr r"
    "claims_of (py_strip (lr_content r)) = []" "\<not> py_startswith (py_lower (py_strip (lr_content r))) declining"
  shows "aq_answer a = take 1500 (py_strip (lr_content r)) \<and> aq_citations a = [] \<and> \<not> aq_grounded a \<and> aq_model a = lr_model r"
proof -
  from assms(1) obtain v :: incident_detail and q ctx r' where "ak_llm env (ask_prompt ctx q) = Inr r'"
    "a = (judge_answer (ak_provider env) (id_incident v) q r')\<lparr>aq_asked_at := Some t\<rparr>"
    by (rule ask_ok) (rule that; assumption)
  with assms(2-4) show ?thesis
    by (simp add: judge_answer_def max_answer_chars_def List.map_filter_simps)
qed

theorem prose_is_returned_unchecked_witness:
  "\<exists>a. ask_about_incident shipped_policy (replying ''The pump was struck by lightning.'') (uuid_str 7) (Some ''why?'') 5
      sample_principal (w_db awaiting_world) = Inr a \<and> aq_answer a = ''The pump was struck by lightning.''"
proof -
  let ?c = "''The pump was struck by lightning.''"
  obtain a where a: "ask_about_incident shipped_policy (replying ?c) (uuid_str 7) (Some ''why?'') 5 sample_principal
      (w_db awaiting_world) = Inr a"
    by (rule sample_ask) (rule that; assumption)
  have c: "py_strip ?c = ?c" "claims_of ?c = []" "\<not> py_startswith (py_lower ?c) declining" by code_simp+
  from prose_is_returned_unchecked [OF a, of "plain_reply ?c"] c a
  show ?thesis by (simp add: replying_def plain_reply_def)
qed

text \<open>
  A sensor bullet needs the tag of the Root-Cause Agent.  Where the record holds no document and no
  matched incident, an answer with a bullet that does not carry the literal tag
  \<open>[sensor reading]\<close> is replaced by the fixed sentence, even if the bullet names a recorded
  sensor, as the prompt of this endpoint asks for.
\<close>

theorem untagged_sensor_bullet_is_refused:
  assumes "ask_about_incident pol env i body t p d = Inr a" "\<And>prompt. ak_llm env prompt = Inr r"
    "point \<in> set (claims_of (py_strip (lr_content r)))" "\<not> py_in ''[sensor reading]'' (py_lower point)"
    "get_incident i d = Some (v :: incident_detail)" "iv_retrieved (id_incident v) = None"
  shows "aq_answer a = insufficient_answer \<and> aq_citations a = []"
proof -
  from assms(1) obtain v' :: incident_detail and q ctx r' where v': "get_incident i d = Some v'" and r': "ak_llm env (ask_prompt ctx q) = Inr r'"
    and a: "a = (judge_answer (ak_provider env) (id_incident v') q r')\<lparr>aq_asked_at := Some t\<rparr>"
    by (rule ask_ok) (rule that; assumption)
  have "check_claim (id_incident v) point = None"
    using assms(4,6)
    by (simp add: check_claim_def validate_point_def recorded_chunks_def recorded_history_def Let_def tag_def
        sop_keys_def history_keys_def dict_of_def first_key_def)
  moreover have "v' = v" "r' = r" using v' r' assms(2,5) by simp_all
  ultimately show ?thesis using assms(3) a by (auto simp: judge_answer_def no_evidence_answer_def Let_def)
qed

theorem untagged_sensor_bullet_is_refused_witness:
  "\<exists>a. ask_about_incident shipped_policy (replying ''- temperature is 36'') (uuid_str 7) (Some ''why?'') 5
      sample_principal (w_db awaiting_world) = Inr a \<and> aq_answer a = insufficient_answer"
proof -
  let ?c = "''- temperature is 36''"
  obtain a where a: "ask_about_incident shipped_policy (replying ?c) (uuid_str 7) (Some ''why?'') 5 sample_principal
      (w_db awaiting_world) = Inr a"
    by (rule sample_ask) (rule that; assumption)
  have c: "claims_of (py_strip ?c) = [''temperature is 36'']"
    "\<not> py_in ''[sensor reading]'' (py_lower ''temperature is 36'')" by code_simp+
  obtain v :: incident_detail where v: "get_incident (uuid_str 7) (w_db awaiting_world) = Some v" "iv_retrieved (id_incident v) = None"
    by (simp add: get_incident_def Let_def incident_row_to_dict_def awaiting_row_def sample_incident_def)
  from untagged_sensor_bullet_is_refused [OF a, of "plain_reply ?c" "''temperature is 36''", OF _ _ c(2) v] c a
  show ?thesis by (simp add: replying_def plain_reply_def)
qed

end
