(* ===== verification/LlmClient.thy ===== *)
theory LlmClient
  imports Recommendation RootCause
begin

text \<open>
  The language-model clients of \<open>app/core/llm_client.py\<close>: what the Groq client makes of a
  response, the scripted fake client with the texts it derives, the default multi-turn
  serialisation, the usage metrics and the process-wide client.  The HTTP exchange and
  \<open>json.loads\<close> are parameters; a JSON text that is not an object of strings is whatever the
  parameter says, and \<open>None\<close> where \<open>json.loads\<close> raises.
\<close>

section \<open>The Groq client\<close>

type_synonym json_loads = "string \<Rightarrow> (string \<times> string) list option"

definition safe_json :: "json_loads \<Rightarrow> string \<Rightarrow> (string \<times> string) list" where
  "safe_json loads raw =
     (if raw = [] then [] else case loads raw of None \<Rightarrow> [] | Some kv \<Rightarrow> kv)"

text \<open>The parsed body of a response; each key may be missing.\<close>

record groq_function =
  gf_name :: "string option"
  gf_arguments :: "string option"

record groq_call =
  gt_id :: "string option"
  gt_function :: "groq_function option"

record groq_message =
  gm_content :: "string option"
  gm_tool_calls :: "groq_call list option"

record groq_choice =
  gc_message :: "groq_message option"

record groq_data =
  gd_choices :: "groq_choice list option"
  gd_model :: "string option"
  gd_usage :: "llm_usage option"

definition no_usage :: llm_usage where
  "no_usage = \<lparr>us_prompt = None, us_completion = None, us_total = None\<rparr>"

definition get_or :: "'a option \<Rightarrow> 'a \<Rightarrow> 'a" where
  "get_or x d = (case x of None \<Rightarrow> d | Some y \<Rightarrow> y)"

definition groq_tool_call :: "json_loads \<Rightarrow> groq_call \<Rightarrow> tool_call" where
  "groq_tool_call loads tc =
     (let f = get_or (gt_function tc) \<lparr>gf_name = None, gf_arguments = None\<rparr> in
      \<lparr>tc_id = get_or (gt_id tc) [], tc_name = get_or (gf_name f) [],
       tc_arguments = safe_json loads (get_or (gf_arguments f) [CHR 0x7B, CHR 0x7D])\<rparr>)"

definition first_message :: "groq_data \<Rightarrow> groq_message" where
  "first_message data =
     (case or_list (gd_choices data) of
        [] \<Rightarrow> \<lparr>gm_content = None, gm_tool_calls = None\<rparr>
      | c # _ \<Rightarrow> get_or (gc_message c) \<lparr>gm_content = None, gm_tool_calls = None\<rparr>)"

definition groq_response :: "json_loads \<Rightarrow> string \<Rightarrow> groq_data \<Rightarrow> llm_response" where
  "groq_response loads model data =
     (let m = first_message data in
      \<lparr>lr_content = or_str (gm_content m) [],
       lr_tool_calls = map (groq_tool_call loads) (or_list (gm_tool_calls m)),
       lr_model = get_or (gd_model data) model, lr_usage = get_or (gd_usage data) no_usage\<rparr>)"

text \<open>One round trip: the transport returns the parsed body or the exception it raised.\<close>

definition groq_generate :: "json_loads \<Rightarrow> string \<Rightarrow> groq_data result \<Rightarrow> llm_response result" where
  "groq_generate loads model answer = bindR answer (\<lambda>data. Inr (groq_response loads model data))"

text \<open>
  \<open>_record_llm_metrics\<close>: the three counters of one call, keyed by the labels (agent, provider,
  model, incident).
\<close>

type_synonym call_labels = "string \<times> string \<times> string \<times> string"

record llm_counters =
  lc_calls :: "call_labels \<Rightarrow> nat"
  lc_tokens :: "call_labels \<Rightarrow> int"
  lc_cost :: "call_labels \<Rightarrow> real"

definition call_labels :: "string option \<Rightarrow> string \<Rightarrow> string \<Rightarrow> string option \<Rightarrow> call_labels" where
  "call_labels agent provider model incident = (or_str agent ''unknown'', provider, model, or_str incident [])"

definition record_llm_metrics ::
  "real option \<Rightarrow> real option \<Rightarrow> call_labels \<Rightarrow> llm_response \<Rightarrow> llm_counters \<Rightarrow> llm_counters" where
  "record_llm_metrics flat_input flat_output l r c =
     (let usage = lr_usage r; model = fst (snd (snd l)) in
      c\<lparr>lc_calls := (lc_calls c)(l := lc_calls c l + 1),
        lc_tokens := (lc_tokens c)(l := lc_tokens c l + (or_int (us_prompt usage) 0 + or_int (us_completion usage) 0)),
        lc_cost := (lc_cost c)(l := lc_cost c l + estimate_cost_usd flat_input flat_output model usage)\<rparr>)"

section \<open>The process-wide client\<close>

text \<open>The constructor of the Groq client refuses to start without a key; the cached client wins.\<close>

record llm_settings =
  ls_api_key :: string
  ls_model :: string
  ls_base_url :: string
  ls_timeout :: real
  ls_fake_mode :: bool

datatype llm_client = GroqClient string string string real | FakeClient

definition rstrip_slash :: "string \<Rightarrow> string" where
  "rstrip_slash s = rev (dropWhile (\<lambda>c. c = CHR ''/'') (rev s))"

definition missing_api_key :: exc where
  "missing_api_key = OtherError (''Missing required environment variable '' @ [CHR 0x27] @ ''GROQ_API_KEY'' @ [CHR 0x27] @
     ''. Add it to .env (or set PGAI_LLM__FAKEMODE=true for offline dev/tests). '' @
     ''(In staging/prod this key comes from Azure Key Vault via managed identity.)'')"

definition groq_client :: "llm_settings \<Rightarrow> llm_client result" where
  "groq_client st =
     (if ls_api_key st = [] then Inl missing_api_key
      else Inr (GroqClient (ls_api_key st) (ls_model st) (rstrip_slash (ls_base_url st)) (ls_timeout st)))"

definition get_llm_client :: "llm_settings \<Rightarrow> llm_client option \<Rightarrow> llm_client result \<times> llm_client option" where
  "get_llm_client st cached =
     (case cached of
        Some c \<Rightarrow> (Inr c, cached)
      | None \<Rightarrow>
          (case (if ls_fake_mode st then Inr FakeClient else groq_client st) of
             Inl e \<Rightarrow> (Inl e, None)
           | Inr c \<Rightarrow> (Inr c, Some c)))"

definition reset_llm_client :: "llm_client option \<Rightarrow> llm_client option" where
  "reset_llm_client cached = None"

section \<open>The default multi-turn serialisation\<close>

text \<open>A message is its role and its content.\<close>

type_synonym message = "string \<times> string"

fun serialise_chat :: "message list \<Rightarrow> string \<Rightarrow> string list \<Rightarrow> string \<times> string list" where
  "serialise_chat [] system convo = (system, convo)"
| "serialise_chat ((role, content) # ms) system convo =
     (if role = ''system'' then serialise_chat ms content convo
      else if role = ''tool'' then serialise_chat ms system (convo @ [''[tool result] '' @ content])
      else serialise_chat ms system (convo @ [content]))"

definition default_chat :: "(string \<Rightarrow> string \<Rightarrow> 'r) \<Rightarrow> message list \<Rightarrow> 'r" where
  "default_chat generate ms =
     (case serialise_chat ms [] [] of
        (system, convo) \<Rightarrow> generate system (py_join [CHR 0x0A, CHR 0x0A] convo))"

section \<open>What the fake client derives\<close>

text \<open>\<open>str.split()\<close>\<close>

function py_words :: "string \<Rightarrow> string list" where
  "py_words s =
     (case py_lstrip s of
        [] \<Rightarrow> []
      | c # r \<Rightarrow> (c # takeWhile (\<lambda>x. \<not> is_space x) r) # py_words (dropWhile (\<lambda>x. \<not> is_space x) r))"
  by pat_completeness auto

termination
proof (relation "measure length")
  fix s c r
  assume "py_lstrip s = c # r"
  then have "length (c # r) \<le> length s" by (metis length_dropWhile_le py_lstrip_def)
  then show "(dropWhile (\<lambda>x. \<not> is_space x) r, s) \<in> measure length"
    using length_dropWhile_le [of "\<lambda>x. \<not> is_space x" r] by simp
qed simp

declare py_words.simps [simp del]

definition lines_with :: "string \<Rightarrow> string \<Rightarrow> string list" where
  "lines_with p prompt = filter (\<lambda>l. py_startswith l p) (map py_strip (splitlines prompt))"

definition sensor_type_on :: "string \<Rightarrow> string option" where
  "sensor_type_on line =
     (case py_words line of _ # b # c # _ \<Rightarrow> if b = ''sensor:'' then Some c else None | _ \<Rightarrow> None)"

definition flagged_types :: "string list \<Rightarrow> string list" where
  "flagged_types lines = List.map_filter sensor_type_on lines"

definition fake_cause :: "string list \<Rightarrow> string \<times> string \<times> nat" where
  "fake_cause types =
     (if ''flow_rate'' \<in> set types \<or> ''vibration'' \<in> set types
      then (''COOL'', ''cooling-water pump degradation'', 87)
      else if ''temperature'' \<in> set types then (''TEMP'', ''heat-exchanger fouling'', 78)
      else (''CHEM'', ''cooling-loop chemistry excursion'', 72))"

text \<open>\<open>next((ln for ln in lines if p in ln), lines[0] if lines else None)\<close>\<close>

definition prefer_line :: "string \<Rightarrow> string list \<Rightarrow> string option" where
  "prefer_line p lines =
     (case find (py_in p) lines of
        Some l \<Rightarrow> Some l
      | None \<Rightarrow> (case lines of [] \<Rightarrow> None | l # _ \<Rightarrow> Some l))"

definition tagged :: "string \<Rightarrow> string option \<Rightarrow> string list" where
  "tagged mark l = (case l of None \<Rightarrow> [] | Some x \<Rightarrow> [''- '' @ x @ mark])"

definition insufficient_bullet :: string where
  "insufficient_bullet = ''- The evidence is insufficient for a confident conclusion; human review required.''"

definition fake_evidence_lines :: "string \<Rightarrow> string list" where
  "fake_evidence_lines prompt =
     (let sensors = lines_with ''- sensor:'' prompt; sops = lines_with ''- SOP ['' prompt;
          hists = lines_with ''- HIST ['' prompt; prefer = fst (fake_cause (flagged_types sensors))
      in map (\<lambda>l. ''- '' @ l @ '' [sensor reading]'') (take 4 sensors) @
         tagged '' [SOP citation]'' (prefer_line (''SOP-'' @ prefer) sops) @
         tagged '' [historical incident]'' (prefer_line ''HIST-2026-0141'' hists) @
         (if sops = [] \<and> hists = [] then [insufficient_bullet] else []))"

definition fake_headline :: "string \<times> string \<times> nat \<Rightarrow> string" where
  "fake_headline cause =
     (case cause of (_, hypothesis, confidence) \<Rightarrow>
        ''Most likely cause: '' @ hypothesis @ '' (confidence '' @ nat_str confidence @ ''%).'')"

definition derive_fake_analysis :: "string \<Rightarrow> string" where
  "derive_fake_analysis prompt =
     py_join newline
       ([fake_headline (fake_cause (flagged_types (lines_with ''- sensor:'' prompt))), [], ''Evidence:''] @
        fake_evidence_lines prompt)"

definition strainer_line :: string where
  "strainer_line = ''1. Inspect the pump suction strainer and backwash or replace the filter.''"

definition bearing_line :: string where
  "bearing_line = ''2. Verify pump bearing condition and schedule maintenance if vibration stays above 2.5 mm/s.''"

definition load_line :: string where
  "load_line = ''3. Reduce process load by 10% if supply temperature exceeds 40 degC.''"

definition rationale_line :: "bool \<Rightarrow> string" where
  "rationale_line worked = ''RATIONALE: '' @
     (if worked then
        ''The same combined flow/vibration signature was resolved before by clearing the suction strainer '' @
        ''and servicing the pump, so start there; monitor temperature while the pump is inspected.''
      else
        ''Historical outcomes for this equipment support inspecting the suction path and pump condition '' @
        ''first; protect the heat exchangers by reducing load if temperature keeps rising.'')"

definition maintenance_line :: string where
  "maintenance_line = ''Maintenance status was checked before finalizing this plan.''"

definition fake_plan_lines :: "bool \<Rightarrow> bool \<Rightarrow> bool \<Rightarrow> string list" where
  "fake_plan_lines strainer worked maintenance =
     [''RECOMMENDED ACTIONS:''] @ (if strainer then [strainer_line] else []) @
     [bearing_line, load_line, [], rationale_line worked] @ (if maintenance then [maintenance_line] else [])"

definition derive_fake_recommendation :: "string \<Rightarrow> string" where
  "derive_fake_recommendation tool_text =
     (let lowered = py_lower tool_text in
      py_join newline (fake_plan_lines (py_in ''strainer'' lowered \<or> py_in ''filter'' lowered)
        ((py_in ''actionWorked'' tool_text \<and> py_in ''true'' lowered) \<or> py_in ''actionWorked: True'' tool_text)
        (py_in ''lastServicedAt'' tool_text)))"

section \<open>The fake client\<close>

record fake_client =
  fk_script :: "string list"
  fk_calls :: nat

definition fake_answer :: "string \<Rightarrow> llm_response" where
  "fake_answer content =
     \<lparr>lr_content = content, lr_tool_calls = [], lr_model = ''fake-scripted'', lr_usage = no_usage\<rparr>"

definition fake_generate :: "string \<Rightarrow> fake_client \<Rightarrow> llm_response \<times> fake_client" where
  "fake_generate prompt f =
     (let calls = fk_calls f + 1 in
      case fk_script f of
        [] \<Rightarrow> (fake_answer (derive_fake_analysis prompt), f\<lparr>fk_calls := calls\<rparr>)
      | s # rest \<Rightarrow> (fake_answer s, \<lparr>fk_script = rest, fk_calls = calls\<rparr>))"

text \<open>\<open>entry.split(":", 2)\<close> unpacked into three parts: a \<open>ValueError\<close> with only one colon.\<close>

definition split_call :: "string \<Rightarrow> (string \<times> string) option" where
  "split_call entry =
     (let rest = tl (dropWhile (\<lambda>c. c \<noteq> CHR '':'') entry) in
      if CHR '':'' \<in> set rest
      then Some (takeWhile (\<lambda>c. c \<noteq> CHR '':'') rest, tl (dropWhile (\<lambda>c. c \<noteq> CHR '':'') rest))
      else None)"

definition calls_answer :: "tool_call list \<Rightarrow> llm_response" where
  "calls_answer tcs = \<lparr>lr_content = [], lr_tool_calls = tcs, lr_model = ''fake-scripted'', lr_usage = no_usage\<rparr>"

text \<open>\<open>re.search(r"equipment_id:\s*([0-9a-fA-F-]{36})", text)\<close>\<close>

definition uuid_char :: "char \<Rightarrow> bool" where
  "uuid_char c \<longleftrightarrow> is_digit c \<or> lower_char c \<in> set ''abcdef'' \<or> c = CHR ''-''"

definition equipment_at :: "string \<Rightarrow> string option" where
  "equipment_at s =
     (if py_startswith s ''equipment_id:''
      then (let x = take 36 (py_lstrip (drop 13 s))
            in if length x = 36 \<and> list_all uuid_char x then Some x else None)
      else None)"

fun search_equipment :: "string \<Rightarrow> string option" where
  "search_equipment [] = None"
| "search_equipment (c # s) =
     (case equipment_at (c # s) of Some x \<Rightarrow> Some x | None \<Rightarrow> search_equipment s)"

definition contents_of :: "string \<Rightarrow> message list \<Rightarrow> string" where
  "contents_of role ms = py_join newline (map snd (filter (\<lambda>m. fst m = role) ms))"

definition fake_chat :: "json_loads \<Rightarrow> message list \<Rightarrow> fake_client \<Rightarrow> llm_response result \<times> fake_client" where
  "fake_chat loads ms f =
     (let calls = fk_calls f + 1; f' = f\<lparr>fk_calls := calls\<rparr> in
      case fk_script f of
        entry # rest \<Rightarrow>
          (let f'' = f'\<lparr>fk_script := rest\<rparr> in
           if py_startswith entry ''TOOL_CALL:'' then
             (case split_call entry of
                None \<Rightarrow> (Inl (ValueError ''not enough values to unpack (expected 3, got 2)''), f'')
              | Some (name, args) \<Rightarrow>
                  (Inr (calls_answer [\<lparr>tc_id = ''fake-'' @ nat_str calls, tc_name = name,
                      tc_arguments = safe_json loads args\<rparr>]), f''))
           else (Inr (fake_answer entry), f''))
      | [] \<Rightarrow>
          if \<exists>m\<in>set ms. fst m = ''tool''
          then (Inr (fake_answer (derive_fake_recommendation (contents_of ''tool'' ms))), f')
          else (let equipment = get_or (search_equipment (contents_of ''user'' ms)) [] in
                (Inr (calls_answer
                   [\<lparr>tc_id = ''fake-'' @ nat_str calls @ ''-maint'', tc_name = ''get_equipment_maintenance_status'',
                     tc_arguments = [(''equipment_id'', equipment)]\<rparr>,
                    \<lparr>tc_id = ''fake-'' @ nat_str calls @ ''-similar'', tc_name = ''get_similar_incident_outcomes'',
                     tc_arguments = [(''equipment_id'', equipment), (''symptom_pattern'', ''flow'')]\<rparr>]), f')))"

section \<open>The derived analysis under the citation check\<close>

lemma linebreak_iff:
  "is_linebreak c \<longleftrightarrow> c \<in> {CHR 0x0A, CHR 0x0B, CHR 0x0C, CHR 0x0D, CHR 0x1C, CHR 0x1D, CHR 0x1E, CHR 0x85}"
proof -
  have inj: "(of_char c :: nat) = of_char d \<longleftrightarrow> c = d" for c d :: char by (rule of_char_eq_iff)
  have "(10 \<le> n \<and> n \<le> 13) \<or> (28 \<le> n \<and> n \<le> 30) \<or> n = 133 \<longleftrightarrow> n \<in> {10, 11, 12, 13, 28, 29, 30, 133}" for n :: nat
    by auto
  then show ?thesis
    unfolding is_linebreak_def Let_def by (simp flip: inj)
qed

lemma py_strip_id:
  assumes "s \<noteq> []" "\<not> is_space (hd s)" "\<not> is_space (last s)"
  shows "py_strip s = s"
proof -
  have "py_lstrip s = s" using assms(1,2) by (cases s) (simp_all add: py_lstrip_def)
  moreover have "dropWhile is_space (rev s) = rev s"
    using assms(1,3) by (cases "rev s") (auto simp: last_rev [symmetric])
  ultimately show ?thesis by (simp add: py_strip_def py_rstrip_def)
qed

lemma py_join_last: "ls \<noteq> [] \<Longrightarrow> last ls \<noteq> [] \<Longrightarrow> py_join sep ls \<noteq> [] \<and> last (py_join sep ls) = last (last ls)"
proof (induction sep ls rule: py_join.induct)
  case (3 sep s t r)
  then show ?case by (cases "py_join sep (t # r)") auto
qed simp_all

lemma set_py_strip: "set (py_strip s) \<subseteq> set s"
  unfolding py_strip_def py_rstrip_def py_lstrip_def
  by (auto dest!: set_dropWhileD)

lemma lines_with_clean: "l \<in> set (lines_with p prompt) \<Longrightarrow> list_all (\<lambda>c. \<not> is_linebreak c) l"
proof -
  assume "l \<in> set (lines_with p prompt)"
  then obtain x where "x \<in> set (splitlines prompt)" "l = py_strip x" by (auto simp: lines_with_def)
  with set_py_strip [of x] splitlines_clean [of x prompt] show ?thesis by (auto simp: list_all_iff)
qed

lemma lines_with_start: "l \<in> set (lines_with p prompt) \<Longrightarrow> \<exists>r. l = p @ r"
  by (auto simp: lines_with_def py_startswith_iff)

lemma lines_with_prompt: "l \<in> set (lines_with p prompt) \<Longrightarrow> l \<in> set (map py_strip (splitlines prompt))"
  by (auto simp: lines_with_def)

lemma prefer_line_mem: "prefer_line p ls = Some l \<Longrightarrow> l \<in> set ls"
  by (auto simp: prefer_line_def find_Some_iff split: option.splits list.splits)

lemma tagged_mem: "x \<in> set (tagged m (prefer_line p ls)) \<Longrightarrow> \<exists>l\<in>set ls. x = ''- '' @ l @ m"
  by (cases "prefer_line p ls") (auto simp: tagged_def prefer_line_mem)

text \<open>The points of the derived analysis: lines of the prompt with a mark, or the closing remark.\<close>

definition marks :: "string list" where
  "marks = ['' [sensor reading]'', '' [SOP citation]'', '' [historical incident]'']"

definition fake_points :: "string \<Rightarrow> string list" where
  "fake_points prompt = map (drop 2) (fake_evidence_lines prompt)"

lemma fake_line_cases:
  assumes "x \<in> set (fake_evidence_lines prompt)"
  obtains (quoted) l m where "x = ''- '' @ l @ m" "m \<in> set marks" "l \<in> set (map py_strip (splitlines prompt))"
      "\<exists>r. l = CHR ''-'' # r" "list_all (\<lambda>c. \<not> is_linebreak c) l"
    | (remark) "x = insufficient_bullet" "lines_with ''- SOP ['' prompt = []" "lines_with ''- HIST ['' prompt = []"
proof -
  have pre: "\<exists>r. l = CHR ''-'' # r" "l \<in> set (map py_strip (splitlines prompt))" "list_all (\<lambda>c. \<not> is_linebreak c) l"
    if "l \<in> set (lines_with ''- sensor:'' prompt) \<or> l \<in> set (lines_with ''- SOP ['' prompt) \<or>
        l \<in> set (lines_with ''- HIST ['' prompt)" for l
    using that lines_with_start lines_with_prompt lines_with_clean by (blast | fastforce)+
  from assms show ?thesis
    unfolding fake_evidence_lines_def Let_def set_append
  proof (elim UnE)
    assume "x \<in> set (map (\<lambda>l. ''- '' @ l @ '' [sensor reading]'') (take 4 (lines_with ''- sensor:'' prompt)))"
    then obtain l where l: "x = ''- '' @ l @ '' [sensor reading]''" "l \<in> set (lines_with ''- sensor:'' prompt)"
      by (auto dest: in_set_takeD)
    show ?thesis by (rule quoted [OF l(1)]) (use l(2) pre in \<open>auto simp: marks_def\<close>)
  next
    assume "x \<in> set (tagged '' [SOP citation]'' (prefer_line
        (''SOP-'' @ fst (fake_cause (flagged_types (lines_with ''- sensor:'' prompt)))) (lines_with ''- SOP ['' prompt)))"
    then obtain l where l: "x = ''- '' @ l @ '' [SOP citation]''" "l \<in> set (lines_with ''- SOP ['' prompt)"
      by (blast dest: tagged_mem)
    show ?thesis by (rule quoted [OF l(1)]) (use l(2) pre in \<open>auto simp: marks_def\<close>)
  next
    assume "x \<in> set (tagged '' [historical incident]'' (prefer_line ''HIST-2026-0141'' (lines_with ''- HIST ['' prompt)))"
    then obtain l where l: "x = ''- '' @ l @ '' [historical incident]''" "l \<in> set (lines_with ''- HIST ['' prompt)"
      by (blast dest: tagged_mem)
    show ?thesis by (rule quoted [OF l(1)]) (use l(2) pre in \<open>auto simp: marks_def\<close>)
  next
    assume "x \<in> set (if lines_with ''- SOP ['' prompt = [] \<and> lines_with ''- HIST ['' prompt = [] then [insufficient_bullet] else [])"
    then show ?thesis using remark by (auto split: if_splits)
  qed
qed

lemma fake_line_clean:
  assumes "x \<in> set (fake_evidence_lines prompt)"
  shows "list_all (\<lambda>c. \<not> is_linebreak c) x" "x \<noteq> []" "\<not> is_space (last x)"
    and "match_bullet x = Some (drop 2 x)" "py_strip (drop 2 x) = drop 2 x"
proof -
  have sp: "is_space (CHR '' '')" "\<not> is_space (CHR ''-'')" "\<not> is_space (CHR '']'')" "\<not> is_space (CHR ''.'')"
    "\<not> is_space (CHR ''T'')" by code_simp+
  have cl: "list_all (\<lambda>c. \<not> is_linebreak c) ''- ''" "list_all (\<lambda>c. \<not> is_linebreak c) insufficient_bullet"
    "\<forall>m\<in>set marks. list_all (\<lambda>c. \<not> is_linebreak c) m"
    by (simp_all add: linebreak_iff marks_def insufficient_bullet_def)
  have mk: "\<forall>m\<in>set marks. m \<noteq> [] \<and> last m = CHR '']''" by (simp add: marks_def)
  have bullet: "match_bullet (''- '' @ c # y) = Some (c # y)" if "\<not> is_space c" for c y
    using that by (simp add: match_bullet_def py_lstrip_def sp)
  from assms have "list_all (\<lambda>c. \<not> is_linebreak c) x \<and> x \<noteq> [] \<and> \<not> is_space (last x) \<and>
      match_bullet x = Some (drop 2 x) \<and> py_strip (drop 2 x) = drop 2 x"
  proof (cases rule: fake_line_cases)
    case (quoted l m)
    then obtain r where l: "l = CHR ''-'' # r" by blast
    have m: "m \<noteq> []" "last m = CHR '']''" "list_all (\<lambda>c. \<not> is_linebreak c) m" using quoted(2) mk cl(3) by auto
    have "py_strip (CHR ''-'' # r @ m) = CHR ''-'' # r @ m"
      by (rule py_strip_id) (use m sp in simp_all)
    with quoted l m sp cl(1) bullet [of "CHR ''-''" "r @ m"] show ?thesis by simp
  next
    case remark
    have "py_strip (drop 2 insufficient_bullet) = drop 2 insufficient_bullet" by code_simp
    moreover have "match_bullet insufficient_bullet = Some (drop 2 insufficient_bullet)" by code_simp
    moreover have "insufficient_bullet \<noteq> []" "last insufficient_bullet = CHR ''.''"
      by (simp_all add: insufficient_bullet_def)
    ultimately show ?thesis using remark sp cl by simp
  qed
  then show "list_all (\<lambda>c. \<not> is_linebreak c) x" "x \<noteq> []" "\<not> is_space (last x)"
    "match_bullet x = Some (drop 2 x)" "py_strip (drop 2 x) = drop 2 x" by simp_all
qed

lemma fake_evidence_nonempty: "fake_evidence_lines prompt \<noteq> []"
  by (auto simp: fake_evidence_lines_def Let_def tagged_def prefer_line_def split: option.splits list.splits)

definition headline_ok :: "string \<times> string \<times> nat \<Rightarrow> bool" where
  "headline_ok c \<longleftrightarrow>
     fake_headline c \<noteq> [] \<and> hd (fake_headline c) = CHR ''M'' \<and>
     list_all (\<lambda>c. \<not> is_linebreak c) (fake_headline c) \<and> CHR ''-'' \<in> set (fake_headline c) \<and>
     match_bullet (fake_headline c) = None \<and>
     match_hypothesis (py_strip (fake_headline c)) = Some (fst (snd c), Some (snd (snd c))) \<and>
     py_strip (fst (snd c)) = fst (snd c) \<and> snd (snd c) \<le> 100 \<and> fst (snd c) \<noteq> []"

text \<open>A cause without an opening bracket and a dot ends where the confidence begins.\<close>

lemma match_tail_plain:
  assumes "py_lstrip s = d # r" "d \<noteq> CHR ''(''" "d \<noteq> CHR ''.''"
  shows "match_tail s = None"
proof -
  have "lower_char d \<noteq> CHR ''(''"
    using assms(2) by (auto simp: lower_char_def Let_def char_of_eq_iff take_bit_nat_eq_self)
  moreover have "py_lstrip (d # r) = d # r"
    using assms(1) hd_dropWhile [of is_space s] by (simp add: py_lstrip_def)
  ultimately show ?thesis using assms
    by (simp add: match_tail_def match_confidence_def strip_prefix_def py_lower_def ends_line_def Let_def)
qed

lemma split_cause_plain:
  assumes "x \<noteq> []" "\<not> is_space (last x)" "CHR ''('' \<notin> set x" "CHR ''.'' \<notin> set x" "match_tail t = Some conf"
  shows "split_cause acc (x @ t) = Some (acc @ x, conf)"
  using assms
proof (induction x arbitrary: acc)
  case (Cons c x)
  show ?case
  proof (cases "x = []")
    case False
    obtain d r where d: "py_lstrip (x @ t) = d # r" "d \<in> set x"
    proof -
      have "last x \<in> set x" "\<not> is_space (last x)" using False Cons.prems(2) by simp_all
      then have "dropWhile is_space x \<noteq> []" by (auto simp: dropWhile_eq_Nil_conv)
      moreover from this have "dropWhile is_space (x @ t) = dropWhile is_space x @ t"
        by (metis dropWhile_append1 dropWhile_eq_Nil_conv)
      ultimately show ?thesis
        using that set_dropWhileD [of _ is_space x] by (cases "dropWhile is_space x") (auto simp: py_lstrip_def)
    qed
    from d(2) Cons.prems have "match_tail (x @ t) = None" by (intro match_tail_plain [OF d(1)]) auto
    with Cons False show ?thesis by simp
  qed (use Cons in simp)
qed simp

lemma match_hypothesis_plain:
  assumes "x = c # y" "\<not> is_space c" "\<not> is_space (last x)" "CHR ''('' \<notin> set x" "CHR ''.'' \<notin> set x"
    and "match_tail t = Some conf"
  shows "match_hypothesis (''Most likely cause: '' @ x @ t) = Some (x, conf)"
proof -
  have "py_lower ''Most likely cause:'' = ''most likely cause:''" by code_simp
  then have low: "py_lower (''Most likely cause:'' @ z) = ''most likely cause:'' @ py_lower z" for z
    by (simp only: py_lower_def map_append)
  have start: "py_startswith (''most likely cause:'' @ z) ''most likely cause:''" for z
    unfolding py_startswith_iff by blast
  have after: "after_ci p (p' @ z) = Some z" if "py_startswith (py_lower (p' @ z)) p" "length p = length p'" "p \<noteq> []" for p p' z
  proof -
    have "drop (length p) (p' @ z) = z" using that(2) by simp
    with that(1,3) show ?thesis by (cases "p' @ z"; cases p) (auto simp: py_lower_def)
  qed
  have "after_ci ''most likely cause:'' (''Most likely cause:'' @ z) = Some z" for z
    by (rule after) (unfold low, rule start, simp_all)
  note after = this
  have "is_space (CHR '' '')" by code_simp
  then have lstrip: "py_lstrip (CHR '' '' # x @ t) = x @ t" using assms(1,2) by (simp add: py_lstrip_def)
  have "split_cause [] (x @ t) = Some (x, conf)" using split_cause_plain [of x t conf "[]"] assms by simp
  moreover have "''Most likely cause: '' @ x @ t = ''Most likely cause:'' @ CHR '' '' # x @ t" by simp
  ultimately show ?thesis unfolding match_hypothesis_def by (simp only: after option.case lstrip)
qed

lemma headline_matches:
  assumes "x = c # y" "\<not> is_space c" "\<not> is_space (last x)" "CHR ''('' \<notin> set x" "CHR ''.'' \<notin> set x"
    and "match_tail ('' (confidence '' @ nat_str n @ ''%).'') = Some (Some n)"
  shows "match_hypothesis (py_strip (fake_headline (k, x, n))) = Some (x, Some n)"
proof -
  have "\<not> is_space (CHR ''M'')" "\<not> is_space (CHR ''.'')" by code_simp+
  then have "py_strip (fake_headline (k, x, n)) = fake_headline (k, x, n)"
    by (intro py_strip_id) (simp_all add: fake_headline_def)
  with match_hypothesis_plain [OF assms] show ?thesis by (simp add: fake_headline_def)
qed

lemma headlines_ok:
  "headline_ok (''COOL'', ''cooling-water pump degradation'', 87)"
  "headline_ok (''TEMP'', ''heat-exchanger fouling'', 78)"
  "headline_ok (''CHEM'', ''cooling-loop chemistry excursion'', 72)"
proof -
  have sp: "\<not> is_space (CHR ''c'')" "\<not> is_space (CHR ''h'')" "\<not> is_space (CHR ''n'')" "\<not> is_space (CHR ''g'')" by code_simp+
  have t: "match_tail ('' (confidence '' @ nat_str 87 @ ''%).'') = Some (Some 87)"
    "match_tail ('' (confidence '' @ nat_str 78 @ ''%).'') = Some (Some 78)"
    "match_tail ('' (confidence '' @ nat_str 72 @ ''%).'') = Some (Some 72)" by code_simp+
  have num: "nat_str 87 = ''87''" "nat_str 78 = ''78''" "nat_str 72 = ''72''" by code_simp+
  have cl: "list_all (\<lambda>c. \<not> is_linebreak c) (fake_headline (''COOL'', ''cooling-water pump degradation'', 87))"
    "list_all (\<lambda>c. \<not> is_linebreak c) (fake_headline (''TEMP'', ''heat-exchanger fouling'', 78))"
    "list_all (\<lambda>c. \<not> is_linebreak c) (fake_headline (''CHEM'', ''cooling-loop chemistry excursion'', 72))"
    by (simp_all add: linebreak_iff fake_headline_def num)
  have st: "py_strip ''cooling-water pump degradation'' = ''cooling-water pump degradation''"
    "py_strip ''heat-exchanger fouling'' = ''heat-exchanger fouling''"
    "py_strip ''cooling-loop chemistry excursion'' = ''cooling-loop chemistry excursion''"
    by (rule py_strip_id; simp add: sp)+
  have bul: "match_bullet (fake_headline c) = None" for c
  proof -
    have "\<not> is_space (CHR ''M'')" by code_simp
    then show ?thesis by (cases c) (simp add: fake_headline_def match_bullet_def py_lstrip_def)
  qed
  have m: "match_hypothesis (py_strip (fake_headline (''COOL'', ''cooling-water pump degradation'', 87))) =
      Some (''cooling-water pump degradation'', Some 87)"
    "match_hypothesis (py_strip (fake_headline (''TEMP'', ''heat-exchanger fouling'', 78))) =
      Some (''heat-exchanger fouling'', Some 78)"
    "match_hypothesis (py_strip (fake_headline (''CHEM'', ''cooling-loop chemistry excursion'', 72))) =
      Some (''cooling-loop chemistry excursion'', Some 72)"
    by (rule headline_matches [OF refl _ _ _ _ t(1)] headline_matches [OF refl _ _ _ _ t(2)]
        headline_matches [OF refl _ _ _ _ t(3)]; simp add: sp)+
  show "headline_ok (''COOL'', ''cooling-water pump degradation'', 87)"
    "headline_ok (''TEMP'', ''heat-exchanger fouling'', 78)"
    "headline_ok (''CHEM'', ''cooling-loop chemistry excursion'', 72)"
    unfolding headline_ok_def by (simp_all only: m cl st bul fst_conv snd_conv) (simp_all add: fake_headline_def)
qed

lemma first_line_before: "CHR 0x0A \<notin> set x \<Longrightarrow> first_line (x @ newline @ y) = x"
  by (induction x) (auto simp: first_line_def newline_def)

lemma headline_facts:
  "fake_headline (fake_cause types) \<noteq> []" "hd (fake_headline (fake_cause types)) = CHR ''M''"
  "list_all (\<lambda>c. \<not> is_linebreak c) (fake_headline (fake_cause types))"
  "CHR ''-'' \<in> set (fake_headline (fake_cause types))"
  "match_bullet (fake_headline (fake_cause types)) = None"
  "match_hypothesis (py_strip (fake_headline (fake_cause types))) =
     Some (fst (snd (fake_cause types)), Some (snd (snd (fake_cause types))))"
  "py_strip (fst (snd (fake_cause types))) = fst (snd (fake_cause types))"
  "snd (snd (fake_cause types)) \<le> 100" "fst (snd (fake_cause types)) \<noteq> []"
proof -
  have "headline_ok (fake_cause types)" unfolding fake_cause_def by (auto intro: headlines_ok)
  then show "fake_headline (fake_cause types) \<noteq> []" "hd (fake_headline (fake_cause types)) = CHR ''M''"
  "list_all (\<lambda>c. \<not> is_linebreak c) (fake_headline (fake_cause types))"
  "CHR ''-'' \<in> set (fake_headline (fake_cause types))"
  "match_bullet (fake_headline (fake_cause types)) = None"
  "match_hypothesis (py_strip (fake_headline (fake_cause types))) =
     Some (fst (snd (fake_cause types)), Some (snd (snd (fake_cause types))))"
  "py_strip (fst (snd (fake_cause types))) = fst (snd (fake_cause types))"
  "snd (snd (fake_cause types)) \<le> 100" "fst (snd (fake_cause types)) \<noteq> []" unfolding headline_ok_def by blast+
qed

text \<open>How the check reads the derived analysis, for every prompt.\<close>

lemma fake_analysis_checked:
  fixes prompt :: string
  defines "cause \<equiv> fake_cause (flagged_types (lines_with ''- sensor:'' prompt))"
  shows "parse_and_validate (derive_fake_analysis prompt) ss cs hs =
    (let points = fake_points prompt;
         cited = List.map_filter (\<lambda>p. map_option (\<lambda>(ty, ref). \<lparr>cp_type = ty, cp_ref = ref, cp_text = p\<rparr>)
           (validate_point p ss cs hs)) points
     in if cited = [] then Invalid ''no evidence point carried a verifiable citation''
        else if filter (\<lambda>p. validate_point p ss cs hs = None) points \<noteq> [] then Invalid ''evidence points failed citation verification''
        else Valid \<lparr>dg_insufficient = False, dg_hypothesis = fst (snd cause), dg_confidence = int (snd (snd cause)), dg_cited = cited\<rparr>)"
proof -
  let ?ev = "fake_evidence_lines prompt"
  let ?ls = "[fake_headline cause, [], ''Evidence:''] @ ?ev"
  have der: "derive_fake_analysis prompt = py_join newline ?ls"
    by (simp add: derive_fake_analysis_def cause_def)
  note head = headline_facts [where types = "flagged_types (lines_with ''- sensor:'' prompt)", folded cause_def]
  have lastl: "last ?ls \<in> set ?ev" using fake_evidence_nonempty by simp
  have e: "list_all (\<lambda>c. \<not> is_linebreak c) ''Evidence:''" "match_bullet ''Evidence:'' = None" "match_bullet [] = None"
    by code_simp+
  have clean: "list_all (list_all (\<lambda>c. \<not> is_linebreak c)) ?ls"
    using head(3) e(1) fake_line_clean(1) by (simp add: list_all_iff)
  have body: "py_strip (py_join newline ?ls) = py_join newline ?ls"
  proof (rule py_strip_id)
    have "\<not> is_space (CHR ''M'')" by code_simp
    with head(1,2) show "\<not> is_space (hd (py_join newline ?ls))" by simp
    show "py_join newline ?ls \<noteq> []" "\<not> is_space (last (py_join newline ?ls))"
      using py_join_last [of ?ls newline] fake_line_clean(2,3) [OF lastl] by auto
  qed
  have ls: "splitlines (py_join newline ?ls) = ?ls"
    by (rule splitlines_join) (use clean fake_line_clean(2) [OF lastl] in auto)
  have "CHR 0x0A \<notin> set (fake_headline cause)"
    using head(3) by (auto simp: list_all_iff is_linebreak_def)
  from first_line_before [OF this] have "first_line (py_join newline ?ls) = fake_headline cause" by simp
  with head(4) have no: "CHR 0x2D \<in> set (first_line (py_join newline ?ls))" by simp
  have hyp: "find_hypothesis ?ls = Some (fst (snd cause), Some (int (snd (snd cause))))"
    using head(6,7,8) by (simp add: min_def max_def)
  have pts: "bullet_points ?ls = fake_points prompt"
  proof -
    have "List.map_filter match_bullet xs = map (drop 2) xs \<and> map (\<lambda>x. py_strip (drop 2 x)) xs = map (drop 2) xs"
      if "\<forall>x\<in>set xs. match_bullet x = Some (drop 2 x) \<and> py_strip (drop 2 x) = drop 2 x" for xs
      using that by (induction xs) (simp_all add: List.map_filter_simps)
    from this [of ?ev] fake_line_clean(4,5) show ?thesis
      by (simp add: bullet_points_def fake_points_def List.map_filter_simps head(5) e comp_def)
  qed
  show ?thesis
    using no head(9) unfolding parse_and_validate_def der body ls hyp pts Let_def by simp
qed

section \<open>The derived plans under the parser\<close>

lemma py_strip_blank: "py_strip s = [] \<longleftrightarrow> (\<forall>c\<in>set s. is_space c)"
proof -
  have "(\<forall>c\<in>set (dropWhile is_space s). is_space c) \<longleftrightarrow> (\<forall>c\<in>set s. is_space c)"
    by (metis Un_iff set_append set_dropWhileD set_takeWhileD takeWhile_dropWhile_id)
  then show ?thesis by (simp add: py_strip_def py_rstrip_def py_lstrip_def)
qed

lemma plan_lines_read:
  assumes "\<not> ps_in_rationale s"
  shows "parse_line ''RECOMMENDED ACTIONS:'' s = Inr s" "parse_line [] s = Inr s"
    and "l \<in> {strainer_line, bearing_line, load_line} \<Longrightarrow> \<exists>x. parse_line l s =
      Inr (s\<lparr>ps_actions := ps_actions s @ [numbered_action (length (ps_actions s)) x]\<rparr>)"
    and "\<exists>x. CHR ''e'' \<in> set x \<and> parse_line (rationale_line k) s = Inr (s\<lparr>ps_in_rationale := True, ps_rationale := ps_rationale s @ [x]\<rparr>)"
proof -
  have "py_strip ''RECOMMENDED ACTIONS:'' = ''RECOMMENDED ACTIONS:''"
    "\<not> py_startswith (py_upper ''RECOMMENDED ACTIONS:'') ''PRODUCT REORDER:''"
    "\<not> py_startswith (py_upper ''RECOMMENDED ACTIONS:'') ''RATIONALE:''"
    "action_prefix_of ''RECOMMENDED ACTIONS:'' = None" by code_simp+
  then show "parse_line ''RECOMMENDED ACTIONS:'' s = Inr s" using assms by (simp add: parse_line_def Let_def)
  have "action_prefix_of [] = None" by code_simp
  then show "parse_line [] s = Inr s" using assms by (simp add: parse_line_def Let_def py_upper_def)
  have digit: "parse_line l s = Inr (s\<lparr>ps_actions := ps_actions s @
      [numbered_action (length (ps_actions s)) (py_strip (drop (length p) (py_strip l)))]\<rparr>)"
    if "py_strip l = c # r" "action_prefix_of (c # r) = Some p" "upper_char c \<noteq> CHR ''P''" "upper_char c \<noteq> CHR ''R''" for l c r p
    using that assms by (simp add: parse_line_def Let_def py_upper_def)
  have up: "upper_char (CHR ''1'') = CHR ''1''" "upper_char (CHR ''2'') = CHR ''2''" "upper_char (CHR ''3'') = CHR ''3''" by code_simp+
  have sp: "\<not> is_space (CHR ''1'')" "\<not> is_space (CHR ''2'')" "\<not> is_space (CHR ''3'')" "\<not> is_space (CHR ''.'')" by code_simp+
  have st: "py_strip strainer_line = CHR ''1'' # tl strainer_line" "py_strip bearing_line = CHR ''2'' # tl bearing_line"
    "py_strip load_line = CHR ''3'' # tl load_line"
    by (subst py_strip_id; simp add: strainer_line_def bearing_line_def load_line_def sp)+
  have pre: "action_prefix_of (CHR ''1'' # tl strainer_line) = Some ''1.''" "action_prefix_of (CHR ''2'' # tl bearing_line) = Some ''2.''"
    "action_prefix_of (CHR ''3'' # tl load_line) = Some ''3.''"
    by (simp_all add: action_prefix_of_def action_prefixes_def strainer_line_def bearing_line_def load_line_def)
  show "\<exists>x. parse_line l s = Inr (s\<lparr>ps_actions := ps_actions s @ [numbered_action (length (ps_actions s)) x]\<rparr>)"
    if "l \<in> {strainer_line, bearing_line, load_line}"
    using that digit [OF st(1) pre(1)] digit [OF st(2) pre(2)] digit [OF st(3) pre(3)] up by auto
  have rat: "\<exists>r. rationale_line k = ''RATIONALE: '' @ r \<and> r \<noteq> [] \<and> last r = CHR ''.'' \<and> \<not> is_space (hd r) \<and> CHR ''e'' \<in> set r"
  proof -
    have "\<not> is_space (CHR ''T'')" "\<not> is_space (CHR ''H'')" by code_simp+
    then show ?thesis by (simp add: rationale_line_def)
  qed
  then obtain r where r: "rationale_line k = ''RATIONALE: '' @ r" "r \<noteq> []" "last r = CHR ''.''" "\<not> is_space (hd r)" "CHR ''e'' \<in> set r" by blast
  have R: "\<not> is_space (CHR ''R'')" "upper_char (CHR ''R'') \<noteq> CHR ''P''" by code_simp+
  have whole: "py_strip (rationale_line k) = rationale_line k" by (rule py_strip_id) (simp_all add: r R sp)
  have U: "py_upper ''RATIONALE:'' = ''RATIONALE:''" by code_simp
  have split: "rationale_line k = ''RATIONALE:'' @ (CHR '' '' # r)" by (simp add: r(1))
  have up2: "py_upper (rationale_line k) = ''RATIONALE:'' @ py_upper (CHR '' '' # r)"
    unfolding split py_upper_def map_append unfolding py_upper_def [symmetric] U ..
  have "py_startswith (py_upper (rationale_line k)) ''RATIONALE:''" unfolding up2 py_startswith_iff by blast
  moreover have "\<not> py_startswith (py_upper (rationale_line k)) ''PRODUCT REORDER:''" unfolding up2 by simp
  ultimately have "parse_line (rationale_line k) s = Inr (s\<lparr>ps_in_rationale := True,
      ps_rationale := ps_rationale s @ [py_strip (drop 10 (rationale_line k))]\<rparr>)"
    by (simp add: parse_line_def Let_def whole)
  moreover have "py_strip (drop 10 (rationale_line k)) = r"
  proof -
    have "is_space (CHR '' '')" by code_simp
    then have "py_strip (CHR '' '' # r) = py_strip r" by (simp add: py_strip_def py_lstrip_def)
    then show ?thesis using py_strip_id [of r] r sp by simp
  qed
  ultimately show "\<exists>x. CHR ''e'' \<in> set x \<and> parse_line (rationale_line k) s =
      Inr (s\<lparr>ps_in_rationale := True, ps_rationale := ps_rationale s @ [x]\<rparr>)" using r(5) by auto
qed

lemma maintenance_line_read:
  "ps_in_rationale s \<Longrightarrow> \<exists>x. parse_line maintenance_line s = Inr (s\<lparr>ps_rationale := ps_rationale s @ [x]\<rparr>)"
proof -
  have m: "\<not> is_space (CHR ''M'')" "\<not> is_space (CHR ''.'')" "upper_char (CHR ''M'') = CHR ''M''" by code_simp+
  have "py_strip maintenance_line = maintenance_line" by (rule py_strip_id) (simp_all add: maintenance_line_def m)
  moreover obtain r where r: "maintenance_line = CHR ''M'' # r" by (simp add: maintenance_line_def)
  have "py_upper maintenance_line = CHR ''M'' # py_upper r" unfolding r py_upper_def list.map m(3) ..
  ultimately show "ps_in_rationale s \<Longrightarrow> \<exists>x. parse_line maintenance_line s = Inr (s\<lparr>ps_rationale := ps_rationale s @ [x]\<rparr>)"
    by (intro exI [of _ maintenance_line]) (simp add: parse_line_def Let_def)
qed

lemma parse_lines_append: "parse_lines (a @ b) s = bindR (parse_lines a s) (parse_lines b)"
proof (induction a arbitrary: s)
  case (Cons l a)
  then show ?case by (cases "parse_line l s") simp_all
qed simp

lemma action_lines_read:
  "set ls \<subseteq> {strainer_line, bearing_line, load_line} \<Longrightarrow> \<not> ps_in_rationale s \<Longrightarrow>
     \<exists>xs. length xs = length ls \<and> parse_lines ls s = Inr (s\<lparr>ps_actions := ps_actions s @
       map (\<lambda>(k, x). numbered_action k x) (zip [length (ps_actions s)..<length (ps_actions s) + length ls] xs)\<rparr>)"
proof (induction ls arbitrary: s)
  case (Cons l ls)
  then obtain x where x: "parse_line l s = Inr (s\<lparr>ps_actions := ps_actions s @ [numbered_action (length (ps_actions s)) x]\<rparr>)"
    using plan_lines_read(3) [of s l] by auto
  let ?s = "s\<lparr>ps_actions := ps_actions s @ [numbered_action (length (ps_actions s)) x]\<rparr>"
  obtain xs where xs: "length xs = length ls" "parse_lines ls ?s = Inr (?s\<lparr>ps_actions := ps_actions ?s @
      map (\<lambda>(k, x). numbered_action k x) (zip [length (ps_actions ?s)..<length (ps_actions ?s) + length ls] xs)\<rparr>)"
    using Cons.IH [of ?s] Cons.prems by auto
  have "[length (ps_actions s)..<length (ps_actions s) + length (l # ls)] =
      length (ps_actions s) # [Suc (length (ps_actions s))..<Suc (length (ps_actions s)) + length ls]"
    by (simp add: upt_rec [of "length (ps_actions s)"] del: upt_Suc)
  with x xs show ?case by (intro exI [of _ "x # xs"]) simp
qed simp

section \<open>Properties\<close>

text \<open>
  C27. The fake model invents no citation.  Whatever the prompt and the material, when the check accepts
  its derived analysis, the cause and the confidence are the ones of the first matching sensor
  pattern, and every cited point is one of the prompt's own lines followed by one of the three marks
  (or, for a prompt that shows no procedure and no past incident, the closing remark).
\<close>

theorem fake_invents_no_citation:
  assumes "parse_and_validate (derive_fake_analysis prompt) ss cs hs = Valid dg"
  shows "\<not> dg_insufficient dg \<and> dg_cited dg \<noteq> [] \<and>
    (dg_hypothesis dg, dg_confidence dg) \<in> {(''cooling-water pump degradation'', 87), (''heat-exchanger fouling'', 78),
       (''cooling-loop chemistry excursion'', 72)} \<and>
    (\<forall>p\<in>set (dg_cited dg).
       (\<exists>l\<in>set (map py_strip (splitlines prompt)). \<exists>m\<in>set marks. cp_text p = l @ m) \<or>
       (cp_text p = drop 2 insufficient_bullet \<and>
        lines_with ''- SOP ['' prompt = [] \<and> lines_with ''- HIST ['' prompt = []))"
proof -
  let ?cause = "fake_cause (flagged_types (lines_with ''- sensor:'' prompt))"
  let ?cite = "\<lambda>p. map_option (\<lambda>(ty, ref). \<lparr>cp_type = ty, cp_ref = ref, cp_text = p\<rparr>) (validate_point p ss cs hs)"
  have dg: "dg = \<lparr>dg_insufficient = False, dg_hypothesis = fst (snd ?cause), dg_confidence = int (snd (snd ?cause)),
      dg_cited = List.map_filter ?cite (fake_points prompt)\<rparr>" "List.map_filter ?cite (fake_points prompt) \<noteq> []"
    using assms by (auto simp: fake_analysis_checked Let_def split: if_splits)
  have "(\<exists>l\<in>set (map py_strip (splitlines prompt)). \<exists>m\<in>set marks. cp_text p = l @ m) \<or>
      (cp_text p = drop 2 insufficient_bullet \<and> lines_with ''- SOP ['' prompt = [] \<and> lines_with ''- HIST ['' prompt = [])"
    if "p \<in> set (dg_cited dg)" for p
  proof -
    from that obtain q where q: "q \<in> set (fake_points prompt)" "cp_text p = q"
      by (auto simp: dg(1) List.map_filter_def)
    then obtain x where x: "x \<in> set (fake_evidence_lines prompt)" "q = drop 2 x" by (auto simp: fake_points_def)
    from x(1) show ?thesis
    proof (cases rule: fake_line_cases)
      case (quoted l m)
      with x q show ?thesis by (intro disjI1 bexI [of _ l] bexI [of _ m]) simp_all
    qed (use x q in simp)
  qed
  then show ?thesis using dg by (auto simp: fake_cause_def)
qed

definition sample_prompt :: string where
  "sample_prompt = ''- sensor: temperature value=36'' @ newline @ ''- SOP [SOP-1] cooling''"

lemma sample_prompt_parse:
  "parse_and_validate (derive_fake_analysis sample_prompt) [plain_sensor]
     [\<lparr>sc_doc_id = ''SOP-1'', sc_title = [], sc_section = [], sc_score = 0, sc_excerpt = [],
       sc_citation = [], sc_source_type = [], sc_source_url = None\<rparr>] [] =
   Valid \<lparr>dg_insufficient = False, dg_hypothesis = ''heat-exchanger fouling'', dg_confidence = 78,
     dg_cited = [\<lparr>cp_type = ''sensor'', cp_ref = ''temperature'', cp_text = ''- sensor: temperature value=36 [sensor reading]''\<rparr>,
                 \<lparr>cp_type = ''sop'', cp_ref = ''SOP-1'', cp_text = ''- SOP [SOP-1] cooling [SOP citation]''\<rparr>]\<rparr>"
  unfolding fake_analysis_checked by code_simp

theorem fake_invents_no_citation_witness:
  "\<exists>dg. parse_and_validate (derive_fake_analysis sample_prompt) [plain_sensor]
     [\<lparr>sc_doc_id = ''SOP-1'', sc_title = [], sc_section = [], sc_score = 0, sc_excerpt = [],
       sc_citation = [], sc_source_type = [], sc_source_url = None\<rparr>] [] = Valid dg \<and>
     dg_hypothesis dg = ''heat-exchanger fouling'' \<and> dg_cited dg \<noteq> []"
  using fake_invents_no_citation [OF sample_prompt_parse] sample_prompt_parse by simp

text \<open>
  The fake model cannot report insufficient evidence: its closing remark is a bullet the check
  rejects.  On an incident without procedures and past incidents, a prompt without such lines leads
  to two rejected answers and the withheld note, where the same verdict on one line of its own would
  have been accepted as a diagnosis of insufficient evidence.
\<close>

theorem fake_without_sources_is_withheld:
  assumes "lines_with ''- SOP ['' prompt = []" "lines_with ''- HIST ['' prompt = []"
    and "mt_chunks m = []" "mt_history m = []"
    and "rce_llm env 1 m = Inr (fake_answer (derive_fake_analysis prompt))"
    and "rce_llm env 2 m = Inr (fake_answer (derive_fake_analysis prompt))"
  shows "diagnose env bus i m t w =
    (case on_db (rc_persist env i withheld_text 0 [] NeedsHumanReview t) w of
       (Inl e, w1) \<Rightarrow> (Inl e, w1)
     | (Inr _, w1) \<Rightarrow> (Inr None, w1))"
proof -
  have "insufficient_bullet \<in> set (fake_evidence_lines prompt)" using assms(1,2) by (simp add: fake_evidence_lines_def Let_def)
  then have pt: "drop 2 insufficient_bullet \<in> set (fake_points prompt)" by (simp add: fake_points_def)
  have no: "\<not> py_in ''[sensor reading]'' (py_lower (drop 2 insufficient_bullet))"
    "\<not> py_in ''[sop citation'' (py_lower (drop 2 insufficient_bullet))"
    "\<not> py_in ''sop citation'' (py_lower (drop 2 insufficient_bullet))"
    "\<not> py_in ''[historical incident'' (py_lower (drop 2 insufficient_bullet))"
    "\<not> py_in ''historical incident'' (py_lower (drop 2 insufficient_bullet))" by code_simp+
  have "validate_point (drop 2 insufficient_bullet) ss [] [] = None" for ss
    unfolding validate_point_def Let_def
    by (simp only: no if_False simp_thms) (simp add: sop_keys_def history_keys_def dict_of_def first_key_def tag_def)
  then have "filter (\<lambda>p. validate_point p ss [] [] = None) (fake_points prompt) \<noteq> []" for ss
    unfolding filter_empty_conv using pt by metis
  then have "\<exists>why. parse_and_validate (derive_fake_analysis prompt) ss [] [] = Invalid why" for ss
    by (simp add: fake_analysis_checked Let_def)
  then obtain why where "check_answer m (fake_answer (derive_fake_analysis prompt)) = Invalid why"
    using assms(3,4) by (auto simp: check_answer_def fake_answer_def)
  then show ?thesis using assms(5,6) by (simp add: diagnose_def)
qed

definition faking :: rc_env where
  "faking = (answering [])\<lparr>rce_llm := \<lambda>k m. Inr (fake_answer (derive_fake_analysis ''- sensor: temperature''))\<rparr>"

theorem fake_without_sources_is_withheld_witness:
  "\<exists>w1. diagnose faking (\<lambda>_. None) (uuid_str 7) \<lparr>mt_sensors = [plain_sensor], mt_chunks = [], mt_history = []\<rparr> 9 open_world
     = (Inr None, w1)"
proof -
  have lw: "lines_with ''- SOP ['' ''- sensor: temperature'' = []" "lines_with ''- HIST ['' ''- sensor: temperature'' = []"
    by code_simp+
  have fk: "rce_llm faking k m = Inr (fake_answer (derive_fake_analysis ''- sensor: temperature''))" for k m
    by (simp add: faking_def)
  have n: "rce_faults faking 1 = None" "(1::nat) \<le> 1" "1 \<le> rce_attempts faking" by (simp_all add: faking_def)
  have "find_incident 7 (w_db open_world) = Some open_incident" by (simp add: open_facts)
  then obtain d1 where "rc_persist faking (uuid_str 7) withheld_text 0 [] NeedsHumanReview 9 (w_db open_world) = (Inr (), d1)"
    using rc_persist_succeeds [OF n sample_uuid(4)] by blast
  then show ?thesis
    using fake_without_sources_is_withheld [where m = "\<lparr>mt_sensors = [plain_sensor], mt_chunks = [], mt_history = []\<rparr>",
        OF lw _ _ fk fk, of "\<lambda>_. None" "uuid_str 7" 9 open_world]
    by (simp add: on_db_def)
qed

text \<open>
  Every plan the fake model can derive parses: two or three work orders, numbered from 1, and a
  rationale, whatever the tools returned.
\<close>

theorem fake_plan_parses:
  "\<exists>acts rationale. parse_recommendation (derive_fake_recommendation tool_text) = Inr (acts, rationale) \<and>
     length acts \<in> {2, 3} \<and> rationale \<noteq> [] \<and>
     (\<exists>xs. acts = map (\<lambda>(k, x). numbered_action k x) (zip [0..<length acts] xs) \<and> length xs = length acts)"
proof -
  obtain s k b where plan: "derive_fake_recommendation tool_text = py_join newline (fake_plan_lines s k b)"
    by (simp add: derive_fake_recommendation_def Let_def)
  have clean: "list_all (\<lambda>c. \<not> is_linebreak c) ''RECOMMENDED ACTIONS:''" "list_all (\<lambda>c. \<not> is_linebreak c) strainer_line"
    "list_all (\<lambda>c. \<not> is_linebreak c) bearing_line" "list_all (\<lambda>c. \<not> is_linebreak c) load_line"
    "list_all (\<lambda>c. \<not> is_linebreak c) (rationale_line True)" "list_all (\<lambda>c. \<not> is_linebreak c) (rationale_line False)"
    "list_all (\<lambda>c. \<not> is_linebreak c) maintenance_line"
    by (simp_all add: linebreak_iff strainer_line_def bearing_line_def load_line_def rationale_line_def maintenance_line_def)
  have rk: "list_all (\<lambda>c. \<not> is_linebreak c) (rationale_line k)" using clean(5,6) by (cases k) simp_all
  have lines: "splitlines (derive_fake_recommendation tool_text) = fake_plan_lines s k b"
    unfolding plan
  proof (rule splitlines_join)
    show "last (fake_plan_lines s k b) \<noteq> []"
      by (cases b) (simp_all add: fake_plan_lines_def rationale_line_def maintenance_line_def)
    show "list_all (list_all (\<lambda>c. \<not> is_linebreak c)) (fake_plan_lines s k b)"
      by (simp only: fake_plan_lines_def) (simp add: clean(2-4,7) rk clean(1) [simplified])
  qed (simp add: fake_plan_lines_def)
  define acts where "acts = (if s then [strainer_line] else []) @ [bearing_line, load_line]"
  have "\<not> ps_in_rationale parse_start" by (simp add: parse_start_def)
  moreover have "set acts \<subseteq> {strainer_line, bearing_line, load_line}" by (auto simp: acts_def)
  ultimately obtain xs where xs: "length xs = length acts" "parse_lines acts parse_start =
      Inr (parse_start\<lparr>ps_actions := map (\<lambda>(k, x). numbered_action k x) (zip [0..<length acts] xs)\<rparr>)"
    using action_lines_read [of acts parse_start] by (auto simp: parse_start_def)
  let ?s1 = "parse_start\<lparr>ps_actions := map (\<lambda>(k, x). numbered_action k x) (zip [0..<length acts] xs)\<rparr>"
  have s1: "\<not> ps_in_rationale ?s1" "ps_rationale ?s1 = []" "ps_reorder ?s1 = None" by (simp_all add: parse_start_def)
  obtain x where x: "CHR ''e'' \<in> set x" "parse_line (rationale_line k) ?s1 =
      Inr (?s1\<lparr>ps_in_rationale := True, ps_rationale := [x]\<rparr>)"
    using plan_lines_read(4) [OF s1(1), of k] s1(2) by auto
  let ?s2 = "?s1\<lparr>ps_in_rationale := True, ps_rationale := [x]\<rparr>"
  obtain ys where ys: "parse_lines (if b then [maintenance_line] else []) ?s2 = Inr (?s2\<lparr>ps_rationale := x # ys\<rparr>)"
    using maintenance_line_read [of ?s2] by (cases b) auto
  have "fake_plan_lines s k b = [''RECOMMENDED ACTIONS:''] @ acts @ [[], rationale_line k] @ (if b then [maintenance_line] else [])"
    by (simp add: fake_plan_lines_def acts_def)
  then have "parse_lines (splitlines (derive_fake_recommendation tool_text)) parse_start = Inr (?s2\<lparr>ps_rationale := x # ys\<rparr>)"
    unfolding lines
    by (simp only: parse_lines_append parse_lines.simps plan_lines_read(1,2) [OF \<open>\<not> ps_in_rationale parse_start\<close>]
        plan_lines_read(2) [OF s1(1)] bindR_simps xs(2) x(2) ys)
  moreover have "py_strip (py_join '' '' (filter (\<lambda>p. p \<noteq> []) (x # ys))) \<noteq> []"
  proof -
    have e: "\<not> is_space (CHR ''e'')" by code_simp
    have "CHR ''e'' \<in> set (py_join '' '' (filter (\<lambda>p. p \<noteq> []) (x # ys)))"
      using x(1) by (cases "filter (\<lambda>p. p \<noteq> []) ys") auto
    with e show ?thesis by (auto simp: py_strip_blank)
  qed
  ultimately show ?thesis
    using xs(1) s1(3) by (auto simp: parse_recommendation_def Let_def acts_def intro!: exI [of _ xs])
qed

definition fake_llm ::
  "json_loads \<Rightarrow> (chat_message \<Rightarrow> message) \<Rightarrow> nat \<Rightarrow> chat_message list \<Rightarrow> bool \<Rightarrow> llm_response result" where
  "fake_llm loads render k msgs offered =
     fst (fake_chat loads (map render msgs) \<lparr>fk_script = [], fk_calls = k - 1\<rparr>)"

definition renders_roles :: "(chat_message \<Rightarrow> message) \<Rightarrow> bool" where
  "renders_roles render \<longleftrightarrow> (\<forall>m. fst (render m) = ''tool'' \<longleftrightarrow> (\<exists>i r. m = ToolMessage i r))"

text \<open>
  The planner with the fake model: one round with both tools, one answer, and a recommendation that
  parses.  For any rendering of the messages in which exactly the tool results have the role
  \<open>tool\<close>, the loop ends after two calls with a plan and the two tool calls on the log, in
  order, with the results the tools gave; no cost is written.
\<close>

theorem fake_planner_ends_after_two_calls:
  assumes "renders_roles render" "re_llm env = fake_llm loads render"
  shows "\<exists>tool_text e1 e2. planner_loop env i ctx t d = (Inr (derive_fake_recommendation tool_text, [e1, e2]), d) \<and>
     (te_round e1, te_tool e1) = (1, ''get_equipment_maintenance_status'') \<and>
     (te_round e2, te_tool e2) = (1, ''get_similar_incident_outcomes'') \<and>
     (\<forall>e\<in>{e1, e2}. te_result e = execute_tool env (te_tool e) (te_arguments e) d)"
proof -
  have role: "fst (render SystemPrompt) \<noteq> ''tool''" "fst (render (ContextPrompt ctx)) \<noteq> ''tool''"
    "fst (render (ToolMessage j r)) = ''tool''" for j r
    using assms(1) unfolding renders_roles_def by blast+
  let ?m1 = "[SystemPrompt, ContextPrompt ctx]"
  obtain c1 c2 where r1: "fake_llm loads render 1 ?m1 True = Inr (calls_answer [c1, c2])"
    "tc_name c1 = ''get_equipment_maintenance_status''" "tc_name c2 = ''get_similar_incident_outcomes''"
    using role(1,2) by (simp add: fake_llm_def fake_chat_def Let_def)
  let ?e = "tool_entry_of env 1 t d"
  let ?m2 = "?m1 @ [AssistantCalls [] [c1, c2], ToolMessage (tc_id c1) (te_result (?e c1)), ToolMessage (tc_id c2) (te_result (?e c2))]"
  have "\<exists>tool_text. fake_llm loads render 2 ?m2 True = Inr (fake_answer (derive_fake_recommendation tool_text))"
    using role(3) by (auto simp: fake_llm_def fake_chat_def Let_def)
  then obtain tool_text where r2: "fake_llm loads render 2 ?m2 True = Inr (fake_answer (derive_fake_recommendation tool_text))"
    by blast
  have two: "max_tool_rounds = Suc (Suc 2)" "Suc 1 = 2" by (simp_all add: max_tool_rounds_def)
  have "planner_loop env i ctx t d = planner_rounds env i (Suc 2) (Suc 1) ?m2 [?e c1, ?e c2] t d"
    unfolding planner_loop_def two(1) planner_rounds.simps(2) [of env i "Suc 2"] assms(2) r1(1)
    by (simp add: calls_answer_def Let_def)
  also have "\<dots> = (Inr (derive_fake_recommendation tool_text, [?e c1, ?e c2]), d)"
    unfolding planner_rounds.simps(2) [of env i 2] two(2) assms(2) r2 by (simp add: fake_answer_def)
  finally show ?thesis using r1(2,3) by (auto simp: tool_entry_of_def)
qed

definition role_of_message :: "chat_message \<Rightarrow> message" where
  "role_of_message m = (case m of ToolMessage i r \<Rightarrow> (''tool'', []) | _ \<Rightarrow> (''user'', []))"

definition planning :: rec_env where
  "planning = \<lparr>re_llm = fake_llm (\<lambda>_. None) role_of_message, re_jsonb_text = (\<lambda>_. []), re_cast_uuid = (\<lambda>_. None),
     re_flat_input = None, re_flat_output = None, re_faults = (\<lambda>k. None), re_attempts = 3\<rparr>"

theorem fake_planner_ends_after_two_calls_witness:
  "\<forall>i ctx t. \<exists>answer e1 e2. planner_loop planning i ctx t sample_db = (Inr (answer, [e1, e2]), sample_db) \<and> te_round e2 = 1"
proof (intro allI)
  fix i ctx t
  have "renders_roles role_of_message"
    unfolding renders_roles_def by (auto simp: role_of_message_def split: chat_message.split)
  from fake_planner_ends_after_two_calls [OF this, of planning "\<lambda>_. None" i ctx t sample_db]
  show "\<exists>answer e1 e2. planner_loop planning i ctx t sample_db = (Inr (answer, [e1, e2]), sample_db) \<and> te_round e2 = 1"
    by (auto simp: planning_def)
qed

text \<open>
  An empty reply is harmless.  A reply without choices, without a message or without content, and
  without tool calls, is an empty text: the diagnosis check rejects it and the planner's parser turns
  it into one manual action, which is never executed.
\<close>

theorem empty_reply_is_harmless:
  assumes "or_str (gm_content (first_message data)) [] = []" "or_list (gm_tool_calls (first_message data)) = []"
  shows "\<exists>r. groq_generate loads model (Inr data) = Inr r \<and> lr_content r = [] \<and> lr_tool_calls r = [] \<and>
     parse_and_validate (lr_content r) ss cs hs = Invalid ''no hypothesis line found'' \<and>
     parse_recommendation (lr_content r) =
       Inr ([\<lparr>ra_action = Some ''No specific action parsed'', ra_priority = Some 1, ra_type = Some ''manual'',
              ra_product_key = None, ra_quantity = None\<rparr>], [])"
proof -
  have lower: "\<not> py_in ''insufficient evidence'' (py_lower [])" by code_simp
  have a: "parse_and_validate [] ss cs hs = Invalid ''no hypothesis line found''"
    by (simp add: parse_and_validate_def Let_def lower)
  have "py_strip ''No specific action parsed'' = ''No specific action parsed''" by code_simp
  then have "parse_recommendation [] =
       Inr ([\<lparr>ra_action = Some ''No specific action parsed'', ra_priority = Some 1, ra_type = Some ''manual'',
              ra_product_key = None, ra_quantity = None\<rparr>], [])"
    by (simp add: parse_recommendation_def parse_start_def fallback_action_def)
  with a assms show ?thesis by (simp add: groq_generate_def groq_response_def Let_def)
qed

theorem empty_reply_is_harmless_witness:
  "\<exists>r. groq_generate (\<lambda>_. None) ''m'' (Inr \<lparr>gd_choices = Some [], gd_model = None, gd_usage = None\<rparr>) = Inr r \<and> lr_content r = []"
  using empty_reply_is_harmless [of "\<lparr>gd_choices = Some [], gd_model = None, gd_usage = None\<rparr>" "\<lambda>_. None" "''m''" "[]" "[]" "[]"]
  by (auto simp: first_message_def)

text \<open>
  The client is chosen once: a cached client is returned whatever the settings say now, a missing
  key raises and caches nothing unless the fake mode is on, and after a reset the settings decide
  again.
\<close>

theorem llm_client_is_chosen_once:
  "get_llm_client st (Some c) = (Inr c, Some c)"
  "ls_fake_mode st \<Longrightarrow> get_llm_client st (reset_llm_client cached) = (Inr FakeClient, Some FakeClient)"
  "\<not> ls_fake_mode st \<Longrightarrow> ls_api_key st = [] \<Longrightarrow> get_llm_client st None = (Inl missing_api_key, None)"
  by (simp_all add: get_llm_client_def reset_llm_client_def groq_client_def)

text \<open>
  A usage that reports only its total is paid for but not counted: the cost counter grows by the
  rate of the 80/20 split of the total, the token counter by nothing.
\<close>

theorem total_only_usage_is_not_counted:
  assumes "lr_usage r = \<lparr>us_prompt = None, us_completion = None, us_total = Some 1000000\<rparr>"
  shows "let c' = record_llm_metrics None None (agent, ''groq'', ''llama-3.3-70b-versatile'', incident) r c;
      l = (agent, ''groq'', ''llama-3.3-70b-versatile'', incident)
    in lc_tokens c' l = lc_tokens c l \<and> lc_calls c' l = lc_calls c l + 1 \<and> lc_cost c' l = lc_cost c l + 0.06"
proof -
  have "estimate_cost_usd None None ''llama-3.3-70b-versatile'' (lr_usage r) = 0.06"
    using half_even_int [of 6000000]
    by (simp add: assms estimate_cost_usd_def cost_rates_for_def default_cost_per_1m_def token_split_def py_round_def)
  then show ?thesis by (simp add: record_llm_metrics_def Let_def assms)
qed

theorem total_only_usage_is_not_counted_witness:
  "\<exists>r. lr_content r = ''x'' \<and>
     (let c' = record_llm_metrics None None ([], ''groq'', ''llama-3.3-70b-versatile'', []) r
         \<lparr>lc_calls = (\<lambda>_. 0), lc_tokens = (\<lambda>_. 0), lc_cost = (\<lambda>_. 0)\<rparr>
      in lc_tokens c' ([], ''groq'', ''llama-3.3-70b-versatile'', []) = 0)"
  using total_only_usage_is_not_counted [of "\<lparr>lr_content = ''x'', lr_tool_calls = [], lr_model = [],
      lr_usage = \<lparr>us_prompt = None, us_completion = None, us_total = Some 1000000\<rparr>\<rparr>" "[]" "[]"
      "\<lparr>lc_calls = (\<lambda>_. 0), lc_tokens = (\<lambda>_. 0), lc_cost = (\<lambda>_. 0)\<rparr>"]
  by (intro exI [of _ "\<lparr>lr_content = ''x'', lr_tool_calls = [], lr_model = [],
      lr_usage = \<lparr>us_prompt = None, us_completion = None, us_total = Some 1000000\<rparr>\<rparr>"]) (simp add: Let_def)

end
