(* ===== verification/Prompts.thy ===== *)
theory Prompts
  imports Ask LlmClient
begin

text \<open>
  The prompts of the Root-Cause and the Recommendation Agent (\<open>SYSTEM_PROMPT\<close>,
  \<open>STRICTER_REMINDER\<close> and \<open>_build_user_prompt\<close> of \<open>app/agents/root_cause/agent.py\<close> and
  \<open>app/agents/recommendation/agent.py\<close>) and what the fake client reads back from them.  Python's
  renderings of floats, dates and symptoms are the parameters of \<open>Ask\<close>; \<open>json.dumps\<close> of a tool
  result is a parameter too.
\<close>

section \<open>The prompts of the Root-Cause Agent\<close>

definition insufficient_sentence :: string where
  "insufficient_sentence = ''Insufficient evidence for a confident conclusion; human review required.''"

definition rc_system_prompt :: string where
  "rc_system_prompt = py_join newline
     [''You are the Root-Cause Agent for ProcessGuard AI, an industrial anomaly '' @
      ''investigation system for water-treatment sites (Ackumen-style monitoring).'',
      [],
      ''You receive: (1) an anomaly summary listing which sensors breached their normal bands, by '' @
      ''how much, and how fast; (2) retrieved evidence: SOP excerpts with document ids, and similar '' @
      ''past incidents with their root causes and outcomes.'',
      [],
      ''Respond in EXACTLY this format:'',
      [],
      ''Most likely cause: <one-sentence hypothesis> (confidence <N>%)'',
      ''Evidence:'',
      ''- <evidence point> [sensor reading]'',
      ''- <evidence point> [SOP citation SOP-XXX-NNN]'',
      ''- <evidence point> [historical incident HIST-YYYY-NNNN]'',
      [],
      ''ABSOLUTE RULES:'',
      ''1. Every evidence point MUST carry one of the three bracket tags, and every id, sensor, or '' @
      ''value it mentions MUST come from the provided anomaly summary or evidence. NEVER invent '' @
      ''sensor values, SOP ids, incident references, or numbers.'',
      ''2. NEVER state a cause without at least one cited evidence point.'',
      ''3. If the evidence is insufficient for a confident conclusion, respond with exactly: '' @
      [CHR 0x22] @ insufficient_sentence @ [CHR 0x22] @ '' and nothing else.'',
      ''4. Do not recommend actions; a separate agent handles that.'']"

definition stricter_reminder :: string where
  "stricter_reminder = py_join newline
     [[], [],
      ''RETRY WITH STRICTER RULES: your previous answer was REJECTED because it contained at least '' @
      ''one evidence point without a verifiable citation (or cited an id/value that was not in the '' @
      ''provided material). Return ONLY evidence points that cite sensors, SOP ids, or incident '' @
      ''references EXACTLY as given to you above. If you cannot do that, respond with exactly: '' @
      [CHR 0x22] @ insufficient_sentence @ [CHR 0x22],
      []]"

text \<open>The system prompt of the attempt: the second one carries the reminder.\<close>

definition rc_system :: "nat \<Rightarrow> string" where
  "rc_system attempt = rc_system_prompt @ (if attempt = 2 then stricter_reminder else [])"

definition rc_sensor_line :: "renderings \<Rightarrow> sensor_entry \<Rightarrow> string" where
  "rc_sensor_line r s =
     ''- sensor: '' @ or_none id (se_sensor_type s) @ '' value='' @ rd_real r (se_value s) @ se_unit s @
     '' ('' @ or_none id (se_reason s) @ ''; static_margin='' @ or_none (rd_real r) (se_static_margin s) @
     '', drift_z='' @ or_none (rd_real r) (se_drift_z s) @ '')''"

definition rc_sop_line :: "renderings \<Rightarrow> sop_chunk \<Rightarrow> string" where
  "rc_sop_line r c =
     ''- SOP ['' @ sc_doc_id c @ ''] '' @ sc_title c @ '' -- '' @ sc_section c @
     '' (score '' @ rd_real r (sc_score c) @ ''):''"

text \<open>At most six lines of an excerpt are shown, indented.\<close>

definition excerpt_lines :: "sop_chunk \<Rightarrow> string list" where
  "excerpt_lines c = map (\<lambda>l. ''    '' @ l) (take 6 (splitlines (sc_excerpt c)))"

definition rc_user_lines :: "renderings \<Rightarrow> rc_material \<Rightarrow> string list" where
  "rc_user_lines r m =
     [''ANOMALY SUMMARY:''] @ map (rc_sensor_line r) (mt_sensors m) @ [[], ''RETRIEVED EVIDENCE:''] @
     concat (map (\<lambda>c. rc_sop_line r c # excerpt_lines c) (mt_chunks m)) @
     map (history_context r) (mt_history m) @
     (if mt_chunks m = [] \<and> mt_history m = [] then [''- (no SOP or historical evidence was retrieved)''] else []) @
     [[], ''Produce the root-cause analysis in the exact format from your instructions.'']"

definition rc_user_prompt :: "renderings \<Rightarrow> rc_material \<Rightarrow> string" where
  "rc_user_prompt r m = py_join newline (rc_user_lines r m)"

text \<open>The model behind the agent: a client's \<open>generate\<close> on the two prompts.\<close>

definition rc_model ::
  "renderings \<Rightarrow> (string \<Rightarrow> string \<Rightarrow> llm_response result) \<Rightarrow> nat \<Rightarrow> rc_material \<Rightarrow> llm_response result" where
  "rc_model r generate attempt m = generate (rc_system attempt) (rc_user_prompt r m)"

section \<open>The prompts of the Recommendation Agent\<close>

definition rec_system_prompt :: string where
  "rec_system_prompt = py_join newline
     [''You are the Recommendation Agent for ProcessGuard AI, an industrial water-treatment '' @
      ''monitoring system. You receive a diagnosed anomaly (root-cause hypothesis, cited evidence, risk '' @
      ''assessment) and produce the recommended response.'',
      [],
      ''You have tools available. Use get_similar_incident_outcomes to learn what action was taken last '' @
      ''time for similar symptoms and whether it worked, and get_equipment_maintenance_status to check '' @
      ''the equipment'' @ [CHR 0x27] @ ''s service history and condition flags -- BEFORE finalizing your recommendation.'',
      [],
      ''Then respond in EXACTLY this format:'',
      [],
      ''RECOMMENDED ACTIONS:'',
      ''1. <specific action>'',
      ''2. <specific action>'',
      ''...'',
      ''RATIONALE: <2-3 plain-language sentences a non-technical plant operator can read and act on>'',
      ''HITL NOTE: <one sentence stating which human-in-the-loop level applies and what it means>'',
      [],
      ''Rules: be specific (name the equipment and the checks/limits), never invent equipment, values, '' @
      ''or history that was not provided, and never recommend bypassing the approval workflow.'',
      [],
      ''If the recommendation requires a treatment chemical or consumable that must be ordered, you may '' @
      ''append ONE extra line naming the product (use exactly one of: coagulant, biocide, corrosion_inhibitor), '' @
      ''the quantity, and the reason, in this exact format:'',
      ''PRODUCT REORDER: <coagulant|biocide|corrosion_inhibitor> qty=<number> because <one short reason>'']"

definition rec_sensor_line :: "renderings \<Rightarrow> sensor_entry \<Rightarrow> string" where
  "rec_sensor_line r s =
     ''- sensor: '' @ or_none id (se_sensor_type s) @ '' value='' @ rd_real r (se_value s) @ se_unit s @
     '' ('' @ or_none id (se_reason s) @ '')''"

definition rec_sensors :: "rec_context \<Rightarrow> sensor_entry list" where
  "rec_sensors ctx = (case rx_summary ctx of None \<Rightarrow> [] | Some s \<Rightarrow> su_sensors s)"

definition rec_equipment :: "rec_context \<Rightarrow> string" where
  "rec_equipment ctx = (case rx_summary ctx of None \<Rightarrow> [] | Some s \<Rightarrow> su_equipment_id s)"

definition rec_lines_before :: "renderings \<Rightarrow> rec_context \<Rightarrow> string list" where
  "rec_lines_before r ctx =
     [''DIAGNOSED ANOMALY:'',
      ''- hypothesis: '' @ rx_hypothesis ctx @ '' (confidence '' @ or_none int_str (rx_confidence ctx) @ ''%)''] @
     map (rec_sensor_line r) (rec_sensors ctx) @
     [[], ''RISK ASSESSMENT:'',
      ''- severity: '' @ or_none id (rx_risk_severity ctx),
      ''- potential consequences: '' @ or_str (Some (py_join '', '' (rx_consequences ctx))) ''none identified'',
      ''- applicable HITL level: '' @ or_none int_str (rx_level ctx)]"

definition rec_user_prompt :: "renderings \<Rightarrow> rec_context \<Rightarrow> string" where
  "rec_user_prompt r ctx = py_join newline
     (rec_lines_before r ctx @
      [''- equipment_id: '' @ rec_equipment ctx, [],
       ''Check maintenance status and similar past outcomes with your tools, '' @
       ''then produce the final recommendation in the required format.''])"

definition stop_calling_text :: string where
  "stop_calling_text = ''Stop calling tools. Produce the final recommendation in the required format now.''"

text \<open>The role and the content of each message of the planner loop.\<close>

definition render_message :: "renderings \<Rightarrow> (tool_result \<Rightarrow> string) \<Rightarrow> chat_message \<Rightarrow> message" where
  "render_message r dumps m =
     (case m of
        SystemPrompt \<Rightarrow> (''system'', rec_system_prompt)
      | ContextPrompt ctx \<Rightarrow> (''user'', rec_user_prompt r ctx)
      | AssistantCalls content calls \<Rightarrow> (''assistant'', content)
      | ToolMessage i x \<Rightarrow> (''tool'', dumps x)
      | StopCalling \<Rightarrow> (''user'', stop_calling_text))"

text \<open>The typed tools offered to the model: name, properties and required properties.\<close>

definition tool_schemas :: "(string \<times> string list \<times> string list) list" where
  "tool_schemas =
     [(''get_equipment_maintenance_status'', [''equipment_id''], [''equipment_id'']),
      (''get_similar_incident_outcomes'', [''equipment_id'', ''symptom_pattern''], [''symptom_pattern''])]"

section \<open>What is posted to Groq\<close>

text \<open>
  The body of a request.  Of a message it has the role and the content here; the calls an assistant
  message repeats and the identifier a tool message answers are the fields of \<open>chat_message\<close>.
  Without tools the two keys are missing.
\<close>

type_synonym tools = "(string \<times> string list \<times> string list) list"

record groq_body =
  gb_model :: string
  gb_messages :: "message list"
  gb_temperature :: real
  gb_tools :: "tools option"
  gb_tool_choice :: "string option"

definition groq_chat_body :: "string \<Rightarrow> message list \<Rightarrow> tools \<Rightarrow> groq_body" where
  "groq_chat_body model ms tools =
     \<lparr>gb_model = model, gb_messages = ms, gb_temperature = 0.2, gb_tools = (if tools = [] then None else Some tools),
      gb_tool_choice = (if tools = [] then None else Some ''auto'')\<rparr>"

definition groq_generate_body :: "string \<Rightarrow> string \<Rightarrow> string \<Rightarrow> tools \<Rightarrow> groq_body" where
  "groq_generate_body model system user tools =
     \<lparr>gb_model = model, gb_messages = [(''system'', system), (''user'', user)], gb_temperature = 0.2,
      gb_tools = (if tools = [] then None else Some tools), gb_tool_choice = (if tools = [] then None else Some ''auto'')\<rparr>"

definition groq_url :: "string \<Rightarrow> string" where
  "groq_url base = base @ ''/chat/completions''"

definition groq_headers :: "string \<Rightarrow> (string \<times> string) list" where
  "groq_headers key = [(''Authorization'', ''Bearer '' @ key), (''Content-Type'', ''application/json'')]"

text \<open>The Groq client as the model of the two agents: the transport answers a posted body.\<close>

definition groq_rc_model ::
  "(string \<Rightarrow> (string \<times> string) list \<Rightarrow> groq_body \<Rightarrow> groq_data result) \<Rightarrow> json_loads \<Rightarrow> string \<Rightarrow> string \<Rightarrow> string \<Rightarrow>
     string \<Rightarrow> string \<Rightarrow> llm_response result" where
  "groq_rc_model post loads key model base system user =
     groq_generate loads model (post (groq_url base) (groq_headers key) (groq_generate_body model system user []))"

definition groq_planner ::
  "(string \<Rightarrow> (string \<times> string) list \<Rightarrow> groq_body \<Rightarrow> groq_data result) \<Rightarrow> json_loads \<Rightarrow> string \<Rightarrow> string \<Rightarrow> string \<Rightarrow>
     (chat_message \<Rightarrow> message) \<Rightarrow> nat \<Rightarrow> chat_message list \<Rightarrow> bool \<Rightarrow> llm_response result" where
  "groq_planner post loads key model base render k msgs offered =
     groq_generate loads model (post (groq_url base) (groq_headers key)
       (groq_chat_body model (map render msgs) (if offered then tool_schemas else [])))"

section \<open>Facts\<close>

text \<open>
  A material is plain when its rendered lines have no line break inside and no line of a quoted
  excerpt looks like one of the three kinds of evidence lines.
\<close>

definition one_line :: "string \<Rightarrow> bool" where
  "one_line s = list_all (\<lambda>c. \<not> is_linebreak c) s"

definition evidence_marks :: "string list" where
  "evidence_marks = [''- sensor:'', ''- SOP ['', ''- HIST ['']"

definition quiet :: "string \<Rightarrow> bool" where
  "quiet l = list_all (\<lambda>p. \<not> py_startswith (py_strip l) p) evidence_marks"

definition plain_material :: "renderings \<Rightarrow> rc_material \<Rightarrow> bool" where
  "plain_material r m \<longleftrightarrow>
     list_all one_line (map (rc_sensor_line r) (mt_sensors m) @ map (rc_sop_line r) (mt_chunks m) @
       map (history_context r) (mt_history m)) \<and>
     list_all quiet (concat (map excerpt_lines (mt_chunks m)))"

lemma strip_marked:
  assumes "p \<noteq> []" "\<not> is_space (hd p)" "\<not> is_space (last p)"
  shows "\<exists>y. py_strip (p @ x) = p @ y"
proof -
  obtain c q where p: "p = c # q" using assms(1) by (cases p) auto
  then have l: "py_lstrip (p @ x) = p @ x" using assms(2) by (simp add: py_lstrip_def)
  have "\<exists>y. py_rstrip (p @ x) = p @ y"
  proof (cases "\<forall>c\<in>set x. is_space c")
    case True
    then have "dropWhile is_space (rev x @ rev p) = dropWhile is_space (rev p)" by (intro dropWhile_append2) simp
    also have "\<dots> = rev p" using assms(1,3) by (cases "rev p") (auto simp: last_rev [symmetric])
    finally show ?thesis by (simp add: py_rstrip_def)
  next
    case False
    then have "dropWhile is_space (rev x @ rev p) = dropWhile is_space (rev x) @ rev p"
      by (auto simp: dropWhile_append)
    then show ?thesis by (auto simp: py_rstrip_def)
  qed
  with l show ?thesis by (simp add: py_strip_def)
qed

lemma strip_spaces_left: "py_strip (''    '' @ l) = py_strip l"
proof -
  have "is_space (CHR '' '')" by code_simp
  then show ?thesis by (simp add: py_strip_def py_lstrip_def)
qed

lemma marks_do_not_overlap:
  "p \<in> set evidence_marks \<Longrightarrow> q \<in> set evidence_marks \<Longrightarrow> py_startswith (p @ x) q \<longleftrightarrow> p = q"
  by (auto simp: evidence_marks_def)

lemma marks_solid: "p \<in> set evidence_marks \<Longrightarrow> p \<noteq> [] \<and> \<not> is_space (hd p) \<and> \<not> is_space (last p)"
proof -
  have "list_all (\<lambda>p. p \<noteq> [] \<and> \<not> is_space (hd p) \<and> \<not> is_space (last p)) evidence_marks" by code_simp
  then show "p \<in> set evidence_marks \<Longrightarrow> p \<noteq> [] \<and> \<not> is_space (hd p) \<and> \<not> is_space (last p)"
    by (simp add: list_all_iff)
qed

text \<open>The lines of one kind among rendered lines: all of that kind, none of another, none of quiet lines.\<close>

definition picked :: "string \<Rightarrow> string list \<Rightarrow> string list" where
  "picked p ls = filter (\<lambda>l. py_startswith l p) (map py_strip ls)"

lemma picked_append: "picked p (a @ b) = picked p a @ picked p b"
  by (simp add: picked_def)

lemma picked_Cons: "picked p (l # ls) = (if py_startswith (py_strip l) p then [py_strip l] else []) @ picked p ls"
  by (simp add: picked_def)

lemma picked_kind:
  assumes "q \<in> set evidence_marks" "p \<in> set evidence_marks" "\<And>x. \<exists>y. f x = q @ y"
  shows "picked p (map f xs) = (if p = q then map (\<lambda>x. py_strip (f x)) xs else [])"
proof -
  have "py_startswith (py_strip (f x)) p \<longleftrightarrow> q = p" for x
  proof -
    obtain y where y: "f x = q @ y" using assms(3) by blast
    obtain z where "py_strip (f x) = q @ z" using strip_marked [of q y] marks_solid [OF assms(1)] y by auto
    then show ?thesis using marks_do_not_overlap [OF assms(1,2)] by simp
  qed
  then show ?thesis by (auto simp: picked_def comp_def)
qed

lemma picked_quiet: "p \<in> set evidence_marks \<Longrightarrow> list_all quiet ls \<Longrightarrow> picked p ls = []"
  by (induction ls) (auto simp: picked_def quiet_def list_all_iff)

lemma quiet_lines:
  "quiet []" "quiet ''ANOMALY SUMMARY:''" "quiet ''RETRIEVED EVIDENCE:''"
  "quiet ''- (no SOP or historical evidence was retrieved)''"
  "quiet ''Produce the root-cause analysis in the exact format from your instructions.''"
  by code_simp+

lemma one_line_texts:
  "one_line []" "one_line ''ANOMALY SUMMARY:''" "one_line ''RETRIEVED EVIDENCE:''"
  "one_line ''- (no SOP or historical evidence was retrieved)''"
  "one_line ''Produce the root-cause analysis in the exact format from your instructions.''" "one_line ''    ''"
  by code_simp+

lemma line_starts:
  "\<exists>y. rc_sensor_line r s = ''- sensor:'' @ y" "\<exists>y. rc_sop_line r c = ''- SOP ['' @ y"
  "\<exists>y. history_context r h = ''- HIST ['' @ y"
  unfolding rc_sensor_line_def rc_sop_line_def history_context_def
  by (rule exI, simp)+

lemma user_lines_clean:
  assumes "plain_material r m"
  shows "list_all one_line (rc_user_lines r m)"
proof -
  have "one_line (''    '' @ l)" if "l \<in> set (splitlines x)" for l x
    using one_line_texts(6) splitlines_clean [OF that] unfolding one_line_def list_all_append by (simp add: list_all_iff)
  then have "list_all one_line (excerpt_lines c)" for c
    by (auto simp: excerpt_lines_def list_all_iff dest: in_set_takeD)
  then have "list_all one_line (concat (map (\<lambda>c. rc_sop_line r c # excerpt_lines c) (mt_chunks m)))"
    using assms by (auto simp: plain_material_def list_all_iff)
  moreover have "list_all one_line (map (rc_sensor_line r) (mt_sensors m))" "list_all one_line (map (history_context r) (mt_history m))"
    using assms by (auto simp: plain_material_def)
  ultimately show ?thesis
    using one_line_texts unfolding rc_user_lines_def list_all_append by simp
qed

lemma lines_of_prompt:
  assumes "plain_material r m"
  shows "splitlines (rc_user_prompt r m) = rc_user_lines r m"
  unfolding rc_user_prompt_def
proof (rule splitlines_join)
  show "rc_user_lines r m \<noteq> []" "last (rc_user_lines r m) \<noteq> []" by (simp_all add: rc_user_lines_def)
  show "list_all (list_all (\<lambda>c. \<not> is_linebreak c)) (rc_user_lines r m)"
    using user_lines_clean [OF assms] by (simp add: one_line_def [abs_def])
qed

lemma picked_of_prompt:
  assumes "plain_material r m" "p \<in> set evidence_marks"
  shows "lines_with p (rc_user_prompt r m) =
    (if p = ''- sensor:'' then map (\<lambda>s. py_strip (rc_sensor_line r s)) (mt_sensors m)
     else if p = ''- SOP ['' then map (\<lambda>c. py_strip (rc_sop_line r c)) (mt_chunks m)
     else map (\<lambda>h. py_strip (history_context r h)) (mt_history m))"
proof -
  have em: "''- sensor:'' \<in> set evidence_marks" "''- SOP ['' \<in> set evidence_marks" "''- HIST ['' \<in> set evidence_marks"
    by (simp_all add: evidence_marks_def)
  have chunks: "picked p (concat (map (\<lambda>c. rc_sop_line r c # excerpt_lines c) cs)) = picked p (map (rc_sop_line r) cs)"
    if "list_all quiet (concat (map excerpt_lines cs))" for cs
    using that
  proof (induction cs)
    case (Cons c cs)
    then show ?case using picked_quiet [OF assms(2), of "excerpt_lines c"] by (simp add: picked_append picked_Cons)
  qed simp
  have q: "list_all quiet (concat (map excerpt_lines (mt_chunks m)))" using assms(1) by (simp add: plain_material_def)
  have none: "picked p (if b then [''- (no SOP or historical evidence was retrieved)''] else []) = []" for b
    using picked_quiet [OF assms(2)] quiet_lines by simp
  have "lines_with p (rc_user_prompt r m) = picked p (rc_user_lines r m)"
    unfolding lines_with_def lines_of_prompt [OF assms(1)] picked_def ..
  also have "\<dots> = picked p (map (rc_sensor_line r) (mt_sensors m)) @ picked p (map (rc_sop_line r) (mt_chunks m)) @
      picked p (map (history_context r) (mt_history m))"
    unfolding rc_user_lines_def picked_append none chunks [OF q]
    using picked_quiet [OF assms(2), of "[''ANOMALY SUMMARY:'']"] picked_quiet [OF assms(2), of "[[], ''RETRIEVED EVIDENCE:'']"]
      picked_quiet [OF assms(2), of "[[], ''Produce the root-cause analysis in the exact format from your instructions.'']"] quiet_lines
    by simp
  also have "\<dots> = (if p = ''- sensor:'' then map (\<lambda>s. py_strip (rc_sensor_line r s)) (mt_sensors m)
     else if p = ''- SOP ['' then map (\<lambda>c. py_strip (rc_sop_line r c)) (mt_chunks m)
     else map (\<lambda>h. py_strip (history_context r h)) (mt_history m))"
    unfolding picked_kind [OF em(1) assms(2) line_starts(1)] picked_kind [OF em(2) assms(2) line_starts(2)]
      picked_kind [OF em(3) assms(2) line_starts(3)]
    using assms(2) by (auto simp: evidence_marks_def)
  finally show ?thesis .
qed

lemma stripped_lines: "py_strip (rc_sensor_line r s) = rc_sensor_line r s" "py_strip (rc_sop_line r c) = rc_sop_line r c"
proof -
  have "\<not> is_space (CHR ''-'')" "\<not> is_space (CHR '')'')" "\<not> is_space (CHR '':'')" by code_simp+
  then show "py_strip (rc_sensor_line r s) = rc_sensor_line r s" "py_strip (rc_sop_line r c) = rc_sop_line r c"
    by (auto intro!: py_strip_id simp: rc_sensor_line_def rc_sop_line_def)
qed

text \<open>A dictionary keeps every key it was given.\<close>

lemma dict_set_keys: "fst ` set (dict_set k v kv) = insert k (fst ` set kv)"
  by (induction k v kv rule: dict_set.induct) (simp_all add: insert_commute)

lemma dict_of_keys: "fst ` set (dict_of kvs) = fst ` set kvs"
proof -
  have "fst ` set (fold (\<lambda>(k, v) kv. dict_set k v kv) kvs acc) = fst ` set acc \<union> fst ` set kvs" for acc
  proof (induction kvs arbitrary: acc)
    case (Cons e kvs)
    obtain k v where "e = (k, v)" by (cases e)
    with Cons [of "dict_set k v acc"] show ?case by (simp add: dict_set_keys)
  qed simp
  from this [of "[]"] show ?thesis by (simp add: dict_of_def)
qed

lemma first_key_found:
  assumes "k \<in> fst ` set kv" "k \<noteq> []" "P k"
  shows "first_key P kv \<noteq> None"
proof -
  from assms have "find (\<lambda>(k, v). k \<noteq> [] \<and> P k) kv \<noteq> None" by (auto simp: find_None_iff)
  then show ?thesis by (auto simp: first_key_def)
qed

lemma py_lower_append: "py_lower (a @ b) = py_lower a @ py_lower b"
  by (simp add: py_lower_def)

lemma py_in_right: "py_in p b \<Longrightarrow> py_in p (a @ b)"
  using py_in_append [of p b a "[]"] by simp

lemma py_in_left: "py_in p a \<Longrightarrow> py_in p (a @ b)"
  using py_in_append [of p a "[]" b] by simp

lemma py_in_here: "py_in p p"
  unfolding py_in_iff by (rule exI [of _ "[]"], rule exI [of _ "[]"]) simp

lemma py_in_lower: "py_in p s \<Longrightarrow> py_in (py_lower p) (py_lower s)"
  unfolding py_in_iff by (elim exE, intro exI) (simp only: py_lower_append)

text \<open>
  A material is citable when each flagged sensor, retrieved document and matched incident has a
  name, and no document or incident line carries the tag of another kind.
\<close>

definition citable_material :: "renderings \<Rightarrow> rc_material \<Rightarrow> bool" where
  "citable_material r m \<longleftrightarrow>
     list_all (\<lambda>s. se_sensor_type s \<noteq> None \<and> se_sensor_type s \<noteq> Some []) (mt_sensors m) \<and>
     list_all (\<lambda>c. sc_doc_id c \<noteq> [] \<and> \<not> py_in ''[sensor reading]'' (py_lower (rc_sop_line r c @ '' [SOP citation]''))) (mt_chunks m) \<and>
     list_all (\<lambda>h. hm_source h \<noteq> [] \<and>
       \<not> py_in ''[sensor reading]'' (py_lower (py_strip (history_context r h) @ '' [historical incident]'')) \<and>
       \<not> py_in ''sop citation'' (py_lower (py_strip (history_context r h) @ '' [historical incident]''))) (mt_history m)"

lemma lower_marks:
  "py_lower '' [sensor reading]'' = '' '' @ ''[sensor reading]''" "py_lower '' [SOP citation]'' = '' '' @ ''[sop citation'' @ '']''"
  "py_lower '' [historical incident]'' = '' '' @ ''[historical incident'' @ '']''"
  by code_simp+

lemma sensor_point_valid:
  assumes "citable_material r m" "s \<in> set (mt_sensors m)"
  shows "validate_point (rc_sensor_line r s @ '' [sensor reading]'') (mt_sensors m) cs hs \<noteq> None"
proof -
  obtain ty where ty: "se_sensor_type s = Some ty" "ty \<noteq> []"
    using assms by (auto simp: citable_material_def list_all_iff)
  let ?low = "py_lower (rc_sensor_line r s @ '' [sensor reading]'')"
  have a: "py_in ''[sensor reading]'' ?low"
    unfolding py_lower_append lower_marks by (rule py_in_right)+ (rule py_in_here)
  have "py_in ty (rc_sensor_line r s @ '' [sensor reading]'')"
    unfolding rc_sensor_line_def ty(1) or_none_def option.case id_def append_assoc
    by (rule py_in_right, rule py_in_left, rule py_in_here)
  then have b: "mentions_sensor ?low (py_lower ty)" by (simp add: mentions_sensor_def py_in_lower)
  have "py_lower ty \<in> fst ` set (sensor_keys (mt_sensors m))"
    using assms(2) ty(1) unfolding sensor_keys_def dict_of_keys set_map image_image by (intro image_eqI [of _ _ s]) auto
  moreover have "py_lower ty \<noteq> []" using ty(2) by (simp add: py_lower_def)
  ultimately have "first_key (mentions_sensor ?low) (sensor_keys (mt_sensors m)) \<noteq> None" using b by (rule first_key_found)
  with a show ?thesis by (auto simp: validate_point_def Let_def tag_def)
qed

lemma sop_point_valid:
  assumes "citable_material r m" "c \<in> set (mt_chunks m)"
  shows "validate_point (rc_sop_line r c @ '' [SOP citation]'') ss (mt_chunks m) hs \<noteq> None"
proof -
  have c: "sc_doc_id c \<noteq> []" "\<not> py_in ''[sensor reading]'' (py_lower (rc_sop_line r c @ '' [SOP citation]''))"
    using assms by (auto simp: citable_material_def list_all_iff)
  let ?low = "py_lower (rc_sop_line r c @ '' [SOP citation]'')"
  have a: "py_in ''[sop citation'' ?low"
    unfolding py_lower_append lower_marks by (rule py_in_right, rule py_in_right, rule py_in_left, rule py_in_here)
  have "py_in (sc_doc_id c) (rc_sop_line r c @ '' [SOP citation]'')"
    unfolding rc_sop_line_def append_assoc by (rule py_in_right, rule py_in_left, rule py_in_here)
  then have b: "mentions ?low (py_lower (sc_doc_id c))" by (simp add: mentions_def py_in_lower)
  have "py_lower (sc_doc_id c) \<in> fst ` set (sop_keys (mt_chunks m))"
    using assms(2) unfolding sop_keys_def dict_of_keys set_map image_image by (intro image_eqI [of _ _ c]) auto
  moreover have "py_lower (sc_doc_id c) \<noteq> []" using c(1) by (simp add: py_lower_def)
  ultimately have "first_key (mentions ?low) (sop_keys (mt_chunks m)) \<noteq> None" using b by (rule first_key_found)
  with a c(2) show ?thesis by (auto simp: validate_point_def Let_def tag_def)
qed

lemma history_point_valid:
  assumes "citable_material r m" "h \<in> set (mt_history m)"
  shows "validate_point (py_strip (history_context r h) @ '' [historical incident]'') ss cs (mt_history m) \<noteq> None"
proof -
  let ?low = "py_lower (py_strip (history_context r h) @ '' [historical incident]'')"
  have h: "hm_source h \<noteq> []" "\<not> py_in ''[sensor reading]'' ?low" "\<not> py_in ''sop citation'' ?low"
    using assms by (auto simp: citable_material_def list_all_iff)
  have src: "py_in (hm_source h) (py_strip (history_context r h))"
  proof -
    let ?p = "''- HIST ['' @ hm_source h @ '']''"
    have "\<not> is_space (CHR ''-'')" "\<not> is_space (CHR '']'')" by code_simp+
    then have "\<exists>y. py_strip (?p @ x) = ?p @ y" for x by (intro strip_marked) simp_all
    moreover have "\<exists>x. history_context r h = ?p @ x" unfolding history_context_def by (rule exI) simp
    ultimately obtain y where "py_strip (history_context r h) = ?p @ y" by metis
    then show ?thesis by (simp only: append_assoc) (rule py_in_right, rule py_in_left, rule py_in_here)
  qed
  have "py_in ''sop citation'' x" if "py_in ''[sop citation'' x" for x
    using that unfolding py_in_iff by (metis append.assoc append_Cons append_Nil)
  with h(3) have n: "\<not> py_in ''[sop citation'' ?low" by blast
  have a: "py_in ''[historical incident'' ?low"
    unfolding py_lower_append lower_marks by (rule py_in_right, rule py_in_right, rule py_in_left, rule py_in_here)
  have b: "mentions ?low (py_lower (hm_source h))"
    using py_in_left [OF src] by (simp add: mentions_def py_in_lower)
  have "(py_lower (hm_source h), hm_source h) \<in> set (concat (map (\<lambda>h.
       [(py_lower (hm_source h), hm_source h), (py_lower (hm_id h), hm_source h)]) (mt_history m)))"
    using assms(2) by auto
  then have "py_lower (hm_source h) \<in> fst ` set (history_keys (mt_history m))"
    unfolding history_keys_def dict_of_keys by (rule rev_image_eqI) simp
  moreover have "py_lower (hm_source h) \<noteq> []" using h(1) by (simp add: py_lower_def)
  ultimately have "first_key (mentions ?low) (history_keys (mt_history m)) \<noteq> None" using b by (rule first_key_found)
  with a h(2,3) n show ?thesis by (auto simp: validate_point_def Let_def tag_def)
qed

section \<open>The fake client on the prompt of a diagnosis\<close>

definition fake_model :: "string \<Rightarrow> string \<Rightarrow> llm_response result" where
  "fake_model system user = Inr (fst (fake_generate user \<lparr>fk_script = [], fk_calls = 0\<rparr>))"

lemma fake_model_answer: "rc_model r fake_model k m = Inr (fake_answer (derive_fake_analysis (rc_user_prompt r m)))"
  by (simp add: rc_model_def fake_model_def fake_generate_def Let_def)

lemma prefer_line_none: "prefer_line p ls = None \<longleftrightarrow> ls = []"
  by (auto simp: prefer_line_def split: option.splits list.splits)

lemma prefer_line_length:
  "length (case prefer_line p ls of None \<Rightarrow> [] | Some l \<Rightarrow> [g l]) = (if ls = [] then 0 else 1)"
  using prefer_line_none [of p ls] by (cases "prefer_line p ls") auto

lemma tagged_points:
  "map (drop 2) (tagged mark (prefer_line p ls)) = (case prefer_line p ls of None \<Rightarrow> [] | Some l \<Rightarrow> [l @ mark])"
  by (simp add: tagged_def split: option.split)

lemma fake_points_of_prompt:
  assumes "plain_material r m" "mt_chunks m \<noteq> [] \<or> mt_history m \<noteq> []"
  shows "\<exists>p. fake_points (rc_user_prompt r m) =
     map (\<lambda>s. rc_sensor_line r s @ '' [sensor reading]'') (take 4 (mt_sensors m)) @
     (case prefer_line p (map (rc_sop_line r) (mt_chunks m)) of None \<Rightarrow> [] | Some l \<Rightarrow> [l @ '' [SOP citation]'']) @
     (case prefer_line ''HIST-2026-0141'' (map (\<lambda>h. py_strip (history_context r h)) (mt_history m)) of
        None \<Rightarrow> [] | Some l \<Rightarrow> [l @ '' [historical incident]''])"
proof -
  have lines: "lines_with ''- sensor:'' (rc_user_prompt r m) = map (rc_sensor_line r) (mt_sensors m)"
    "lines_with ''- SOP ['' (rc_user_prompt r m) = map (rc_sop_line r) (mt_chunks m)"
    "lines_with ''- HIST ['' (rc_user_prompt r m) = map (\<lambda>h. py_strip (history_context r h)) (mt_history m)"
    using picked_of_prompt [OF assms(1)] by (simp_all add: evidence_marks_def stripped_lines)
  show ?thesis
    unfolding fake_points_def fake_evidence_lines_def Let_def lines map_append tagged_points
    using assms(2) by (intro exI) (simp add: take_map)
qed

lemma fake_points_valid:
  assumes "plain_material r m" "citable_material r m" "mt_chunks m \<noteq> [] \<or> mt_history m \<noteq> []"
  shows "\<forall>q\<in>set (fake_points (rc_user_prompt r m)). validate_point q (mt_sensors m) (mt_chunks m) (mt_history m) \<noteq> None"
    and "length (fake_points (rc_user_prompt r m)) = min 4 (length (mt_sensors m)) +
      (if mt_chunks m = [] then 0 else 1) + (if mt_history m = [] then 0 else 1)"
proof -
  obtain p where p: "fake_points (rc_user_prompt r m) =
     map (\<lambda>s. rc_sensor_line r s @ '' [sensor reading]'') (take 4 (mt_sensors m)) @
     (case prefer_line p (map (rc_sop_line r) (mt_chunks m)) of None \<Rightarrow> [] | Some l \<Rightarrow> [l @ '' [SOP citation]'']) @
     (case prefer_line ''HIST-2026-0141'' (map (\<lambda>h. py_strip (history_context r h)) (mt_history m)) of
        None \<Rightarrow> [] | Some l \<Rightarrow> [l @ '' [historical incident]''])"
    using fake_points_of_prompt [OF assms(1,3)] by blast
  show "\<forall>q\<in>set (fake_points (rc_user_prompt r m)). validate_point q (mt_sensors m) (mt_chunks m) (mt_history m) \<noteq> None"
  proof
    fix q
    assume "q \<in> set (fake_points (rc_user_prompt r m))"
    then consider (s) s where "s \<in> set (mt_sensors m)" "q = rc_sensor_line r s @ '' [sensor reading]''"
      | (c) c where "c \<in> set (mt_chunks m)" "q = rc_sop_line r c @ '' [SOP citation]''"
      | (h) h where "h \<in> set (mt_history m)" "q = py_strip (history_context r h) @ '' [historical incident]''"
      unfolding p by (auto split: option.splits dest!: prefer_line_mem [OF sym] in_set_takeD)
    then show "validate_point q (mt_sensors m) (mt_chunks m) (mt_history m) \<noteq> None"
      using sensor_point_valid [OF assms(2)] sop_point_valid [OF assms(2)] history_point_valid [OF assms(2)] by cases auto
  qed
  show "length (fake_points (rc_user_prompt r m)) = min 4 (length (mt_sensors m)) +
      (if mt_chunks m = [] then 0 else 1) + (if mt_history m = [] then 0 else 1)"
    unfolding p length_append prefer_line_length by (simp add: min_def)
qed

lemma length_map_filter_all: "\<forall>x\<in>set xs. f x \<noteq> None \<Longrightarrow> length (List.map_filter f xs) = length xs"
  by (induction xs) (auto simp: List.map_filter_simps)

section \<open>The prescribed format under the citation check\<close>

text \<open>The answer the system prompt of a diagnosis asks for.\<close>

definition prescribed_headline :: "string \<Rightarrow> nat \<Rightarrow> string" where
  "prescribed_headline cause n = ''Most likely cause: '' @ cause @ '' (confidence '' @ nat_str n @ ''%)''"

definition prescribed_answer :: "string \<Rightarrow> nat \<Rightarrow> string list \<Rightarrow> string" where
  "prescribed_answer cause n points =
     py_join newline ([prescribed_headline cause n, ''Evidence:''] @ map (\<lambda>p. ''- '' @ p) points)"

text \<open>A text that fits on one line and has no blanks around it.\<close>

definition neat :: "string \<Rightarrow> bool" where
  "neat s \<longleftrightarrow> s \<noteq> [] \<and> \<not> is_space (hd s) \<and> \<not> is_space (last s) \<and> one_line s"

lemma neat_strip: "neat s \<Longrightarrow> py_strip s = s" "neat s \<Longrightarrow> py_lstrip s = s"
  by (auto simp: neat_def py_strip_id) (cases s; simp add: py_lstrip_def)

lemma nat_str_nonempty: "nat_str n \<noteq> []"
  by (simp add: nat_str.simps [of n])

lemma nat_str_short: "n < 1000 \<Longrightarrow> length (nat_str n) \<le> 3"
  by (simp add: nat_str.simps [of n] nat_str.simps [of "n div 10"] nat_str.simps [of "n div 10 div 10"])

lemma match_tail_prescribed:
  assumes "n < 1000"
  shows "match_tail ('' (confidence '' @ nat_str n @ ''%)'') = Some (Some n)"
proof -
  have sp: "is_space (CHR '' '')" "\<not> is_space (CHR ''('')" "\<not> is_space (CHR ''%'')" "\<not> is_space (CHR '')'')" "\<not> is_digit (CHR ''%'')"
    by code_simp+
  let ?d = "nat_str n"
  have dig: "\<forall>c\<in>set ?d. is_digit c" by (rule nat_str_digits)
  have nsp: "\<not> is_space c" if "is_digit c" for c using that by (auto simp: is_digit_def is_space_def Let_def)
  have "py_lstrip (CHR '' '' # ?d @ ''%)'') = ?d @ ''%)''"
    using nat_str_nonempty [of n] dig nsp sp(1) by (cases ?d) (auto simp: py_lstrip_def)
  moreover have "takeWhile is_digit (?d @ ''%)'') = ?d" "dropWhile is_digit (?d @ ''%)'') = ''%)''"
    using dig sp(5) by (simp_all add: takeWhile_append2 dropWhile_append2)
  moreover have "py_lstrip ''%)'' = ''%)''" "py_lstrip '')'' = '')''" using sp by (simp_all add: py_lstrip_def)
  moreover have "strip_prefix ''(confidence'' (''(confidence'' @ y) = Some y" for y
  proof -
    have "py_lower ''(confidence'' = ''(confidence''" by code_simp
    then have "py_lower (''(confidence'' @ y) = ''(confidence'' @ py_lower y" unfolding py_lower_append by (rule arg_cong)
    then have "py_startswith (py_lower (''(confidence'' @ y)) ''(confidence''" unfolding py_startswith_iff by blast
    then show ?thesis by (simp add: strip_prefix_def)
  qed
  from this [of "CHR '' '' # ?d @ ''%)''"]
  have "strip_prefix ''(confidence'' (''(confidence '' @ ?d @ ''%)'') = Some (CHR '' '' # ?d @ ''%)'')" by simp
  ultimately have "match_confidence (''(confidence '' @ ?d @ ''%)'') = Some (n, [])"
    using nat_str_nonempty [of n] nat_str_short [OF assms] digits_value_nat_str [of n]
    unfolding match_confidence_def Let_def by simp
  moreover have "py_lstrip ('' (confidence '' @ ?d @ ''%)'') = ''(confidence '' @ ?d @ ''%)''"
    using sp(1,2) by (simp add: py_lstrip_def)
  ultimately show ?thesis unfolding match_tail_def by (simp add: ends_line_def py_lstrip_def)
qed

lemma bullet_of_neat:
  assumes "neat p"
  shows "match_bullet (''- '' @ p) = Some p"
proof -
  have "is_space (CHR '' '')" "\<not> is_space (CHR ''-'')" by code_simp+
  then have "py_lstrip (CHR '' '' # p) = p" "py_lstrip (''- '' @ p) = CHR ''-'' # CHR '' '' # p"
    using neat_strip(2) [OF assms] by (simp_all add: py_lstrip_def)
  with assms show ?thesis by (simp add: match_bullet_def neat_def \<open>is_space (CHR '' '')\<close>)
qed

lemma prescribed_headline_facts:
  assumes "neat cause" "CHR ''('' \<notin> set cause" "CHR ''.'' \<notin> set cause" "n < 1000"
  shows "py_strip (prescribed_headline cause n) = prescribed_headline cause n" "one_line (prescribed_headline cause n)"
    and "match_hypothesis (prescribed_headline cause n) = Some (cause, Some n)" "match_bullet (prescribed_headline cause n) = None"
proof -
  have sp: "\<not> is_space (CHR ''M'')" "\<not> is_space (CHR '')'')" by code_simp+
  then show "py_strip (prescribed_headline cause n) = prescribed_headline cause n"
    by (intro py_strip_id) (simp_all add: prescribed_headline_def)
  have "one_line (nat_str n)"
    using nat_str_digits [of n] by (auto simp: one_line_def list_all_iff is_digit_def is_linebreak_def Let_def)
  moreover have "one_line ''Most likely cause: ''" "one_line '' (confidence ''" "one_line ''%)''" by code_simp+
  ultimately show "one_line (prescribed_headline cause n)"
    using assms(1) unfolding prescribed_headline_def one_line_def neat_def list_all_append by blast
  obtain c y where "cause = c # y" using assms(1) by (cases cause) (auto simp: neat_def)
  then show "match_hypothesis (prescribed_headline cause n) = Some (cause, Some n)"
    using match_hypothesis_plain [OF _ _ _ assms(2,3) match_tail_prescribed [OF assms(4)]] assms(1)
    by (auto simp: prescribed_headline_def neat_def)
  show "match_bullet (prescribed_headline cause n) = None"
    using sp(1) by (simp add: match_bullet_def prescribed_headline_def py_lstrip_def)
qed

section \<open>The equipment in the prompt of a plan\<close>

lemma uuid_str_shape: "length (uuid_str u) = 36 \<and> list_all uuid_char (uuid_str u)"
proof -
  have hex: "list_all uuid_char hex_alphabet" "uuid_char (CHR ''-'')" by code_simp+
  let ?h = "hex_fixed 32 u"
  have "uuid_char c" if "c \<in> set ?h" for c using hex(1) set_hex_fixed [of 32 u] that by (auto simp: list_all_iff)
  then have "list_all uuid_char (take n (drop k ?h))" "list_all uuid_char (drop k ?h)" "list_all uuid_char (take n ?h)" for n k
    by (auto simp: list_all_iff dest: in_set_takeD in_set_dropD)
  with hex(2) show ?thesis by (simp add: uuid_str_def Let_def)
qed

lemma uuid_char_solid: "uuid_char c \<Longrightarrow> \<not> is_space c"
proof
  assume c: "uuid_char c" "is_space c"
  have "\<not> is_digit c" "lower_char c = c" using c(2) by (auto simp: is_space_def is_digit_def lower_char_def Let_def)
  with c(1) have "c \<in> set ''abcdef-''" by (auto simp: uuid_char_def)
  moreover have "list_all (\<lambda>c. \<not> is_space c) ''abcdef-''" by code_simp
  ultimately show False using c(2) unfolding list_all_iff by blast
qed

text \<open>The search finds the identifier after the first key: the key cannot overlap itself.\<close>

lemma key_cannot_overlap:
  assumes "py_startswith (a @ ''equipment_id:'' @ x) ''equipment_id:''" "a \<noteq> []"
  shows "py_startswith a ''equipment_id:''"
proof (cases "13 \<le> length a")
  case True
  obtain y where "a @ ''equipment_id:'' @ x = ''equipment_id:'' @ y" using assms(1) unfolding py_startswith_iff by blast
  then have "take 13 (a @ ''equipment_id:'' @ x) = ''equipment_id:''" by simp
  then have "take 13 a = ''equipment_id:''" using True by simp
  then show ?thesis unfolding py_startswith_iff by (metis append_take_drop_id)
next
  case False
  obtain y where y: "a @ ''equipment_id:'' @ x = ''equipment_id:'' @ y" using assms(1) unfolding py_startswith_iff by blast
  define q where "q = ''equipment_id''"
  have q: "''equipment_id:'' = q @ '':''" "CHR '':'' \<notin> set q" "length q = 12" by (simp_all add: q_def)
  let ?n = "length a"
  have n: "0 < ?n" "?n \<le> 12" using False assms(2) by simp_all
  have "(a @ ''equipment_id:'' @ x) ! 12 = (q @ '':'') ! (12 - ?n)"
    using n by (simp add: nth_append q(1) q(3))
  moreover have "(q @ '':'') ! (12 - ?n) = q ! (12 - ?n)" using n q(3) by (simp add: nth_append)
  moreover have "(''equipment_id:'' @ y) ! 12 = CHR '':''" unfolding q(1) using q(3) by (simp add: nth_append)
  ultimately have "q ! (12 - ?n) = CHR '':''" unfolding y by simp
  moreover have "q ! (12 - ?n) \<in> set q" using n q(3) by simp
  ultimately show ?thesis using q(2) by simp
qed

lemma search_equipment_first:
  assumes "\<not> py_in ''equipment_id:'' a" "length u = 36" "list_all uuid_char u"
  shows "search_equipment (a @ ''equipment_id:'' @ CHR '' '' # u @ b) = Some u"
  using assms(1)
proof (induction a)
  case Nil
  obtain c v where u: "u = c # v" using assms(2) by (cases u) auto
  have "is_space (CHR '' '')" by code_simp
  then have "py_lstrip (CHR '' '' # u @ b) = u @ b"
    using uuid_char_solid [of c] assms(3) u by (simp add: py_lstrip_def)
  then have "equipment_at (''equipment_id:'' @ CHR '' '' # u @ b) = Some u"
    using assms(2,3) by (simp add: equipment_at_def)
  moreover obtain d w where "''equipment_id:'' @ CHR '' '' # u @ b = d # w" by simp
  ultimately show ?case by simp
next
  case (Cons c a)
  have "\<not> py_startswith ((c # a) @ ''equipment_id:'' @ CHR '' '' # u @ b) ''equipment_id:''"
    using key_cannot_overlap [of "c # a"] Cons.prems by auto
  then have "equipment_at ((c # a) @ ''equipment_id:'' @ CHR '' '' # u @ b) = None"
    by (simp only: equipment_at_def if_False)
  with Cons show ?case by simp
qed

lemma py_join_split:
  "a \<noteq> [] \<Longrightarrow> b \<noteq> [] \<Longrightarrow> py_join sep (a @ b) = py_join sep a @ sep @ py_join sep b"
proof (induction sep a rule: py_join.induct)
  case (2 sep s)
  then show ?case by (cases b) simp_all
qed simp_all

section \<open>Properties\<close>

definition sample_renderings :: renderings where
  "sample_renderings = \<lparr>rd_real = (\<lambda>x. ''1.0''), rd_date = (\<lambda>t. ''2026-07-01''), rd_symptoms = (\<lambda>x. ''low flow''), rd_dash = ''-''\<rparr>"

definition sample_chunk :: sop_chunk where
  "sample_chunk = \<lparr>sc_doc_id = ''SOP-TEMP-1'', sc_title = ''Heat'', sc_section = ''2'', sc_score = 1,
     sc_excerpt = ''Check it.'' @ newline @ ''- Then again.'', sc_citation = [], sc_source_type = [], sc_source_url = None\<rparr>"

definition sample_material :: rc_material where
  "sample_material = \<lparr>mt_sensors = [plain_sensor], mt_chunks = [sample_chunk], mt_history = []\<rparr>"

lemma sample_material_facts: "plain_material sample_renderings sample_material" "citable_material sample_renderings sample_material"
  by code_simp+



text \<open>
  C22. The offline mode diagnoses exactly the incidents with evidence.  When the agent runs on the
  unscripted fake client and the material is plain and citable, the first answer passes the citation
  check if a section or a past incident was retrieved: it cites up to four sensors and one of each
  kind of evidence that is there.  With no evidence both answers are rejected and the fixed note is
  stored.
\<close>

theorem offline_diagnosis_needs_evidence:
  assumes "plain_material r m" "citable_material r m" "rce_llm env = rc_model r fake_model"
  shows "if mt_chunks m = [] \<and> mt_history m = []
     then diagnose env bus i m t w =
       (case on_db (rc_persist env i withheld_text 0 [] NeedsHumanReview t) w of
          (Inl e, w1) \<Rightarrow> (Inl e, w1) | (Inr _, w1) \<Rightarrow> (Inr None, w1))
     else \<exists>x dg. rce_llm env 1 m = Inr x \<and> diagnose env bus i m t w = accept_diagnosis env bus i x dg t w \<and>
       \<not> dg_insufficient dg \<and> dg_confidence dg \<in> {72, 78, 87} \<and>
       length (dg_cited dg) = min 4 (length (mt_sensors m)) +
         (if mt_chunks m = [] then 0 else 1) + (if mt_history m = [] then 0 else 1)"
proof (cases "mt_chunks m = [] \<and> mt_history m = []")
  case True
  then have "lines_with ''- SOP ['' (rc_user_prompt r m) = []" "lines_with ''- HIST ['' (rc_user_prompt r m) = []"
    using picked_of_prompt [OF assms(1)] by (simp_all add: evidence_marks_def)
  from fake_without_sources_is_withheld [OF this, of m env] True show ?thesis
    by (simp add: assms(3) fake_model_answer)
next
  case False
  let ?cite = "\<lambda>p. map_option (\<lambda>(ty, ref). \<lparr>cp_type = ty, cp_ref = ref, cp_text = p\<rparr>)
    (validate_point p (mt_sensors m) (mt_chunks m) (mt_history m))"
  let ?points = "fake_points (rc_user_prompt r m)"
  let ?cause = "fake_cause (flagged_types (lines_with ''- sensor:'' (rc_user_prompt r m)))"
  let ?dg = "\<lparr>dg_insufficient = False, dg_hypothesis = fst (snd ?cause), dg_confidence = int (snd (snd ?cause)),
    dg_cited = List.map_filter ?cite ?points\<rparr>"
  note valid = fake_points_valid [OF assms(1,2)] 
  have ne: "mt_chunks m \<noteq> [] \<or> mt_history m \<noteq> []" using False by simp
  have len: "length (List.map_filter ?cite ?points) = length ?points"
    by (rule length_map_filter_all) (use valid(1) [OF ne] in simp)
  then have some: "List.map_filter ?cite ?points \<noteq> []" using valid(2) [OF ne] ne by auto
  have "filter (\<lambda>p. validate_point p (mt_sensors m) (mt_chunks m) (mt_history m) = None) ?points = []"
    using valid(1) [OF ne] by (simp add: filter_empty_conv)
  with some have "parse_and_validate (derive_fake_analysis (rc_user_prompt r m)) (mt_sensors m) (mt_chunks m) (mt_history m) = Valid ?dg"
    by (simp add: fake_analysis_checked Let_def)
  moreover have "int (snd (snd ?cause)) \<in> {72, 78, 87}" by (simp add: fake_cause_def)
  ultimately show ?thesis
    using False len valid(2) [OF ne]
    by (intro if_not_P [THEN iffD2] exI [of _ "fake_answer (derive_fake_analysis (rc_user_prompt r m))"] exI [of _ ?dg])
      (auto simp: diagnose_def check_answer_def fake_answer_def assms(3) fake_model_answer)
qed

definition offline :: rc_env where
  "offline = (answering [])\<lparr>rce_llm := rc_model sample_renderings fake_model\<rparr>"

theorem offline_diagnosis_needs_evidence_witness:
  "\<exists>x dg. diagnose offline (\<lambda>_. None) (uuid_str 7) sample_material 9 open_world =
     accept_diagnosis offline (\<lambda>_. None) (uuid_str 7) x dg 9 open_world \<and> length (dg_cited dg) = 2"
proof -
  have "rce_llm offline = rc_model sample_renderings fake_model" by (simp add: offline_def)
  note run = offline_diagnosis_needs_evidence [OF sample_material_facts this, of "\<lambda>_. None" "uuid_str 7" 9 open_world]
  have n: "\<not> (mt_chunks sample_material = [] \<and> mt_history sample_material = [])"
    and len: "min 4 (length (mt_sensors sample_material)) + (if mt_chunks sample_material = [] then 0 else 1) +
      (if mt_history sample_material = [] then 0 else 1) = 2"
    by (simp_all add: sample_material_def)
  from run show ?thesis unfolding if_not_P [OF n] len by blast
qed

text \<open>
  C24. An answer in the prescribed format is accepted when every point can be verified.  The headline
  and the bullets the system prompt asks for are read as they are meant: the diagnosis has the
  cause, the confidence (cut to 100) and one citation for each point, in order.
\<close>

theorem prescribed_answer_is_accepted:
  assumes "neat cause" "CHR ''('' \<notin> set cause" "CHR ''.'' \<notin> set cause" "n < 1000"
    and "points \<noteq> []" "list_all neat points"
    and "list_all (\<lambda>p. validate_point p ss cs hs \<noteq> None) points"
    and "\<not> py_in ''insufficient evidence'' (py_lower (prescribed_answer cause n points))"
  shows "\<exists>cited. parse_and_validate (prescribed_answer cause n points) ss cs hs =
       Valid \<lparr>dg_insufficient = False, dg_hypothesis = cause, dg_confidence = min 100 (int n), dg_cited = cited\<rparr> \<and>
     map cp_text cited = points"
proof -
  let ?ls = "[prescribed_headline cause n, ''Evidence:''] @ map (\<lambda>p. ''- '' @ p) points"
  note head = prescribed_headline_facts [OF assms(1-4)]
  have ev: "one_line ''Evidence:''" "match_bullet ''Evidence:'' = None" "one_line ''- ''" by code_simp+
  have neat: "\<forall>p\<in>set points. neat p" using assms(6) by (simp add: list_all_iff)
  have "\<exists>p. neat p \<and> last ?ls = ''- '' @ p" using assms(5) neat by (simp add: last_map)
  then obtain p where p: "neat p" "last ?ls = ''- '' @ p" by blast
  have "one_line (''- '' @ q)" if "q \<in> set points" for q
    using neat that ev(3) unfolding one_line_def neat_def list_all_append by blast
  then have clean: "list_all (list_all (\<lambda>c. \<not> is_linebreak c)) ?ls"
    using head(2) ev(1) by (auto simp: one_line_def [abs_def] list_all_iff)
  have ls: "splitlines (py_join newline ?ls) = ?ls" by (rule splitlines_join) (use clean p in auto)
  have body: "py_strip (py_join newline ?ls) = py_join newline ?ls"
  proof (rule py_strip_id)
    have "\<not> is_space (CHR ''M'')" by code_simp
    then show "\<not> is_space (hd (py_join newline ?ls))" by (simp add: prescribed_headline_def)
    show "py_join newline ?ls \<noteq> []" "\<not> is_space (last (py_join newline ?ls))"
      using py_join_last [of ?ls newline] p by (auto simp: neat_def)
  qed
  have hyp: "find_hypothesis ?ls = Some (cause, Some (min 100 (int n)))"
    using head(1,3) neat_strip(1) [OF assms(1)] by simp
  have pts: "bullet_points ?ls = points"
  proof -
    have "List.map_filter match_bullet (map (\<lambda>p. ''- '' @ p) xs) = xs \<and> map py_strip xs = xs" if "\<forall>p\<in>set xs. neat p" for xs
      using that by (induction xs) (simp_all add: List.map_filter_simps bullet_of_neat [simplified] neat_strip)
    from this [OF neat] show ?thesis by (simp add: bullet_points_def List.map_filter_simps head(4) ev(2))
  qed
  let ?cite = "\<lambda>p. map_option (\<lambda>(ty, ref). \<lparr>cp_type = ty, cp_ref = ref, cp_text = p\<rparr>) (validate_point p ss cs hs)"
  have ok: "\<forall>p\<in>set points. validate_point p ss cs hs \<noteq> None" using assms(7) by (simp add: list_all_iff)
  have "map cp_text (List.map_filter ?cite xs) = xs" if "\<forall>p\<in>set xs. validate_point p ss cs hs \<noteq> None" for xs
    using that by (induction xs) (auto simp: List.map_filter_simps)
  from this [OF ok] have cited: "map cp_text (List.map_filter ?cite points) = points" .
  then have "List.map_filter ?cite points \<noteq> []" using assms(5) by auto
  moreover have "filter (\<lambda>p. validate_point p ss cs hs = None) points = []" using ok by (simp add: filter_empty_conv)
  moreover have no: "\<not> (py_in ''insufficient evidence'' (py_lower (py_join newline ?ls)) \<and>
      CHR 0x2D \<notin> set (first_line (py_join newline ?ls)))" using assms(8) unfolding prescribed_answer_def by blast
  moreover have "cause \<noteq> []" using assms(1) by (simp add: neat_def)
  ultimately have "parse_and_validate (prescribed_answer cause n points) ss cs hs =
       Valid \<lparr>dg_insufficient = False, dg_hypothesis = cause, dg_confidence = min 100 (int n), dg_cited = List.map_filter ?cite points\<rparr>"
    unfolding parse_and_validate_def prescribed_answer_def body ls hyp pts Let_def if_not_P [OF no] by simp
  with cited show ?thesis by blast
qed

theorem prescribed_answer_is_accepted_witness:
  "\<exists>cited. parse_and_validate (prescribed_answer ''worn bearing'' 80 [''temperature is high [sensor reading]'']) [plain_sensor] [] [] =
     Valid \<lparr>dg_insufficient = False, dg_hypothesis = ''worn bearing'', dg_confidence = 80, dg_cited = cited\<rparr>"
proof -
  let ?p = "''temperature is high [sensor reading]''"
  have "neat ''worn bearing''" "list_all neat [?p]"
    "list_all (\<lambda>p. validate_point p [plain_sensor] [] [] \<noteq> None) [?p]"
    "\<not> py_in ''insufficient evidence'' (py_lower (prescribed_answer ''worn bearing'' 80 [?p]))" by code_simp+
  from prescribed_answer_is_accepted [OF this(1) _ _ _ _ this(2-4)] show ?thesis by auto
qed



text \<open>
  The offline planner asks about the equipment of the incident.  When no earlier line of the
  prompt holds the key, the two tool calls of the fake client carry the identifier the prompt
  renders, so the maintenance status on the log is the one of the incident's equipment; the loop
  ends with the next call, without writing.
\<close>

theorem offline_planner_asks_about_the_equipment:
  assumes "re_llm env = fake_llm loads (render_message r dumps)"
    and "rec_equipment ctx = uuid_str u"
    and "\<not> py_in ''equipment_id:'' (py_join newline (rec_lines_before r ctx) @ newline @ ''- '')"
  shows "\<exists>answer e1 e2. planner_loop env i ctx t d = (Inr (answer, [e1, e2]), d) \<and>
     te_tool e1 = ''get_equipment_maintenance_status'' \<and> te_tool e2 = ''get_similar_incident_outcomes'' \<and>
     te_arguments e1 = [(''equipment_id'', uuid_str u)] \<and>
     te_arguments e2 = [(''equipment_id'', uuid_str u), (''symptom_pattern'', ''flow'')] \<and>
     te_result e1 = MaintenanceResult (get_equipment_maintenance_status (uuid_str u) d)"
proof -
  let ?render = "render_message r dumps"
  let ?m1 = "[SystemPrompt, ContextPrompt ctx]"
  let ?rest = "newline @ py_join newline [[], ''Check maintenance status and similar past outcomes with your tools, '' @
       ''then produce the final recommendation in the required format.'']"
  have "rec_user_prompt r ctx = (py_join newline (rec_lines_before r ctx) @ newline @ ''- '') @
      ''equipment_id:'' @ CHR '' '' # uuid_str u @ ?rest"
    unfolding rec_user_prompt_def assms(2)
    by (subst py_join_split) (simp_all add: rec_lines_before_def newline_def)
  then have eq: "search_equipment (rec_user_prompt r ctx) = Some (uuid_str u)"
    using search_equipment_first [OF assms(3)] uuid_str_shape by (simp only:)
  have contents: "contents_of ''user'' (map ?render ?m1) = rec_user_prompt r ctx"
    by (simp add: contents_of_def render_message_def)
  obtain c1 c2 where r1: "fake_llm loads ?render 1 ?m1 True = Inr (calls_answer [c1, c2])"
    "tc_name c1 = ''get_equipment_maintenance_status''" "tc_name c2 = ''get_similar_incident_outcomes''"
    "tc_arguments c1 = [(''equipment_id'', uuid_str u)]"
    "tc_arguments c2 = [(''equipment_id'', uuid_str u), (''symptom_pattern'', ''flow'')]"
    unfolding fake_llm_def fake_chat_def contents eq get_or_def Let_def by (simp add: render_message_def)
  let ?e = "tool_entry_of env 1 t d"
  let ?m2 = "?m1 @ [AssistantCalls [] [c1, c2], ToolMessage (tc_id c1) (te_result (?e c1)), ToolMessage (tc_id c2) (te_result (?e c2))]"
  obtain answer where r2: "fake_llm loads ?render 2 ?m2 True = Inr (fake_answer answer)"
    by (simp add: fake_llm_def fake_chat_def Let_def render_message_def)
  have two: "max_tool_rounds = Suc (Suc 2)" "Suc 1 = 2" by (simp_all add: max_tool_rounds_def)
  have "planner_loop env i ctx t d = planner_rounds env i (Suc 2) (Suc 1) ?m2 [?e c1, ?e c2] t d"
    unfolding planner_loop_def two(1) planner_rounds.simps(2) [of env i "Suc 2"] assms(1) r1(1)
    by (simp add: calls_answer_def Let_def)
  also have "\<dots> = (Inr (answer, [?e c1, ?e c2]), d)"
    unfolding planner_rounds.simps(2) [of env i 2] two(2) assms(1) r2 by (simp add: fake_answer_def)
  finally show ?thesis using r1(2-5) by (auto simp: tool_entry_of_def execute_tool_def dict_get_def)
qed

definition sample_context :: rec_context where
  "sample_context = \<lparr>rx_incident = ''i'', rx_summary = Some \<lparr>su_equipment_id = uuid_str 5, su_detected_at = 0,
     su_sensor_count = 1, su_sensors = [plain_sensor]\<rparr>, rx_hypothesis = ''fouling'', rx_confidence = Some 78,
     rx_risk_severity = Some ''high'', rx_level = Some 3, rx_consequences = []\<rparr>"

definition offline_planning :: rec_env where
  "offline_planning = planning\<lparr>re_llm := fake_llm (\<lambda>_. None) (render_message sample_renderings (\<lambda>_. []))\<rparr>"

theorem offline_planner_asks_about_the_equipment_witness:
  "\<exists>answer e1 e2. planner_loop offline_planning (uuid_str 7) sample_context 9 sample_db = (Inr (answer, [e1, e2]), sample_db) \<and>
     te_result e1 = MaintenanceResult (get_equipment_maintenance_status (uuid_str 5) sample_db)"
proof -
  have a: "re_llm offline_planning = fake_llm (\<lambda>_. None) (render_message sample_renderings (\<lambda>_. []))"
    by (simp add: offline_planning_def)
  have b: "rec_equipment sample_context = uuid_str 5" by (simp add: rec_equipment_def sample_context_def)
  have c: "\<not> py_in ''equipment_id:'' (py_join newline (rec_lines_before sample_renderings sample_context) @ newline @ ''- '')"
    by code_simp
  from offline_planner_asks_about_the_equipment [OF a b c, of "uuid_str 7" 9 sample_db] show ?thesis by blast
qed

end
