(* ===== verification/ApprovalGate.thy ===== *)
theory ApprovalGate
  imports Platform
begin

text \<open>
  The abstract contract of the platform and the proof that the platform implements it.  The
  contract knows three sets of incidents only: those that are being executed, those that were
  approved by a caller who may, and those with an effect on the outside.  The detailed system
  (every agent, endpoint and the enterprise system, \<open>platform_step\<close>) is simulated by it.
\<close>

section \<open>The contract\<close>

record gate =
  ga_open :: "uuid set"
  ga_approved :: "uuid set"
  ga_effects :: "uuid set"

text \<open>
  An incident is opened for execution only together with its approval, an effect belongs to an
  open incident, and incidents may be closed at any time.
\<close>

inductive gate_step :: "gate \<Rightarrow> gate \<Rightarrow> bool" where
  rests: "ga_open g' \<subseteq> ga_open g \<Longrightarrow> ga_approved g' = ga_approved g \<Longrightarrow> ga_effects g' \<subseteq> ga_effects g \<Longrightarrow> gate_step g g'"
| approves: "ga_open g' = insert u (ga_open g) \<Longrightarrow> ga_approved g' = insert u (ga_approved g) \<Longrightarrow>
    ga_effects g' = ga_effects g \<Longrightarrow> gate_step g g'"
| acts: "u \<in> ga_open g \<Longrightarrow> ga_open g' \<subseteq> ga_open g \<Longrightarrow> ga_approved g' = ga_approved g \<Longrightarrow>
    ga_effects g' \<subseteq> insert u (ga_effects g) \<Longrightarrow> gate_step g g'"

inductive_cases gate_stepE: "gate_step g g'"

text \<open>What the contract gives: nothing is open and nothing has an effect without an approval.\<close>

definition gate_safe :: "gate \<Rightarrow> bool" where
  "gate_safe g \<longleftrightarrow> ga_open g \<subseteq> ga_approved g \<and> ga_effects g \<subseteq> ga_approved g"

lemma gate_safe_step: "gate_step g g' \<Longrightarrow> gate_safe g \<Longrightarrow> gate_safe g'"
  by (induction rule: gate_step.induct) (auto simp: gate_safe_def)

lemma gate_safe_run: "gate_step\<^sup>*\<^sup>* g g' \<Longrightarrow> gate_safe g \<Longrightarrow> gate_safe g'"
  by (induction rule: rtranclp_induct) (auto intro: gate_safe_step)

section \<open>The platform seen through the contract\<close>

definition remote_incidents :: "cmms \<Rightarrow> uuid set" where
  "remote_incidents c =
     {u. (\<exists>r\<in>set (cm_orders c). wo_incident r = Some u) \<or> (\<exists>r\<in>set (cm_reorders c). ro_incident r = Some u)}"

definition gate_of :: "rbac_policy \<Rightarrow> 'k jwt_env \<Rightarrow> cmms action_world \<Rightarrow> gate" where
  "gate_of pol jwt w =
     \<lparr>ga_open = {u. \<exists>s. status_of u (own_db w) = Some s \<and> s \<in> {Approved, ActionTaken, ActionFailed}},
      ga_approved = {u. was_approved pol jwt (own_db w) u},
      ga_effects = ac_incident ` set (db_actions (own_db w)) \<union> remote_incidents (aw_remote w)\<rparr>"

text \<open>Every order and reorder at the enterprise system names its incident.\<close>

definition named :: "cmms action_world \<Rightarrow> bool" where
  "named w \<longleftrightarrow> owned UNIV (aw_remote w)"

lemma owned_iff: "owned A c \<longleftrightarrow> owned UNIV c \<and> remote_incidents c \<subseteq> A"
  unfolding owned_def remote_incidents_def by fastforce

lemma gate_open_iff: "u \<in> ga_open (gate_of pol jwt w) \<longleftrightarrow>
    (\<exists>s. status_of u (own_db w) = Some s \<and> execution_status s)"
  by (simp add: gate_of_def execution_status_def)

lemma calm_refines:
  assumes "calm (own_db w) (own_db w')" "aw_remote w' = aw_remote w"
  shows "gate_step (gate_of pol jwt w) (gate_of pol jwt w')"
proof (rule rests)
  show "ga_open (gate_of pol jwt w') \<subseteq> ga_open (gate_of pol jwt w)"
    using assms(1) by (auto simp: gate_open_iff calm_def)
  show "ga_approved (gate_of pol jwt w') = ga_approved (gate_of pol jwt w)"
    using assms(1) by (simp add: gate_of_def was_approved_def calm_def)
  show "ga_effects (gate_of pol jwt w') \<subseteq> ga_effects (gate_of pol jwt w)"
    using assms by (simp add: gate_of_def calm_def)
qed

lemma run_refines:
  assumes "named w" "run_of u w w'" "status_of u (own_db w) = Some Approved"
  shows "gate_step (gate_of pol jwt w) (gate_of pol jwt w') \<and> named w'"
proof
  have u: "u \<in> ga_open (gate_of pol jwt w)" using assms(3) by (simp add: gate_open_iff execution_status_def)
  let ?A = "insert u (remote_incidents (aw_remote w))"
  have "owned ?A (aw_remote w)" using assms(1) by (auto simp: named_def owned_iff [of ?A])
  then have own: "owned ?A (aw_remote w')" using assms(2) unfolding run_of_def by blast
  then show "named w'" by (simp add: named_def owned_iff [of ?A])
  from own have "remote_incidents (aw_remote w') \<subseteq> ?A" by (simp add: owned_iff [of ?A])
  then have ef: "ga_effects (gate_of pol jwt w') \<subseteq> insert u (ga_effects (gate_of pol jwt w))"
    using assms(2) by (auto simp: gate_of_def run_of_def)
  have op: "ga_open (gate_of pol jwt w') \<subseteq> ga_open (gate_of pol jwt w)"
  proof
    fix v
    assume "v \<in> ga_open (gate_of pol jwt w')"
    then show "v \<in> ga_open (gate_of pol jwt w)"
      using assms(2) u by (cases "v = u") (auto simp: gate_open_iff run_of_def)
  qed
  have "ga_approved (gate_of pol jwt w') = ga_approved (gate_of pol jwt w)"
    using assms(2) by (simp add: gate_of_def was_approved_def run_of_def)
  with u op ef show "gate_step (gate_of pol jwt w) (gate_of pol jwt w')" by (intro acts)
qed

lemma decision_refines:
  assumes "require_principal jwt header = Inr p" "dec \<in> {Approved, Rejected}"
    "record_decision pol bus corr i just dec t p (aw_own w) = (x, o')"
  shows "gate_step (gate_of pol jwt w) (gate_of pol jwt (w\<lparr>aw_own := o'\<rparr>))"
  using record_decision_cases [OF assms(3)]
proof (elim disjE exE conjE)
  assume "o' = aw_own w"
  then show ?thesis by (intro rests) simp_all
next
  fix u r d'
  let ?lv = "decision_level (decision_view_of r)" and ?d = "own_db w" and ?w = "w\<lparr>aw_own := o'\<rparr>"
  assume u: "parse_uuid i = Some u" "find_incident u (w_db (aw_own w)) = Some r" "may_decide pol just dec p r"
    and d': "record_approval i dec (username p) (Some ?lv) just t (w_db (aw_own w)) = (Inr (Some t), d')"
    and o': "o' = announce_decision bus corr i dec (username p) t ?lv ((aw_own w)\<lparr>w_db := d'\<rparr>)"
  have own: "own_db ?w = d'" by (simp add: own_db_def o')
  from record_approval_found [OF u(1,2), of dec "username p" "Some ?lv" just t] d'
  have st: "status_of u d' = Some dec" and other: "\<And>v. v \<noteq> u \<Longrightarrow> status_of v d' = status_of v ?d"
    and acs: "db_actions d' = db_actions ?d"
    and "\<exists>a. db_approvals d' = db_approvals ?d @ [a] \<and> ap_incident a = u \<and> ap_decision a = dec \<and>
        ap_decided_by a = username p \<and> ap_level a = Some ?lv"
    by (auto simp: status_of_def own_db_def)
  then obtain a where a: "db_approvals d' = db_approvals ?d @ [a]" "ap_incident a = u" "ap_decision a = dec"
    "ap_decided_by a = username p" "ap_level a = Some ?lv" by blast
  have ef: "ga_effects (gate_of pol jwt ?w) = ga_effects (gate_of pol jwt w)"
    by (simp add: gate_of_def own acs)
  have op: "v \<in> ga_open (gate_of pol jwt ?w) \<longleftrightarrow> (if v = u then dec = Approved else v \<in> ga_open (gate_of pol jwt w))" for v
  proof (cases "v = u")
    case True
    then show ?thesis using assms(2) by (auto simp: gate_open_iff own st execution_status_def)
  next
    case False
    then show ?thesis by (simp add: gate_open_iff own other)
  qed
  show ?thesis
  proof (cases "dec = Approved")
    case True
    have "rightful pol jwt a"
      using a(4,5) u(3) assms(1) unfolding rightful_def may_decide_def by blast
    with a(2,3) True have "{v. was_approved pol jwt d' v} = insert u {v. was_approved pol jwt ?d v}"
      unfolding was_approved_def a(1) set_eq_iff mem_Collect_eq insert_iff by (simp, metis)
    then have ab: "ga_approved (gate_of pol jwt ?w) = insert u (ga_approved (gate_of pol jwt w))"
      by (simp add: gate_of_def own)
    have "ga_open (gate_of pol jwt ?w) = insert u (ga_open (gate_of pol jwt w))"
      unfolding set_eq_iff op using True by simp
    from approves [OF this ab ef] show ?thesis .
  next
    case False
    with a(3) have "{v. was_approved pol jwt d' v} = {v. was_approved pol jwt ?d v}"
      unfolding was_approved_def a(1) by auto
    then have ab: "ga_approved (gate_of pol jwt ?w) = ga_approved (gate_of pol jwt w)"
      by (simp add: gate_of_def own)
    have "ga_open (gate_of pol jwt ?w) \<subseteq> ga_open (gate_of pol jwt w)"
      unfolding subset_iff op using False by simp
    from rests [OF this ab] ef show ?thesis by blast
  qed
qed

lemma platform_simulated:
  "platform_step pol jwt w w' \<Longrightarrow> named w \<Longrightarrow> gate_step (gate_of pol jwt w) (gate_of pol jwt w') \<and> named w'"
proof (induction rule: platform_step.induct)
  case (detects s w cfg es acked)
  have "calm (own_db w) (own_db (w\<lparr>aw_own := dt_world (fst (consume cfg es s acked))\<rparr>))"
    using calm_intake.consume_step [of s cfg es acked] detects(1) by (simp add: own_db_def det_db_def)
  then show ?case using detects(2) by (simp add: calm_refines named_def)
next
  case (collects w kenv bus ev t texts)
  then show ?case by (simp add: calm_refines named_def own_db_def kn_on_anomaly_calm)
next
  case (diagnoses w env bus views x sensors t fl)
  then show ?case by (simp add: calm_refines named_def own_db_def rc_handle_event_calm)
next
  case (advances w injected file_data renv bus sev t fl)
  then show ?case by (simp add: calm_refines named_def own_db_def on_stage_calm)
next
  case (decides dec w header obus corr i just t)
  have same: "gate_step g g" for g by (rule rests) simp_all
  show ?case
  proof (cases "require_principal jwt header")
    case (Inl e)
    with decides(2) same show ?thesis by (simp add: with_principal_def named_def)
  next
    case (Inr p)
    from decision_refines [OF Inr decides(1) surjective_pairing, of pol w obus corr i just t] Inr decides(2) show ?thesis
      by (simp add: with_principal_def named_def)
  qed
next
  case (resolves w header i remark t)
  have "calm (w_db o1) (w_db (snd (resolve_incident pol i remark t p o1)))" for p and o1 :: world
    using resolve_manually_calm [of i "username p" remark t "w_db o1"]
    by (auto simp: resolve_incident_def on_db_def Let_def split: sum.splits prod.splits option.splits)
  then have "calm (own_db w) (own_db (w\<lparr>aw_own := snd (with_principal jwt header (resolve_incident pol i remark t) (aw_own w))\<rparr>))"
    by (auto simp: own_db_def with_principal_def split: sum.splits)
  with resolves show ?case by (simp add: calm_refines named_def)
next
  case (executes aenv w fl ev)
  show ?case
  proof (cases "on_incident_approved aenv fl ev w = w")
    case False
    then have ne: "snd (action_handle aenv ev w) \<noteq> w" and
      eq: "on_incident_approved aenv fl ev w = snd (action_handle aenv ev w)"
      by (auto simp: on_incident_approved_def split: if_splits)
    from action_handle_run [OF executes(1) surjective_pairing ne] executes(2) show ?thesis
      unfolding eq using run_refines by blast
  next
    case True
    then show ?thesis using executes(2) by (simp add: rests)
  qed
next
  case (polls aenv w fl)
  have "aw_remote (snd (check_resolutions aenv fl w)) = aw_remote w"
    using check_incidents_remote [OF surjective_pairing polls(1)]
    by (auto simp: check_resolutions_def split: sum.splits)
  with poll_calm [OF surjective_pairing, of w aenv fl] polls(2) show ?case by (simp add: calm_refines named_def)
next
  case (serves req w raw key header t)
  have req: "request_for A req" for A using serves(1,2) by (cases req) (auto simp: request_for_def)
  let ?A = "remote_incidents (aw_remote w)"
  have "owned ?A (aw_remote w)" using serves(3) by (simp add: named_def owned_iff [of ?A])
  from serve_owned [OF this req] have own: "owned ?A (snd (serve raw key header t req (aw_remote w)))" .
  then have "remote_incidents (snd (serve raw key header t req (aw_remote w))) \<subseteq> ?A"
    "owned UNIV (snd (serve raw key header t req (aw_remote w)))" by (simp_all add: owned_iff [of ?A])
  then show ?case
    by (intro conjI rests) (auto simp: gate_of_def own_db_def named_def)
qed

section \<open>Properties\<close>



end
