(* ===== verification/Simulator.thy ===== *)
theory Simulator
  imports Detection IncidentsApi
begin

text \<open>
  The synthetic sensor simulator (\<open>app/simulator/service.py\<close>) and its control endpoints
  (\<open>app/api/simulator.py\<close>): the control key with its time to live, the two modes, the values
  of a tick, and what the Detection Agent makes of them.  \<open>random.gauss(m, s)\<close> is
  \<open>m + s * z\<close> for a draw \<open>z\<close> of the standard normal distribution, a parameter; times are
  microseconds and one clock reading is taken per operation.
\<close>

section \<open>Sensors\<close>

record sim_sensor =
  ss_id :: string
  ss_equipment :: string
  ss_type :: string
  ss_unit :: string
  ss_min :: real
  ss_max :: real

text \<open>\<open>FROM "Sensors" s JOIN "Equipment" e ON e."Id" = s."EquipmentId"\<close>\<close>

definition sim_sensor_of :: "sensor_row \<Rightarrow> sim_sensor" where
  "sim_sensor_of r =
     \<lparr>ss_id = uuid_str (sn_id r), ss_equipment = uuid_str (sn_equipment r), ss_type = sn_type r,
      ss_unit = sn_unit r, ss_min = sn_min r, ss_max = sn_max r\<rparr>"

definition load_sensors :: "db \<Rightarrow> sim_sensor list" where
  "load_sensors d =
     concat (map (\<lambda>r. map (\<lambda>e. sim_sensor_of r) (filter (\<lambda>e. eq_id e = sn_equipment r) (db_equipment d)))
       (db_sensors d))"

section \<open>The keys in Redis\<close>

text \<open>The control key with the time it expires, and the state key.\<close>

definition control_ttl :: time where
  "control_ttl = 60 * 1000000"

record sim_state =
  st_mode :: string
  st_scenario :: "string option"
  st_started :: bool
  st_sensors :: nat

record 'a sim_keys =
  kv_control :: "(string \<times> time) option"
  kv_state :: "'a option"

definition get_control :: "time \<Rightarrow> 'a sim_keys \<Rightarrow> string option" where
  "get_control now k =
     (case kv_control k of None \<Rightarrow> None | Some (c, expires) \<Rightarrow> if now < expires then Some c else None)"

definition set_control :: "string \<Rightarrow> time \<Rightarrow> 'a sim_keys \<Rightarrow> 'a sim_keys" where
  "set_control c now k = k\<lparr>kv_control := Some (c, now + control_ttl)\<rparr>"

definition delete_control :: "'a sim_keys \<Rightarrow> 'a sim_keys" where
  "delete_control k = k\<lparr>kv_control := None\<rparr>"

section \<open>The endpoints\<close>

definition trigger_scenario ::
  "rbac_policy \<Rightarrow> time \<Rightarrow> principal \<Rightarrow> 'a sim_keys \<Rightarrow> unit result \<times> 'a sim_keys" where
  "trigger_scenario pol now p k =
     (case ensure_role p (rp_simulator_roles pol) ''control the simulator'' of
        Inl e \<Rightarrow> (Inl e, k)
      | Inr _ \<Rightarrow> (Inr (), set_control ''trigger'' now k))"

definition reset_simulator ::
  "rbac_policy \<Rightarrow> time \<Rightarrow> principal \<Rightarrow> 'a sim_keys \<Rightarrow> unit result \<times> 'a sim_keys" where
  "reset_simulator pol now p k =
     (case ensure_role p (rp_simulator_roles pol) ''control the simulator'' of
        Inl e \<Rightarrow> (Inl e, k)
      | Inr _ \<Rightarrow> (Inr (), set_control ''reset'' now k))"

text \<open>The published state, or the answer with mode \<open>unknown\<close> (\<open>None\<close>) before the first one.\<close>

definition simulator_status :: "principal \<Rightarrow> 'a sim_keys \<Rightarrow> 'a option result" where
  "simulator_status p k = Inr (kv_state k)"

section \<open>The simulator\<close>

definition scenario_name :: string where
  "scenario_name = ''cooling-tower-incident''"

definition scenario_target :: "string \<Rightarrow> real option" where
  "scenario_target ty = map_of [(''temperature'', 38), (''ph'', 6.8), (''flow_rate'', 106), (''vibration'', 4.6),
     (''conductivity'', 1280)] ty"

record simulator =
  sy_mode :: string
  sy_started :: "time option"
  sy_sensors :: "sim_sensor list"

definition new_simulator :: "sim_sensor list \<Rightarrow> simulator" where
  "new_simulator ss = \<lparr>sy_mode = ''normal'', sy_started = None, sy_sensors = ss\<rparr>"

definition state_dict :: "simulator \<Rightarrow> sim_state" where
  "state_dict s =
     \<lparr>st_mode = sy_mode s, st_scenario = (if sy_mode s \<noteq> ''normal'' then Some scenario_name else None),
      st_started = (sy_started s \<noteq> None), st_sensors = length (sy_sensors s)\<rparr>"

text \<open>Best effort: when the write fails the published state stays.\<close>

definition publish_state :: "bool \<Rightarrow> simulator \<Rightarrow> sim_state sim_keys \<Rightarrow> sim_state sim_keys" where
  "publish_state fails s k = (if fails then k else k\<lparr>kv_state := Some (state_dict s)\<rparr>)"

definition check_control ::
  "bool \<Rightarrow> time \<Rightarrow> simulator \<Rightarrow> sim_state sim_keys \<Rightarrow> simulator \<times> sim_state sim_keys" where
  "check_control fails now s k =
     (if get_control now k = Some ''trigger'' then
        (let s' = s\<lparr>sy_mode := scenario_name, sy_started := Some now\<rparr>
         in (s', publish_state fails s' (delete_control k)))
      else if get_control now k = Some ''reset'' then
        (let s' = s\<lparr>sy_mode := ''normal'', sy_started := None\<rparr>
         in (s', publish_state fails s' (delete_control k)))
      else (s, k))"

section \<open>Values\<close>

definition gauss :: "real \<Rightarrow> real \<Rightarrow> real \<Rightarrow> real" where
  "gauss mu sigma z = mu + sigma * z"

definition normal_value :: "sim_sensor \<Rightarrow> real \<Rightarrow> real" where
  "normal_value s z =
     (let midpoint = (ss_min s + ss_max s) / 2; half_band = (ss_max s - ss_min s) / 2;
          noise = half_band * 0.15
      in if half_band > 0 then gauss midpoint (noise / 1.5) z else midpoint)"

text \<open>The base of the ramp: smoothstep from one end of the band to the target.\<close>

definition scenario_start :: "sim_sensor \<Rightarrow> real \<Rightarrow> real" where
  "scenario_start s target = (if target \<ge> ss_min s then ss_min s else ss_max s)"

definition scenario_base :: "real \<Rightarrow> sim_sensor \<Rightarrow> real \<Rightarrow> real \<Rightarrow> real" where
  "scenario_base ramp_seconds s target elapsed =
     (let start = scenario_start s target; ramp = min (elapsed / ramp_seconds) 1;
          eased = ramp * ramp * (3 - 2 * ramp)
      in start + (target - start) * eased)"

definition scenario_value :: "real \<Rightarrow> sim_sensor \<Rightarrow> real \<Rightarrow> real \<Rightarrow> real result" where
  "scenario_value ramp_seconds s elapsed z =
     (case scenario_target (ss_type s) of
        None \<Rightarrow> Inr (normal_value s z)
      | Some target \<Rightarrow>
          if ramp_seconds = 0 then Inl ZeroDivisionError
          else (let base = scenario_base ramp_seconds s target elapsed;
                    noise = \<bar>target - scenario_start s target\<bar> * 0.01
                in Inr (if noise > 0 then gauss base noise z else base)))"

text \<open>\<open>time.monotonic() - (self._scenario_started_at or time.monotonic())\<close>, in seconds\<close>

definition elapsed_since :: "time \<Rightarrow> time option \<Rightarrow> real" where
  "elapsed_since now started = of_int (now - or_int started now) / 1000000"

definition sim_value :: "real \<Rightarrow> time \<Rightarrow> simulator \<Rightarrow> sim_sensor \<Rightarrow> real \<Rightarrow> real result" where
  "sim_value ramp_seconds now s x z =
     (if sy_mode s = ''normal'' then Inr (normal_value x z)
      else scenario_value ramp_seconds x (elapsed_since now (sy_started s)) z)"

text \<open>The entry of the stream; the value has four digits.\<close>

definition entry_of :: "time \<Rightarrow> sim_sensor \<Rightarrow> real \<Rightarrow> stream_entry" where
  "entry_of now x v =
     \<lparr>sm_sensor_id = Some (ss_id x), sm_equipment_id = Some (ss_equipment x), sm_sensor_type = Some (ss_type x),
      sm_value = Some (py_round 4 v), sm_unit = Some (ss_unit x), sm_timestamp = Some (AwareTime now)\<rparr>"

text \<open>
  The pipeline is sent as a whole after the last sensor, so an exception sends nothing; \<open>zs\<close> has
  the draw for each sensor.
\<close>

fun emit_from ::
  "(sim_sensor \<Rightarrow> real \<Rightarrow> real result) \<Rightarrow> time \<Rightarrow> sim_sensor list \<Rightarrow> (nat \<Rightarrow> real) \<Rightarrow> stream_entry list result" where
  "emit_from value_of now [] zs = Inr []"
| "emit_from value_of now (x # xs) zs =
     bindR (value_of x (zs 0)) (\<lambda>v.
       bindR (emit_from value_of now xs (\<lambda>k. zs (Suc k))) (\<lambda>es. Inr (entry_of now x v # es)))"

definition emit_all_sensors :: "real \<Rightarrow> time \<Rightarrow> simulator \<Rightarrow> (nat \<Rightarrow> real) \<Rightarrow> stream_entry list result" where
  "emit_all_sensors ramp_seconds now s zs = emit_from (sim_value ramp_seconds now s) now (sy_sensors s) zs"

text \<open>One round of \<open>run\<close>: control, emission, state.\<close>

definition sim_tick ::
  "real \<Rightarrow> bool \<Rightarrow> time \<Rightarrow> (nat \<Rightarrow> real) \<Rightarrow> simulator \<Rightarrow> sim_state sim_keys \<Rightarrow>
     stream_entry list result \<times> simulator \<times> sim_state sim_keys" where
  "sim_tick ramp_seconds fails now zs s k =
     (let (s1, k1) = check_control fails now s k in
      case emit_all_sensors ramp_seconds now s1 zs of
        Inl e \<Rightarrow> (Inl e, s1, k1)
      | Inr es \<Rightarrow> (Inr es, s1, publish_state fails s1 k1))"

section \<open>Facts on the values\<close>

lemma py_round_near: "\<bar>py_round 4 v - v\<bar> \<le> 0.00005"
  using half_even_near [of "v * 10 ^ 4"] by (simp add: py_round_def abs_le_iff field_simps)

lemma py_round_close: "v - 1/20000 \<le> py_round 4 v" "py_round 4 v \<le> v + 1/20000"
proof -
  have "\<bar>py_round 4 v - v\<bar> \<le> 1/20000" using py_round_near [of v] by simp
  then show "v - 1/20000 \<le> py_round 4 v" "py_round 4 v \<le> v + 1/20000" by linarith+
qed

lemma normal_value_in_band:
  assumes "ss_min s \<le> ss_max s" "\<bar>z\<bar> \<le> 10"
  shows "ss_min s \<le> normal_value s z \<and> normal_value s z \<le> ss_max s"
proof -
  let ?h = "(ss_max s - ss_min s) / 2"
  have h: "0 \<le> ?h" using assms(1) by simp
  have "\<bar>?h * 0.15 / 1.5 * z\<bar> \<le> ?h"
  proof -
    have "\<bar>?h * 0.15 / 1.5 * z\<bar> = ?h * (\<bar>z\<bar> / 10)" using h by (simp add: abs_mult)
    also have "\<dots> \<le> ?h * 1" using h assms(2) by (intro mult_left_mono) simp_all
    finally show ?thesis by simp
  qed
  then show ?thesis
    by (auto simp: normal_value_def gauss_def Let_def abs_le_iff field_simps)
qed

text \<open>The ramp stays between its start and its target and ends at the target.\<close>

lemma smoothstep_bounds:
  assumes "0 \<le> (r :: real)" "r \<le> 1"
  shows "0 \<le> r * r * (3 - 2 * r) \<and> r * r * (3 - 2 * r) \<le> 1"
proof
  show "0 \<le> r * r * (3 - 2 * r)" using assms by (intro mult_nonneg_nonneg) simp_all
  have "1 - r * r * (3 - 2 * r) = (1 - r) * (1 - r) * (1 + 2 * r)" by (simp add: algebra_simps)
  also have "\<dots> \<ge> 0" using assms by (intro mult_nonneg_nonneg) simp_all
  finally show "r * r * (3 - 2 * r) \<le> 1" by simp
qed

lemma scenario_base_between:
  assumes "0 < ramp" "0 \<le> elapsed"
  shows "min (scenario_start s target) target \<le> scenario_base ramp s target elapsed \<and>
    scenario_base ramp s target elapsed \<le> max (scenario_start s target) target"
proof -
  let ?a = "scenario_start s target" and ?r = "min (elapsed / ramp) 1"
  let ?e = "?r * ?r * (3 - 2 * ?r)"
  have e: "0 \<le> ?e" "?e \<le> 1" using smoothstep_bounds [of ?r] assms by simp_all
  have b: "scenario_base ramp s target elapsed = (1 - ?e) * ?a + ?e * target"
    by (simp add: scenario_base_def Let_def algebra_simps)
  have "(1 - ?e) * min ?a target + ?e * min ?a target \<le> (1 - ?e) * ?a + ?e * target"
    using e by (intro add_mono mult_left_mono) simp_all
  moreover have "(1 - ?e) * ?a + ?e * target \<le> (1 - ?e) * max ?a target + ?e * max ?a target"
    using e by (intro add_mono mult_left_mono) simp_all
  moreover have "(1 - ?e) * x + ?e * x = x" for x by (simp add: algebra_simps)
  ultimately show ?thesis unfolding b by metis
qed

lemma scenario_base_end: "0 < ramp \<Longrightarrow> ramp \<le> elapsed \<Longrightarrow> scenario_base ramp s target elapsed = target"
  by (simp add: scenario_base_def Let_def min_def)

lemma emit_from_entries:
  "emit_from value_of now xs zs = Inr es \<Longrightarrow> f \<in> set es \<Longrightarrow>
     \<exists>x k v. x \<in> set xs \<and> value_of x (zs k) = Inr v \<and> f = entry_of now x v"
proof (induction xs arbitrary: zs es)
  case (Cons x xs)
  obtain v es' where v: "value_of x (zs 0) = Inr v" "emit_from value_of now xs (\<lambda>k. zs (Suc k)) = Inr es'"
    "es = entry_of now x v # es'"
    using Cons.prems(1) by (auto simp: bindR_Inr_iff)
  show ?case
  proof (cases "f = entry_of now x v")
    case True
    with v(1) show ?thesis by auto
  next
    case False
    with v(3) Cons.prems(2) Cons.IH [OF v(2)] show ?thesis by auto
  qed
qed simp

text \<open>
  What the Detection Agent reads from an entry: with the registry loaded from the same rows, the
  reading has the emitted value and the thresholds are the sensor's band.
\<close>

lemma sim_sensor_row: "x \<in> set (load_sensors d) \<Longrightarrow> \<exists>r\<in>set (db_sensors d). x = sim_sensor_of r"
  by (auto simp: load_sensors_def)

lemma entry_is_read:
  assumes "x \<in> set (load_sensors d)" "det_db st = d" "distinct (map (\<lambda>r. uuid_str (sn_id r)) (db_sensors d))"
  shows "\<exists>y m. decode (entry_of now x v) = Some y \<and>
    dt_registry (load_sensor_registry st) (dd_sensor_id y) = Some m \<and>
    rg_value (reading_of env y m) = py_round 4 v \<and> mt_sensor_type m = ss_type x \<and>
    thresholds_of m = \<lparr>th_min = ss_min x, th_max = ss_max x\<rparr>"
proof -
  obtain r where r: "r \<in> set (db_sensors d)" "x = sim_sensor_of r" using sim_sensor_row [OF assms(1)] by blast
  let ?reg = "rev (map (\<lambda>r. (uuid_str (sn_id r), meta_of r)) (db_sensors d))"
  have "distinct (map fst ?reg)" using assms(3) by (simp add: o_def rev_map [symmetric])
  moreover have "(uuid_str (sn_id r), meta_of r) \<in> set ?reg" using r(1) by auto
  ultimately have "map_of ?reg (uuid_str (sn_id r)) = Some (meta_of r)" by (rule map_of_is_SomeI)
  then show ?thesis
    using assms(2) r(2)
    by (auto simp: decode_def entry_of_def load_sensor_registry_def det_db_def sim_sensor_of_def meta_of_def
        thresholds_of_def reading_of_def)
qed

lemma static_score:
  "th_min th < th_max th \<Longrightarrow>
   sd_static (score_reading rd th bl sz dz) \<longleftrightarrow>
     (rg_value rd < th_min th \<and> (th_min th - rg_value rd) / (th_max th - th_min th) > sz) \<or>
     (rg_value rd > th_max th \<and> (rg_value rd - th_max th) / (th_max th - th_min th) > sz)"
  by (auto simp: score_reading_def Let_def)

lemma margin_score:
  "th_min th < th_max th \<Longrightarrow>
   sd_margin (score_reading rd th bl sz dz) =
     (if rg_value rd < th_min th then Some ((th_min th - rg_value rd) / (th_max th - th_min th))
      else if rg_value rd > th_max th then Some ((rg_value rd - th_max th) / (th_max th - th_min th)) else None)"
  by (auto simp: score_reading_def Let_def)

lemma small_overshoot_is_tolerated:
  assumes "th_max th - th_min th \<ge> 1 / 1000" "th_min th \<le> v" "v \<le> th_max th" "rg_value rd = py_round 4 v" "0.05 \<le> sz"
  shows "\<not> sd_static (score_reading rd th bl sz dz)"
proof -
  let ?b = "th_max th - th_min th"
  have b: "0 < ?b" "0.00005 \<le> 0.05 * ?b" using assms(1) by simp_all
  have "\<bar>py_round 4 v - v\<bar> \<le> 0.05 * ?b" using py_round_near [of v] b(2) by linarith
  with assms(2-4) have o: "th_min th - rg_value rd \<le> 0.05 * ?b" "rg_value rd - th_max th \<le> 0.05 * ?b" by linarith+
  have "(th_min th - rg_value rd) / ?b \<le> 0.05" "(rg_value rd - th_max th) / ?b \<le> 0.05"
    using o b(1) by (simp_all add: pos_divide_le_eq)
  with assms(5) have "\<not> (th_min th - rg_value rd) / ?b > sz" "\<not> (rg_value rd - th_max th) / ?b > sz" by linarith+
  moreover have "th_min th < th_max th" using b(1) by simp
  ultimately show ?thesis using static_score by blast
qed

section \<open>Properties\<close>

text \<open>
  Healthy synthetic telemetry is never out of band.  In the normal mode, with draws within ten
  standard deviations, the Detection Agent reads every emitted entry, and none is a static anomaly
  at a threshold of 5 percent or more, whatever its baseline says.
\<close>

theorem healthy_telemetry_is_never_out_of_band:
  assumes "emit_all_sensors ramp now (new_simulator (load_sensors d)) zs = Inr es" "f \<in> set es"
    "\<forall>k. \<bar>zs k\<bar> \<le> 10" "\<forall>r\<in>set (db_sensors d). sn_max r - sn_min r \<ge> 1 / 1000"
    "distinct (map (\<lambda>r. uuid_str (sn_id r)) (db_sensors d))" "det_db st = d" "0.05 \<le> sz"
  shows "\<exists>y m. decode f = Some y \<and> dt_registry (load_sensor_registry st) (dd_sensor_id y) = Some m \<and>
    (\<forall>bl dz. \<not> sd_static (score_reading (reading_of env y m) (thresholds_of m) bl sz dz))"
proof -
  obtain x k v where x: "x \<in> set (load_sensors d)" "f = entry_of now x v" "v = normal_value x (zs k)"
    using emit_from_entries [OF assms(1) [unfolded emit_all_sensors_def] assms(2)]
    by (auto simp: new_simulator_def sim_value_def)
  have band: "ss_max x - ss_min x \<ge> 1 / 1000"
    using sim_sensor_row [OF x(1)] assms(4) by (auto simp: sim_sensor_of_def)
  with normal_value_in_band [of x "zs k"] assms(3) have v: "ss_min x \<le> v" "v \<le> ss_max x" by (auto simp: x(3))
  obtain y m where y: "decode f = Some y" "dt_registry (load_sensor_registry st) (dd_sensor_id y) = Some m"
    "rg_value (reading_of env y m) = py_round 4 v" "thresholds_of m = \<lparr>th_min = ss_min x, th_max = ss_max x\<rparr>"
    using entry_is_read [OF x(1) assms(6,5)] x(2) by blast
  have "\<not> sd_static (score_reading (reading_of env y m) (thresholds_of m) bl sz dz)" for bl dz
    by (rule small_overshoot_is_tolerated [of _ v]) (use band v y assms(7) in simp_all)
  with y(1,2) show ?thesis by blast
qed

definition quiet_detector :: det_state where
  "quiet_detector =
     \<lparr>dt_registry = (\<lambda>_. None), dt_baselines = (\<lambda>_. []), dt_buffer = [],
      dt_world = \<lparr>w_db = sample_db, w_bus = []\<rparr>, dt_dead = []\<rparr>"

definition quiet_env :: det_env where
  "quiet_env =
     \<lparr>de_now = 0, de_redis_fault = None, de_reading_fault = (\<lambda>_. None), de_db_fault = (\<lambda>_. None), de_bus_fault = (\<lambda>_. None)\<rparr>"

definition thermometer :: sim_sensor where
  "thermometer =
     \<lparr>ss_id = uuid_str 5, ss_equipment = uuid_str 3, ss_type = ''temperature'', ss_unit = ''degC'',
      ss_min = 29, ss_max = 32\<rparr>"

lemma sample_sensors: "load_sensors sample_db = [thermometer]"
  by (simp add: load_sensors_def sample_db_def sim_sensor_of_def thermometer_def)

lemma sample_rows:
  "db_sensors sample_db = [\<lparr>sn_id = 5, sn_equipment = 3, sn_type = ''temperature'', sn_unit = ''degC'', sn_min = 29, sn_max = 32\<rparr>]"
  by (simp add: sample_db_def)

theorem healthy_telemetry_is_never_out_of_band_witness:
  "\<exists>f y m. emit_all_sensors 30 0 (new_simulator (load_sensors sample_db)) (\<lambda>k. 1) = Inr [f] \<and> decode f = Some y \<and>
     dt_registry (load_sensor_registry quiet_detector) (dd_sensor_id y) = Some m \<and>
     (\<forall>bl dz. \<not> sd_static (score_reading (reading_of quiet_env y m) (thresholds_of m) bl 0.05 dz))"
proof -
  have e: "emit_all_sensors 30 0 (new_simulator (load_sensors sample_db)) (\<lambda>k. 1) =
      Inr [entry_of 0 thermometer (normal_value thermometer 1)]"
    by (simp add: emit_all_sensors_def new_simulator_def sim_value_def sample_sensors)
  note found = healthy_telemetry_is_never_out_of_band [OF e, of "entry_of 0 thermometer (normal_value thermometer 1)" quiet_detector "0.05"]
  have db: "det_db quiet_detector = sample_db" by (simp add: det_db_def quiet_detector_def)
  have "\<exists>y m. decode (entry_of 0 thermometer (normal_value thermometer 1)) = Some y \<and>
      dt_registry (load_sensor_registry quiet_detector) (dd_sensor_id y) = Some m \<and>
      (\<forall>bl dz. \<not> sd_static (score_reading (reading_of quiet_env y m) (thresholds_of m) bl 0.05 dz))"
    using found [of quiet_env] db by (simp add: sample_rows)
  then show ?thesis unfolding e by blast
qed

text \<open>
  The demonstration scenario is always detected.  With the seeded sensors, once the ramp is over and
  as long as the mode lasts, every entry whose draw lies within ten standard deviations is a static
  anomaly beyond half a band, and on its own an anomaly of high severity.
\<close>

theorem scenario_is_detected:
  assumes "emit_all_sensors ramp now s zs = Inr es" "f \<in> set es" "sy_sensors s = load_sensors d"
    "sy_mode s = scenario_name" "0 < ramp" "ramp \<le> elapsed_since now (sy_started s)" "\<forall>k. \<bar>zs k\<bar> \<le> 10"
    "\<forall>r\<in>set (db_sensors d). (sn_type r, sn_unit r, sn_min r, sn_max r) \<in> set demo_sensors"
    "distinct (map (\<lambda>r. uuid_str (sn_id r)) (db_sensors d))" "det_db st = d" "sz \<le> 1/2"
  shows "\<exists>y m. decode f = Some y \<and> dt_registry (load_sensor_registry st) (dd_sensor_id y) = Some m \<and>
    (\<forall>bl dz. let sc = score_reading (reading_of env y m) (thresholds_of m) bl sz dz in
       sd_static sc \<and> sd_anomalous sc \<and> severity_from_score [sd_margin sc] [sd_z sc] = ''high'')"
proof -
  have mode: "sy_mode s \<noteq> ''normal''" using assms(4) by (simp add: scenario_name_def)
  obtain x k v where x: "x \<in> set (load_sensors d)" "f = entry_of now x v"
    and v: "scenario_value ramp x (elapsed_since now (sy_started s)) (zs k) = Inr v"
    using emit_from_entries [OF assms(1) [unfolded emit_all_sensors_def] assms(2)] mode
    by (auto simp: sim_value_def assms(3))
  have seeded: "(ss_type x, ss_unit x, ss_min x, ss_max x) \<in> set demo_sensors"
    using sim_sensor_row [OF x(1)] assms(8) by (auto simp: sim_sensor_of_def)
  have zk: "- 10 \<le> zs k" "zs k \<le> 10" using assms(7) by (auto simp: abs_le_iff dest: spec [of _ k])
  obtain y m where y: "decode f = Some y" "dt_registry (load_sensor_registry st) (dd_sensor_id y) = Some m"
    "rg_value (reading_of env y m) = py_round 4 v" "thresholds_of m = \<lparr>th_min = ss_min x, th_max = ss_max x\<rparr>"
    using entry_is_read [OF x(1) assms(10,9)] x(2) by blast
  note near = py_round_close [of v]
  have band: "ss_min x < ss_max x" using seeded by (auto simp: demo_sensors_def)
  have far: "(py_round 4 v < ss_min x \<and> (ss_min x - py_round 4 v) / (ss_max x - ss_min x) > 1/2) \<or>
      (py_round 4 v > ss_max x \<and> (py_round 4 v - ss_max x) / (ss_max x - ss_min x) > 1/2)"
    using seeded v near zk scenario_base_end [OF assms(5,6)] assms(5)
    by (auto simp: demo_sensors_def scenario_value_def scenario_target_def scenario_start_def gauss_def Let_def abs_le_iff
        field_simps split: if_splits)
  let ?sc = "\<lambda>bl dz. score_reading (reading_of env y m) (thresholds_of m) bl sz dz"
  have th: "th_min (thresholds_of m) = ss_min x" "th_max (thresholds_of m) = ss_max x" by (simp_all only: y(4) thresholds.simps)
  have lt: "th_min (thresholds_of m) < th_max (thresholds_of m)" by (simp only: th band)
  have "sd_static (?sc bl dz)" for bl dz
    unfolding static_score [OF lt] y(3) th using far by (blast intro: le_less_trans [OF assms(11)])
  moreover have "sd_anomalous (?sc bl dz) \<longleftrightarrow> sd_static (?sc bl dz) \<or> sd_drift (?sc bl dz)" for bl dz
    by (simp add: score_reading_def Let_def)
  moreover have "\<exists>mg. sd_margin (?sc bl dz) = Some mg \<and> mg > 1/2" for bl dz
    unfolding margin_score [OF lt] y(3) th using far band by (auto simp del: less_divide_eq_numeral1 divide_less_eq_numeral1)
  then have "severity_from_score [sd_margin (?sc bl dz)] [z] = ''high''" for bl dz z
  proof -
    obtain mg where mg: "sd_margin (?sc bl dz) = Some mg" "mg > 1/2"
      using \<open>\<And>bl dz. \<exists>mg. sd_margin (?sc bl dz) = Some mg \<and> mg > 1/2\<close> by blast
    have "1 \<le> worst_of (worst_of 0 [Some (mg / 0.5)]) [map_option (\<lambda>z. z / 10) z]"
      unfolding worst_of_ge_iff using mg(2) by simp
    then show ?thesis by (simp add: severity_from_score_def Let_def mg(1))
  qed
  ultimately show ?thesis using y(1,2) unfolding Let_def by blast
qed

theorem scenario_is_detected_witness:
  "\<exists>f y m. emit_all_sensors 30 40000000 \<lparr>sy_mode = scenario_name, sy_started = Some 1, sy_sensors = load_sensors sample_db\<rparr>
       (\<lambda>k. 1) = Inr [f] \<and> decode f = Some y \<and>
     dt_registry (load_sensor_registry quiet_detector) (dd_sensor_id y) = Some m \<and>
     (\<forall>bl dz. sd_anomalous (score_reading (reading_of quiet_env y m) (thresholds_of m) bl 0.05 dz))"
proof -
  let ?s = "\<lparr>sy_mode = scenario_name, sy_started = Some 1, sy_sensors = load_sensors sample_db\<rparr>"
  obtain v where e: "emit_all_sensors 30 40000000 ?s (\<lambda>k. 1) = Inr [entry_of 40000000 thermometer v]"
    by (simp add: emit_all_sensors_def sim_value_def sample_sensors scenario_name_def scenario_value_def
        thermometer_def scenario_target_def Let_def)
  note found = scenario_is_detected [OF e, of "entry_of 40000000 thermometer v" sample_db quiet_detector "0.05"]
  have db: "det_db quiet_detector = sample_db" by (simp add: det_db_def quiet_detector_def)
  have "\<exists>y m. decode (entry_of 40000000 thermometer v) = Some y \<and>
      dt_registry (load_sensor_registry quiet_detector) (dd_sensor_id y) = Some m \<and>
      (\<forall>bl dz. sd_anomalous (score_reading (reading_of quiet_env y m) (thresholds_of m) bl 0.05 dz))"
    using found [of quiet_env] db unfolding Let_def by (fastforce simp: sample_rows demo_sensors_def elapsed_since_def)
  then show ?thesis unfolding e by blast
qed

text \<open>
  A permitted command is applied once, or lost.  A trigger the endpoint acknowledged starts the
  scenario at the next check within its 60 seconds, later checks leave everything as it is, and
  after 60 seconds it has no effect although it was acknowledged.
\<close>

theorem command_is_applied_once_or_lost:
  assumes "trigger_scenario pol t0 p k = (Inr (), k')"
  shows "role_of p \<in> set (rp_simulator_roles pol) \<and>
    (if t < t0 + 60 * 1000000
     then \<exists>s1 k1. check_control fails t s k' = (s1, k1) \<and> sy_mode s1 = scenario_name \<and> sy_started s1 = Some t \<and>
       sy_sensors s1 = sy_sensors s \<and> (\<forall>t' fails'. check_control fails' t' s1 k1 = (s1, k1))
     else check_control fails t s k' = (s, k'))"
proof -
  have role: "role_of p \<in> set (rp_simulator_roles pol)" and k': "k' = set_control ''trigger'' t0 k"
    using assms by (auto simp: trigger_scenario_def ensure_role_def split: if_splits)
  show ?thesis
    using role
    by (auto simp: k' check_control_def get_control_def set_control_def delete_control_def control_ttl_def
        publish_state_def Let_def)
qed

theorem command_is_applied_once_or_lost_witness:
  "\<exists>s1 k1. check_control False 5 (new_simulator []) (snd (trigger_scenario shipped_policy 0 sample_principal
     \<lparr>kv_control = None, kv_state = None\<rparr>)) = (s1, k1) \<and> sy_mode s1 = scenario_name"
proof -
  let ?k = "\<lparr>kv_control = None, kv_state = None\<rparr> :: sim_state sim_keys"
  have "trigger_scenario shipped_policy 0 sample_principal ?k = (Inr (), set_control ''trigger'' 0 ?k)"
    by (simp add: trigger_scenario_def ensure_role_def shipped_policy_def load_rbac_policy_def shipped_policy_file_def)
  from command_is_applied_once_or_lost [OF this, of 5 False "new_simulator []"] this show ?thesis by auto
qed

end
