(* ===== verification/TepReplay.thy ===== *)
theory TepReplay
  imports Simulator
begin

text \<open>
  The replay of the Tennessee Eastman data (\<open>app/simulator/tep_replay.py\<close>): the cursors over
  the two runs, the window of the fault, the mapping of the real values into the sensor bands and the
  overlay of the other channels.  A CSV row is a list of columns; \<open>float\<close> of a column is a
  parameter (\<open>None\<close> where Python raises), and so are the random draws.
\<close>

section \<open>Rows and constants\<close>

type_synonym csv_row = "(string \<times> string) list"

definition temp_source :: string where
  "temp_source = ''xmeas_9''"

definition flow_source :: string where
  "flow_source = ''xmv_10''"

definition fault_onset_sample :: int where
  "fault_onset_sample = 161"

definition fault_lead_in :: int where
  "fault_lead_in = 20"

definition temp_map :: "real \<times> real" where
  "temp_map = (120.4, 0.019)"

definition flow_map :: "real \<times> real" where
  "flow_map = (41.12, 0.539)"

definition band_per_sigma :: real where
  "band_per_sigma = 0.1"

text \<open>The embedded excerpt: fault-free and fault rows without a column \<open>sample\<close>.\<close>

definition excerpt_row :: "string \<times> string \<Rightarrow> csv_row" where
  "excerpt_row p = [(temp_source, fst p), (flow_source, snd p)]"

definition embedded_excerpt :: "csv_row list \<times> csv_row list" where
  "embedded_excerpt =
     (map excerpt_row [(''120.40'', ''41.10''), (''120.39'', ''40.95''), (''120.41'', ''41.25''),
        (''120.40'', ''41.05''), (''120.40'', ''41.15''), (''120.39'', ''40.90'')],
      map excerpt_row [(''120.40'', ''44.80''), (''120.40'', ''45.10''), (''120.39'', ''44.70''),
        (''120.40'', ''44.90''), (''120.41'', ''45.00''), (''120.40'', ''44.85'')])"

section \<open>The engine\<close>

record tep_telemetry =
  tt_sample :: nat
  tt_label :: nat
  tt_file :: string

record tep_engine =
  tp_mode :: string
  tp_started :: "time option"
  tp_sensors :: "sim_sensor list"
  tp_free :: "csv_row list"
  tp_fault :: "csv_row list"
  tp_free_idx :: nat
  tp_fault_idx :: nat
  tp_telemetry :: "tep_telemetry option"

definition new_engine :: "sim_sensor list \<Rightarrow> tep_engine" where
  "new_engine ss =
     \<lparr>tp_mode = ''normal'', tp_started = None, tp_sensors = ss, tp_free = [], tp_fault = [], tp_free_idx = 0,
      tp_fault_idx = 0, tp_telemetry = None\<rparr>"

text \<open>The two CSV files, \<open>None\<close> for one that does not exist.\<close>

definition load_data :: "csv_row list option \<Rightarrow> csv_row list option \<Rightarrow> tep_engine \<Rightarrow> tep_engine" where
  "load_data free_csv fault_csv e =
     (case (free_csv, fault_csv) of
        (Some f, Some g) \<Rightarrow> e\<lparr>tp_free := f, tp_fault := g\<rparr>
      | _ \<Rightarrow> e\<lparr>tp_free := fst embedded_excerpt, tp_fault := snd embedded_excerpt\<rparr>)"

text \<open>A row without the column has sample 0.\<close>

definition sample_of :: "(string \<Rightarrow> real option) \<Rightarrow> csv_row \<Rightarrow> int option" where
  "sample_of flt row =
     (case map_of row ''sample'' of None \<Rightarrow> Some 0 | Some s \<Rightarrow> map_option py_trunc (flt s))"

fun first_sample_from :: "(string \<Rightarrow> real option) \<Rightarrow> nat \<Rightarrow> csv_row list \<Rightarrow> nat option" where
  "first_sample_from flt k [] = None"
| "first_sample_from flt k (row # rows) =
     (case sample_of flt row of
        Some n \<Rightarrow> if n \<ge> fault_onset_sample - fault_lead_in then Some k else first_sample_from flt (Suc k) rows
      | None \<Rightarrow> first_sample_from flt (Suc k) rows)"

definition fault_start_index :: "(string \<Rightarrow> real option) \<Rightarrow> tep_engine \<Rightarrow> nat" where
  "fault_start_index flt e =
     (case first_sample_from flt 0 (tp_fault e) of
        Some k \<Rightarrow> k
      | None \<Rightarrow> nat (min (py_trunc (of_int (fault_onset_sample - fault_lead_in) / 960 * real (length (tp_fault e))))
                    (max (int (length (tp_fault e)) - 1) 0)))"

definition fault_step :: "real \<Rightarrow> nat" where
  "fault_step skip_fraction =
     (let skip = max 0 (min skip_fraction 0.95) in nat (max 1 (half_even (1 / (1 - skip)))))"

definition is_onset_transient :: "(string \<Rightarrow> real option) \<Rightarrow> csv_row \<Rightarrow> bool" where
  "is_onset_transient flt row =
     (case sample_of flt row of
        None \<Rightarrow> False
      | Some n \<Rightarrow> fault_onset_sample \<le> n \<and> n \<le> fault_onset_sample + 1)"

section \<open>Control and state\<close>

definition trigger_fault :: "(string \<Rightarrow> real option) \<Rightarrow> time \<Rightarrow> tep_engine \<Rightarrow> tep_engine" where
  "trigger_fault flt now e = e\<lparr>tp_mode := ''tep_fault_4'', tp_fault_idx := fault_start_index flt e, tp_started := Some now\<rparr>"

text \<open>The draw of \<open>random.randrange\<close> is below \<open>max(len(self._free_rows), 1)\<close>.\<close>

definition reset_replay :: "nat \<Rightarrow> tep_engine \<Rightarrow> tep_engine" where
  "reset_replay draw e =
     e\<lparr>tp_mode := ''normal'', tp_started := None, tp_free_idx := draw mod max (length (tp_free e)) 1\<rparr>"

record tep_state =
  ts_mode :: string
  ts_scenario :: "string option"
  ts_started :: bool
  ts_sensors :: nat
  ts_telemetry :: "tep_telemetry option"

definition tep_state_dict :: "tep_engine \<Rightarrow> tep_state" where
  "tep_state_dict e =
     \<lparr>ts_mode = tp_mode e, ts_scenario = (if tp_mode e \<noteq> ''normal'' then Some ''tep_fault_4'' else None),
      ts_started = (tp_started e \<noteq> None), ts_sensors = length (tp_sensors e), ts_telemetry = tp_telemetry e\<rparr>"

definition tep_publish_state :: "bool \<Rightarrow> tep_engine \<Rightarrow> tep_state sim_keys \<Rightarrow> tep_state sim_keys" where
  "tep_publish_state fails e k = (if fails then k else k\<lparr>kv_state := Some (tep_state_dict e)\<rparr>)"

definition tep_check_control ::
  "(string \<Rightarrow> real option) \<Rightarrow> bool \<Rightarrow> time \<Rightarrow> nat \<Rightarrow> tep_engine \<Rightarrow> tep_state sim_keys \<Rightarrow> tep_engine \<times> tep_state sim_keys" where
  "tep_check_control flt fails now draw e k =
     (if get_control now k = Some ''trigger'' then
        (let e' = trigger_fault flt now e in (e', tep_publish_state fails e' (delete_control k)))
      else if get_control now k = Some ''reset'' then
        (let e' = reset_replay draw e in (e', tep_publish_state fails e' (delete_control k)))
      else (e, k))"

section \<open>Values\<close>

text \<open>The overlay of a channel the data does not have: drift and noise as fractions.\<close>

definition overlay_spec :: "string \<Rightarrow> (real \<times> real) option" where
  "overlay_spec ty = map_of [(''ph'', - 0.55, 0.02), (''conductivity'', 0.6, 0.03), (''vibration'', 0.65, 0.05)] ty"

definition overlay_value :: "real \<times> real \<Rightarrow> bool \<Rightarrow> real \<Rightarrow> real \<Rightarrow> real \<Rightarrow> real" where
  "overlay_value spec active centre inner z =
     (case spec of (drift, sigma) \<Rightarrow>
        (let noise = (if inner > 0 then gauss 0 (sigma * inner) z else 0)
         in if \<not> active then centre + noise else centre + drift * inner * 1.8 + noise))"

definition inner_of :: "sim_sensor \<Rightarrow> real" where
  "inner_of s = (ss_max s - ss_min s) * 0.3"

definition mapped_value :: "real \<times> real \<Rightarrow> sim_sensor \<Rightarrow> real \<Rightarrow> real" where
  "mapped_value src s raw =
     (ss_min s + ss_max s) / 2 + (raw - fst src) / snd src * (ss_max s - ss_min s) * band_per_sigma"

definition clamp_value :: "sim_sensor \<Rightarrow> real \<Rightarrow> real" where
  "clamp_value s v = max (ss_min s - inner_of s) (min (ss_max s + inner_of s * 1.5) v)"

definition column :: "(string \<Rightarrow> real option) \<Rightarrow> string \<Rightarrow> csv_row \<Rightarrow> real result" where
  "column flt name row =
     (case map_of row name of
        None \<Rightarrow> Inl (KeyError name)
      | Some s \<Rightarrow> (case flt s of None \<Rightarrow> Inl (ValueError ''could not convert string to float'') | Some x \<Rightarrow> Inr x))"

definition value_for :: "(string \<Rightarrow> real option) \<Rightarrow> csv_row \<Rightarrow> bool \<Rightarrow> sim_sensor \<Rightarrow> real \<Rightarrow> real result" where
  "value_for flt row active s z =
     bindR (if ss_type s = ''temperature'' then bindR (column flt temp_source row) (\<lambda>x. Inr (mapped_value temp_map s x))
            else if ss_type s = ''flow_rate'' then bindR (column flt flow_source row) (\<lambda>x. Inr (mapped_value flow_map s x))
            else (case overlay_spec (ss_type s) of
                    None \<Rightarrow> Inl (OtherError ''AttributeError'')
                  | Some spec \<Rightarrow> Inr (overlay_value spec active ((ss_min s + ss_max s) / 2) (inner_of s) z)))
       (\<lambda>v. Inr (clamp_value s v))"

section \<open>One tick\<close>

text \<open>
  The loop of \<open>_select_fault_row\<close> over the remaining rows: the cursor leaves the rows of the
  onset, but not the last row.
\<close>

fun skip_onset :: "(string \<Rightarrow> real option) \<Rightarrow> nat \<Rightarrow> csv_row list \<Rightarrow> nat" where
  "skip_onset flt k [] = k"
| "skip_onset flt k [row] = k"
| "skip_onset flt k (row # row' # rows) =
     (if is_onset_transient flt row then skip_onset flt (Suc k) (row' # rows) else k)"

definition select_fault_row :: "(string \<Rightarrow> real option) \<Rightarrow> tep_engine \<Rightarrow> (csv_row \<times> nat) result" where
  "select_fault_row flt e =
     (if tp_fault_idx e \<ge> length (tp_fault e) then Inl (OtherError ''IndexError'')
      else (let k = skip_onset flt (tp_fault_idx e) (drop (tp_fault_idx e) (tp_fault e))
            in Inr (tp_fault e ! k, k)))"

text \<open>
  \<open>_advance\<close>: the row of this tick, whether the fault is active, and the engine afterwards.
  \<open>step\<close> is the draw of \<open>random.choice((1, 1, 2))\<close>.
\<close>

definition advance_cursor ::
  "(string \<Rightarrow> real option) \<Rightarrow> real \<Rightarrow> nat \<Rightarrow> tep_engine \<Rightarrow> (csv_row \<times> bool) result \<times> tep_engine" where
  "advance_cursor flt skip_fraction step e =
     (if tp_mode e = ''normal'' then
        (if tp_free_idx e \<ge> length (tp_free e) then (Inl (OtherError ''IndexError''), e)
         else (Inr (tp_free e ! tp_free_idx e, False),
               e\<lparr>tp_telemetry := Some \<lparr>tt_sample = tp_free_idx e, tt_label = 0, tt_file = ''fault_free_training.csv''\<rparr>,
                 tp_free_idx := (tp_free_idx e + step) mod length (tp_free e)\<rparr>))
      else
        (case select_fault_row flt e of
           Inl x \<Rightarrow> (Inl x, e)
         | Inr (row, k) \<Rightarrow>
             (Inr (row, True),
              e\<lparr>tp_telemetry := Some \<lparr>tt_sample = k, tt_label = 4, tt_file = ''fault_4_training.csv''\<rparr>,
                tp_fault_idx := min (k + fault_step skip_fraction) (length (tp_fault e) - 1)\<rparr>)))"

text \<open>
  The emission runs as a task of its own; an exception in it is logged and nothing is sent.
\<close>

definition tep_emit ::
  "(string \<Rightarrow> real option) \<Rightarrow> csv_row \<times> bool \<Rightarrow> time \<Rightarrow> sim_sensor list \<Rightarrow> (nat \<Rightarrow> real) \<Rightarrow> stream_entry list" where
  "tep_emit flt r now ss zs =
     (case emit_from (\<lambda>s z. value_for flt (fst r) (snd r) s z) now ss zs of Inl e \<Rightarrow> [] | Inr es \<Rightarrow> es)"

definition advance ::
  "(string \<Rightarrow> real option) \<Rightarrow> real \<Rightarrow> nat \<Rightarrow> time \<Rightarrow> (nat \<Rightarrow> real) \<Rightarrow> tep_engine \<Rightarrow> stream_entry list result \<times> tep_engine" where
  "advance flt skip_fraction step now zs e =
     (case advance_cursor flt skip_fraction step e of
        (Inl x, e') \<Rightarrow> (Inl x, e')
      | (Inr r, e') \<Rightarrow> (Inr (tep_emit flt r now (tp_sensors e) zs), e'))"

text \<open>
  \<open>value_preview\<close>: the value of one channel without writing; without a row it takes the row 200 of
  the fault run or the first fault-free row.
\<close>

definition row_at :: "nat \<Rightarrow> csv_row list \<Rightarrow> csv_row result" where
  "row_at k rows = (if k < length rows then Inr (rows ! k) else Inl (OtherError ''IndexError''))"

definition value_preview ::
  "(string \<Rightarrow> real option) \<Rightarrow> string \<Rightarrow> csv_row option \<Rightarrow> tep_engine \<Rightarrow> real \<Rightarrow> real result" where
  "value_preview flt ty row e z =
     (case find (\<lambda>s. ss_type s = ty) (tp_sensors e) of
        None \<Rightarrow> Inl (KeyError ty)
      | Some s \<Rightarrow>
          bindR (if or_list row \<noteq> [] then Inr (or_list row)
                 else if tp_mode e \<noteq> ''normal'' then row_at 200 (tp_fault e) else row_at 0 (tp_free e))
            (\<lambda>r. bindR (value_for flt r (tp_mode e \<noteq> ''normal'') s z) (\<lambda>v. Inr (py_round 4 v))))"

section \<open>The loop\<close>

text \<open>
  \<open>run\<close> awaits what \<open>_advance\<close> returns.  \<open>_advance\<close> is a plain function and returns
  \<open>None\<close>, which cannot be awaited.  The exception leaves \<open>run\<close> and \<open>main\<close>; the event loop
  is closed and the emission that was scheduled is cancelled before it starts.
\<close>

datatype py_object = NoneObject | Awaitable

definition py_await :: "py_object \<Rightarrow> unit result" where
  "py_await x =
     (case x of
        NoneObject \<Rightarrow> Inl (TypeError (''object NoneType can'' @ [CHR 0x27] @ ''t be used in '' @ [CHR 0x27] @ ''await'' @
          [CHR 0x27] @ '' expression''))
      | Awaitable \<Rightarrow> Inr ())"

record tep_input =
  ti_now :: time
  ti_draw :: nat
  ti_step :: nat
  ti_noise :: "nat \<Rightarrow> real"
  ti_fails :: bool

definition tep_round ::
  "(string \<Rightarrow> real option) \<Rightarrow> real \<Rightarrow> tep_input \<Rightarrow> tep_engine \<times> tep_state sim_keys \<Rightarrow>
     stream_entry list result \<times> tep_engine \<times> tep_state sim_keys" where
  "tep_round flt skip_fraction i ek =
     (let (e1, k1) = tep_check_control flt (ti_fails i) (ti_now i) (ti_draw i) (fst ek) (snd ek) in
      case advance flt skip_fraction (ti_step i) (ti_now i) (ti_noise i) e1 of
        (Inl x, e2) \<Rightarrow> (Inl x, e2, k1)
      | (Inr es, e2) \<Rightarrow>
          (case py_await NoneObject of
             Inl x \<Rightarrow> (Inl x, e2, k1)
           | Inr _ \<Rightarrow> (Inr es, e2, tep_publish_state (ti_fails i) e2 k1)))"

text \<open>The entries that reach the stream, and the exception that ended the loop, if one did.\<close>

fun tep_run ::
  "(string \<Rightarrow> real option) \<Rightarrow> real \<Rightarrow> tep_input list \<Rightarrow> tep_engine \<times> tep_state sim_keys \<Rightarrow> stream_entry list \<times> exc option" where
  "tep_run flt skip_fraction [] ek = ([], None)"
| "tep_run flt skip_fraction (i # is) ek =
     (case tep_round flt skip_fraction i ek of
        (Inl x, _) \<Rightarrow> ([], Some x)
      | (Inr es, ek') \<Rightarrow> (case tep_run flt skip_fraction is ek' of (rest, x) \<Rightarrow> (es @ rest, x)))"

section \<open>The cursors\<close>

definition tep_ok :: "tep_engine \<Rightarrow> bool" where
  "tep_ok e \<longleftrightarrow> tp_free_idx e < length (tp_free e) \<and> tp_fault_idx e < length (tp_fault e)"

lemma first_sample_bound: "first_sample_from flt k rows = Some j \<Longrightarrow> k \<le> j \<and> j < k + length rows"
  by (induction flt k rows rule: first_sample_from.induct) (fastforce split: option.splits if_splits)+

lemma fault_start_in_range: "tp_fault e \<noteq> [] \<Longrightarrow> fault_start_index flt e < length (tp_fault e)"
  using first_sample_bound [of flt 0 "tp_fault e"]
  by (cases "tp_fault e") (auto simp: fault_start_index_def nat_less_iff min_def split: option.split)

lemma skip_onset_spec:
  "rows \<noteq> [] \<Longrightarrow> k \<le> skip_onset flt k rows \<and> skip_onset flt k rows < k + length rows \<and>
     (\<not> is_onset_transient flt (rows ! (skip_onset flt k rows - k)) \<or> skip_onset flt k rows = k + length rows - 1)"
proof (induction flt k rows rule: skip_onset.induct)
  case (3 flt k row row' rows)
  show ?case
  proof (cases "is_onset_transient flt row")
    case True
    let ?j = "skip_onset flt (Suc k) (row' # rows)"
    from 3(1) [OF True] have j: "Suc k \<le> ?j" "?j < Suc k + length (row' # rows)"
      "\<not> is_onset_transient flt ((row' # rows) ! (?j - Suc k)) \<or> ?j = Suc k + length (row' # rows) - 1" by simp_all
    have "(row # row' # rows) ! (?j - k) = (row' # rows) ! (?j - Suc k)"
      using j(1) by (cases "?j - k") (auto simp: Suc_diff_Suc nth_Cons' diff_Suc split: nat.split)
    with j True show ?thesis by auto
  qed simp
qed simp_all

lemma select_fault_row_spec:
  assumes "tp_fault_idx e < length (tp_fault e)"
  shows "\<exists>k. select_fault_row flt e = Inr (tp_fault e ! k, k) \<and> tp_fault_idx e \<le> k \<and> k < length (tp_fault e) \<and>
    (\<not> is_onset_transient flt (tp_fault e ! k) \<or> k = length (tp_fault e) - 1)"
proof -
  let ?i = "tp_fault_idx e" and ?rows = "drop (tp_fault_idx e) (tp_fault e)"
  let ?k = "skip_onset flt ?i ?rows"
  have "?rows \<noteq> []" using assms by simp
  from skip_onset_spec [OF this, of ?i flt] have k: "?i \<le> ?k" "?k < ?i + length ?rows"
    "\<not> is_onset_transient flt (?rows ! (?k - ?i)) \<or> ?k = ?i + length ?rows - 1" by blast+
  have "?rows ! (?k - ?i) = tp_fault e ! ?k" using k(1,2) assms by (simp add: nth_drop)
  with k assms show ?thesis by (auto simp: select_fault_row_def Let_def)
qed

lemma fault_step_bounds: "1 \<le> fault_step x \<and> fault_step x \<le> 20"
proof -
  let ?s = "max 0 (min x 0.95)"
  have s: "0 \<le> ?s" "?s \<le> 0.95" by simp_all
  then have "1 / (1 - ?s) \<le> 20" by (simp add: pos_divide_le_eq)
  from half_even_mono [OF this] have "half_even (1 / (1 - ?s)) \<le> 20" using half_even_int [of 20] by simp
  then show ?thesis by (auto simp: fault_step_def Let_def)
qed

lemma fault_tick:
  "tp_mode e \<noteq> ''normal'' \<Longrightarrow> select_fault_row flt e = Inr (row, k) \<Longrightarrow>
     tp_fault_idx (snd (advance_cursor flt sf step e)) = min (k + fault_step sf) (length (tp_fault e) - 1)"
  by (simp add: advance_cursor_def)

text \<open>The moves of the engine: a trigger, a reset, a tick.\<close>

inductive tep_move :: "(string \<Rightarrow> real option) \<Rightarrow> real \<Rightarrow> tep_engine \<Rightarrow> tep_engine \<Rightarrow> bool"
  for flt :: "string \<Rightarrow> real option" and skip_fraction :: real where
  triggers: "tep_move flt skip_fraction e (trigger_fault flt now e)"
| resets: "tep_move flt skip_fraction e (reset_replay draw e)"
| ticks: "tep_move flt skip_fraction e (snd (advance flt skip_fraction step now zs e))"

lemma advance_snd: "snd (advance flt sf step now zs e) = snd (advance_cursor flt sf step e)"
  by (auto simp: advance_def split: sum.splits prod.splits)

lemma advance_cursor_ok:
  assumes "tep_ok e"
  shows "\<exists>row active e'. advance_cursor flt sf step e = (Inr (row, active), e') \<and> tep_ok e' \<and>
    tp_free e' = tp_free e \<and> tp_fault e' = tp_fault e \<and> tp_mode e' = tp_mode e \<and> tp_sensors e' = tp_sensors e \<and>
    active = (tp_mode e \<noteq> ''normal'') \<and>
    (if active then row \<in> set (tp_fault e) \<and> (\<not> is_onset_transient flt row \<or> row = last (tp_fault e))
     else row \<in> set (tp_free e))"
proof (cases "tp_mode e = ''normal''")
  case True
  have "\<not> length (tp_free e) \<le> tp_free_idx e" using assms by (simp add: tep_ok_def)
  moreover have "tep_ok (e\<lparr>tp_telemetry := x, tp_free_idx := n mod length (tp_free e)\<rparr>)" for x n
    using assms by (cases "tp_free e") (simp_all add: tep_ok_def)
  ultimately show ?thesis
    unfolding advance_cursor_def if_P [OF True] using True by (simp, blast)
next
  case False
  from assms have i: "tp_fault_idx e < length (tp_fault e)" by (simp add: tep_ok_def)
  from select_fault_row_spec [OF this, of flt] obtain k where k: "select_fault_row flt e = Inr (tp_fault e ! k, k)"
    "k < length (tp_fault e)" "\<not> is_onset_transient flt (tp_fault e ! k) \<or> k = length (tp_fault e) - 1" by blast
  have "tp_fault e ! k = last (tp_fault e)" if "k = length (tp_fault e) - 1"
    using that k(2) by (cases "tp_fault e") (auto simp: last_conv_nth)
  with k(3) have row: "\<not> is_onset_transient flt (tp_fault e ! k) \<or> tp_fault e ! k = last (tp_fault e)" by blast
  have ok: "tep_ok (e\<lparr>tp_telemetry := x, tp_fault_idx := min (k + n) (length (tp_fault e) - 1)\<rparr>)" for x n
    using assms i by (auto simp: tep_ok_def min_def)
  show ?thesis
    unfolding advance_cursor_def k(1) if_not_P [OF False] sum.case prod.case
    using ok k(2) row False by (simp, blast)
qed

lemma tep_move_ok:
  assumes "tep_move flt sf e e'" "tep_ok e"
  shows "tep_ok e' \<and> tp_free e' = tp_free e \<and> tp_fault e' = tp_fault e \<and> tp_sensors e' = tp_sensors e"
  using assms
proof (induction rule: tep_move.induct)
  case (triggers e now)
  then have "tp_fault e \<noteq> []" by (auto simp: tep_ok_def)
  with triggers fault_start_in_range [OF this, of flt] show ?case by (simp add: tep_ok_def trigger_fault_def)
next
  case (resets e draw)
  then have n: "0 < length (tp_free e)" by (auto simp: tep_ok_def)
  then have "draw mod max (length (tp_free e)) 1 < length (tp_free e)" by (simp add: max_absorb1 Suc_leI)
  with resets show ?case by (simp add: tep_ok_def reset_replay_def)
next
  case (ticks e step now zs)
  from advance_cursor_ok [OF ticks, of flt sf step] show ?case by (auto simp: advance_snd)
qed

lemma tep_moves_ok:
  "(tep_move flt sf)\<^sup>*\<^sup>* e e' \<Longrightarrow> tep_ok e \<Longrightarrow>
     tep_ok e' \<and> tp_free e' = tp_free e \<and> tp_fault e' = tp_fault e \<and> tp_sensors e' = tp_sensors e"
  by (induction rule: rtranclp_induct) (auto dest: tep_move_ok)

section \<open>What the Detection Agent sees\<close>

text \<open>The value of a column in standard deviations of the fault-free runs.\<close>

definition sigmas :: "(string \<Rightarrow> real option) \<Rightarrow> string \<Rightarrow> real \<times> real \<Rightarrow> csv_row \<Rightarrow> real option" where
  "sigmas flt name src row =
     (case map_of row name of None \<Rightarrow> None | Some s \<Rightarrow> map_option (\<lambda>x. (x - fst src) / snd src) (flt s))"

lemma column_sigmas:
  "column flt name row = Inr x \<Longrightarrow> sigmas flt name src row = Some ((x - fst src) / snd src)"
  by (auto simp: column_def sigmas_def split: option.splits)

lemma value_for_cases:
  assumes "value_for flt row active s z = Inr v"
  obtains (temp) q where "ss_type s = ''temperature''" "sigmas flt temp_source temp_map row = Some q"
      "v = clamp_value s ((ss_min s + ss_max s) / 2 + q * (ss_max s - ss_min s) * 0.1)"
    | (flow) q where "ss_type s = ''flow_rate''" "sigmas flt flow_source flow_map row = Some q"
      "v = clamp_value s ((ss_min s + ss_max s) / 2 + q * (ss_max s - ss_min s) * 0.1)"
    | (overlay) spec where "ss_type s \<notin> {''temperature'', ''flow_rate''}" "overlay_spec (ss_type s) = Some spec"
      "v = clamp_value s (overlay_value spec active ((ss_min s + ss_max s) / 2) (inner_of s) z)"
  using assms column_sigmas [of flt temp_source row _ temp_map] column_sigmas [of flt flow_source row _ flow_map]
  by (auto simp: value_for_def bindR_Inr_iff mapped_value_def band_per_sigma_def split: if_splits option.splits)

lemma clamp_bounds:
  assumes "ss_min s \<le> ss_max s"
  shows "ss_min s - inner_of s \<le> clamp_value s x" "clamp_value s x \<le> ss_max s + inner_of s * 1.5"
proof -
  have "0 \<le> inner_of s" using assms by (simp add: inner_of_def)
  then have "ss_min s - inner_of s \<le> ss_max s + inner_of s * 1.5" using assms by simp
  then show "ss_min s - inner_of s \<le> clamp_value s x" "clamp_value s x \<le> ss_max s + inner_of s * 1.5"
    by (auto simp: clamp_value_def)
qed

lemma clamp_inside:
  assumes "ss_min s \<le> x" "x \<le> ss_max s"
  shows "clamp_value s x = x"
proof -
  have "0 \<le> inner_of s" using assms by (simp add: inner_of_def)
  with assms show ?thesis by (simp add: clamp_value_def max_def min_def)
qed

lemma near_centre_in_band:
  assumes "ss_min s \<le> ss_max s" "\<bar>f\<bar> \<le> 1/2"
  shows "ss_min s \<le> (ss_min s + ss_max s) / 2 + f * (ss_max s - ss_min s) \<and>
    (ss_min s + ss_max s) / 2 + f * (ss_max s - ss_min s) \<le> ss_max s"
proof -
  have "\<bar>f * (ss_max s - ss_min s)\<bar> \<le> 1/2 * (ss_max s - ss_min s)"
    unfolding abs_mult using assms by (intro mult_mono) simp_all
  then have "f * (ss_max s - ss_min s) \<le> 1/2 * (ss_max s - ss_min s)"
    "- (f * (ss_max s - ss_min s)) \<le> 1/2 * (ss_max s - ss_min s)" by linarith+
  then show ?thesis by (auto simp: field_simps)
qed

lemma overlay_in_band:
  fixes active :: bool
  assumes "ss_min s \<le> ss_max s" "overlay_spec (ss_type s) = Some spec" "\<bar>z\<bar> \<le> 9"
  defines "v \<equiv> overlay_value spec active ((ss_min s + ss_max s) / 2) (inner_of s) z"
  shows "ss_min s \<le> v \<and> v \<le> ss_max s"
proof -
  let ?b = "ss_max s - ss_min s"
  obtain drift sigma where pair: "spec = (drift, sigma)" by (cases spec)
  have "\<bar>drift\<bar> \<le> 0.65" "0 \<le> sigma" "sigma \<le> 0.05"
    using assms(2) by (auto simp: overlay_spec_def pair split: if_splits)
  note spec = pair this
  let ?f = "(if active then drift * 0.54 else 0) + sigma * 0.3 * z"
  have "v = (ss_min s + ss_max s) / 2 + ?f * ?b"
    using assms(1) by (auto simp: v_def overlay_value_def spec(1) gauss_def inner_of_def Let_def field_simps)
  moreover have "\<bar>?f\<bar> \<le> 1/2"
  proof -
    have "\<bar>sigma * 0.3 * z\<bar> \<le> 0.05 * 0.3 * 9"
      unfolding abs_mult using spec(3,4) assms(3) by (intro mult_mono) simp_all
    moreover have "\<bar>if active then drift * 0.54 else 0\<bar> \<le> 0.65 * 0.54" using spec(2) by (simp add: abs_mult)
    ultimately have "\<bar>?f\<bar> \<le> 0.65 * 0.54 + 0.05 * 0.3 * 9" by (intro order_trans [OF abs_triangle_ineq add_mono])
    also have "\<dots> \<le> 1/2" by simp
    finally show ?thesis .
  qed
  ultimately show ?thesis using near_centre_in_band [OF assms(1), of ?f] by simp
qed

lemma mapped_in_band:
  assumes "ss_min s \<le> ss_max s" "\<bar>q\<bar> \<le> 5"
  shows "ss_min s \<le> (ss_min s + ss_max s) / 2 + q * (ss_max s - ss_min s) * 0.1 \<and>
    (ss_min s + ss_max s) / 2 + q * (ss_max s - ss_min s) * 0.1 \<le> ss_max s"
  using near_centre_in_band [OF assms(1), of "q * 0.1"] assms(2) by (simp add: abs_mult mult.assoc mult.commute mult.left_commute)

section \<open>Properties\<close>

text \<open>
  The replay never runs out of data.  After any triggers, resets and ticks, with two runs that are
  not empty, the next tick finds its row: a row of the run of the mode, and in the fault never one of
  the two onset rows, unless it is the last row of the run.
\<close>

theorem replay_never_runs_out:
  assumes "(tep_move flt sf)\<^sup>*\<^sup>* e0 e" "tp_free_idx e0 < length (tp_free e0)" "tp_fault_idx e0 < length (tp_fault e0)"
  shows "\<exists>row active e'. advance_cursor flt sf step e = (Inr (row, active), e') \<and> active = (tp_mode e \<noteq> ''normal'') \<and>
    tp_free_idx e' < length (tp_free e0) \<and> tp_fault_idx e' < length (tp_fault e0) \<and>
    (if active then row \<in> set (tp_fault e0) \<and> (\<not> is_onset_transient flt row \<or> row = last (tp_fault e0))
     else row \<in> set (tp_free e0))"
proof -
  have "tep_ok e0" using assms(2,3) by (simp add: tep_ok_def)
  from tep_moves_ok [OF assms(1) this] have e: "tep_ok e" "tp_free e = tp_free e0" "tp_fault e = tp_fault e0" by simp_all
  from advance_cursor_ok [OF e(1), of flt sf step] e(2,3) show ?thesis by (auto simp: tep_ok_def)
qed

definition booted :: tep_engine where
  "booted = load_data None None (new_engine [])"

theorem replay_never_runs_out_witness:
  "\<exists>row e'. advance_cursor (\<lambda>_. None) 0.5 1 (trigger_fault (\<lambda>_. None) 9 booted) = (Inr (row, True), e') \<and>
     row \<in> set (snd embedded_excerpt)"
proof -
  have idx: "tp_free_idx booted < length (tp_free booted)" "tp_fault_idx booted < length (tp_fault booted)"
    "tp_fault booted = snd embedded_excerpt"
    by (simp_all add: booted_def load_data_def new_engine_def embedded_excerpt_def)
  have "(tep_move (\<lambda>_. None) 0.5)\<^sup>*\<^sup>* booted (trigger_fault (\<lambda>_. None) 9 booted)"
    by (rule r_into_rtranclp) (rule triggers)
  from replay_never_runs_out [OF this idx(1,2), of 1] show ?thesis
    by (auto simp: trigger_fault_def idx(3))
qed

text \<open>
  The fault window is played to its end and holds there.  After as many ticks as the run has rows the
  cursor is on the last row, and it stays there, in fault mode, until somebody resets the replay.
\<close>

theorem fault_window_ends_and_holds:
  assumes "tp_mode e \<noteq> ''normal''" "tp_free_idx e < length (tp_free e)" "tp_fault_idx e < length (tp_fault e)"
    "length (tp_fault e) \<le> n"
  shows "tp_fault_idx (((\<lambda>e. snd (advance_cursor flt sf 1 e)) ^^ n) e) = length (tp_fault e) - 1 \<and>
    tp_mode (((\<lambda>e. snd (advance_cursor flt sf 1 e)) ^^ n) e) = tp_mode e"
proof -
  let ?t = "\<lambda>e. snd (advance_cursor flt sf 1 e)"
  have "tep_ok e" using assms(2,3) by (simp add: tep_ok_def)
  have inv: "tep_ok ((?t ^^ m) e) \<and> tp_fault ((?t ^^ m) e) = tp_fault e \<and> tp_mode ((?t ^^ m) e) = tp_mode e \<and>
      min m (length (tp_fault e) - 1) \<le> tp_fault_idx ((?t ^^ m) e)" for m
  proof (induction m)
    case 0
    show ?case using \<open>tep_ok e\<close> by simp
  next
    case (Suc m)
    let ?e = "(?t ^^ m) e"
    from Suc have ok: "tep_ok ?e" "tp_fault ?e = tp_fault e" "tp_mode ?e = tp_mode e"
      "min m (length (tp_fault e) - 1) \<le> tp_fault_idx ?e" by simp_all
    from ok(1) have i: "tp_fault_idx ?e < length (tp_fault ?e)" by (simp add: tep_ok_def)
    from select_fault_row_spec [OF this, of flt] obtain k where
      k: "select_fault_row flt ?e = Inr (tp_fault ?e ! k, k)" "tp_fault_idx ?e \<le> k" by blast
    have normal: "tp_mode ?e \<noteq> ''normal''" using ok(3) assms(1) by simp
    have "tp_fault_idx (?t ?e) = min (k + fault_step sf) (length (tp_fault e) - 1)"
      using fault_tick [OF normal k(1), of sf 1] by (simp only: ok(2))
    with k(2) ok(4) fault_step_bounds [of sf]
    have "min (Suc m) (length (tp_fault e) - 1) \<le> tp_fault_idx (?t ?e)" by linarith
    with advance_cursor_ok [OF ok(1), of flt sf 1] ok show ?case by auto
  qed
  from inv [of n] assms(4) show ?thesis by (auto simp: tep_ok_def min_def split: if_splits)
qed

theorem fault_window_ends_and_holds_witness:
  "tp_fault_idx (((\<lambda>e. snd (advance_cursor (\<lambda>_. None) 0.5 1 e)) ^^ 7) (trigger_fault (\<lambda>_. None) 9 booted)) = 5"
proof -
  let ?e = "trigger_fault (\<lambda>_. None) 9 booted"
  have n: "length (tp_fault ?e) = 6" "tp_fault ?e \<noteq> []" "tp_free_idx ?e < length (tp_free ?e)" "tp_mode ?e \<noteq> ''normal''"
    by (simp_all add: trigger_fault_def booted_def load_data_def new_engine_def embedded_excerpt_def)
  have "tp_fault_idx ?e < length (tp_fault ?e)"
    using fault_start_in_range [of booted "\<lambda>_. None"] n(2) by (simp add: trigger_fault_def)
  from fault_window_ends_and_holds [OF n(4,3) this, of 7 "\<lambda>_. None" "0.5"] n(1) show ?thesis by simp
qed

lemma py_round_keeps_static:
  assumes "ss_max x - ss_min x \<ge> 1 / 100" "ss_max x + 0.06 * (ss_max x - ss_min x) \<le> v"
    "th_min th = ss_min x" "th_max th = ss_max x" "rg_value rd = py_round 4 v"
  shows "sd_static (score_reading rd th bl 0.05 dz)"
proof -
  let ?b = "ss_max x - ss_min x"
  have b: "0 < ?b" using assms(1) by simp
  have r: "ss_max x + 0.06 * ?b - 1/20000 \<le> py_round 4 v" using py_round_close(1) [of v] assms(2) by linarith
  have "0.05 * ?b < 0.06 * ?b - 1/20000" using assms(1) by (simp add: field_simps)
  with r have over: "0.05 * ?b < py_round 4 v - ss_max x" by linarith
  with b have "0.05 < (py_round 4 v - ss_max x) / ?b" by (simp add: pos_less_divide_eq)
  moreover have "py_round 4 v > ss_max x" using over b by (auto simp: field_simps)
  moreover have "th_min th < th_max th" using b assms(3,4) by simp
  ultimately show ?thesis using static_score [of th rd bl "0.05" dz] assms(3-5) by simp
qed

lemma mapped_far_out:
  assumes "0 \<le> ss_max s - ss_min s" "5.6 \<le> q"
  shows "ss_max s + 0.06 * (ss_max s - ss_min s) \<le>
    clamp_value s ((ss_min s + ss_max s) / 2 + q * (ss_max s - ss_min s) * 0.1)"
proof -
  let ?b = "ss_max s - ss_min s"
  have "5.6 * ?b \<le> q * ?b" using assms by (intro mult_right_mono) simp_all
  then have "ss_max s + 0.06 * ?b \<le> (ss_min s + ss_max s) / 2 + q * ?b * 0.1" by (simp add: field_simps)
  moreover have "ss_max s + 0.06 * ?b \<le> ss_max s + inner_of s * 1.5" using assms(1) by (simp add: inner_of_def)
  ultimately show ?thesis unfolding clamp_value_def by (intro max.coboundedI2 min.boundedI)
qed

text \<open>
  Only the flow shows the fault.  An entry of the replay whose temperature column lies within five
  standard deviations of the fault-free mean and whose draw is within nine is read by the Detection
  Agent; outside the flow channel it is never a static anomaly, in the fault as little as without it;
  in the flow channel it is none while the valve lies within five standard deviations, and it is one,
  at the usual threshold of 5 percent, from 5.6 on.
\<close>

theorem only_the_flow_shows_the_fault:
  assumes "f \<in> set (tep_emit flt (row, active) now (load_sensors d) zs)"
    "\<forall>q. sigmas flt temp_source temp_map row = Some q \<longrightarrow> \<bar>q\<bar> \<le> 5" "\<forall>k. \<bar>zs k\<bar> \<le> 9"
    "\<forall>r\<in>set (db_sensors d). sn_max r - sn_min r \<ge> 1 / 100"
    "distinct (map (\<lambda>r. uuid_str (sn_id r)) (db_sensors d))" "det_db st = d"
  shows "\<exists>y m. decode f = Some y \<and> dt_registry (load_sensor_registry st) (dd_sensor_id y) = Some m \<and>
    (\<forall>bl dz. let sc = score_reading (reading_of env y m) (thresholds_of m) bl 0.05 dz in
       if mt_sensor_type m \<noteq> ''flow_rate'' then \<not> sd_static sc
       else \<exists>q. sigmas flt flow_source flow_map row = Some q \<and> (\<bar>q\<bar> \<le> 5 \<longrightarrow> \<not> sd_static sc) \<and> (5.6 \<le> q \<longrightarrow> sd_static sc))"
proof -
  obtain es where es: "emit_from (\<lambda>s z. value_for flt row active s z) now (load_sensors d) zs = Inr es" "f \<in> set es"
    using assms(1)
    by (cases "emit_from (\<lambda>s z. value_for flt row active s z) now (load_sensors d) zs") (auto simp: tep_emit_def)
  obtain x k v where x: "x \<in> set (load_sensors d)" "value_for flt row active x (zs k) = Inr v" "f = entry_of now x v"
    using emit_from_entries [OF es] by blast
  have b: "ss_max x - ss_min x \<ge> 1 / 100"
    using sim_sensor_row [OF x(1)] assms(4) by (auto simp: sim_sensor_of_def)
  then have le: "ss_min x \<le> ss_max x" "1 / 1000 \<le> ss_max x - ss_min x" "0 \<le> ss_max x - ss_min x" by simp_all
  obtain y m where y: "decode f = Some y" "dt_registry (load_sensor_registry st) (dd_sensor_id y) = Some m"
    "rg_value (reading_of env y m) = py_round 4 v" "mt_sensor_type m = ss_type x"
    "thresholds_of m = \<lparr>th_min = ss_min x, th_max = ss_max x\<rparr>"
    using entry_is_read [OF x(1) assms(6,5)] x(3) by blast
  let ?sc = "\<lambda>bl dz. score_reading (reading_of env y m) (thresholds_of m) bl 0.05 dz"
  have quiet: "\<not> sd_static (?sc bl dz)" if "ss_min x \<le> v" "v \<le> ss_max x" for bl dz
    by (rule small_overshoot_is_tolerated [of _ v]) (use le that y in simp_all)
  have mapped: "\<not> sd_static (?sc bl dz)"
    if "v = clamp_value x ((ss_min x + ss_max x) / 2 + q * (ss_max x - ss_min x) * 0.1)" "\<bar>q\<bar> \<le> 5" for q bl dz
    using mapped_in_band [OF le(1) that(2)] clamp_inside [of x] that(1) by (intro quiet) simp_all
  from x(2) have "\<forall>bl dz. if mt_sensor_type m \<noteq> ''flow_rate'' then \<not> sd_static (?sc bl dz)
      else \<exists>q. sigmas flt flow_source flow_map row = Some q \<and> (\<bar>q\<bar> \<le> 5 \<longrightarrow> \<not> sd_static (?sc bl dz)) \<and> (5.6 \<le> q \<longrightarrow> sd_static (?sc bl dz))"
  proof (cases rule: value_for_cases)
    case (temp q)
    then show ?thesis using assms(2) mapped [OF temp(3)] by (simp add: y(4))
  next
    case (flow q)
    have "sd_static (?sc bl dz)" if "5.6 \<le> q" for bl dz
      using mapped_far_out [OF le(3) that] flow(3) b y(3,5) by (intro py_round_keeps_static [of x v]) simp_all
    then show ?thesis using flow mapped [OF flow(3)] y(4) by simp
  next
    case (overlay spec)
    have "\<bar>zs k\<bar> \<le> 9" using assms(3) by blast
    from overlay_in_band [OF le(1) overlay(2) this, of active] clamp_inside [of x] overlay(3)
    have "ss_min x \<le> v" "v \<le> ss_max x" by simp_all
    with quiet overlay(1) y(4) show ?thesis by simp
  qed
  with y(1,2) show ?thesis unfolding Let_def by blast
qed

definition reading_float :: "string \<Rightarrow> real option" where
  "reading_float s = (if s = ''44.80'' then Some 44.8 else if s = ''120.40'' then Some 120.4 else None)"

definition flow_db :: db where
  "flow_db = sample_db\<lparr>db_sensors := [\<lparr>sn_id = 5, sn_equipment = 3, sn_type = ''flow_rate'', sn_unit = ''m3/h'',
      sn_min = 118, sn_max = 132\<rparr>]\<rparr>"

theorem only_the_flow_shows_the_fault_witness:
  "\<exists>f y m. f \<in> set (tep_emit reading_float (excerpt_row (''120.40'', ''44.80''), True) 0 (load_sensors flow_db) (\<lambda>k. 0)) \<and>
     decode f = Some y \<and>
     (\<forall>bl dz. sd_static (score_reading (reading_of quiet_env y m) (thresholds_of m) bl 0.05 dz))"
proof -
  let ?st = "quiet_detector\<lparr>dt_world := \<lparr>w_db = flow_db, w_bus = []\<rparr>\<rparr>" and ?row = "excerpt_row (''120.40'', ''44.80'')"
  have cols: "map_of ?row temp_source = Some ''120.40''" "map_of ?row flow_source = Some ''44.80''"
    by (simp_all add: excerpt_row_def temp_source_def flow_source_def)
  have sig: "sigmas reading_float temp_source temp_map ?row = Some 0"
    "sigmas reading_float flow_source flow_map ?row = Some (3.68 / 0.539)"
    by (simp_all add: sigmas_def cols reading_float_def temp_map_def flow_map_def)
  have db: "det_db ?st = flow_db" by (simp add: det_db_def)
  let ?x = "\<lparr>ss_id = uuid_str 5, ss_equipment = uuid_str 3, ss_type = ''flow_rate'', ss_unit = ''m3/h'', ss_min = 118, ss_max = 132\<rparr>"
  have ss: "load_sensors flow_db = [?x]"
    by (simp add: load_sensors_def flow_db_def sample_db_def sim_sensor_of_def)
  obtain v where "value_for reading_float ?row True ?x 0 = Inr v"
    by (simp add: value_for_def column_def cols reading_float_def)
  then have f: "entry_of 0 ?x v \<in> set (tep_emit reading_float (?row, True) 0 (load_sensors flow_db) (\<lambda>k. 0))"
    unfolding tep_emit_def ss by simp
  have rows: "\<forall>r\<in>set (db_sensors flow_db). sn_max r - sn_min r \<ge> 1 / 100"
    "distinct (map (\<lambda>r. uuid_str (sn_id r)) (db_sensors flow_db))" by (simp_all add: flow_db_def)
  obtain y m where y: "decode (entry_of 0 ?x v) = Some y" "dt_registry (load_sensor_registry ?st) (dd_sensor_id y) = Some m"
    and sc: "\<forall>bl dz. let sc = score_reading (reading_of quiet_env y m) (thresholds_of m) bl 0.05 dz in
       if mt_sensor_type m \<noteq> ''flow_rate'' then \<not> sd_static sc
       else \<exists>q. sigmas reading_float flow_source flow_map ?row = Some q \<and> (\<bar>q\<bar> \<le> 5 \<longrightarrow> \<not> sd_static sc) \<and> (5.6 \<le> q \<longrightarrow> sd_static sc)"
    using only_the_flow_shows_the_fault [OF f _ _ rows db, of quiet_env] sig(1) by auto
  have type: "mt_sensor_type m = ''flow_rate''"
    using y by (auto simp: decode_def entry_of_def load_sensor_registry_def flow_db_def meta_of_def)
  have big: "(5.6 :: real) \<le> 3.68 / 0.539" by simp
  have "\<forall>bl dz. sd_static (score_reading (reading_of quiet_env y m) (thresholds_of m) bl 0.05 dz)"
  proof (intro allI)
    fix bl dz
    let ?sc = "score_reading (reading_of quiet_env y m) (thresholds_of m) bl 0.05 dz"
    have "\<not> mt_sensor_type m \<noteq> ''flow_rate''" using type by simp
    from sc [THEN spec, THEN spec, of bl dz, unfolded Let_def sig(2) if_not_P [OF this]]
    obtain q :: real where q: "Some (3.68 / 0.539) = Some q" "5.6 \<le> q \<longrightarrow> sd_static ?sc"
      by (elim exE conjE)
    from q(1) have "q = 3.68 / 0.539" by (simp only: option.inject)
    with q(2) big show "sd_static ?sc" by blast
  qed
  with f y(1) show ?thesis by blast
qed

text \<open>
  Every replayed value is inside the physical limits: at most 30 percent of the band below it and
  45 percent above it, whatever the data says.
\<close>

theorem replayed_values_are_bounded:
  assumes "value_for flt row active s z = Inr v" "ss_min s \<le> ss_max s"
  shows "ss_min s - 0.3 * (ss_max s - ss_min s) \<le> v \<and> v \<le> ss_max s + 0.45 * (ss_max s - ss_min s)"
proof -
  obtain x where "v = clamp_value s x" using assms(1) by (auto simp: value_for_def bindR_Inr_iff)
  with clamp_bounds [OF assms(2), of x] show ?thesis by (simp add: inner_of_def field_simps)
qed

theorem replayed_values_are_bounded_witness:
  "\<exists>v. value_for (\<lambda>_. Some 1000000) [(''xmv_10'', ''1e6'')] True
     \<lparr>ss_id = [], ss_equipment = [], ss_type = ''flow_rate'', ss_unit = ''m3/h'', ss_min = 118, ss_max = 132\<rparr> 0 = Inr v \<and>
     v \<le> 138.3"
proof -
  let ?x = "\<lparr>ss_id = [], ss_equipment = [], ss_type = ''flow_rate'', ss_unit = ''m3/h'', ss_min = 118, ss_max = 132\<rparr> :: sim_sensor"
  obtain v where v: "value_for (\<lambda>_. Some 1000000) [(''xmv_10'', ''1e6'')] True ?x 0 = Inr v"
    by (simp add: value_for_def column_def flow_source_def)
  from replayed_values_are_bounded [OF v] have "v \<le> 132 + 0.45 * (132 - 118)" by simp
  then show ?thesis using v by auto
qed



text \<open>
  The preview has no row in the fault of the embedded excerpt: without the downloaded data and
  without a row of its own it raises for every known channel, and for an unknown one as well.
\<close>

theorem preview_fails_on_the_excerpt:
  "value_preview flt ty None (trigger_fault flt now (load_data None None (new_engine ss))) z =
     Inl (if ty \<in> ss_type ` set ss then OtherError ''IndexError'' else KeyError ty)"
proof -
  have short: "row_at 200 (snd embedded_excerpt) = Inl (OtherError ''IndexError'')"
    by (simp add: row_at_def embedded_excerpt_def)
  show ?thesis
  proof (cases "find (\<lambda>s. ss_type s = ty) ss")
    case None
    then have "ty \<notin> ss_type ` set ss" by (auto simp: find_None_iff)
    with None show ?thesis by (simp add: value_preview_def trigger_fault_def load_data_def new_engine_def)
  next
    case (Some s)
    then have "ty \<in> ss_type ` set ss" by (auto simp: find_Some_iff)
    with Some short show ?thesis by (simp add: value_preview_def trigger_fault_def load_data_def new_engine_def)
  qed
qed

end
