(* ===== verification/Telemetry.thy ===== *)
theory Telemetry
  imports IncidentsApi Llm
begin

text \<open>
  The telemetry endpoints (\<open>app/api/telemetry.py\<close>): the counts over the incidents of the
  caller's site and the figures taken from the metrics registry.  The registry is the Prometheus
  client, which is not part of the repository: what a counter collects is the parameter
  \<open>prom\<close>, its samples with their names, labels and values.
\<close>

section \<open>Counting\<close>

text \<open>\<open>d[k] = d.get(k, 0) + n\<close> on a dictionary in insertion order.\<close>

fun bump :: "string \<Rightarrow> 'n::plus \<Rightarrow> (string \<times> 'n) list \<Rightarrow> (string \<times> 'n) list" where
  "bump k n [] = [(k, n)]"
| "bump k n ((k', m) # kv) = (if k = k' then (k', m + n) # kv else (k', m) # bump k n kv)"

definition total_of :: "(string \<times> 'n::comm_monoid_add) list \<Rightarrow> 'n" where
  "total_of kv = sum_list (map snd kv)"

definition count_by :: "('a \<Rightarrow> string) \<Rightarrow> 'a list \<Rightarrow> (string \<times> nat) list" where
  "count_by key xs = fold (\<lambda>x kv. bump (key x) 1 kv) xs []"

section \<open>The registry\<close>

record prom_sample =
  pm_name :: string
  pm_labels :: "(string \<times> string) list"
  pm_value :: real

record prom =
  pr_calls :: "prom_sample list"
  pr_tokens :: "prom_sample list"
  pr_cost :: "prom_sample list"
  pr_incident_cost :: "prom_sample list"

definition label :: "string \<Rightarrow> prom_sample \<Rightarrow> string option" where
  "label k s = map_of (rev (pm_labels s)) k"

definition agent_of :: "prom_sample \<Rightarrow> string" where
  "agent_of s = (case label ''agent'' s of None \<Rightarrow> ''unknown'' | Some a \<Rightarrow> a)"

text \<open>The samples with a name, summed by agent; the integers are cut.\<close>

definition named_samples :: "string \<Rightarrow> prom_sample list \<Rightarrow> prom_sample list" where
  "named_samples n ss = filter (\<lambda>s. pm_name s = n) ss"

definition by_agent :: "(prom_sample \<Rightarrow> 'n::plus) \<Rightarrow> prom_sample list \<Rightarrow> (string \<times> 'n) list" where
  "by_agent f ss = fold (\<lambda>s kv. bump (agent_of s) (f s) kv) ss []"

definition int_value :: "prom_sample \<Rightarrow> int" where
  "int_value s = py_trunc (pm_value s)"

definition calls_name :: string where
  "calls_name = ''pgai_llm_calls_total''"

definition tokens_name :: string where
  "tokens_name = ''pgai_llm_tokens_total_total''"

definition cost_name :: string where
  "cost_name = ''pgai_llm_cost_usd_total_total''"

definition incident_cost_name :: string where
  "incident_cost_name = ''pgai_incident_cost_usd_total_total''"

section \<open>The summary\<close>

record rc_figures =
  rf_success_rate :: "real option"
  rf_accepted :: nat
  rf_review :: nat
  rf_confidence_avg :: "real option"
  rf_distribution :: "(string \<times> nat) list"

record llm_figures =
  lf_calls :: "(string \<times> int) list"
  lf_tokens :: "(string \<times> int) list"
  lf_cost :: "(string \<times> real) list"
  lf_total_tokens :: int
  lf_total_cost :: real
  lf_per_incident :: real

record summary_answer =
  sa_window :: int
  sa_site :: string
  sa_total :: nat
  sa_by_status :: "(string \<times> nat) list"
  sa_root_cause :: rc_figures
  sa_decisions :: "(string \<times> nat) list"
  sa_llm :: llm_figures
  sa_generated_at :: time

definition hour :: time where
  "hour = 3600 * 1000000"

definition in_window :: "uuid \<Rightarrow> int \<Rightarrow> time \<Rightarrow> db \<Rightarrow> incident list" where
  "in_window site window now d =
     filter (\<lambda>r. inc_site r = site \<and> inc_detected_at r \<ge> now - window * hour) (db_incidents d)"

text \<open>What the Root-Cause Agent did with an incident: accepted or handed over to people.\<close>

definition rc_outcome :: "incident \<Rightarrow> bool option" where
  "rc_outcome r =
     (case (inc_root_cause r, inc_confidence r) of
        (Some _, Some c) \<Rightarrow> Some (c \<noteq> 0)
      | _ \<Rightarrow> None)"

definition decided_level :: "incident \<Rightarrow> int" where
  "decided_level r = or_int (inc_hitl_level r) (or_int (inc_required_level r) 0)"

definition decision_key :: "incident \<Rightarrow> string option" where
  "decision_key r =
     (if inc_status r = Approved then Some (''approved_level_'' @ int_str (decided_level r))
      else if inc_status r = Rejected then Some (''rejected_level_'' @ int_str (decided_level r)) else None)"

definition decision_counts :: "incident list \<Rightarrow> (string \<times> nat) list" where
  "decision_counts rs = count_by id (List.map_filter decision_key rs)"

definition buckets :: "(string \<times> int \<times> int) list" where
  "buckets = [(''0-20'', 0, 20), (''21-40'', 21, 40), (''41-60'', 41, 60), (''61-80'', 61, 80), (''81-100'', 81, 100)]"

definition distribution :: "int list \<Rightarrow> (string \<times> nat) list" where
  "distribution cs =
     (if cs = [] then []
      else map (\<lambda>(n, lo, hi). (n, length (filter (\<lambda>c. lo \<le> c \<and> c \<le> hi) cs))) buckets)"

definition confidences :: "incident list \<Rightarrow> int list" where
  "confidences rs = List.map_filter inc_confidence rs"

definition rc_figures_of :: "incident list \<Rightarrow> rc_figures" where
  "rc_figures_of rs =
     (let outcomes = List.map_filter rc_outcome rs; accepted = length (filter id outcomes);
          review = length (filter Not outcomes); cs = confidences rs
      in \<lparr>rf_success_rate = (if accepted + review > 0 then Some (py_round 4 (real accepted / real (accepted + review))) else None),
          rf_accepted = accepted, rf_review = review,
          rf_confidence_avg = (if cs = [] then None
             else Some (py_round 1 (of_int (sum_list cs) / real (length cs)))),
          rf_distribution = distribution cs\<rparr>)"

definition llm_figures_of :: "prom \<Rightarrow> nat \<Rightarrow> llm_figures" where
  "llm_figures_of p n =
     (let calls = by_agent int_value (named_samples calls_name (pr_calls p));
          tokens = by_agent int_value (named_samples tokens_name (pr_tokens p));
          costs = by_agent pm_value (named_samples cost_name (pr_cost p));
          cost = total_of costs
      in \<lparr>lf_calls = calls, lf_tokens = tokens, lf_cost = costs, lf_total_tokens = total_of tokens,
          lf_total_cost = py_round 6 cost,
          lf_per_incident = (if n > 0 then py_round 6 (cost / real n) else 0)\<rparr>)"

definition telemetry_summary ::
  "prom \<Rightarrow> int \<Rightarrow> time \<Rightarrow> principal \<Rightarrow> db \<Rightarrow> summary_answer result" where
  "telemetry_summary p window now who d =
     (if \<not> (1 \<le> window \<and> window \<le> 168) then Inl (HttpError 422 ''Unprocessable Entity'')
      else (case parse_uuid (site_id who) of
        None \<Rightarrow> Inl bad_uuid
      | Some site \<Rightarrow>
          (let rs = in_window site window now d in
           Inr \<lparr>sa_window = window, sa_site = site_id who, sa_total = length rs,
                sa_by_status = count_by (\<lambda>r. status_str (inc_status r)) rs,
                sa_root_cause = rc_figures_of rs, sa_decisions = decision_counts rs,
                sa_llm = llm_figures_of p (length rs), sa_generated_at = now\<rparr>)))"

section \<open>The cost of one incident\<close>

record cost_answer =
  ca_incident_id :: string
  ca_status :: status
  ca_confidence :: "int option"
  ca_has_root_cause :: bool
  ca_cost :: real
  ca_tokens :: int
  ca_calls :: int

definition of_incident :: "string \<Rightarrow> string \<Rightarrow> prom_sample list \<Rightarrow> prom_sample list" where
  "of_incident n i ss = filter (\<lambda>s. label ''incident_id'' s = Some i) (named_samples n ss)"

definition incident_cost :: "prom \<Rightarrow> string \<Rightarrow> principal \<Rightarrow> db \<Rightarrow> cost_answer result" where
  "incident_cost p i who d =
     (case parse_uuid i of
        None \<Rightarrow> Inl not_found
      | Some u \<Rightarrow>
          (case find_incident u d of
             None \<Rightarrow> Inl not_found
           | Some r \<Rightarrow>
               bindR (ensure_site who (Some (uuid_str (inc_site r)))) (\<lambda>_.
                 Inr \<lparr>ca_incident_id = i, ca_status = inc_status r, ca_confidence = inc_confidence r,
                      ca_has_root_cause = (inc_root_cause r \<noteq> None),
                      ca_cost = py_round 8 (sum_list (map pm_value (of_incident incident_cost_name i (pr_incident_cost p)))),
                      ca_tokens = sum_list (map int_value (of_incident tokens_name i (pr_tokens p))),
                      ca_calls = sum_list (map int_value (of_incident calls_name i (pr_calls p)))\<rparr>)))"

section \<open>Facts\<close>

lemma total_bump: "total_of (bump k n kv) = n + total_of (kv :: (string \<times> 'n::comm_monoid_add) list)"
  by (induction k n kv rule: bump.induct) (simp_all add: total_of_def ac_simps)

lemma total_count: "total_of (count_by key xs) = length xs"
proof -
  have "total_of (fold (\<lambda>x kv. bump (key x) 1 kv) xs kv) = length xs + total_of kv" for kv :: "(string \<times> nat) list"
    by (induction xs arbitrary: kv) (simp_all add: total_bump)
  then show ?thesis by (simp add: count_by_def total_of_def)
qed

lemma outcomes_split: "length (filter id bs) + length (filter Not bs) = length bs"
  using sum_length_filter_compl [of id bs] by simp

lemma length_map_filter: "length (List.map_filter f xs) \<le> length xs"
  by (induction xs) (auto simp: List.map_filter_simps split: option.split)

text \<open>The buckets cover the confidences from 0 to 100 without overlap.\<close>

lemma buckets_cover:
  assumes "\<forall>c\<in>set cs. 0 \<le> c \<and> c \<le> 100"
  shows "total_of (distribution cs) = length cs"
  using assms
proof (induction cs)
  case (Cons c cs)
  have "(0 \<le> c \<and> c \<le> 20) \<or> (21 \<le> c \<and> c \<le> 40) \<or> (41 \<le> c \<and> c \<le> 60) \<or>
      (61 \<le> c \<and> c \<le> 80) \<or> (81 \<le> c \<and> c \<le> 100)"
    using Cons.prems by auto
  then have "total_of (distribution (c # cs)) = Suc (total_of (distribution cs))"
    by (elim disjE) (auto simp: distribution_def total_of_def buckets_def)
  with Cons show ?case by simp
qed (simp add: distribution_def total_of_def)

section \<open>Properties\<close>

text \<open>
  The figures of the summary add up.  The counts by status sum to the number of incidents, the
  outcomes of the Root-Cause Agent to at most it, and, where the stored confidences lie between 0
  and 100, the buckets to the number of confidences; the success rate lies between 0 and 1.
\<close>

theorem summary_adds_up:
  assumes "telemetry_summary p window now who d = Inr a"
    "\<forall>r\<in>set (db_incidents d). \<forall>c. inc_confidence r = Some c \<longrightarrow> 0 \<le> c \<and> c \<le> 100"
  shows "total_of (sa_by_status a) = sa_total a \<and>
    rf_accepted (sa_root_cause a) + rf_review (sa_root_cause a) \<le> sa_total a \<and>
    total_of (sa_decisions a) \<le> sa_total a \<and>
    (\<exists>site. parse_uuid (site_id who) = Some site \<and>
       total_of (rf_distribution (sa_root_cause a)) = length (confidences (in_window site window now d))) \<and>
    (\<forall>x. rf_success_rate (sa_root_cause a) = Some x \<longrightarrow> 0 \<le> x \<and> x \<le> 1)"
proof -
  obtain site where site: "parse_uuid (site_id who) = Some site" and a: "a =
      (let rs = in_window site window now d in
       \<lparr>sa_window = window, sa_site = site_id who, sa_total = length rs,
        sa_by_status = count_by (\<lambda>r. status_str (inc_status r)) rs,
        sa_root_cause = rc_figures_of rs, sa_decisions = decision_counts rs,
        sa_llm = llm_figures_of p (length rs), sa_generated_at = now\<rparr>)"
    using assms(1) by (auto simp: telemetry_summary_def Let_def split: if_splits option.splits)
  let ?rs = "in_window site window now d"
  have range: "\<forall>c\<in>set (confidences ?rs). 0 \<le> c \<and> c \<le> 100"
    using assms(2) by (force simp: confidences_def List.map_filter_def in_window_def)
  have rate: "0 \<le> py_round 4 (real m / real (m + n)) \<and> py_round 4 (real m / real (m + n)) \<le> 1" for m n
  proof -
    have one: "py_round 4 1 = 1" using half_even_int [of 10000] by (simp add: py_round_def)
    have "0 \<le> real m / real (m + n)" "real m / real (m + n) \<le> 1" by (auto simp: divide_le_eq_1)
    with py_round_mono [of "real m / real (m + n)" 1 4] one show ?thesis by (simp add: py_round_nonneg)
  qed
  have "rf_accepted (rc_figures_of ?rs) + rf_review (rc_figures_of ?rs) \<le> length ?rs"
    using outcomes_split [of "List.map_filter rc_outcome ?rs"] length_map_filter [of rc_outcome ?rs]
    by (simp add: rc_figures_of_def Let_def)
  moreover have "total_of (decision_counts ?rs) \<le> length ?rs"
    using length_map_filter [of decision_key ?rs] by (simp add: decision_counts_def total_count)
  ultimately show ?thesis
    using site buckets_cover [OF range] rate
    by (auto simp: a Let_def total_count rc_figures_of_def split: if_splits)
qed

theorem summary_adds_up_witness:
  "\<exists>a. telemetry_summary \<lparr>pr_calls = [], pr_tokens = [], pr_cost = [], pr_incident_cost = []\<rparr> 24 0 sample_principal
      (w_db awaiting_world) = Inr a \<and> sa_total a = 1 \<and> total_of (sa_by_status a) = 1"
proof -
  let ?p = "\<lparr>pr_calls = [], pr_tokens = [], pr_cost = [], pr_incident_cost = []\<rparr>"
  obtain a where a: "telemetry_summary ?p 24 0 sample_principal (w_db awaiting_world) = Inr a" "sa_total a = 1"
    by (simp add: telemetry_summary_def Let_def in_window_def hour_def awaiting_world_def awaiting_row_def
        sample_incident_def sample_db_def)
  from summary_adds_up [OF a(1)] have "total_of (sa_by_status a) = sa_total a"
    by (simp add: awaiting_world_def awaiting_row_def sample_incident_def sample_db_def)
  with a show ?thesis by auto
qed

text \<open>
  The token and cost figures are always zero.  A counter of the Prometheus client exposes its value
  under its name with one \<open>_total\<close> at the end (and its creation time under \<open>_created\<close>);
  the endpoints look for names that end in \<open>_total_total\<close>.  So whatever was counted, the
  summary has no tokens and no cost, and the cost endpoint reports none for any incident.
\<close>

theorem token_and_cost_figures_are_zero:
  assumes "\<forall>s\<in>set (pr_tokens p). pm_name s \<in> {''pgai_llm_tokens_total'', ''pgai_llm_tokens_created''}"
    "\<forall>s\<in>set (pr_cost p). pm_name s \<in> {''pgai_llm_cost_usd_total'', ''pgai_llm_cost_usd_created''}"
    "\<forall>s\<in>set (pr_incident_cost p). pm_name s \<in> {''pgai_incident_cost_usd_total'', ''pgai_incident_cost_usd_created''}"
  shows "(telemetry_summary p window now who d = Inr a \<longrightarrow>
       lf_tokens (sa_llm a) = [] \<and> lf_cost (sa_llm a) = [] \<and> lf_total_tokens (sa_llm a) = 0 \<and>
       lf_total_cost (sa_llm a) = 0 \<and> lf_per_incident (sa_llm a) = 0) \<and>
    (incident_cost p i who d = Inr c \<longrightarrow> ca_cost c = 0 \<and> ca_tokens c = 0)"
proof -
  have none: "named_samples tokens_name (pr_tokens p) = []" "named_samples cost_name (pr_cost p) = []"
    "named_samples incident_cost_name (pr_incident_cost p) = []"
    using assms by (auto simp: named_samples_def filter_empty_conv tokens_name_def cost_name_def incident_cost_name_def)
  have zero: "py_round n 0 = 0" for n using half_even_int [of 0] by (simp add: py_round_def)
  show ?thesis
    by (auto simp: telemetry_summary_def incident_cost_def llm_figures_of_def by_agent_def of_incident_def none zero
        total_of_def Let_def bindR_Inr_iff split: if_splits option.splits)
qed

theorem token_and_cost_figures_are_zero_witness:
  "\<exists>a. telemetry_summary \<lparr>pr_calls = [], pr_tokens = [\<lparr>pm_name = ''pgai_llm_tokens_total'',
        pm_labels = [(''agent'', ''root_cause'')], pm_value = 500\<rparr>], pr_cost = [], pr_incident_cost = []\<rparr> 24 0
      sample_principal (w_db awaiting_world) = Inr a \<and> lf_total_tokens (sa_llm a) = 0"
proof -
  let ?p = "\<lparr>pr_calls = [], pr_tokens = [\<lparr>pm_name = ''pgai_llm_tokens_total'',
        pm_labels = [(''agent'', ''root_cause'')], pm_value = 500\<rparr>], pr_cost = [], pr_incident_cost = []\<rparr>"
  obtain a where a: "telemetry_summary ?p 24 0 sample_principal (w_db awaiting_world) = Inr a"
    by (simp add: telemetry_summary_def Let_def)
  with token_and_cost_figures_are_zero [of ?p 24 0 sample_principal "w_db awaiting_world" a] show ?thesis by auto
qed

text \<open>
  The summary counts only what still waits for its execution as an approval, and its figures on the
  model are the same for every site: a decision disappears from the counts when the incident is
  executed, and the calls by agent do not depend on the caller.
\<close>

theorem decisions_fade_and_llm_figures_are_shared:
  assumes "telemetry_summary p window now who d = Inr a"
  shows "((\<forall>r\<in>set (db_incidents d). inc_status r \<notin> {Approved, Rejected}) \<longrightarrow> sa_decisions a = []) \<and>
    (telemetry_summary p window' now' who' d' = Inr a' \<longrightarrow>
       lf_calls (sa_llm a') = lf_calls (sa_llm a) \<and> lf_total_cost (sa_llm a') = lf_total_cost (sa_llm a))"
proof -
  have "List.map_filter decision_key rs = []" if "\<forall>r\<in>set rs. inc_status r \<notin> {Approved, Rejected}" for rs
    using that by (induction rs) (auto simp: List.map_filter_simps decision_key_def)
  then show ?thesis
    using assms
    by (auto simp: telemetry_summary_def llm_figures_of_def decision_counts_def count_by_def in_window_def Let_def
        split: if_splits option.splits)
qed

theorem decisions_fade_and_llm_figures_are_shared_witness:
  "\<exists>a. telemetry_summary \<lparr>pr_calls = [], pr_tokens = [], pr_cost = [], pr_incident_cost = []\<rparr> 24 0 sample_principal
      (w_db awaiting_world) = Inr a \<and> sa_decisions a = []"
proof -
  let ?p = "\<lparr>pr_calls = [], pr_tokens = [], pr_cost = [], pr_incident_cost = []\<rparr>"
  obtain a where a: "telemetry_summary ?p 24 0 sample_principal (w_db awaiting_world) = Inr a"
    by (simp add: telemetry_summary_def Let_def)
  have "\<forall>r\<in>set (db_incidents (w_db awaiting_world)). inc_status r \<notin> {Approved, Rejected}"
    by (simp add: awaiting_world_def)
  with decisions_fade_and_llm_figures_are_shared [OF a] a show ?thesis by blast
qed

end
