(* ===== verification/Config.thy ===== *)
theory Config
  imports CmmsClient LlmClient
begin

text \<open>
  The configuration of the agent service (\<open>app/core/config.py\<close>).  The environment is a
  partial function from names to texts.  \<open>int\<close> of a text is written out; \<open>float\<close> of a text
  is the parameter \<open>flt\<close>, \<open>None\<close> where it raises.
\<close>

section \<open>Reading one variable\<close>

type_synonym environ = "string \<Rightarrow> string option"

definition quoted :: "string \<Rightarrow> string" where
  "quoted s = [CHR 0x27] @ s @ [CHR 0x27]"

definition missing_variable :: "string \<Rightarrow> exc" where
  "missing_variable name = OtherError (''Missing required environment variable '' @ quoted name @
     ''. Copy .env.example to .env at the repo root and try again. '' @
     ''(In staging/prod these values come from Azure Key Vault via managed identity.)'')"

definition required_var :: "environ \<Rightarrow> string \<Rightarrow> string result" where
  "required_var e name =
     (case e name of
        None \<Rightarrow> Inl (missing_variable name)
      | Some v \<Rightarrow> if v = [] then Inl (missing_variable name) else Inr v)"

definition optional_var :: "environ \<Rightarrow> string \<Rightarrow> string \<Rightarrow> string" where
  "optional_var e name dflt = (case e name of None \<Rightarrow> dflt | Some v \<Rightarrow> if v = [] then dflt else v)"

text \<open>
  \<open>int(s)\<close> in base ten: surrounding space, a sign, digits with single underscores between them.
  \<open>ok\<close> says whether the text may end or an underscore may follow.
\<close>

fun int10_digits :: "nat \<Rightarrow> bool \<Rightarrow> string \<Rightarrow> nat option" where
  "int10_digits acc ok [] = (if ok then Some acc else None)"
| "int10_digits acc ok (c # s) =
     (if c = CHR ''_'' then (if ok then int10_digits acc False s else None)
      else if is_digit c then int10_digits (10 * acc + digit_val c) True s else None)"

definition py_int :: "string \<Rightarrow> int option" where
  "py_int s =
     (case py_strip s of
        [] \<Rightarrow> None
      | c # r \<Rightarrow>
          if c = CHR ''-'' then map_option (\<lambda>n. - int n) (int10_digits 0 False r)
          else if c = CHR ''+'' then map_option int (int10_digits 0 False r)
          else map_option int (int10_digits 0 False (c # r)))"

definition int_var :: "environ \<Rightarrow> string \<Rightarrow> string \<Rightarrow> int result" where
  "int_var e name dflt =
     (case py_int (optional_var e name dflt) of
        None \<Rightarrow> Inl (ValueError ''invalid literal for int() with base 10'')
      | Some n \<Rightarrow> Inr n)"

definition float_var :: "(string \<Rightarrow> real option) \<Rightarrow> environ \<Rightarrow> string \<Rightarrow> string \<Rightarrow> real result" where
  "float_var flt e name dflt =
     (case flt (optional_var e name dflt) of
        None \<Rightarrow> Inl (ValueError ''could not convert string to float'')
      | Some x \<Rightarrow> Inr x)"

definition flag_var :: "environ \<Rightarrow> string \<Rightarrow> bool" where
  "flag_var e name = (py_lower (optional_var e name ''false'') = ''true'')"

section \<open>The settings\<close>

record settings =
  cf_service_name :: string
  cf_log_level :: string
  cf_correlation_header :: string
  cf_db_host :: string
  cf_db_port :: int
  cf_db_name :: string
  cf_db_user :: string
  cf_db_password :: string
  cf_redis_host :: string
  cf_redis_port :: int
  cf_redis_password :: string
  cf_static_z :: real
  cf_drift_z :: real
  cf_min_samples :: int
  cf_correlation_window :: real
  cf_max_gap :: real
  cf_window_size :: int
  cf_db_retry_attempts :: int
  cf_interval_min :: real
  cf_interval_max :: real
  cf_ramp :: real
  cf_stream :: string
  cf_stream_maxlen :: int
  cf_control_poll :: real
  cf_embedded :: bool
  cf_data_source :: string
  cf_tep_tick :: real
  cf_tep_skip :: real
  cf_tep_data_dir :: string
  cf_llm_api_key :: string
  cf_llm_model :: string
  cf_llm_base_url :: string
  cf_llm_timeout :: real
  cf_llm_fake_mode :: bool
  cf_cmms_base_url :: string
  cf_cmms_api_key :: string
  cf_cmms_timeout :: real
  cf_cmms_retry_attempts :: int
  cf_cmms_retry_backoff :: real
  cf_oidc_issuer :: string
  cf_oidc_internal_issuer :: string
  cf_oidc_audience :: string
  cf_oidc_jwks_url :: string
  cf_rbac_policy_file :: string

definition data_source_check :: "string \<Rightarrow> unit result" where
  "data_source_check source =
     (if source \<in> {''synthetic'', ''tep_replay''} then Inr ()
      else Inl (RuntimeError (''SENSOR_DATA_SOURCE must be '' @ quoted ''synthetic'' @ '' or '' @ quoted ''tep_replay'' @
        '', got '' @ py_repr source)))"

text \<open>\<open>Settings()\<close>: the variables in the order of the constructor; the first that is missing or does not parse raises.\<close>

definition load_settings :: "(string \<Rightarrow> real option) \<Rightarrow> environ \<Rightarrow> settings result" where
  "load_settings flt e =
     bindR (required_var e ''PGAI_DATABASE__HOST'') (\<lambda>db_host.
     bindR (int_var e ''PGAI_DATABASE__PORT'' ''5432'') (\<lambda>db_port.
     bindR (required_var e ''PGAI_DATABASE__NAME'') (\<lambda>db_name.
     bindR (required_var e ''PGAI_DATABASE__USER'') (\<lambda>db_user.
     bindR (required_var e ''PGAI_DATABASE__PASSWORD'') (\<lambda>db_password.
     bindR (required_var e ''PGAI_REDIS__HOST'') (\<lambda>redis_host.
     bindR (int_var e ''PGAI_REDIS__PORT'' ''6379'') (\<lambda>redis_port.
     bindR (float_var flt e ''PGAI_DETECTION__STATIC_Z'' ''0.05'') (\<lambda>static_z.
     bindR (float_var flt e ''PGAI_DETECTION__DRIFT_Z'' ''3.0'') (\<lambda>drift_z.
     bindR (int_var e ''PGAI_DETECTION__MIN_SAMPLES'' ''4'') (\<lambda>min_samples.
     bindR (float_var flt e ''PGAI_DETECTION__CORRELATION_WINDOW_SECONDS'' ''30'') (\<lambda>correlation_window.
     bindR (float_var flt e ''PGAI_DETECTION__MAX_GAP_SECONDS'' ''90'') (\<lambda>max_gap.
     bindR (int_var e ''PGAI_DETECTION__WINDOW_SIZE'' ''40'') (\<lambda>window_size.
     bindR (int_var e ''PGAI_DETECTION__DB_RETRY_ATTEMPTS'' ''3'') (\<lambda>db_retry_attempts.
     bindR (float_var flt e ''PGAI_SIMULATOR__INTERVAL_MIN_SECONDS'' ''2'') (\<lambda>interval_min.
     bindR (float_var flt e ''PGAI_SIMULATOR__INTERVAL_MAX_SECONDS'' ''5'') (\<lambda>interval_max.
     bindR (float_var flt e ''PGAI_SIMULATOR__RAMP_SECONDS'' ''30'') (\<lambda>ramp.
     bindR (int_var e ''PGAI_SIMULATOR__STREAM_MAXLEN'' ''100000'') (\<lambda>stream_maxlen.
     bindR (float_var flt e ''PGAI_SIMULATOR__CONTROL_POLL_SECONDS'' ''1'') (\<lambda>control_poll.
     bindR (data_source_check (py_lower (optional_var e ''SENSOR_DATA_SOURCE'' ''synthetic''))) (\<lambda>_.
     bindR (float_var flt e ''PGAI_TEP__TICK_SECONDS'' ''3'') (\<lambda>tep_tick.
     bindR (float_var flt e ''PGAI_TEP__SKIP_FRACTION'' ''0.5'') (\<lambda>tep_skip.
     bindR (float_var flt e ''PGAI_LLM__TIMEOUT_SECONDS'' ''30'') (\<lambda>llm_timeout.
     bindR (float_var flt e ''PGAI_CMMS__TIMEOUT_SECONDS'' ''10'') (\<lambda>cmms_timeout.
     bindR (int_var e ''PGAI_CMMS__RETRY_ATTEMPTS'' ''4'') (\<lambda>cmms_retry_attempts.
     bindR (float_var flt e ''PGAI_CMMS__RETRY_BACKOFF_SECONDS'' ''2'') (\<lambda>cmms_retry_backoff.
     Inr \<lparr>cf_service_name = optional_var e ''PGAI_SERVICE_NAME'' ''processguard-agent-service'',
       cf_log_level = py_upper (optional_var e ''PGAI_LOG_LEVEL'' ''INFO''),
       cf_correlation_header = optional_var e ''PGAI_CORRELATION_HEADER'' ''X-Correlation-Id'',
       cf_db_host = db_host,
       cf_db_port = db_port,
       cf_db_name = db_name,
       cf_db_user = db_user,
       cf_db_password = db_password,
       cf_redis_host = redis_host,
       cf_redis_port = redis_port,
       cf_redis_password = optional_var e ''PGAI_REDIS__PASSWORD'' [],
       cf_static_z = static_z,
       cf_drift_z = drift_z,
       cf_min_samples = min_samples,
       cf_correlation_window = correlation_window,
       cf_max_gap = max_gap,
       cf_window_size = window_size,
       cf_db_retry_attempts = db_retry_attempts,
       cf_interval_min = interval_min,
       cf_interval_max = interval_max,
       cf_ramp = ramp,
       cf_stream = optional_var e ''PGAI_SIMULATOR__STREAM'' ''sensor-readings'',
       cf_stream_maxlen = stream_maxlen,
       cf_control_poll = control_poll,
       cf_embedded = flag_var e ''PGAI_SIMULATOR__EMBEDDED'',
       cf_data_source = py_lower (optional_var e ''SENSOR_DATA_SOURCE'' ''synthetic''),
       cf_tep_tick = tep_tick,
       cf_tep_skip = tep_skip,
       cf_tep_data_dir = optional_var e ''PGAI_TEP__DATA_DIR'' ''data/tep'',
       cf_llm_api_key = or_str (e ''GROQ_API_KEY'') [],
       cf_llm_model = optional_var e ''LLM_MODEL'' ''llama-3.3-70b-versatile'',
       cf_llm_base_url = optional_var e ''PGAI_LLM__BASE_URL'' ''https://api.groq.com/openai/v1'',
       cf_llm_timeout = llm_timeout,
       cf_llm_fake_mode = flag_var e ''PGAI_LLM__FAKEMODE'',
       cf_cmms_base_url = optional_var e ''PGAI_CMMS__BASE_URL'' [],
       cf_cmms_api_key = optional_var e ''PGAI_CMMS__API_KEY'' [],
       cf_cmms_timeout = cmms_timeout,
       cf_cmms_retry_attempts = cmms_retry_attempts,
       cf_cmms_retry_backoff = cmms_retry_backoff,
       cf_oidc_issuer = optional_var e ''PGAI_OIDC__ISSUER'' ''http://localhost:8090'',
       cf_oidc_internal_issuer = optional_var e ''PGAI_OIDC__INTERNALISSUER'' (optional_var e ''PGAI_OIDC__ISSUER'' ''http://localhost:8090''),
       cf_oidc_audience = optional_var e ''PGAI_OIDC__AUDIENCE'' ''processguard-frontend'',
       cf_oidc_jwks_url = optional_var e ''PGAI_OIDC__JWKS_URL'' [],
       cf_rbac_policy_file = optional_var e ''PGAI_RBAC__POLICYFILE'' ''config/rbac-policy.json''\<rparr>))))))))))))))))))))))))))"

text \<open>The variables without which the service does not start, and those that are read as numbers.\<close>

definition required_names :: "string list" where
  "required_names = [''PGAI_DATABASE__HOST'', ''PGAI_DATABASE__NAME'', ''PGAI_DATABASE__USER'', ''PGAI_DATABASE__PASSWORD'', ''PGAI_REDIS__HOST'']"

definition int_names :: "(string \<times> string) list" where
  "int_names = [(''PGAI_DATABASE__PORT'', ''5432''),
     (''PGAI_REDIS__PORT'', ''6379''),
     (''PGAI_DETECTION__MIN_SAMPLES'', ''4''),
     (''PGAI_DETECTION__WINDOW_SIZE'', ''40''),
     (''PGAI_DETECTION__DB_RETRY_ATTEMPTS'', ''3''),
     (''PGAI_SIMULATOR__STREAM_MAXLEN'', ''100000''),
     (''PGAI_CMMS__RETRY_ATTEMPTS'', ''4'')]"

definition float_names :: "(string \<times> string) list" where
  "float_names = [(''PGAI_DETECTION__STATIC_Z'', ''0.05''),
     (''PGAI_DETECTION__DRIFT_Z'', ''3.0''),
     (''PGAI_DETECTION__CORRELATION_WINDOW_SECONDS'', ''30''),
     (''PGAI_DETECTION__MAX_GAP_SECONDS'', ''90''),
     (''PGAI_SIMULATOR__INTERVAL_MIN_SECONDS'', ''2''),
     (''PGAI_SIMULATOR__INTERVAL_MAX_SECONDS'', ''5''),
     (''PGAI_SIMULATOR__RAMP_SECONDS'', ''30''),
     (''PGAI_SIMULATOR__CONTROL_POLL_SECONDS'', ''1''),
     (''PGAI_TEP__TICK_SECONDS'', ''3''),
     (''PGAI_TEP__SKIP_FRACTION'', ''0.5''),
     (''PGAI_LLM__TIMEOUT_SECONDS'', ''30''),
     (''PGAI_CMMS__TIMEOUT_SECONDS'', ''10''),
     (''PGAI_CMMS__RETRY_BACKOFF_SECONDS'', ''2'')]"

text \<open>\<open>get_settings\<close>: loaded once; a failed load is not cached.\<close>

definition get_settings ::
  "(string \<Rightarrow> real option) \<Rightarrow> environ \<Rightarrow> settings option \<Rightarrow> settings result \<times> settings option" where
  "get_settings flt e cached =
     (case cached of
        Some s \<Rightarrow> (Inr s, cached)
      | None \<Rightarrow> (case load_settings flt e of Inl x \<Rightarrow> (Inl x, None) | Inr s \<Rightarrow> (Inr s, Some s)))"

definition oidc_valid_issuers :: "settings \<Rightarrow> string list" where
  "oidc_valid_issuers s = [cf_oidc_issuer s, cf_oidc_internal_issuer s]"

definition db_dsn :: "settings \<Rightarrow> string" where
  "db_dsn s = ''postgres://'' @ cf_db_user s @ '':'' @ cf_db_password s @ ''@'' @ cf_db_host s @ '':'' @
     int_str (cf_db_port s) @ ''/'' @ cf_db_name s"

definition redis_url :: "settings \<Rightarrow> string" where
  "redis_url s = ''redis://'' @ (if cf_redis_password s = [] then [] else '':'' @ cf_redis_password s @ ''@'') @
     cf_redis_host s @ '':'' @ int_str (cf_redis_port s) @ ''/0''"

text \<open>The part of the settings the language-model client and the CMMS client are built from.\<close>

definition llm_settings_of :: "settings \<Rightarrow> llm_settings" where
  "llm_settings_of s =
     \<lparr>ls_api_key = cf_llm_api_key s, ls_model = cf_llm_model s, ls_base_url = cf_llm_base_url s,
      ls_timeout = cf_llm_timeout s, ls_fake_mode = cf_llm_fake_mode s\<rparr>"

definition cmms_settings_of :: "settings \<Rightarrow> cmms_settings" where
  "cmms_settings_of s = \<lparr>cs_base_url = Some (cf_cmms_base_url s), cs_api_key = Some (cf_cmms_api_key s)\<rparr>"

section \<open>Facts\<close>

definition is_ok :: "'a result \<Rightarrow> bool" where
  "is_ok r = (case r of Inl _ \<Rightarrow> False | Inr _ \<Rightarrow> True)"

lemma is_ok_iff: "is_ok r \<longleftrightarrow> (\<exists>x. r = Inr x)"
  by (cases r) (simp_all add: is_ok_def)

lemma is_ok_bind: "is_ok (bindR r f) \<longleftrightarrow> (\<exists>x. r = Inr x \<and> is_ok (f x))"
  by (cases r) (simp_all add: is_ok_def)

lemma is_ok_Inr: "is_ok (Inr x)"
  by (simp add: is_ok_def)

lemma required_ok: "(\<exists>x. required_var e n = Inr x) \<longleftrightarrow> e n \<notin> {None, Some []}"
  by (auto simp: required_var_def split: option.split)

lemma int_ok: "(\<exists>x. int_var e n d = Inr x) \<longleftrightarrow> py_int (optional_var e n d) \<noteq> None"
  by (auto simp: int_var_def split: option.split)

lemma float_ok: "(\<exists>x. float_var flt e n d = Inr x) \<longleftrightarrow> flt (optional_var e n d) \<noteq> None"
  by (auto simp: float_var_def split: option.split)

lemma source_ok: "(\<exists>x. data_source_check s = Inr x) \<longleftrightarrow> s \<in> {''synthetic'', ''tep_replay''}"
  by (simp add: data_source_check_def)

lemma load_ok:
  "is_ok (load_settings flt e) \<longleftrightarrow>
     (\<forall>n\<in>set required_names. e n \<notin> {None, Some []}) \<and>
     (\<forall>(n, d)\<in>set int_names. py_int (optional_var e n d) \<noteq> None) \<and>
     (\<forall>(n, d)\<in>set float_names. flt (optional_var e n d) \<noteq> None) \<and>
     py_lower (optional_var e ''SENSOR_DATA_SOURCE'' ''synthetic'') \<in> {''synthetic'', ''tep_replay''}"
  unfolding load_settings_def required_names_def int_names_def float_names_def
  by (simp only: is_ok_bind is_ok_Inr simp_thms ex_simps required_ok int_ok float_ok source_ok list.set ball_simps
      prod.case) blast

lemma required_err: "required_var e n = Inl x \<longleftrightarrow> x = missing_variable n \<and> e n \<in> {None, Some []}"
  by (auto simp: required_var_def split: option.split)

lemma int_err:
  "int_var e n d = Inl x \<longleftrightarrow>
     x = ValueError ''invalid literal for int() with base 10'' \<and> py_int (optional_var e n d) = None"
  by (auto simp: int_var_def split: option.split)

lemma float_err:
  "float_var flt e n d = Inl x \<longleftrightarrow>
     x = ValueError ''could not convert string to float'' \<and> flt (optional_var e n d) = None"
  by (auto simp: float_var_def split: option.split)

text \<open>An error of a sequence of reads is the error of one of them.\<close>

lemma bindR_err:
  assumes "bindR r f = Inl x" "r = Inl x \<Longrightarrow> Q" "\<And>y. f y = Inl x \<Longrightarrow> Q"
  shows Q
  using assms by (auto simp: bindR_Inl_iff)

lemma optional_blank: "optional_var (\<lambda>n. if e n = Some [] then None else e n) n d = optional_var e n d"
  by (auto simp: optional_var_def split: option.split)

lemma required_blank: "required_var (\<lambda>n. if e n = Some [] then None else e n) n = required_var e n"
  by (auto simp: required_var_def split: option.split)

text \<open>The fields the clients are built from.\<close>

lemma bindR_ok:
  assumes "bindR r f = Inr y" "\<And>x. f x = Inr y \<Longrightarrow> Q"
  shows Q
  using assms by (auto simp: bindR_Inr_iff)

lemma load_client_fields:
  assumes "load_settings flt e = Inr s"
  shows "cf_llm_api_key s = or_str (e ''GROQ_API_KEY'') [] \<and> cf_llm_fake_mode s = flag_var e ''PGAI_LLM__FAKEMODE'' \<and>
    cf_cmms_base_url s = optional_var e ''PGAI_CMMS__BASE_URL'' [] \<and>
    cf_cmms_api_key s = optional_var e ''PGAI_CMMS__API_KEY'' [] \<and>
    cf_data_source s = py_lower (optional_var e ''SENSOR_DATA_SOURCE'' ''synthetic'') \<and>
    cf_embedded s = flag_var e ''PGAI_SIMULATOR__EMBEDDED''"
  using assms unfolding load_settings_def by (elim bindR_ok) (drule sum.inject(2) [THEN iffD1], elim subst, simp only: settings.select_convs simp_thms)

section \<open>Properties\<close>

text \<open>A complete environment.\<close>

definition sample_environ :: environ where
  "sample_environ n = (if n = ''SENSOR_DATA_SOURCE'' then Some ''synthetic'' else Some ''5'')"

lemma sample_loads: "is_ok (load_settings (\<lambda>_. Some 1) sample_environ)"
proof -
  have five: "py_int ''5'' \<noteq> None" by code_simp
  have source: "py_lower ''synthetic'' = ''synthetic''" by code_simp
  have "optional_var sample_environ n d = ''5''" if "n \<noteq> ''SENSOR_DATA_SOURCE''" for n d
    using that by (simp add: optional_var_def sample_environ_def)
  moreover have "\<forall>(n, d)\<in>set int_names. n \<noteq> ''SENSOR_DATA_SOURCE''" by (simp add: int_names_def)
  moreover have "\<forall>n\<in>set required_names. sample_environ n \<notin> {None, Some []}"
    by (simp add: required_names_def sample_environ_def)
  moreover have "py_lower (optional_var sample_environ ''SENSOR_DATA_SOURCE'' ''synthetic'') = ''synthetic''"
    by (simp add: optional_var_def sample_environ_def source)
  ultimately show ?thesis unfolding load_ok using five by fastforce
qed

text \<open>
  The service loads its settings exactly when the environment is complete: the five required
  variables are set and not empty, what is read as a number parses, and the data source is one of
  the two known ones in any case of letters.
\<close>

theorem settings_load_iff_complete:
  "(\<exists>s. load_settings flt e = Inr s) \<longleftrightarrow>
     (\<forall>n\<in>set required_names. e n \<notin> {None, Some []}) \<and>
     (\<forall>(n, d)\<in>set int_names. py_int (optional_var e n d) \<noteq> None) \<and>
     (\<forall>(n, d)\<in>set float_names. flt (optional_var e n d) \<noteq> None) \<and>
     py_lower (optional_var e ''SENSOR_DATA_SOURCE'' ''synthetic'') \<in> {''synthetic'', ''tep_replay''}"
  using load_ok [of flt e] by (simp only: is_ok_iff)

theorem settings_load_iff_complete_witness:
  "\<nexists>s. load_settings (\<lambda>_. Some 1) (sample_environ(''PGAI_DATABASE__PASSWORD'' := Some [])) = Inr s"
proof -
  have "''PGAI_DATABASE__PASSWORD'' \<in> set required_names" by (simp add: required_names_def)
  then show ?thesis
    using settings_load_iff_complete [of "\<lambda>_. Some 1" "sample_environ(''PGAI_DATABASE__PASSWORD'' := Some [])"]
    by fastforce
qed

text \<open>
  A failed load names its reason: a required variable that is really missing or empty, a text that
  \<open>int\<close> or \<open>float\<close> rejects, or an unknown data source.  The settings are loaded once: after
  a success later changes of the environment have no effect, after a failure the next call reads again.
\<close>

theorem failed_load_names_its_reason:
  assumes "load_settings flt e = Inl x"
  shows "((\<exists>n\<in>set required_names. x = missing_variable n \<and> e n \<in> {None, Some []}) \<or>
     (\<exists>(n, d)\<in>set int_names. x = ValueError ''invalid literal for int() with base 10'' \<and> py_int (optional_var e n d) = None) \<or>
     (\<exists>(n, d)\<in>set float_names. x = ValueError ''could not convert string to float'' \<and> flt (optional_var e n d) = None) \<or>
     data_source_check (py_lower (optional_var e ''SENSOR_DATA_SOURCE'' ''synthetic'')) = Inl x) \<and>
    get_settings flt e None = (Inl x, None) \<and>
    (\<forall>e' s. load_settings flt e' = Inr s \<longrightarrow> get_settings flt e' None = (Inr s, Some s) \<and>
       (\<forall>e''. get_settings flt e'' (Some s) = (Inr s, Some s)))"
proof -
  have "(\<exists>n\<in>set required_names. required_var e n = Inl x) \<or> (\<exists>(n, d)\<in>set int_names. int_var e n d = Inl x) \<or>
     (\<exists>(n, d)\<in>set float_names. float_var flt e n d = Inl x) \<or>
     data_source_check (py_lower (optional_var e ''SENSOR_DATA_SOURCE'' ''synthetic'')) = Inl x"
    using assms unfolding load_settings_def required_names_def int_names_def float_names_def
    by (elim bindR_err) (simp_all only: list.set bex_simps prod.case simp_thms sum.distinct)
  with assms show ?thesis by (simp add: required_err int_err float_err get_settings_def)
qed

theorem failed_load_names_its_reason_witness:
  "fst (get_settings (\<lambda>_. Some 1) (\<lambda>_. None) None) = Inl (missing_variable ''PGAI_DATABASE__HOST'')"
proof -
  have "load_settings (\<lambda>_. Some 1) (\<lambda>_. None) = Inl (missing_variable ''PGAI_DATABASE__HOST'')"
    by (simp add: load_settings_def required_var_def)
  from failed_load_names_its_reason [OF this] show ?thesis by simp
qed

text \<open>
  An empty variable is a missing one: taking the empty variables out of the environment changes
  neither the settings nor the error.
\<close>

theorem empty_variable_is_missing:
  "load_settings flt (\<lambda>n. if e n = Some [] then None else e n) = load_settings flt e"
proof -
  have "or_str (if e n = Some [] then None else e n) [] = or_str (e n) []" for n
    by (simp add: or_str_def)
  then show ?thesis
    by (simp only: load_settings_def optional_blank required_blank int_var_def float_var_def flag_var_def)
qed

text \<open>
  The credentials of the database are put into the connection text as they are, so different
  credentials give the same text: a colon may end the user or be part of the password, an at sign
  may end the password or be part of it.
\<close>

theorem dsn_does_not_escape:
  "db_dsn (s\<lparr>cf_db_user := u @ '':'' @ p, cf_db_password := q\<rparr>) = db_dsn (s\<lparr>cf_db_user := u, cf_db_password := p @ '':'' @ q\<rparr>) \<and>
   db_dsn (s\<lparr>cf_db_password := p @ ''@'' @ h, cf_db_host := h'\<rparr>) = db_dsn (s\<lparr>cf_db_password := p, cf_db_host := h @ ''@'' @ h'\<rparr>)"
  by (simp add: db_dsn_def)

end
