(* ===== verification/Startup.thy ===== *)
theory Startup
  imports Config Retrieval Risk Simulator
begin

text \<open>
  The life of the process: the listener of the event bus (\<open>RedisEventBus\<close> of
  \<open>app/eventbus/base.py\<close>), the wiring of the service at startup and its shutdown
  (\<open>app/main.py\<close>, \<open>app/core/runtime.py\<close>) and the health probes (\<open>app/api/health.py\<close>).
  The handlers of the agents are parameters: the wiring does not depend on what they do.  A step
  that talks to PostgreSQL or Redis may raise; the fault function of the environment says which.
\<close>

section \<open>The listener of the bus\<close>

text \<open>
  \<open>eb_pubsub\<close> holds the topics the broker delivers to this process; it is made once, from the
  handlers there are when the listener starts.
\<close>

record ('p, 'w) event_bus =
  eb_handlers :: "('p, 'w) bus_handlers"
  eb_pubsub :: "string list option"
  eb_running :: bool
  eb_listening :: bool

definition new_bus :: "('p, 'w) event_bus" where
  "new_bus = \<lparr>eb_handlers = [], eb_pubsub = None, eb_running = False, eb_listening = False\<rparr>"

definition bus_subscribe :: "string \<Rightarrow> ('p, 'w) bus_handler \<Rightarrow> ('p, 'w) event_bus \<Rightarrow> ('p, 'w) event_bus" where
  "bus_subscribe tp h b = b\<lparr>eb_handlers := subscribe tp h (eb_handlers b)\<rparr>"

text \<open>The subscriptions at the broker, one topic after the other; the first that raises ends the start.\<close>

fun listen_topics :: "(string \<Rightarrow> exc option) \<Rightarrow> string list \<Rightarrow> string list \<Rightarrow> exc option \<times> string list" where
  "listen_topics fault [] heard = (None, heard)"
| "listen_topics fault (tp # tps) heard =
     (case fault tp of Some x \<Rightarrow> (Some x, heard) | None \<Rightarrow> listen_topics fault tps (heard @ [tp]))"

definition bus_start :: "(string \<Rightarrow> exc option) \<Rightarrow> ('p, 'w) event_bus \<Rightarrow> unit result \<times> ('p, 'w) event_bus" where
  "bus_start fault b =
     (if eb_running b then (Inr (), b)
      else (case listen_topics fault (map fst (eb_handlers b)) [] of
              (Some x, heard) \<Rightarrow> (Inl x, b\<lparr>eb_pubsub := Some heard\<rparr>)
            | (None, heard) \<Rightarrow> (Inr (), b\<lparr>eb_pubsub := Some heard, eb_running := True, eb_listening := True\<rparr>)))"

definition bus_stop :: "('p, 'w) event_bus \<Rightarrow> ('p, 'w) event_bus" where
  "bus_stop b = b\<lparr>eb_running := False, eb_listening := False, eb_pubsub := None\<rparr>"

text \<open>A message at the broker reaches the process only if the listener runs and the topic is subscribed there.\<close>

definition bus_receive ::
  "('p, 'w) event_bus \<Rightarrow> string \<Rightarrow> 'p envelope \<Rightarrow> 'w \<times> bus_counts \<Rightarrow> 'w \<times> bus_counts" where
  "bus_receive b tp m s =
     (case eb_pubsub b of
        None \<Rightarrow> s
      | Some tps \<Rightarrow> if eb_listening b \<and> tp \<in> set tps then dispatch (eb_handlers b) tp m s else s)"

section \<open>The service\<close>

text \<open>The handlers the agents register, in the order of the attributes of \<open>app/main.py\<close>.\<close>

record ('p, 'w) agent_handlers =
  ah_knowledge :: "('p, 'w) bus_handler"
  ah_nudge :: "('p, 'w) bus_handler"
  ah_root_cause :: "('p, 'w) bus_handler"
  ah_orchestrator :: "('p, 'w) bus_handler"
  ah_action :: "('p, 'w) bus_handler"
  ah_ping :: "('p, 'w) bus_handler"

datatype task = DetectionTask | PollTask | SimulatorTask

datatype io_step = OpenPool | SeedData | ListenOn string | PublishPing | LoadRegistry | EnsureGroup | LoadSensors

text \<open>What the process finds when it starts: the environment, the files and the faults of the I/O.\<close>

record ('v, 'm) surroundings =
  su_environ :: environ
  su_float :: "string \<Rightarrow> real option"
  su_corpus_dir :: string
  su_corpus_files :: "(string \<times> string) list"
  su_vectorizing :: "('v, 'm) vectorizing"
  su_hitl_file :: "hitl_config result"
  su_fault :: "io_step \<Rightarrow> exc option"

text \<open>
  The module attributes of the process.  \<open>sv_tasks\<close> is \<open>_sim_tasks\<close>, each with whether it
  still runs; \<open>sv_handle\<close> says whether \<open>set_event_bus\<close> holds the bus.
\<close>

record ('p, 'w, 'v, 'm) service =
  sv_settings :: "settings option"
  sv_pool :: bool
  sv_db :: db
  sv_bus :: "('p, 'w) event_bus option"
  sv_handle :: bool
  sv_index :: "('v, 'm) retrieval_index"
  sv_llm :: "llm_client option"
  sv_hitl :: "hitl_config option"
  sv_published :: "string list"
  sv_registry :: "string \<Rightarrow> sensor_meta option"
  sv_sensors :: "sim_sensor list"
  sv_consumer_running :: bool
  sv_tasks :: "(task \<times> bool) list"
  sv_complete :: bool

definition new_service :: "db \<Rightarrow> ('p, 'w, 'v, 'm) service" where
  "new_service d =
     \<lparr>sv_settings = None, sv_pool = False, sv_db = d, sv_bus = None, sv_handle = False, sv_index = empty_index,
      sv_llm = None, sv_hitl = None, sv_published = [], sv_registry = (\<lambda>_. None), sv_sensors = [], sv_consumer_running = False,
      sv_tasks = [], sv_complete = False\<rparr>"

section \<open>The steps of the startup\<close>

type_synonym 's step = "'s \<Rightarrow> unit result \<times> 's"

fun run_steps :: "'s step list \<Rightarrow> 's step" where
  "run_steps [] s = (Inr (), s)"
| "run_steps (f # fs) s = (case f s of (Inl x, s') \<Rightarrow> (Inl x, s') | (Inr _, s') \<Rightarrow> run_steps fs s')"

text \<open>A step that may raise before it changes anything.\<close>

definition io :: "exc option \<Rightarrow> ('s \<Rightarrow> 's) \<Rightarrow> 's step" where
  "io fault f s = (case fault of Some x \<Rightarrow> (Inl x, s) | None \<Rightarrow> (Inr (), f s))"

definition settings_step :: "('v, 'm) surroundings \<Rightarrow> ('p, 'w, 'v, 'm) service step" where
  "settings_step u s =
     (case get_settings (su_float u) (su_environ u) (sv_settings s) of
        (Inl x, c) \<Rightarrow> (Inl x, s\<lparr>sv_settings := c\<rparr>)
      | (Inr _, c) \<Rightarrow> (Inr (), s\<lparr>sv_settings := c\<rparr>))"

definition pool_step :: "('v, 'm) surroundings \<Rightarrow> ('p, 'w, 'v, 'm) service step" where
  "pool_step u s = (if sv_pool s then (Inr (), s) else io (su_fault u OpenPool) (\<lambda>s. s\<lparr>sv_pool := True\<rparr>) s)"

definition seed_step :: "('v, 'm) surroundings \<Rightarrow> ('p, 'w, 'v, 'm) service step" where
  "seed_step u = io (su_fault u SeedData) (\<lambda>s. s\<lparr>sv_db := snd (seed_demo_data (sv_db s))\<rparr>)"

definition bus_step :: "('p, 'w, 'v, 'm) service step" where
  "bus_step s = (Inr (), s\<lparr>sv_bus := Some new_bus, sv_handle := True\<rparr>)"

definition index_step :: "('v, 'm) surroundings \<Rightarrow> ('p, 'w, 'v, 'm) service step" where
  "index_step u s =
     (case load_corpus (su_corpus_dir u) (su_corpus_files u) of
        Inl x \<Rightarrow> (Inl x, s)
      | Inr docs \<Rightarrow>
          (case build_index (su_vectorizing u) docs empty_index of
             (Inl x, ix) \<Rightarrow> (Inl x, s)
           | (Inr n, ix) \<Rightarrow> (Inr (), s\<lparr>sv_index := ix\<rparr>)))"

definition llm_step :: "('p, 'w, 'v, 'm) service step" where
  "llm_step s =
     (case sv_settings s of
        None \<Rightarrow> (Inr (), s)
      | Some st \<Rightarrow>
          (case get_llm_client (llm_settings_of st) (sv_llm s) of
             (Inl x, c) \<Rightarrow> (Inl x, s\<lparr>sv_llm := c\<rparr>)
           | (Inr _, c) \<Rightarrow> (Inr (), s\<lparr>sv_llm := c\<rparr>)))"

definition on_bus :: "(('p, 'w) event_bus \<Rightarrow> ('p, 'w) event_bus) \<Rightarrow> ('p, 'w, 'v, 'm) service step" where
  "on_bus f s = (Inr (), s\<lparr>sv_bus := map_option f (sv_bus s)\<rparr>)"

definition hitl_step :: "('v, 'm) surroundings \<Rightarrow> ('p, 'w, 'v, 'm) service step" where
  "hitl_step u s =
     (case bindR (su_hitl_file u) load_hitl_thresholds of
        Inl x \<Rightarrow> (Inl x, s)
      | Inr c \<Rightarrow> (Inr (), s\<lparr>sv_hitl := Some c\<rparr>))"

definition start_bus_step :: "('v, 'm) surroundings \<Rightarrow> ('p, 'w, 'v, 'm) service step" where
  "start_bus_step u s =
     (case sv_bus s of
        None \<Rightarrow> (Inr (), s)
      | Some b \<Rightarrow> (case bus_start (\<lambda>tp. su_fault u (ListenOn tp)) b of (r, b') \<Rightarrow> (r, s\<lparr>sv_bus := Some b'\<rparr>)))"

definition ping_step :: "('v, 'm) surroundings \<Rightarrow> ('p, 'w, 'v, 'm) service step" where
  "ping_step u = io (su_fault u PublishPing) (\<lambda>s. s\<lparr>sv_published := sv_published s @ [''pgai.ping'']\<rparr>)"

text \<open>The consumer group may exist already: Redis answers \<open>BUSYGROUP\<close>, and the start goes on.\<close>

definition group_fault :: "('v, 'm) surroundings \<Rightarrow> exc option" where
  "group_fault u =
     (case su_fault u EnsureGroup of
        None \<Rightarrow> None
      | Some x \<Rightarrow> if py_in ''BUSYGROUP'' (exc_str x) then None else Some x)"

definition registry_of :: "db \<Rightarrow> string \<Rightarrow> sensor_meta option" where
  "registry_of d = dt_registry (load_sensor_registry
     \<lparr>dt_registry = (\<lambda>_. None), dt_baselines = (\<lambda>_. []), dt_buffer = [], dt_world = \<lparr>w_db = d, w_bus = []\<rparr>, dt_dead = []\<rparr>)"

definition detection_step :: "('v, 'm) surroundings \<Rightarrow> ('p, 'w, 'v, 'm) service step" where
  "detection_step u =
     run_steps [io (su_fault u LoadRegistry) (\<lambda>s. s\<lparr>sv_registry := registry_of (sv_db s)\<rparr>),
       io (group_fault u) (\<lambda>s. s\<lparr>sv_consumer_running := True\<rparr>)]"

definition spawn :: "task \<Rightarrow> ('p, 'w, 'v, 'm) service step" where
  "spawn t s = (Inr (), s\<lparr>sv_tasks := sv_tasks s @ [(t, True)]\<rparr>)"

definition embedded :: "('p, 'w, 'v, 'm) service \<Rightarrow> bool" where
  "embedded s = (case sv_settings s of None \<Rightarrow> False | Some st \<Rightarrow> cf_embedded st)"

definition simulator_step :: "('v, 'm) surroundings \<Rightarrow> ('p, 'w, 'v, 'm) service step" where
  "simulator_step u s =
     (if embedded s then
        run_steps [io (su_fault u LoadSensors) (\<lambda>s. s\<lparr>sv_sensors := load_sensors (sv_db s)\<rparr>), spawn SimulatorTask] s
      else (Inr (), s))"

definition complete_step :: "('p, 'w, 'v, 'm) service step" where
  "complete_step s = (Inr (), s\<lparr>sv_complete := True\<rparr>)"

text \<open>\<open>start\<close> of the agents that live on the bus, and the stub that hears the ping.\<close>

definition knowledge_start :: "('p, 'w) agent_handlers \<Rightarrow> ('p, 'w) event_bus \<Rightarrow> ('p, 'w) event_bus" where
  "knowledge_start a = bus_subscribe ''pgai.anomalies'' (ah_knowledge a)"

definition root_cause_start :: "('p, 'w) agent_handlers \<Rightarrow> ('p, 'w) event_bus \<Rightarrow> ('p, 'w) event_bus" where
  "root_cause_start a b =
     bus_subscribe ''pgai.anomalies'' (ah_root_cause a) (bus_subscribe ''pgai.diagnosis'' (ah_nudge a) b)"

definition orchestrator_start :: "('p, 'w) agent_handlers \<Rightarrow> ('p, 'w) event_bus \<Rightarrow> ('p, 'w) event_bus" where
  "orchestrator_start a = bus_subscribe ''pgai.stage_completed'' (ah_orchestrator a)"

definition action_start :: "('p, 'w) agent_handlers \<Rightarrow> ('p, 'w) event_bus \<Rightarrow> ('p, 'w) event_bus" where
  "action_start a = bus_subscribe ''pgai.incident_approved'' (ah_action a)"

definition register_ping_stub :: "('p, 'w) agent_handlers \<Rightarrow> ('p, 'w) event_bus \<Rightarrow> ('p, 'w) event_bus" where
  "register_ping_stub a = bus_subscribe ''pgai.ping'' (ah_ping a)"

text \<open>What comes before the listener starts, and what comes after.\<close>

definition wiring ::
  "('v, 'm) surroundings \<Rightarrow> ('p, 'w) agent_handlers \<Rightarrow> ('p, 'w, 'v, 'm) service step list" where
  "wiring u a =
     [settings_step u, pool_step u, seed_step u, bus_step, index_step u, llm_step,
      on_bus (knowledge_start a), on_bus (root_cause_start a), hitl_step u, on_bus (orchestrator_start a),
      on_bus (action_start a), on_bus (register_ping_stub a)]"

definition launching :: "('v, 'm) surroundings \<Rightarrow> ('p, 'w, 'v, 'm) service step list" where
  "launching u =
     [start_bus_step u, ping_step u, detection_step u, spawn DetectionTask, spawn PollTask, simulator_step u,
      complete_step]"

definition startup ::
  "('v, 'm) surroundings \<Rightarrow> ('p, 'w) agent_handlers \<Rightarrow> ('p, 'w, 'v, 'm) service step" where
  "startup u a = run_steps (wiring u a @ launching u)"

section \<open>Shutdown\<close>

definition shutdown :: "('p, 'w, 'v, 'm) service \<Rightarrow> ('p, 'w, 'v, 'm) service" where
  "shutdown s =
     s\<lparr>sv_tasks := map (\<lambda>(t, _). (t, False)) (sv_tasks s), sv_consumer_running := False, sv_handle := False,
       sv_bus := map_option bus_stop (sv_bus s), sv_pool := False\<rparr>"

section \<open>Health\<close>

record ready_answer =
  ra_code :: nat
  ra_status :: string
  ra_postgres :: string
  ra_redis :: string

definition ready :: "(string \<Rightarrow> bool) \<Rightarrow> (string \<Rightarrow> bool) \<Rightarrow> settings \<Rightarrow> ready_answer" where
  "ready pg redis st =
     (let pg_ok = pg (db_dsn st); redis_ok = redis (redis_url st) in
      \<lparr>ra_code = (if pg_ok \<and> redis_ok then 200 else 503),
       ra_status = (if pg_ok \<and> redis_ok then ''ready'' else ''degraded''),
       ra_postgres = (if pg_ok then ''ok'' else ''failed''), ra_redis = (if redis_ok then ''ok'' else ''failed'')\<rparr>)"

definition startup_probe :: "('p, 'w, 'v, 'm) service \<Rightarrow> nat \<times> string \<times> string" where
  "startup_probe s =
     (if sv_complete s then (200, ''started'', ''complete'') else (503, ''not_started'', ''pending''))"

section \<open>Facts\<close>

lemma run_ok: "run_steps (f # fs) s = (Inr (), s') \<longleftrightarrow> (\<exists>s1. f s = (Inr (), s1) \<and> run_steps fs s1 = (Inr (), s'))"
  by (auto split: prod.splits sum.splits)

lemma run_err:
  "run_steps (f # fs) s = (Inl x, s') \<longleftrightarrow>
     f s = (Inl x, s') \<or> (\<exists>s1. f s = (Inr (), s1) \<and> run_steps fs s1 = (Inl x, s'))"
  by (auto split: prod.splits sum.splits)

lemma io_ok: "io fault f s = (Inr (), s1) \<longleftrightarrow> fault = None \<and> s1 = f s"
  by (auto simp: io_def split: option.split)

lemma spawn_ok: "spawn t s = (Inr (), s1) \<longleftrightarrow> s1 = s\<lparr>sv_tasks := sv_tasks s @ [(t, True)]\<rparr>"
  by (auto simp: spawn_def)

definition configured :: "('v, 'm) surroundings \<Rightarrow> ('p, 'w, 'v, 'm) service \<Rightarrow> settings result" where
  "configured u s = fst (get_settings (su_float u) (su_environ u) (sv_settings s))"

lemma settings_ok:
  "settings_step u s = (Inr (), s1) \<longleftrightarrow>
     is_ok (configured u s) \<and> s1 = s\<lparr>sv_settings := Some (projr (configured u s))\<rparr>"
  by (auto simp: settings_step_def configured_def get_settings_def is_ok_def split: option.splits sum.splits)

lemma pool_ok: "pool_step u s = (Inr (), s1) \<longleftrightarrow> (sv_pool s \<or> su_fault u OpenPool = None) \<and> s1 = s\<lparr>sv_pool := True\<rparr>"
  by (auto simp: pool_step_def io_ok)

definition indexed :: "('v, 'm) surroundings \<Rightarrow> ('v, 'm) retrieval_index result" where
  "indexed u = bindR (load_corpus (su_corpus_dir u) (su_corpus_files u)) (\<lambda>docs.
     case build_index (su_vectorizing u) docs empty_index of (Inl x, _) \<Rightarrow> Inl x | (Inr _, ix) \<Rightarrow> Inr ix)"

lemma index_ok: "index_step u s = (Inr (), s1) \<longleftrightarrow> is_ok (indexed u) \<and> s1 = s\<lparr>sv_index := projr (indexed u)\<rparr>"
  by (auto simp: index_step_def indexed_def is_ok_def split: sum.splits prod.splits)

text \<open>The client resolves when there is one already, in the fake mode, or with a key.\<close>

definition client_of :: "settings \<Rightarrow> llm_client option \<Rightarrow> llm_client result" where
  "client_of st c = fst (get_llm_client (llm_settings_of st) c)"

lemma client_ok: "is_ok (client_of st c) \<longleftrightarrow> c \<noteq> None \<or> cf_llm_fake_mode st \<or> cf_llm_api_key st \<noteq> []"
  by (auto simp: client_of_def get_llm_client_def groq_client_def llm_settings_of_def is_ok_def split: option.splits)

lemma llm_ok:
  "sv_settings s = Some st \<Longrightarrow>
     llm_step s = (Inr (), s1) \<longleftrightarrow>
       is_ok (client_of st (sv_llm s)) \<and> s1 = s\<lparr>sv_llm := Some (projr (client_of st (sv_llm s)))\<rparr>"
  by (auto simp: llm_step_def client_of_def get_llm_client_def is_ok_def split: option.splits sum.splits)

lemma on_bus_ok: "on_bus f s = (Inr (), s1) \<longleftrightarrow> s1 = s\<lparr>sv_bus := map_option f (sv_bus s)\<rparr>"
  by (auto simp: on_bus_def)

definition thresholds_read :: "('v, 'm) surroundings \<Rightarrow> hitl_config result" where
  "thresholds_read u = bindR (su_hitl_file u) load_hitl_thresholds"

lemma hitl_ok:
  "hitl_step u s = (Inr (), s1) \<longleftrightarrow> is_ok (thresholds_read u) \<and> s1 = s\<lparr>sv_hitl := Some (projr (thresholds_read u))\<rparr>"
  by (auto simp: hitl_step_def thresholds_read_def is_ok_def split: sum.splits)

lemma listen_ok: "fst (listen_topics fault tps heard) = None \<longleftrightarrow> (\<forall>tp\<in>set tps. fault tp = None)"
  by (induction fault tps heard rule: listen_topics.induct) (auto split: option.split)

lemma listen_heard: "(\<forall>tp\<in>set tps. fault tp = None) \<Longrightarrow> listen_topics fault tps heard = (None, heard @ tps)"
  by (induction fault tps heard rule: listen_topics.induct) (auto split: option.split)

lemma bus_start_ok:
  "\<not> eb_running b \<Longrightarrow>
     bus_start fault b = (Inr (), b') \<longleftrightarrow>
       (\<forall>tp\<in>set (map fst (eb_handlers b)). fault tp = None) \<and>
       b' = b\<lparr>eb_pubsub := Some (map fst (eb_handlers b)), eb_running := True, eb_listening := True\<rparr>"
  using listen_ok [of fault "map fst (eb_handlers b)" "[]"] listen_heard [of "map fst (eb_handlers b)" fault "[]"]
  by (auto simp: bus_start_def split: prod.splits option.splits)

text \<open>The bus as the wiring leaves it.\<close>

definition wired_handlers :: "('p, 'w) agent_handlers \<Rightarrow> ('p, 'w) bus_handlers" where
  "wired_handlers a =
     [(''pgai.anomalies'', [ah_knowledge a, ah_root_cause a]), (''pgai.diagnosis'', [ah_nudge a]),
      (''pgai.stage_completed'', [ah_orchestrator a]), (''pgai.incident_approved'', [ah_action a]),
      (''pgai.ping'', [ah_ping a])]"

definition wired_bus :: "('p, 'w) agent_handlers \<Rightarrow> ('p, 'w) event_bus" where
  "wired_bus a = \<lparr>eb_handlers = wired_handlers a, eb_pubsub = None, eb_running = False, eb_listening = False\<rparr>"

text \<open>The process when the listener starts, and when the startup is complete.\<close>

definition wired ::
  "('v, 'm) surroundings \<Rightarrow> ('p, 'w) agent_handlers \<Rightarrow> ('p, 'w, 'v, 'm) service \<Rightarrow> ('p, 'w, 'v, 'm) service" where
  "wired u a s =
     s\<lparr>sv_settings := Some (projr (configured u s)), sv_pool := True, sv_db := snd (seed_demo_data (sv_db s)),
       sv_bus := Some (wired_bus a), sv_handle := True, sv_index := projr (indexed u),
       sv_llm := Some (projr (client_of (projr (configured u s)) (sv_llm s))),
       sv_hitl := Some (projr (thresholds_read u))\<rparr>"

lemma run_append_ok:
  "run_steps (fs @ gs) s = (Inr (), s') \<longleftrightarrow> (\<exists>s1. run_steps fs s = (Inr (), s1) \<and> run_steps gs s1 = (Inr (), s'))"
  by (induction fs arbitrary: s) (auto split: prod.splits sum.splits)

lemma wiring_ok:
  "run_steps (wiring u a) s = (Inr (), s1) \<longleftrightarrow>
     is_ok (configured u s) \<and> (sv_pool s \<or> su_fault u OpenPool = None) \<and> su_fault u SeedData = None \<and>
     is_ok (indexed u) \<and> is_ok (client_of (projr (configured u s)) (sv_llm s)) \<and> is_ok (thresholds_read u) \<and>
     s1 = wired u a s"
  unfolding wiring_def
  by (auto simp: run_ok settings_ok pool_ok seed_step_def io_ok bus_step_def index_ok llm_ok on_bus_ok hitl_ok
      knowledge_start_def root_cause_start_def orchestrator_start_def action_start_def register_ping_stub_def
      wired_def bus_subscribe_def new_bus_def wired_bus_def wired_handlers_def simp del: run_steps.simps(2))

definition launched :: "('v, 'm) surroundings \<Rightarrow> ('p, 'w, 'v, 'm) service \<Rightarrow> ('p, 'w, 'v, 'm) service" where
  "launched u s =
     s\<lparr>sv_bus := map_option (\<lambda>b. b\<lparr>eb_pubsub := Some (map fst (eb_handlers b)), eb_running := True, eb_listening := True\<rparr>) (sv_bus s),
       sv_published := sv_published s @ [''pgai.ping''], sv_registry := registry_of (sv_db s),
       sv_sensors := (if embedded s then load_sensors (sv_db s) else sv_sensors s), sv_consumer_running := True,
       sv_tasks := sv_tasks s @ [(DetectionTask, True), (PollTask, True)] @ (if embedded s then [(SimulatorTask, True)] else []),
       sv_complete := True\<rparr>"

lemma start_bus_ok:
  assumes "sv_bus s = Some b" "\<not> eb_running b"
  shows "start_bus_step u s = (Inr (), s1) \<longleftrightarrow>
     (\<forall>tp\<in>set (map fst (eb_handlers b)). su_fault u (ListenOn tp) = None) \<and>
     s1 = s\<lparr>sv_bus := Some (b\<lparr>eb_pubsub := Some (map fst (eb_handlers b)), eb_running := True, eb_listening := True\<rparr>)\<rparr>"
proof -
  have "start_bus_step u s = (Inr (), s1) \<longleftrightarrow>
      (\<exists>b'. bus_start (\<lambda>tp. su_fault u (ListenOn tp)) b = (Inr (), b') \<and> s1 = s\<lparr>sv_bus := Some b'\<rparr>)"
    by (auto simp: start_bus_step_def assms(1) split: prod.splits)
  then show ?thesis by (auto simp: bus_start_ok [OF assms(2)])
qed

lemma launching_ok:
  assumes "sv_bus s = Some b" "\<not> eb_running b"
  shows "run_steps (launching u) s = (Inr (), s1) \<longleftrightarrow>
     (\<forall>tp\<in>set (map fst (eb_handlers b)). su_fault u (ListenOn tp) = None) \<and> su_fault u PublishPing = None \<and>
     su_fault u LoadRegistry = None \<and> group_fault u = None \<and> (embedded s \<longrightarrow> su_fault u LoadSensors = None) \<and>
     s1 = launched u s"
  unfolding launching_def
  by (cases "embedded s")
    (auto simp: run_ok start_bus_ok [OF assms] ping_step_def detection_step_def io_ok spawn_ok simulator_step_def
      complete_step_def launched_def embedded_def assms(1) simp del: run_steps.simps(2) split: if_splits option.splits)

text \<open>The startup succeeds under these conditions, and then the process is this one.\<close>

definition started ::
  "('v, 'm) surroundings \<Rightarrow> ('p, 'w) agent_handlers \<Rightarrow> ('p, 'w, 'v, 'm) service \<Rightarrow> ('p, 'w, 'v, 'm) service" where
  "started u a s = launched u (wired u a s)"

definition quiet_start :: "('v, 'm) surroundings \<Rightarrow> bool \<Rightarrow> bool" where
  "quiet_start u simulator \<longleftrightarrow>
     su_fault u SeedData = None \<and>
     (\<forall>tp\<in>{''pgai.anomalies'', ''pgai.diagnosis'', ''pgai.stage_completed'', ''pgai.incident_approved'', ''pgai.ping''}.
        su_fault u (ListenOn tp) = None) \<and>
     su_fault u PublishPing = None \<and> su_fault u LoadRegistry = None \<and> group_fault u = None \<and>
     (simulator \<longrightarrow> su_fault u LoadSensors = None)"

lemma startup_ok:
  "startup u a s = (Inr (), s') \<longleftrightarrow>
     is_ok (configured u s) \<and> (sv_pool s \<or> su_fault u OpenPool = None) \<and> is_ok (indexed u) \<and>
     is_ok (client_of (projr (configured u s)) (sv_llm s)) \<and> is_ok (thresholds_read u) \<and>
     quiet_start u (cf_embedded (projr (configured u s))) \<and> s' = started u a s"
proof -
  have bus: "sv_bus (wired u a s) = Some (wired_bus a)" "\<not> eb_running (wired_bus a)"
    by (simp_all add: wired_def wired_bus_def)
  have keys: "map fst (eb_handlers (wired_bus a)) =
      [''pgai.anomalies'', ''pgai.diagnosis'', ''pgai.stage_completed'', ''pgai.incident_approved'', ''pgai.ping'']"
    by (simp add: wired_bus_def wired_handlers_def)
  have emb: "embedded (wired u a s) = cf_embedded (projr (configured u s))" by (simp add: embedded_def wired_def)
  show ?thesis
    unfolding startup_def run_append_ok wiring_ok
    by (auto simp: launching_ok [OF bus] keys emb started_def quiet_start_def)
qed

definition keeps :: "('s \<Rightarrow> 'b) \<Rightarrow> 's step \<Rightarrow> bool" where
  "keeps g f \<longleftrightarrow> (\<forall>s. g (snd (f s)) = g s)"

lemma keeps_run: "list_all (keeps g) fs \<Longrightarrow> g (snd (run_steps fs s)) = g s"
  by (induction fs arbitrary: s) (auto simp: keeps_def split: prod.splits sum.splits, (metis snd_conv)+)

lemma run_append: "run_steps (fs @ gs) s = (case run_steps fs s of (Inl x, s') \<Rightarrow> (Inl x, s') | (Inr _, s') \<Rightarrow> run_steps gs s')"
  by (induction fs arbitrary: s) (auto split: prod.splits sum.splits)

lemma steps_keep_complete:
  "list_all (keeps sv_complete) (wiring u a)" "list_all (keeps sv_complete) (butlast (launching u))"
  by (auto simp: wiring_def launching_def keeps_def settings_step_def pool_step_def seed_step_def bus_step_def index_step_def
      llm_step_def on_bus_def hitl_step_def start_bus_step_def ping_step_def detection_step_def spawn_def simulator_step_def
      io_def split: option.split sum.split prod.split)

lemma failed_startup_is_incomplete:
  assumes "startup u a s = (Inl x, s')"
  shows "sv_complete s' = sv_complete s"
proof -
  let ?fs = "wiring u a @ butlast (launching u)"
  have all: "wiring u a @ launching u = ?fs @ [complete_step]" by (simp add: launching_def)
  obtain r z where run: "run_steps ?fs s = (r, z)" by (cases "run_steps ?fs s")
  have "run_steps (?fs @ [complete_step]) s = (Inl x, s')" using assms all by (simp add: startup_def)
  then have "z = s'" unfolding run_append [of ?fs] run by (auto simp: complete_step_def split: sum.splits)
  moreover have "sv_complete (snd (run_steps ?fs s)) = sv_complete s"
    by (intro keeps_run) (simp add: steps_keep_complete)
  ultimately show ?thesis by (simp add: run)
qed

lemma startup_without_settings:
  fixes u :: "('v, 'm) surroundings" and a :: "('p, 'w) agent_handlers"
  assumes "load_settings (su_float u) (su_environ u) = Inl y"
  shows "startup u a (new_service d) = (Inl y, new_service d)"
proof -
  have "run_steps (settings_step u # fs) (new_service d) = (Inl y, new_service d)" for fs :: "('p, 'w, 'v, 'm) service step list"
    by (simp add: settings_step_def get_settings_def new_service_def assms)
  then show ?thesis by (simp only: startup_def wiring_def append_Cons)
qed

section \<open>Properties\<close>

definition idle_handlers :: "(nat, nat) agent_handlers" where
  "idle_handlers =
     \<lparr>ah_knowledge = (\<lambda>p w. (None, w + p)), ah_nudge = (\<lambda>p w. (None, w)), ah_root_cause = (\<lambda>p w. (None, 2 * w)),
      ah_orchestrator = (\<lambda>p w. (None, w)), ah_action = (\<lambda>p w. (None, w)), ah_ping = (\<lambda>p w. (None, w))\<rparr>"

text \<open>A complete environment with a key, the corpus of one public document and the shipped thresholds.\<close>

definition sample_surroundings :: "(unit, nat list) surroundings" where
  "sample_surroundings =
     \<lparr>su_environ = sample_environ, su_float = (\<lambda>_. Some 1), su_corpus_dir = ''kb'', su_corpus_files = [sample_file],
      su_vectorizing = sample_vectorizing, su_hitl_file = Inr shipped_config, su_fault = (\<lambda>_. None)\<rparr>"

lemma sample_indexed: "is_ok (indexed sample_surroundings)"
  by (simp add: indexed_def sample_surroundings_def load_corpus_def sample_file_loads source_type_of_def
      build_index_def sample_vectorizing_def is_ok_def)

lemma sample_thresholds: "is_ok (thresholds_read sample_surroundings)"
proof -
  have "is_ok (load_hitl_thresholds shipped_config)" by code_simp
  then show ?thesis by (simp add: thresholds_read_def sample_surroundings_def)
qed

lemma sample_quiet: "quiet_start sample_surroundings b"
  by (simp add: quiet_start_def sample_surroundings_def group_fault_def)

lemma sample_settings:
  obtains st where "load_settings (\<lambda>_. Some 1) sample_environ = Inr st" "cf_llm_api_key st = ''5''"
    "cf_cmms_api_key st = ''5''"
proof -
  obtain st where st: "load_settings (\<lambda>_. Some 1) sample_environ = Inr st" using sample_loads by (auto simp: is_ok_iff)
  with that load_client_fields [OF st] show thesis
    by (simp add: sample_environ_def optional_var_def or_str_def)
qed

lemma sample_starts:
  "startup sample_surroundings a (new_service d) = (Inr (), started sample_surroundings a (new_service d))"
proof -
  obtain st where st: "load_settings (\<lambda>_. Some 1) sample_environ = Inr st" "cf_llm_api_key st = ''5''"
    by (rule sample_settings)
  have "configured sample_surroundings (new_service d :: ('a, 'b, unit, nat list) service) = Inr st"
    by (simp add: configured_def get_settings_def sample_surroundings_def new_service_def st(1))
  moreover have open_pool: "su_fault sample_surroundings OpenPool = None" by (simp add: sample_surroundings_def)
  ultimately show ?thesis
    by (simp add: startup_ok sample_indexed sample_thresholds sample_quiet is_ok_Inr client_ok st(2) open_pool)
qed



text \<open>
  C8. After the startup every topic of the pipeline is heard by exactly its agents: an anomaly reaches
  the Knowledge Agent and then, on the state it left, the Root-Cause Agent; evidence reaches the
  Root-Cause Agent, a finished stage the Orchestrator, an approval the Action Agent; the events of the
  Action Agent reach nobody.  The bus is handed to the endpoints, the consumer and the poll run, and
  the startup probe answers.
\<close>

theorem startup_wires_every_topic:
  assumes "startup u a s = (Inr (), s')"
  shows "\<exists>b. sv_bus s' = Some b \<and>
    fst (bus_receive b ''pgai.anomalies'' (Payload p) (w, c)) = snd (ah_root_cause a p (snd (ah_knowledge a p w))) \<and>
    fst (bus_receive b ''pgai.diagnosis'' (Payload p) (w, c)) = snd (ah_nudge a p w) \<and>
    fst (bus_receive b ''pgai.stage_completed'' (Payload p) (w, c)) = snd (ah_orchestrator a p w) \<and>
    fst (bus_receive b ''pgai.incident_approved'' (Payload p) (w, c)) = snd (ah_action a p w) \<and>
    bus_receive b ''pgai.action_completed'' (Payload p) (w, c) = (w, c) \<and>
    bus_receive b ''pgai.action_failed'' (Payload p) (w, c) = (w, c) \<and>
    sv_handle s' \<and> {(DetectionTask, True), (PollTask, True)} \<subseteq> set (sv_tasks s') \<and>
    startup_probe s' = (200, ''started'', ''complete'') \<and>
    sv_db s' = snd (seed_demo_data (sv_db s)) \<and> sv_registry s' = registry_of (sv_db s')"
proof -
  have s': "s' = started u a s" using assms by (simp add: startup_ok)
  show ?thesis
    by (simp add: s' started_def launched_def wired_def wired_bus_def wired_handlers_def bus_receive_def dispatch_def
        run_handlers_state handlers_for_def startup_probe_def del: run_handlers.simps(2))
qed

theorem startup_wires_every_topic_witness:
  "\<exists>s' b. startup sample_surroundings idle_handlers (new_service sample_db) = (Inr (), s') \<and> sv_bus s' = Some b \<and>
     fst (bus_receive b ''pgai.anomalies'' (Payload 3) (4, \<lparr>bc_consumed = 0, bc_errors = 0\<rparr>)) = 14"
  using startup_wires_every_topic [OF sample_starts [of idle_handlers sample_db], of 3 4 "\<lparr>bc_consumed = 0, bc_errors = 0\<rparr>"]
    sample_starts [of idle_handlers sample_db]
  by (auto simp: idle_handlers_def)

text \<open>
  A startup that fails leaves the startup probe at 503, and when the settings do not load nothing has
  been touched: no pool, no seeded row, no bus.  Without a key for the language model the service stops
  before any agent is subscribed, but the database is seeded, the pool is open and the bus is set.
\<close>

theorem failed_startup_is_not_announced:
  fixes u :: "('v, 'm) surroundings" and a :: "('p, 'w) agent_handlers"
  assumes "startup u a (new_service d) = (Inl x, s')"
  shows "startup_probe s' = (503, ''not_started'', ''pending'') \<and>
    (\<forall>y. load_settings (su_float u) (su_environ u) = Inl y \<longrightarrow> s' = new_service d \<and> x = y) \<and>
    (\<forall>st ix. load_settings (su_float u) (su_environ u) = Inr st \<longrightarrow> indexed u = Inr ix \<longrightarrow>
       su_fault u OpenPool = None \<longrightarrow> su_fault u SeedData = None \<longrightarrow> \<not> cf_llm_fake_mode st \<longrightarrow> cf_llm_api_key st = [] \<longrightarrow>
       x = missing_api_key \<and> sv_bus s' = Some new_bus \<and> sv_handle s' \<and> sv_pool s' \<and>
       sv_db s' = snd (seed_demo_data d))"
proof (intro conjI allI impI)
  show "startup_probe s' = (503, ''not_started'', ''pending'')"
    using failed_startup_is_incomplete [OF assms] by (simp add: startup_probe_def new_service_def)
next
  fix y assume y: "load_settings (su_float u) (su_environ u) = Inl y"
  note startup_without_settings [OF y, of a d]
  with assms show "s' = new_service d" "x = y" by simp_all
next
  fix st ix
  assume st: "load_settings (su_float u) (su_environ u) = Inr st" "indexed u = Inr ix" "su_fault u OpenPool = None"
    "su_fault u SeedData = None" "\<not> cf_llm_fake_mode st" "cf_llm_api_key st = []"
  let ?pre = "[settings_step u, pool_step u, seed_step u, bus_step, index_step u]"
  let ?z = "(new_service d :: ('p, 'w, 'v, 'm) service)\<lparr>sv_settings := Some st, sv_pool := True, sv_db := snd (seed_demo_data d),
     sv_bus := Some new_bus, sv_handle := True, sv_index := ix\<rparr>"
  have "configured u (new_service d :: ('p, 'w, 'v, 'm) service) = Inr st"
    by (simp add: configured_def get_settings_def new_service_def st(1))
  then have "run_steps ?pre (new_service d) = (Inr (), ?z)"
    by (simp add: run_ok settings_ok pool_ok seed_step_def io_ok bus_step_def index_ok is_ok_Inr st new_service_def
        del: run_steps.simps(2))
  moreover have "llm_step ?z = (Inl missing_api_key, ?z)"
    by (simp add: llm_step_def get_llm_client_def groq_client_def llm_settings_of_def st new_service_def)
  ultimately have "run_steps (?pre @ llm_step # gs) (new_service d) = (Inl missing_api_key, ?z)" for gs
    unfolding run_append [of ?pre] by simp
  then have "startup u a (new_service d) = (Inl missing_api_key, ?z)" by (simp add: startup_def wiring_def)
  with assms show "x = missing_api_key" "sv_bus s' = Some new_bus" "sv_handle s'" "sv_pool s'"
    "sv_db s' = snd (seed_demo_data d)" by auto
qed

theorem failed_startup_is_not_announced_witness:
  "\<exists>s'. startup (sample_surroundings\<lparr>su_environ := (\<lambda>_. None)\<rparr>) idle_handlers (new_service sample_db) =
      (Inl (missing_variable ''PGAI_DATABASE__HOST''), s') \<and> startup_probe s' = (503, ''not_started'', ''pending'')"
proof -
  let ?u = "sample_surroundings\<lparr>su_environ := (\<lambda>_. None)\<rparr>"
  have "load_settings (su_float ?u) (su_environ ?u) = Inl (missing_variable ''PGAI_DATABASE__HOST'')"
    by (simp add: load_settings_def required_var_def)
  then have "startup ?u idle_handlers (new_service sample_db) =
      (Inl (missing_variable ''PGAI_DATABASE__HOST''), new_service sample_db)"
    by (rule startup_without_settings)
  with failed_startup_is_not_announced [OF this] show ?thesis by blast
qed

text \<open>
  After the shutdown of a started service no task runs, the listener hears nothing, the pool is closed
  and the endpoints have no bus.  The startup probe still answers 200, and a second startup in the same
  process works on the settings of the first: a changed environment is not read.
\<close>

theorem shutdown_stops_the_service:
  assumes "startup u a s = (Inr (), s')"
  shows "(\<exists>b. sv_bus (shutdown s') = Some b \<and> bus_receive b tp m z = z) \<and> \<not> sv_handle (shutdown s') \<and>
    \<not> sv_pool (shutdown s') \<and> set (map snd (sv_tasks (shutdown s'))) = {False} \<and>
    startup_probe (shutdown s') = (200, ''started'', ''complete'') \<and>
    configured (u\<lparr>su_environ := e, su_float := flt\<rparr>) (shutdown s') = configured u s"
proof -
  have s': "s' = started u a s" and conf: "is_ok (configured u s)" using assms by (simp_all add: startup_ok)
  then obtain st where st: "configured u s = Inr st" by (auto simp: is_ok_iff)
  have "sv_settings (shutdown s') = Some st" by (simp add: s' shutdown_def started_def launched_def wired_def st)
  then have "configured (u\<lparr>su_environ := e, su_float := flt\<rparr>) (shutdown s') = configured u s"
    unfolding st by (simp add: configured_def get_settings_def)
  then show ?thesis
    by (auto simp: s' shutdown_def started_def launched_def wired_def bus_receive_def bus_stop_def startup_probe_def
        image_iff)
qed

theorem shutdown_stops_the_service_witness:
  "\<exists>s'. startup sample_surroundings idle_handlers (new_service sample_db) = (Inr (), s') \<and>
     startup_probe (shutdown s') = (200, ''started'', ''complete'')"
  using shutdown_stops_the_service [OF sample_starts [of idle_handlers sample_db]] sample_starts [of idle_handlers sample_db]
  by blast

text \<open>
  A subscription made while the listener runs is not heard when its topic is new: the broker is never
  told, a second start changes nothing, and only after a stop and a start do its messages arrive.
\<close>

theorem late_subscription_is_not_heard:
  assumes "bus_start fault b = (Inr (), b1)" "\<not> eb_running b" "tp \<notin> fst ` set (eb_handlers b)"
  shows "(let b2 = snd (bus_start fault (bus_subscribe tp h b1)) in bus_receive b2 tp (Payload p) (w, c) = (w, c)) \<and>
    fst (bus_receive (snd (bus_start (\<lambda>_. None) (bus_stop (bus_subscribe tp h b1)))) tp (Payload p) (w, c)) = snd (h p w)"
proof -
  have b1: "b1 = b\<lparr>eb_pubsub := Some (map fst (eb_handlers b)), eb_running := True, eb_listening := True\<rparr>"
    using assms(1) bus_start_ok [OF assms(2)] by simp
  have new: "map_of (eb_handlers b) tp = None" using assms(3) by (simp add: map_of_eq_None_iff)
  have sub: "tp \<in> fst ` set (subscribe tp h hs)" for hs :: "('a, 'b) bus_handlers" by (induction hs) force+
  have hs: "handlers_for tp (subscribe tp h (eb_handlers b)) = [h]"
    using new by (simp add: handlers_for_subscribe) (simp add: handlers_for_def)
  have "bus_start (\<lambda>_. None) (bus_stop (bus_subscribe tp h b1)) =
      (Inr (), (bus_stop (bus_subscribe tp h b1))\<lparr>eb_pubsub := Some (map fst (subscribe tp h (eb_handlers b))),
         eb_running := True, eb_listening := True\<rparr>)"
    using bus_start_ok [of "bus_stop (bus_subscribe tp h b1)" "\<lambda>_. None"]
    by (simp add: bus_stop_def bus_subscribe_def b1)
  moreover have "bus_start fault (bus_subscribe tp h b1) = (Inr (), bus_subscribe tp h b1)"
    by (simp add: bus_start_def bus_subscribe_def b1)
  ultimately show ?thesis
    using assms(3) sub [of "eb_handlers b"]
    by (simp add: Let_def bus_receive_def bus_subscribe_def bus_stop_def b1 dispatch_def run_handlers_state hs
        del: run_handlers.simps(2))
qed

theorem late_subscription_is_not_heard_witness:
  "\<exists>b1. bus_start (\<lambda>_. None) (new_bus :: (nat, nat) event_bus) = (Inr (), b1) \<and>
     (let b2 = snd (bus_start (\<lambda>_. None) (bus_subscribe ''t'' (\<lambda>p w. (None, w + p)) b1)) in
      bus_receive b2 ''t'' (Payload 1) (5, \<lparr>bc_consumed = 0, bc_errors = 0\<rparr>) = (5, \<lparr>bc_consumed = 0, bc_errors = 0\<rparr>))"
proof -
  let ?b1 = "(new_bus :: (nat, nat) event_bus)\<lparr>eb_pubsub := Some [], eb_running := True, eb_listening := True\<rparr>"
  have b1: "bus_start (\<lambda>_. None) new_bus = (Inr (), ?b1)" by (simp add: bus_start_def new_bus_def)
  from late_subscription_is_not_heard [OF b1, of "''t''"] b1 show ?thesis
    by (auto simp: new_bus_def)
qed

end
