(* ===== verification/Http.thy ===== *)
theory Http
  imports LlmClient
begin

text \<open>
  The HTTP middleware of the agent service: the request counters (\<open>app/api/metrics.py\<close>), the
  correlation identifier (\<open>app/api/middleware.py\<close>) with the log lines it marks
  (\<open>app/core/logging_config.py\<close>) and the order in which \<open>app/main.py\<close> puts them around the
  routes.  An ASGI application is what it sends for a request and the exception it raises, if any.
\<close>

section \<open>Requests and messages\<close>

text \<open>Header names are in lower case, as ASGI has them; a name may occur more than once.\<close>

record http_request =
  rq_type :: string
  rq_method :: string
  rq_path :: string
  rq_headers :: "(string \<times> string) list"

datatype asgi_message = ResponseStart "nat option" "(string \<times> string) list" | ResponseBody string

text \<open>A log line with the identifier it carries.\<close>

type_synonym log_line = "string \<times> string"

text \<open>
  An application runs under the correlation identifier of its context and gives its log lines, the
  messages it sends and the exception that leaves it.
\<close>

record asgi_run =
  ar_lines :: "log_line list"
  ar_sent :: "asgi_message list"
  ar_raised :: "exc option"

type_synonym asgi_app = "string \<Rightarrow> http_request \<Rightarrow> asgi_run"

section \<open>Request counters\<close>

record http_counts =
  hq_count :: "string \<times> string \<times> string \<Rightarrow> nat"
  hq_durations :: "string \<times> string \<Rightarrow> nat"

definition metric_paths :: "string list" where
  "metric_paths = [''/api/v1/health/live'', ''/api/v1/health/ready'', ''/api/v1/health/startup'', ''/metrics'']"

definition count_request :: "string \<Rightarrow> string \<Rightarrow> string \<Rightarrow> http_counts \<Rightarrow> http_counts" where
  "count_request m p code c =
     c\<lparr>hq_count := (hq_count c)((m, p, code) := hq_count c (m, p, code) + 1)\<rparr>"

definition observe_duration :: "string \<Rightarrow> string \<Rightarrow> http_counts \<Rightarrow> http_counts" where
  "observe_duration m p c = c\<lparr>hq_durations := (hq_durations c)((m, p) := hq_durations c (m, p) + 1)\<rparr>"

text \<open>\<open>_send_wrapper\<close>: the status of the last start that was sent, 500 before.\<close>

fun sent_status :: "string \<Rightarrow> asgi_message list \<Rightarrow> string" where
  "sent_status code [] = code"
| "sent_status code (ResponseStart st _ # ms) = sent_status (nat_str (case st of None \<Rightarrow> 500 | Some n \<Rightarrow> n)) ms"
| "sent_status code (ResponseBody _ # ms) = sent_status code ms"

text \<open>The raised exception is counted in the handler, and the status in the \<open>finally\<close> block.\<close>

definition metrics_middleware :: "asgi_app \<Rightarrow> string \<Rightarrow> http_request \<Rightarrow> http_counts \<Rightarrow> asgi_run \<times> http_counts" where
  "metrics_middleware app ctx r c =
     (let run = app ctx r; m = rq_method r; p = rq_path r in
      if rq_type r \<noteq> ''http'' \<or> p \<in> set metric_paths then (run, c)
      else (let c1 = (case ar_raised run of None \<Rightarrow> c | Some _ \<Rightarrow> count_request m p ''500'' c) in
            (run, count_request m p (sent_status ''500'' (ar_sent run)) (observe_duration m p c1))))"

section \<open>The correlation identifier\<close>

definition header_of :: "string \<Rightarrow> (string \<times> string) list \<Rightarrow> string option" where
  "header_of n hs = map_of hs n"

definition correlation_header :: string where
  "correlation_header = ''x-correlation-id''"

definition correlation_id :: "string \<Rightarrow> string option \<Rightarrow> string" where
  "correlation_id fresh incoming =
     (let x = py_strip (case incoming of None \<Rightarrow> [] | Some v \<Rightarrow> v) in if x \<noteq> [] then take 128 x else fresh)"

text \<open>
  \<open>response.headers[name] = value\<close> replaces the first header of that name and drops the others.
\<close>

fun set_header :: "string \<Rightarrow> string \<Rightarrow> (string \<times> string) list \<Rightarrow> (string \<times> string) list" where
  "set_header n v [] = [(n, v)]"
| "set_header n v ((k, x) # hs) = (if k = n then (k, v) # filter (\<lambda>h. fst h \<noteq> n) hs else (k, x) # set_header n v hs)"

text \<open>
  \<open>call_next\<close> raises what the application raised before its response started; once the response
  has started, its header is changed and its messages are passed on, with what is raised after it.
  An application that returns without a response makes \<open>call_next\<close> raise.  The line that ends the
  request is written last here; the lines of a response that is still being sent may follow it.
\<close>

fun mark_start :: "string \<Rightarrow> asgi_message list \<Rightarrow> asgi_message list" where
  "mark_start cid [] = []"
| "mark_start cid (ResponseStart st hs # ms) = ResponseStart st (set_header correlation_header cid hs) # ms"
| "mark_start cid (ResponseBody b # ms) = ResponseBody b # mark_start cid ms"

fun response_started :: "asgi_message list \<Rightarrow> bool" where
  "response_started [] = False"
| "response_started (ResponseStart _ _ # ms) = True"
| "response_started (ResponseBody _ # ms) = response_started ms"

definition started_line :: "http_request \<Rightarrow> string" where
  "started_line r = ''Request started '' @ rq_method r @ '' '' @ rq_path r"

definition finished_line :: "http_request \<Rightarrow> string \<Rightarrow> string" where
  "finished_line r code = ''Request finished '' @ rq_method r @ '' '' @ rq_path r @ '' status='' @ code"

definition correlation_middleware :: "string \<Rightarrow> asgi_app \<Rightarrow> asgi_app" where
  "correlation_middleware fresh app ctx r =
     (if rq_type r \<noteq> ''http'' then app ctx r
      else
        (let cid = correlation_id fresh (header_of correlation_header (rq_headers r)); run = app cid r;
             first = (started_line r, cid) in
         if response_started (ar_sent run) then
           \<lparr>ar_lines = first # ar_lines run @ [(finished_line r (sent_status ''500'' (ar_sent run)), cid)],
            ar_sent = mark_start cid (ar_sent run), ar_raised = ar_raised run\<rparr>
         else \<lparr>ar_lines = first # ar_lines run, ar_sent = [],
               ar_raised = Some (case ar_raised run of None \<Rightarrow> RuntimeError ''No response returned.'' | Some x \<Rightarrow> x)\<rparr>))"

text \<open>\<open>add_middleware\<close> puts the later middleware outside: the counters see what the correlation sends.\<close>

definition service_app :: "string \<Rightarrow> asgi_app \<Rightarrow> http_request \<Rightarrow> http_counts \<Rightarrow> asgi_run \<times> http_counts" where
  "service_app fresh routes r c = metrics_middleware (correlation_middleware fresh routes) ''-'' r c"

section \<open>Facts\<close>

lemma sent_status_mark [simp]: "sent_status code (mark_start cid ms) = sent_status code ms"
  by (induction cid ms arbitrary: code rule: mark_start.induct) simp_all

lemma header_of_set: "header_of n (set_header n v hs) = Some v"
  by (induction n v hs rule: set_header.induct) (simp_all add: header_of_def)

lemma header_of_set_other: "k \<noteq> n \<Longrightarrow> header_of k (set_header n v hs) = header_of k hs"
proof (induction n v hs rule: set_header.induct)
  case (2 n v k' x hs)
  have "map_of (filter (\<lambda>h. fst h \<noteq> n) hs) k = map_of hs k" using 2(2) by (induction hs) auto
  with 2 show ?case by (auto simp: header_of_def)
qed (simp add: header_of_def)

lemma mark_start_header:
  "response_started ms \<Longrightarrow> \<exists>pre st hs post. mark_start cid ms = pre @ ResponseStart st hs # post \<and>
     (\<forall>m\<in>set pre. \<exists>b. m = ResponseBody b) \<and> header_of correlation_header hs = Some cid"
proof (induction cid ms rule: mark_start.induct)
  case (2 cid st hs ms)
  show ?case by (intro exI [of _ "[]"]) (simp add: header_of_set)
next
  case (3 cid b ms)
  then obtain pre st hs post where "mark_start cid ms = pre @ ResponseStart st hs # post"
    "\<forall>m\<in>set pre. \<exists>b. m = ResponseBody b" "header_of correlation_header hs = Some cid" by auto
  then show ?case by (intro exI [of _ "ResponseBody b # pre"]) auto
qed simp

lemma correlation_id_length:
  assumes "1 \<le> length fresh" "length fresh \<le> 128"
  shows "1 \<le> length (correlation_id fresh v)" "length (correlation_id fresh v) \<le> 128"
  using assms by (auto simp: correlation_id_def Let_def Suc_le_eq)

lemma strip_no_space: "py_strip s \<noteq> [] \<Longrightarrow> \<not> is_space (hd (py_strip s)) \<and> \<not> is_space (last (py_strip s))"
  using py_strip_no_outer_space by (cases "py_strip s") auto

section \<open>Properties\<close>

text \<open>
  Every request outside the probes and the scrape is timed once.  One that is answered is counted
  once, under its status; one that ends in an exception before its response starts is counted twice
  under 500; and one that fails while its response is being sent is counted under its status and
  under 500.  No other counter moves.
\<close>

theorem failed_requests_are_counted_twice:
  assumes "rq_type r = ''http''" "rq_path r \<notin> set metric_paths" "service_app fresh routes r c = (run, c')"
    "inner = routes (correlation_id fresh (header_of correlation_header (rq_headers r))) r"
    "code = sent_status ''500'' (ar_sent inner)"
  shows "hq_durations c' = (hq_durations c)((rq_method r, rq_path r) := hq_durations c (rq_method r, rq_path r) + 1) \<and>
    (ar_raised inner = None \<and> response_started (ar_sent inner) \<longrightarrow>
       hq_count c' = (hq_count c)((rq_method r, rq_path r, code) := hq_count c (rq_method r, rq_path r, code) + 1)) \<and>
    (\<not> response_started (ar_sent inner) \<longrightarrow> ar_sent run = [] \<and>
       hq_count c' = (hq_count c)((rq_method r, rq_path r, ''500'') := hq_count c (rq_method r, rq_path r, ''500'') + 2)) \<and>
    (ar_raised inner \<noteq> None \<and> response_started (ar_sent inner) \<and> code \<noteq> ''500'' \<longrightarrow>
       hq_count c' = (hq_count c)((rq_method r, rq_path r, ''500'') := hq_count c (rq_method r, rq_path r, ''500'') + 1,
          (rq_method r, rq_path r, code) := hq_count c (rq_method r, rq_path r, code) + 1))"
  using assms
  by (auto simp: service_app_def metrics_middleware_def correlation_middleware_def Let_def count_request_def
      observe_duration_def fun_eq_iff split: option.splits if_splits)

definition broken_route :: asgi_app where
  "broken_route cid r = \<lparr>ar_lines = [(''working'', cid)], ar_sent = [], ar_raised = Some (ValueError ''x'')\<rparr>"

definition no_counts :: http_counts where
  "no_counts = \<lparr>hq_count = (\<lambda>_. 0), hq_durations = (\<lambda>_. 0)\<rparr>"

definition sample_request :: http_request where
  "sample_request = \<lparr>rq_type = ''http'', rq_method = ''GET'', rq_path = ''/x'', rq_headers = [(''x-correlation-id'', '' a '')]\<rparr>"

theorem failed_requests_are_counted_twice_witness:
  "\<exists>run c'. service_app ''f'' broken_route sample_request no_counts = (run, c') \<and>
     hq_count c' (''GET'', ''/x'', ''500'') = 2 \<and> ar_sent run = []"
proof -
  obtain run c' where run: "service_app ''f'' broken_route sample_request no_counts = (run, c')"
    by (cases "service_app ''f'' broken_route sample_request no_counts")
  have "rq_type sample_request = ''http''" "rq_path sample_request \<notin> set metric_paths"
    by (simp_all add: sample_request_def metric_paths_def)
  from failed_requests_are_counted_twice [OF this run refl refl] run show ?thesis
    by (auto simp: broken_route_def sample_request_def no_counts_def)
qed

text \<open>
  One identifier marks a request from end to end: it is the caller's, stripped and cut to 128
  characters, or the fresh one; every log line of the request carries it, and the answer returns it in
  its header, whatever header of that name the route had set.
\<close>

theorem correlation_identifier_is_carried:
  assumes "rq_type r = ''http''" "1 \<le> length fresh" "length fresh \<le> 128"
    "\<forall>ctx r. \<forall>l\<in>set (ar_lines (routes ctx r)). snd l = ctx"
    "cid = correlation_id fresh (header_of correlation_header (rq_headers r))"
    "response_started (ar_sent (routes cid r))"
  shows "1 \<le> length cid \<and> length cid \<le> 128 \<and>
    (let run = correlation_middleware fresh routes ctx r in
       (\<forall>l\<in>set (ar_lines run). snd l = cid) \<and>
       (\<exists>pre st hs post. ar_sent run = pre @ ResponseStart st hs # post \<and> header_of correlation_header hs = Some cid))"
proof -
  have run: "correlation_middleware fresh routes ctx r =
      \<lparr>ar_lines = (started_line r, cid) # ar_lines (routes cid r) @ [(finished_line r (sent_status ''500'' (ar_sent (routes cid r))), cid)],
       ar_sent = mark_start cid (ar_sent (routes cid r)), ar_raised = ar_raised (routes cid r)\<rparr>"
    using assms(1,6) by (simp add: correlation_middleware_def Let_def assms(5))
  have lines: "\<forall>l\<in>set (ar_lines (correlation_middleware fresh routes ctx r)). snd l = cid"
    unfolding run using assms(4) by auto
  have "\<exists>pre st hs post. ar_sent (correlation_middleware fresh routes ctx r) = pre @ ResponseStart st hs # post \<and>
      header_of correlation_header hs = Some cid"
    unfolding run using mark_start_header [OF assms(6), of cid] by auto
  with lines show ?thesis
    using correlation_id_length [OF assms(2,3)] unfolding assms(5) Let_def by blast
qed

definition sample_route :: asgi_app where
  "sample_route cid r = \<lparr>ar_lines = [(''working'', cid)], ar_sent = [ResponseStart (Some 200) [(''x-correlation-id'', ''other'')]], ar_raised = None\<rparr>"

theorem correlation_identifier_is_carried_witness:
  "\<exists>pre st hs post. ar_sent (correlation_middleware ''f'' sample_route ''-'' sample_request) = pre @ ResponseStart st hs # post \<and>
     header_of correlation_header hs = Some ''a''"
proof -
  have "py_strip '' a '' = ''a''" by code_simp
  then have cid: "''a'' = correlation_id ''f'' (header_of correlation_header (rq_headers sample_request))"
    by (simp add: correlation_id_def header_of_def correlation_header_def sample_request_def)
  have "rq_type sample_request = ''http''" by (simp add: sample_request_def)
  from correlation_identifier_is_carried [OF this _ _ _ cid, of sample_route] show ?thesis
    by (simp add: sample_route_def Let_def)
qed

text \<open>
  The identifier is stable from hop to hop as long as the caller's is not longer than 128 characters:
  a service that receives it uses the same one, whatever its own fresh one would be.
\<close>

theorem correlation_id_is_stable:
  assumes "length (py_strip v) \<le> 128" "fresh \<noteq> []" "length fresh \<le> 128" "py_strip fresh = fresh"
  shows "correlation_id other (Some (correlation_id fresh (Some v))) = correlation_id fresh (Some v)"
proof (cases "py_strip v = []")
  case False
  then have "py_strip (py_strip v) = py_strip v" using strip_no_space [of v] by (intro py_strip_id) auto
  with False assms(1) show ?thesis by (simp add: correlation_id_def Let_def)
qed (use assms in \<open>simp add: correlation_id_def Let_def\<close>)

theorem correlation_id_is_stable_witness:
  "correlation_id ''g'' (Some (correlation_id ''f'' (Some '' a b ''))) = correlation_id ''f'' (Some '' a b '')"
proof -
  have "length (py_strip '' a b '') \<le> 128" "py_strip ''f'' = ''f''" by code_simp+
  then show ?thesis by (intro correlation_id_is_stable) simp_all
qed

end
