(* ===== verification/TepData.thy ===== *)
theory TepData
  imports Config TepReplay Retrieval
begin

text \<open>
  The preparation of the replayed data (\<open>scripts/download_tep_data.py\<close>): the selection of the
  two runs from the \<open>small_tep\<close> mirror and the plan of the full download.  The CSV files are
  lists of rows; the archive and the network are outside, the converted workspaces are in
  \<open>Workspaces\<close>.
\<close>

section \<open>Reading the mirror\<close>

definition cell :: "string \<Rightarrow> csv_row \<Rightarrow> string result" where
  "cell name row = (case map_of row name of None \<Rightarrow> Inl (KeyError name) | Some s \<Rightarrow> Inr s)"

definition int_cell :: "string \<Rightarrow> csv_row \<Rightarrow> int result" where
  "int_cell name row = bindR (cell name row) (\<lambda>s.
     case py_int s of None \<Rightarrow> Inl (ValueError ''invalid literal for int() with base 10'') | Some n \<Rightarrow> Inr n)"

text \<open>\<open>label_of\<close>: the label of a run's sample; of two rows for one sample the later counts.\<close>

type_synonym labels = "((string \<times> int) \<times> int) list"

fun read_labels :: "csv_row list \<Rightarrow> labels result" where
  "read_labels [] = Inr []"
| "read_labels (r # rs) =
     bindR (cell ''run_id'' r) (\<lambda>i. bindR (int_cell ''sample'' r) (\<lambda>n. bindR (int_cell ''labels'' r) (\<lambda>l.
       bindR (read_labels rs) (\<lambda>ls. Inr (((i, n), l) # ls)))))"

definition label_at :: "labels \<Rightarrow> string \<Rightarrow> int \<Rightarrow> int" where
  "label_at ls i n = (case map_of (rev ls) (i, n) of None \<Rightarrow> 0 | Some l \<Rightarrow> l)"

text \<open>\<open>runs.setdefault(row["run_id"], []).append(row)\<close>\<close>

fun add_to_run :: "string \<Rightarrow> csv_row \<Rightarrow> (string \<times> csv_row list) list \<Rightarrow> (string \<times> csv_row list) list" where
  "add_to_run i row [] = [(i, [row])]"
| "add_to_run i row ((k, rows) # runs) =
     (if i = k then (k, rows @ [row]) # runs else (k, rows) # add_to_run i row runs)"

fun group_runs :: "csv_row list \<Rightarrow> (string \<times> csv_row list) list \<Rightarrow> (string \<times> csv_row list) list result" where
  "group_runs [] runs = Inr runs"
| "group_runs (r # rs) runs = bindR (cell ''run_id'' r) (\<lambda>i. group_runs rs (add_to_run i r runs))"

text \<open>The rows of a run with their sample numbers, sorted by them; the sort is stable.\<close>

fun with_samples :: "csv_row list \<Rightarrow> (int \<times> csv_row) list result" where
  "with_samples [] = Inr []"
| "with_samples (r # rs) = bindR (int_cell ''sample'' r) (\<lambda>n. bindR (with_samples rs) (\<lambda>ys. Inr ((n, r) # ys)))"

type_synonym run = "string \<times> (int \<times> csv_row) list"

fun sort_runs :: "(string \<times> csv_row list) list \<Rightarrow> run list result" where
  "sort_runs [] = Inr []"
| "sort_runs ((i, rows) # runs) =
     bindR (with_samples rows) (\<lambda>ys. bindR (sort_runs runs) (\<lambda>zs. Inr ((i, sort_key fst ys) # zs)))"

definition read_runs :: "csv_row list \<Rightarrow> run list result" where
  "read_runs dataset = bindR (group_runs dataset []) sort_runs"

section \<open>Selecting the runs\<close>

definition fault_number :: int where
  "fault_number = 4"

definition is_free_run :: "labels \<Rightarrow> run \<Rightarrow> bool" where
  "is_free_run ls r = list_all (\<lambda>x. label_at ls (fst r) (fst x) = 0) (snd r)"

definition is_fault_run :: "labels \<Rightarrow> run \<Rightarrow> bool" where
  "is_fault_run ls r = list_ex (\<lambda>x. label_at ls (fst r) (fst x) = fault_number) (snd r)"

definition lead :: int where
  "lead = 100"

definition onset_of :: "labels \<Rightarrow> run \<Rightarrow> int option" where
  "onset_of ls r = map_option fst (find (\<lambda>x. label_at ls (fst r) (fst x) = fault_number) (snd r))"

definition window_of :: "int \<Rightarrow> run \<Rightarrow> (int \<times> csv_row) list" where
  "window_of onset r = filter (\<lambda>x. onset - lead \<le> fst x) (snd r)"

record conversion =
  cn_free :: "csv_row list"
  cn_fault :: "csv_row list"
  cn_onset :: int

definition missing_runs :: "nat \<Rightarrow> exc" where
  "missing_runs n = OtherError (''small_tep mirror missing an all-zero run or a Fault-4 run; saw '' @ nat_str n @ '' runs'')"

text \<open>
  \<open>convert_small_tep\<close>: the runs in the order of their names; what it returns is written to
  \<open>fault_free_training.csv\<close> and \<open>fault_4_training.csv\<close>.  The row a run is chosen by gives
  its name, so \<open>fault_rows[0]["run_id"]\<close> is the name of the run.
\<close>

definition convert_small_tep :: "csv_row list \<Rightarrow> csv_row list \<Rightarrow> conversion result" where
  "convert_small_tep dataset labels =
     bindR (read_labels labels) (\<lambda>ls. bindR (read_runs dataset) (\<lambda>runs.
       let ordered = sort_key fst runs in
       case (find (is_free_run ls) ordered, find (is_fault_run ls) ordered) of
         (Some free, Some faulty) \<Rightarrow>
           (case onset_of ls faulty of
              None \<Rightarrow> Inl (OtherError ''StopIteration'')
            | Some onset \<Rightarrow>
                Inr \<lparr>cn_free = map snd (snd free), cn_fault = map snd (window_of onset faulty), cn_onset = onset\<rparr>)
       | _ \<Rightarrow> Inl (missing_runs (length runs))))"

section \<open>The plan of the download\<close>

text \<open>
  The files of \<open>data/tep\<close> by name.  \<open>tables\<close> says which tables the reader finds in a
  workspace, and \<open>downloads\<close> collects the workspaces that were fetched.
\<close>

record tep_dir =
  td_files :: "string list"
  td_downloads :: "string list"

definition download_plan :: "bool \<Rightarrow> (string \<times> string \<times> int option) list" where
  "download_plan with_testing =
     [(''TEP_FaultFree_Training.RData'', ''fault_free_training'', None),
      (''TEP_Faulty_Training.RData'', ''fault_4_training'', Some fault_number)] @
     (if with_testing then
        [(''TEP_FaultFree_Testing.RData'', ''fault_free_testing'', None),
         (''TEP_Faulty_Testing.RData'', ''fault_4_testing'', Some fault_number)]
      else [])"

definition csv_name :: "string \<Rightarrow> string" where
  "csv_name stem = stem @ ''.csv''"

text \<open>\<open>to_csv\<close> names its output after the table as soon as the workspace has more than one.\<close>

definition csv_names :: "string list \<Rightarrow> string \<Rightarrow> string list" where
  "csv_names tables stem =
     map (\<lambda>t. if length tables = 1 then csv_name stem else csv_name (stem @ ''__'' @ t)) tables"

text \<open>A workspace of more than a megabyte on the disk is not fetched again.\<close>

definition download_raw :: "(string \<Rightarrow> bool) \<Rightarrow> string \<Rightarrow> tep_dir \<Rightarrow> tep_dir" where
  "download_raw large name d =
     (if name \<in> set (td_files d) \<and> large name then d
      else d\<lparr>td_files := (if name \<in> set (td_files d) then td_files d else td_files d @ [name]),
             td_downloads := td_downloads d @ [name]\<rparr>)"

definition prepare_one ::
  "(string \<Rightarrow> bool) \<Rightarrow> (string \<Rightarrow> string list) \<Rightarrow> bool \<Rightarrow> string \<times> string \<times> int option \<Rightarrow> tep_dir \<Rightarrow> tep_dir" where
  "prepare_one large tables keep_raw item d =
     (case item of (raw, stem, _) \<Rightarrow>
        if csv_name stem \<in> set (td_files d) then d
        else (let d1 = download_raw large raw d;
                  d2 = d1\<lparr>td_files := td_files d1 @ filter (\<lambda>n. n \<notin> set (td_files d1)) (csv_names (tables raw) stem)\<rparr>
              in if keep_raw then d2 else d2\<lparr>td_files := filter (\<lambda>n. n \<noteq> raw) (td_files d2)\<rparr>))"

definition prepare_all ::
  "(string \<Rightarrow> bool) \<Rightarrow> (string \<Rightarrow> string list) \<Rightarrow> bool \<Rightarrow> bool \<Rightarrow> tep_dir \<Rightarrow> tep_dir" where
  "prepare_all large tables with_testing keep_raw d =
     fold (prepare_one large tables keep_raw) (download_plan with_testing) d"

section \<open>Facts\<close>

lemma with_samples_ok:
  "with_samples rows = Inr ys \<Longrightarrow> map snd ys = rows \<and> (\<forall>x\<in>set ys. int_cell ''sample'' (snd x) = Inr (fst x))"
proof (induction rows arbitrary: ys)
  case (Cons r rows)
  then obtain n zs where "int_cell ''sample'' r = Inr n" "with_samples rows = Inr zs" "ys = (n, r) # zs"
    by (auto simp: bindR_Inr_iff)
  with Cons.IH [OF this(2)] show ?case by simp
qed simp

text \<open>The rows of a run are the rows read so far that bear its name.\<close>

definition grouped :: "csv_row set \<Rightarrow> (string \<times> csv_row list) list \<Rightarrow> bool" where
  "grouped seen runs \<longleftrightarrow> distinct (map fst runs) \<and>
     (\<forall>r\<in>set runs. set (snd r) = {row \<in> seen. cell ''run_id'' row = Inr (fst r)}) \<and>
     (\<forall>row\<in>seen. \<exists>i\<in>fst ` set runs. cell ''run_id'' row = Inr i)"

lemma fst_add_to_run: "fst ` set (add_to_run i row runs) = insert i (fst ` set runs)"
  by (induction i row runs rule: add_to_run.induct) auto

lemma distinct_add_to_run: "distinct (map fst runs) \<Longrightarrow> distinct (map fst (add_to_run i row runs))"
proof (induction i row runs rule: add_to_run.induct)
  case (2 i row k rows runs)
  then show ?case
    using fst_add_to_run [of i row runs] by (auto simp flip: set_map)
qed simp

lemma add_to_run_sets:
  assumes "distinct (map fst runs)" "r \<in> set (add_to_run i row runs)"
  shows "(fst r \<noteq> i \<and> r \<in> set runs) \<or>
    (fst r = i \<and> (\<exists>xs. (i, xs) \<in> set runs \<and> set (snd r) = insert row (set xs))) \<or>
    (fst r = i \<and> i \<notin> fst ` set runs \<and> set (snd r) = {row})"
  using assms
proof (induction i row runs rule: add_to_run.induct)
  case (2 i row k rows runs)
  show ?case
  proof (cases "i = k")
    case True
    with 2(2,3) show ?thesis by (cases r) (auto simp: image_iff)
  next
    case False
    then have "r = (k, rows) \<or> r \<in> set (add_to_run i row runs)" using 2(3) by simp
    then show ?thesis
    proof
      assume "r \<in> set (add_to_run i row runs)"
      with 2(1) [OF False] 2(2) have "(fst r \<noteq> i \<and> r \<in> set runs) \<or>
          (fst r = i \<and> (\<exists>xs. (i, xs) \<in> set runs \<and> set (snd r) = insert row (set xs))) \<or>
          (fst r = i \<and> i \<notin> fst ` set runs \<and> set (snd r) = {row})" by simp
      with False show ?thesis by (elim disjE conjE exE) (auto simp only: set_simps insert_iff image_insert fst_conv)
    qed (use False in simp)
  qed
qed simp

lemma grouped_add:
  assumes "grouped seen runs" "cell ''run_id'' row = Inr i"
  shows "grouped (insert row seen) (add_to_run i row runs)"
proof -
  have g: "distinct (map fst runs)" "\<And>k xs. (k, xs) \<in> set runs \<Longrightarrow> set xs = {row \<in> seen. cell ''run_id'' row = Inr k}"
    "\<And>row. row \<in> seen \<Longrightarrow> \<exists>k\<in>fst ` set runs. cell ''run_id'' row = Inr k"
    using assms(1) by (auto simp: grouped_def)
  have "set (snd r) = {x \<in> insert row seen. cell ''run_id'' x = Inr (fst r)}" if "r \<in> set (add_to_run i row runs)" for r
    using add_to_run_sets [OF g(1) that]
  proof (elim disjE conjE exE)
    assume "fst r \<noteq> i" "r \<in> set runs"
    with g(2) [of "fst r" "snd r"] assms(2) show ?thesis by auto
  next
    fix xs assume "fst r = i" "(i, xs) \<in> set runs" "set (snd r) = insert row (set xs)"
    with g(2) [of i xs] assms(2) show ?thesis by auto
  next
    assume "fst r = i" "i \<notin> fst ` set runs" "set (snd r) = {row}"
    moreover have "cell ''run_id'' x \<noteq> Inr i" if "x \<in> seen" for x
      using g(3) [OF that] \<open>i \<notin> fst ` set runs\<close> by (elim bexE) (simp, metis)
    ultimately show ?thesis using assms(2) by auto
  qed
  moreover have "\<exists>k\<in>insert i (fst ` set runs). cell ''run_id'' x = Inr k" if "x \<in> insert row seen" for x
    using that g(3) [of x] assms(2) by blast
  ultimately show ?thesis
    unfolding grouped_def fst_add_to_run
    by (intro conjI ballI distinct_add_to_run [OF g(1)]) assumption+
qed

lemma group_runs_ok: "group_runs rows runs = Inr out \<Longrightarrow> grouped seen runs \<Longrightarrow> grouped (set rows \<union> seen) out"
proof (induction rows arbitrary: runs seen)
  case (Cons r rows)
  then obtain i where "cell ''run_id'' r = Inr i" "group_runs rows (add_to_run i r runs) = Inr out"
    by (auto simp: bindR_Inr_iff)
  with Cons.IH [OF this(2) grouped_add [OF Cons.prems(2) this(1)]] show ?case by simp
qed simp

text \<open>A run as it is read: the rows of its name, with their samples, in their order.\<close>

definition dataset_run :: "csv_row list \<Rightarrow> run \<Rightarrow> bool" where
  "dataset_run dataset r \<longleftrightarrow>
     set (map snd (snd r)) = {row \<in> set dataset. cell ''run_id'' row = Inr (fst r)} \<and>
     (\<forall>x\<in>set (snd r). int_cell ''sample'' (snd x) = Inr (fst x)) \<and> sorted (map fst (snd r))"

lemma sort_runs_ok:
  "sort_runs runs = Inr out \<Longrightarrow> r \<in> set out \<Longrightarrow>
     \<exists>rows ys. (fst r, rows) \<in> set runs \<and> with_samples rows = Inr ys \<and> snd r = sort_key fst ys"
proof (induction runs arbitrary: out)
  case (Cons g runs)
  obtain i rows where g: "g = (i, rows)" by (cases g)
  with Cons.prems obtain ys zs where "with_samples rows = Inr ys" "sort_runs runs = Inr zs" "out = (i, sort_key fst ys) # zs"
    by (auto simp: bindR_Inr_iff)
  with Cons.IH [OF this(2)] Cons.prems(2) g show ?case
    by (cases "r = (i, sort_key fst ys)") auto
qed simp

lemma read_runs_ok:
  assumes "read_runs dataset = Inr runs" "r \<in> set runs"
  shows "dataset_run dataset r"
proof -
  obtain groups where g: "group_runs dataset [] = Inr groups" "sort_runs groups = Inr runs"
    using assms(1) by (auto simp: read_runs_def bindR_Inr_iff)
  have all: "grouped (set dataset) groups" using group_runs_ok [OF g(1), of "{}"] by (simp add: grouped_def)
  obtain rows ys where r: "(fst r, rows) \<in> set groups" "with_samples rows = Inr ys" "snd r = sort_key fst ys"
    using sort_runs_ok [OF g(2) assms(2)] by blast
  have "set rows = {row \<in> set dataset. cell ''run_id'' row = Inr (fst r)}"
    using all r(1) by (auto simp: grouped_def)
  moreover have "set (map snd (snd r)) = snd ` set ys" "set (snd r) = set ys" by (simp_all add: r(3))
  moreover have "snd ` set ys = set rows" "\<forall>x\<in>set ys. int_cell ''sample'' (snd x) = Inr (fst x)"
    using with_samples_ok [OF r(2)] by (simp_all flip: set_map)
  ultimately show ?thesis unfolding dataset_run_def by (simp only: r(3) sorted_sort_key simp_thms)
qed

lemma find_mem: "find P xs = Some x \<Longrightarrow> x \<in> set xs \<and> P x"
  by (induction xs) (auto split: if_splits)

lemma convert_ok:
  assumes "convert_small_tep dataset labels = Inr c"
  obtains ls free faulty where "read_labels labels = Inr ls" "dataset_run dataset free" "dataset_run dataset faulty"
    "is_free_run ls free" "onset_of ls faulty = Some (cn_onset c)" "cn_free c = map snd (snd free)"
    "cn_fault c = map snd (window_of (cn_onset c) faulty)"
proof -
  obtain ls runs where ls: "read_labels labels = Inr ls" "read_runs dataset = Inr runs"
    and c: "(case (find (is_free_run ls) (sort_key fst runs), find (is_fault_run ls) (sort_key fst runs)) of
         (Some free, Some faulty) \<Rightarrow>
           (case onset_of ls faulty of
              None \<Rightarrow> Inl (OtherError ''StopIteration'')
            | Some onset \<Rightarrow>
                Inr \<lparr>cn_free = map snd (snd free), cn_fault = map snd (window_of onset faulty), cn_onset = onset\<rparr>)
       | _ \<Rightarrow> Inl (missing_runs (length runs))) = Inr c"
    using assms by (auto simp: convert_small_tep_def bindR_Inr_iff Let_def)
  then obtain free faulty where find: "find (is_free_run ls) (sort_key fst runs) = Some free"
    "find (is_fault_run ls) (sort_key fst runs) = Some faulty" by (auto split: option.splits)
  with c have "onset_of ls faulty = Some (cn_onset c)" "cn_free c = map snd (snd free)"
    "cn_fault c = map snd (window_of (cn_onset c) faulty)" by (auto split: option.splits)
  moreover have "free \<in> set runs" "faulty \<in> set runs" "is_free_run ls free"
    using find_mem [OF find(1)] find_mem [OF find(2)] by simp_all
  ultimately show thesis using that ls read_runs_ok [OF ls(2)] by blast
qed

text \<open>Before the onset no sample of the run has the fault's label.\<close>

lemma onset_first:
  assumes "onset_of ls r = Some n" "sorted (map fst (snd r))"
  shows "\<exists>x\<in>set (snd r). fst x = n \<and> label_at ls (fst r) n = fault_number"
    "\<And>x. x \<in> set (snd r) \<Longrightarrow> fst x < n \<Longrightarrow> label_at ls (fst r) (fst x) \<noteq> fault_number"
proof -
  obtain k where k: "k < length (snd r)" "label_at ls (fst r) (fst (snd r ! k)) = fault_number" "n = fst (snd r ! k)"
    "\<And>j. j < k \<Longrightarrow> label_at ls (fst r) (fst (snd r ! j)) \<noteq> fault_number"
    using assms(1) by (auto simp: onset_of_def find_Some_iff) (metis fst_conv)
  then show "\<exists>x\<in>set (snd r). fst x = n \<and> label_at ls (fst r) n = fault_number" using nth_mem [OF k(1)] by blast
  fix x assume "x \<in> set (snd r)" "fst x < n"
  then obtain j where j: "j < length (snd r)" "x = snd r ! j" by (auto simp: in_set_conv_nth)
  have "j < k"
  proof (rule ccontr)
    assume "\<not> j < k"
    then have "fst (snd r ! k) \<le> fst (snd r ! j)"
      using sorted_nth_mono [OF assms(2), of k j] j(1) by simp
    with \<open>fst x < n\<close> j(2) k(3) show False by simp
  qed
  with k(4) j(2) show "label_at ls (fst r) (fst x) \<noteq> fault_number" by blast
qed

text \<open>The rows of the fault file, in the order of their samples.\<close>

lemma window_rows:
  assumes "dataset_run dataset r"
  shows "row \<in> set (map snd (window_of n r)) \<longleftrightarrow>
      (row \<in> set dataset \<and> cell ''run_id'' row = Inr (fst r) \<and> (\<exists>m. int_cell ''sample'' row = Inr m \<and> n - lead \<le> m))"
    "sorted (map fst (window_of n r))" "\<forall>x\<in>set (window_of n r). int_cell ''sample'' (snd x) = Inr (fst x)"
proof -
  have rows: "set (map snd (snd r)) = {row \<in> set dataset. cell ''run_id'' row = Inr (fst r)}"
    and samples: "\<forall>x\<in>set (snd r). int_cell ''sample'' (snd x) = Inr (fst x)" and order: "sorted (map fst (snd r))"
    using assms by (simp_all add: dataset_run_def)
  show "sorted (map fst (window_of n r))" using order by (simp add: window_of_def sorted_filter)
  show "\<forall>x\<in>set (window_of n r). int_cell ''sample'' (snd x) = Inr (fst x)" using samples by (simp add: window_of_def)
  have "row \<in> set (map snd (window_of n r)) \<longleftrightarrow>
      (\<exists>x\<in>set (snd r). row = snd x \<and> n - lead \<le> fst x)" by (auto simp: window_of_def)
  also have "\<dots> \<longleftrightarrow> (row \<in> set (map snd (snd r)) \<and> (\<exists>m. int_cell ''sample'' row = Inr m \<and> n - lead \<le> m))"
  proof
    assume "row \<in> set (map snd (snd r)) \<and> (\<exists>m. int_cell ''sample'' row = Inr m \<and> n - lead \<le> m)"
    then obtain x m where "x \<in> set (snd r)" "row = snd x" "int_cell ''sample'' row = Inr m" "n - lead \<le> m" by auto
    with samples show "\<exists>x\<in>set (snd r). row = snd x \<and> n - lead \<le> fst x" by auto
  qed (use samples in auto)
  finally show "row \<in> set (map snd (window_of n r)) \<longleftrightarrow>
      (row \<in> set dataset \<and> cell ''run_id'' row = Inr (fst r) \<and> (\<exists>m. int_cell ''sample'' row = Inr m \<and> n - lead \<le> m))"
    unfolding rows by simp
qed

lemma free_rows:
  assumes "dataset_run dataset r"
  shows "row \<in> set (map snd (snd r)) \<longleftrightarrow> row \<in> set dataset \<and> cell ''run_id'' row = Inr (fst r)"
  using assms by (auto simp: dataset_run_def)

section \<open>Properties\<close>

text \<open>
  The conversion selects the runs it promises.  The fault-free file holds all rows of one run, and no
  sample of it bears another label than 0; the fault file holds the rows of one run from 100 samples
  before the onset on, in the order of their samples; the onset is a sample of that run with the
  fault's label, and no sample before it has that label.
\<close>

theorem mirror_runs_are_what_they_claim:
  assumes "convert_small_tep dataset labels = Inr c"
  shows "\<exists>ls i j. read_labels labels = Inr ls \<and>
    set (cn_free c) = {row \<in> set dataset. cell ''run_id'' row = Inr i} \<and>
    (\<forall>row\<in>set (cn_free c). \<exists>n. int_cell ''sample'' row = Inr n \<and> label_at ls i n = 0) \<and>
    set (cn_fault c) = {row \<in> set dataset. cell ''run_id'' row = Inr j \<and>
       (\<exists>n. int_cell ''sample'' row = Inr n \<and> cn_onset c - 100 \<le> n)} \<and>
    sorted_wrt (\<lambda>x y. \<exists>m n. int_cell ''sample'' x = Inr m \<and> int_cell ''sample'' y = Inr n \<and> m \<le> n) (cn_fault c) \<and>
    (\<exists>row\<in>set (cn_fault c). int_cell ''sample'' row = Inr (cn_onset c)) \<and> label_at ls j (cn_onset c) = 4 \<and>
    (\<forall>row\<in>set (cn_fault c). \<forall>n. int_cell ''sample'' row = Inr n \<longrightarrow> n < cn_onset c \<longrightarrow> label_at ls j n \<noteq> 4)"
proof -
  obtain ls free faulty where c: "read_labels labels = Inr ls" "dataset_run dataset free" "dataset_run dataset faulty"
    "is_free_run ls free" "onset_of ls faulty = Some (cn_onset c)" "cn_free c = map snd (snd free)"
    "cn_fault c = map snd (window_of (cn_onset c) faulty)" by (rule convert_ok [OF assms])
  have "\<forall>row\<in>set (cn_free c). \<exists>n. int_cell ''sample'' row = Inr n \<and> label_at ls (fst free) n = 0"
    using c(2,4) by (force simp: c(6) dataset_run_def is_free_run_def list_all_iff)
  moreover have "set (cn_free c) = {row \<in> set dataset. cell ''run_id'' row = Inr (fst free)}"
    using free_rows [OF c(2)] unfolding c(6) by blast
  moreover have "set (cn_fault c) = {row \<in> set dataset. cell ''run_id'' row = Inr (fst faulty) \<and>
       (\<exists>n. int_cell ''sample'' row = Inr n \<and> cn_onset c - 100 \<le> n)}"
    using window_rows(1) [OF c(3)] unfolding c(7) lead_def by blast
  moreover have "sorted_wrt (\<lambda>x y. \<exists>m n. int_cell ''sample'' x = Inr m \<and> int_cell ''sample'' y = Inr n \<and> m \<le> n) (cn_fault c)"
    using window_rows(2,3) [OF c(3), of "cn_onset c"] unfolding c(7) sorted_map sorted_wrt_map
    by (elim sorted_wrt_mono_rel [rotated]) simp
  moreover have first: "\<exists>x\<in>set (snd faulty). fst x = cn_onset c" "label_at ls (fst faulty) (cn_onset c) = 4"
    "\<forall>x\<in>set (snd faulty). fst x < cn_onset c \<longrightarrow> label_at ls (fst faulty) (fst x) \<noteq> 4"
    using onset_first [OF c(5)] c(3) by (auto simp: dataset_run_def fault_number_def)
  moreover have "\<exists>row\<in>set (cn_fault c). int_cell ''sample'' row = Inr (cn_onset c)"
    using first(1) c(3) unfolding c(7) window_of_def lead_def by (auto simp: dataset_run_def)
  moreover have "\<forall>row\<in>set (cn_fault c). \<forall>n. int_cell ''sample'' row = Inr n \<longrightarrow> n < cn_onset c \<longrightarrow> label_at ls (fst faulty) n \<noteq> 4"
    using first(3) c(3) unfolding c(7) window_of_def by (auto simp: dataset_run_def)
  ultimately show ?thesis
    using c(1) by (intro exI [of _ ls] exI [of _ "fst free"] exI [of _ "fst faulty"] conjI) assumption+
qed

text \<open>A mirror of two runs, the second with the fault at its second sample.\<close>

definition mirror_row :: "string \<Rightarrow> string \<Rightarrow> csv_row" where
  "mirror_row i n = [(''run_id'', i), (''sample'', n)]"

definition sample_mirror :: "csv_row list" where
  "sample_mirror = [mirror_row ''2'' ''161'', mirror_row ''1'' ''1'', mirror_row ''2'' ''150'']"

definition sample_labels :: "csv_row list" where
  "sample_labels = [[(''run_id'', ''2''), (''sample'', ''161''), (''labels'', ''4'')]]"

definition sample_conversion :: conversion where
  "sample_conversion =
     \<lparr>cn_free = [mirror_row ''1'' ''1''], cn_fault = [mirror_row ''2'' ''150'', mirror_row ''2'' ''161''], cn_onset = 161\<rparr>"

lemma sample_converts: "convert_small_tep sample_mirror sample_labels = Inr sample_conversion"
  by code_simp

theorem mirror_runs_are_what_they_claim_witness:
  "\<exists>row\<in>set (cn_fault sample_conversion). int_cell ''sample'' row = Inr 161"
proof -
  have "cn_onset sample_conversion = 161" by (simp add: sample_conversion_def)
  with mirror_runs_are_what_they_claim [OF sample_converts] show ?thesis by auto
qed

lemma first_sample_found:
  assumes "\<exists>row\<in>set rows. \<exists>n. sample_of flt row = Some n \<and> n \<ge> fault_onset_sample - fault_lead_in"
  shows "\<exists>k. first_sample_from flt i rows = Some (i + k) \<and> k < length rows \<and>
    (\<exists>n. sample_of flt (rows ! k) = Some n \<and> n \<ge> fault_onset_sample - fault_lead_in) \<and>
    (\<forall>j<k. \<forall>n. sample_of flt (rows ! j) = Some n \<longrightarrow> n < fault_onset_sample - fault_lead_in)"
  using assms
proof (induction rows arbitrary: i)
  case (Cons row rows)
  show ?case
  proof (cases "\<exists>n. sample_of flt row = Some n \<and> n \<ge> fault_onset_sample - fault_lead_in")
    case True
    then show ?thesis by (intro exI [of _ 0]) auto
  next
    case False
    then have "\<exists>row\<in>set rows. \<exists>n. sample_of flt row = Some n \<and> n \<ge> fault_onset_sample - fault_lead_in"
      using Cons.prems by auto
    from Cons.IH [OF this, of "Suc i"] obtain k where k: "first_sample_from flt (Suc i) rows = Some (Suc i + k)" "k < length rows"
      "\<exists>n. sample_of flt (rows ! k) = Some n \<and> n \<ge> fault_onset_sample - fault_lead_in"
      "\<forall>j<k. \<forall>n. sample_of flt (rows ! j) = Some n \<longrightarrow> n < fault_onset_sample - fault_lead_in" by blast
    have "first_sample_from flt i (row # rows) = Some (i + Suc k)"
      using False k(1) by (auto split: option.split)
    moreover have "\<forall>j<Suc k. \<forall>n. sample_of flt ((row # rows) ! j) = Some n \<longrightarrow> n < fault_onset_sample - fault_lead_in"
      using k(4) False by (auto simp: less_Suc_eq_0_disj not_le)
    ultimately show ?thesis using k(2,3) by (intro exI [of _ "Suc k"]) auto
  qed
qed simp

text \<open>
  From the converted mirror the replay starts just before its fault.  Where the onset is at sample 161,
  as the engine expects, and \<open>float\<close> agrees with \<open>int\<close> on the sample numbers, a trigger puts
  the cursor on a row of the fault file whose sample lies between 141 and 161; every row before it is
  earlier than sample 141.
\<close>

theorem replay_of_the_mirror_starts_before_the_fault:
  assumes "convert_small_tep dataset labels = Inr c" "cn_onset c = fault_onset_sample"
    "\<And>row n. row \<in> set dataset \<Longrightarrow> int_cell ''sample'' row = Inr n \<Longrightarrow> sample_of flt row = Some n"
  shows "(let e = trigger_fault flt now (load_data (Some (cn_free c)) (Some (cn_fault c)) (new_engine ss)) in
     tp_fault_idx e < length (tp_fault e) \<and>
     (\<exists>n. sample_of flt (tp_fault e ! tp_fault_idx e) = Some n \<and> 141 \<le> n \<and> n \<le> 161) \<and>
     (\<forall>k<tp_fault_idx e. \<forall>n. sample_of flt (tp_fault e ! k) = Some n \<longrightarrow> n < 141))"
proof -
  obtain ls free faulty where c: "read_labels labels = Inr ls" "dataset_run dataset free" "dataset_run dataset faulty"
    "is_free_run ls free" "onset_of ls faulty = Some (cn_onset c)" "cn_free c = map snd (snd free)"
    "cn_fault c = map snd (window_of (cn_onset c) faulty)" by (rule convert_ok [OF assms(1)])
  let ?w = "window_of (cn_onset c) faulty"
  have samples: "sample_of flt (snd x) = Some (fst x)" if "x \<in> set ?w" for x
  proof -
    have "snd x \<in> set (map snd ?w)" "int_cell ''sample'' (snd x) = Inr (fst x)"
      using that window_rows(3) [OF c(3), of "cn_onset c"] by simp_all
    with window_rows(1) [OF c(3)] assms(3) show ?thesis by blast
  qed
  obtain x where x: "x \<in> set ?w" "fst x = 161"
    using onset_first(1) [OF c(5)] c(3) assms(2) by (auto simp: window_of_def lead_def dataset_run_def fault_onset_sample_def)
  then obtain p where p: "p < length ?w" "?w ! p = x" by (auto simp: in_set_conv_nth)
  have "\<exists>row\<in>set (cn_fault c). \<exists>n. sample_of flt row = Some n \<and> n \<ge> fault_onset_sample - fault_lead_in"
    using x samples [OF x(1)] unfolding c(7)
    by (intro bexI [of _ "snd x"]) (simp_all add: fault_onset_sample_def fault_lead_in_def)
  from first_sample_found [OF this, of 0] obtain k where k: "first_sample_from flt 0 (cn_fault c) = Some k" "k < length ?w"
    "\<exists>n. sample_of flt (cn_fault c ! k) = Some n \<and> n \<ge> 141"
    "\<forall>j<k. \<forall>n. sample_of flt (cn_fault c ! j) = Some n \<longrightarrow> n < 141"
    by (auto simp: fault_onset_sample_def fault_lead_in_def c(7))
  have row: "sample_of flt (cn_fault c ! j) = Some (fst (?w ! j))" if "j < length ?w" for j
    using that samples by (simp add: c(7))
  have "k \<le> p"
  proof (rule ccontr)
    assume "\<not> k \<le> p"
    then have "fst (?w ! p) < 141" using k(4) row [OF p(1)] by (meson not_le)
    with p(2) x(2) show False by simp
  qed
  then have "fst (?w ! k) \<le> 161"
    using sorted_nth_mono [OF window_rows(2) [OF c(3)], of k p "cn_onset c"] p x(2) by simp
  moreover have "141 \<le> fst (?w ! k)" using k(3) row [OF k(2)] by auto
  ultimately show ?thesis
    using k row [OF k(2)] by (simp add: Let_def trigger_fault_def load_data_def fault_start_index_def c(7) new_engine_def)
qed

definition mirror_float :: "string \<Rightarrow> real option" where
  "mirror_float s = map_option of_int (py_int s)"

theorem replay_of_the_mirror_starts_before_the_fault_witness:
  "tp_fault_idx (trigger_fault mirror_float 0 (load_data (Some (cn_free sample_conversion)) (Some (cn_fault sample_conversion)) (new_engine []))) < 2"
proof -
  have "cn_onset sample_conversion = fault_onset_sample" by (simp add: sample_conversion_def fault_onset_sample_def)
  moreover have "sample_of mirror_float row = Some n" if "int_cell ''sample'' row = Inr n" for row n
    using that by (auto simp: int_cell_def cell_def sample_of_def mirror_float_def bindR_Inr_iff py_trunc_def split: option.splits)
  ultimately show ?thesis
    using replay_of_the_mirror_starts_before_the_fault [OF sample_converts, of mirror_float 0 "[]"]
    by (simp add: Let_def trigger_fault_def load_data_def new_engine_def sample_conversion_def)
qed

text \<open>
  A run without any label counts as fault-free: the file the detector is calibrated on is whatever run
  comes first by name and has no row in the label file.
\<close>

theorem unlabelled_run_counts_as_fault_free:
  assumes "\<And>n. map_of (rev ls) (fst r, n) = None"
  shows "is_free_run ls r"
  using assms by (simp add: is_free_run_def label_at_def list_all_iff)

theorem unlabelled_run_counts_as_fault_free_witness: "is_free_run [] (''1'', [(1, mirror_row ''1'' ''1'')])"
  using unlabelled_run_counts_as_fault_free [of "[]"] by simp

lemma csv_present: "csv_name stem \<in> set (td_files d) \<Longrightarrow> prepare_one large tables keep_raw (raw, stem, f) d = d"
  by (simp add: prepare_one_def)

lemma csv_kept: "n \<in> set (td_files d) \<Longrightarrow> n \<noteq> fst item \<Longrightarrow> n \<in> set (td_files (prepare_one large tables keep_raw item d))"
  by (cases item) (auto simp: prepare_one_def download_raw_def Let_def)

lemma csv_made:
  "length (tables raw) = 1 \<Longrightarrow> csv_name stem \<noteq> raw \<Longrightarrow>
     csv_name stem \<in> set (td_files (prepare_one large tables keep_raw (raw, stem, f) d))"
  by (cases "tables raw") (auto simp: prepare_one_def download_raw_def csv_names_def Let_def)

lemma csv_name_neq: "last raw \<noteq> CHR ''v'' \<Longrightarrow> csv_name stem \<noteq> raw"
  by (auto simp: csv_name_def)

text \<open>
  Where every workspace has one table, a second run of the preparation changes nothing and fetches
  nothing, with or without the testing data and the raw files.
\<close>

theorem second_run_changes_nothing:
  assumes "\<forall>raw. length (tables raw) = 1"
  shows "prepare_all large tables with_testing keep_raw (prepare_all large tables with_testing keep_raw d) =
    prepare_all large tables with_testing keep_raw d"
proof -
  have one: "length (tables raw) = 1" for raw using assms by blast
  show ?thesis
    by (cases with_testing)
      (simp_all add: prepare_all_def download_plan_def csv_present csv_kept csv_made one csv_name_neq del: One_nat_def)
qed

theorem second_run_changes_nothing_witness:
  "prepare_all (\<lambda>_. True) (\<lambda>_. [''t'']) True False
     (prepare_all (\<lambda>_. True) (\<lambda>_. [''t'']) True False \<lparr>td_files = [], td_downloads = []\<rparr>) =
   prepare_all (\<lambda>_. True) (\<lambda>_. [''t'']) True False \<lparr>td_files = [], td_downloads = []\<rparr>"
  by (rule second_run_changes_nothing) simp

text \<open>
  A workspace with several tables is fetched again by every run: its tables go to files named after
  them, and the file the plan looks for never appears.
\<close>

theorem several_tables_are_fetched_again:
  assumes "2 \<le> length (tables raw)" "csv_name stem \<notin> set (td_files d)" "csv_name stem \<noteq> raw"
  shows "let d' = prepare_one large tables False (raw, stem, f) d in
    csv_name stem \<notin> set (td_files d') \<and>
    td_downloads (prepare_one large tables False (raw, stem, f) d') = td_downloads d' @ [raw]"
proof -
  have other: "csv_name stem \<notin> set (csv_names (tables raw) stem)"
    using assms(1) by (auto simp: csv_names_def csv_name_def)
  show ?thesis
    using assms other by (auto simp: Let_def prepare_one_def download_raw_def)
qed

theorem several_tables_are_fetched_again_witness:
  "td_downloads (prepare_one (\<lambda>_. True) (\<lambda>_. [''a'', ''b'']) False (''x.RData'', ''x'', None)
     (prepare_one (\<lambda>_. True) (\<lambda>_. [''a'', ''b'']) False (''x.RData'', ''x'', None) \<lparr>td_files = [], td_downloads = []\<rparr>)) =
   [''x.RData'', ''x.RData'']"
  using several_tables_are_fetched_again [of "\<lambda>_. [''a'', ''b'']" "''x.RData''" "''x''" "\<lparr>td_files = [], td_downloads = []\<rparr>" "\<lambda>_. True" None]
  by (simp add: Let_def csv_name_def) (simp add: prepare_one_def download_raw_def csv_name_def Let_def)

end
