(* ===== verification/Workspaces.thy ===== *)
theory Workspaces
  imports TepData
begin

text \<open>
  The conversion of a downloaded workspace (\<open>to_csv\<close> of \<open>scripts/download_tep_data.py\<close>).  A
  workspace is what the R reader gives: tables by name, each with its columns and its rows of
  numbers.
\<close>

section \<open>Tables\<close>

type_synonym frame_row = "(string \<times> real) list"

record frame =
  fr_columns :: "string list"
  fr_rows :: "frame_row list"

text \<open>\<open>c.lower().replace(" ", "")\<close>\<close>

definition column_key :: "string \<Rightarrow> string" where
  "column_key c = filter (\<lambda>x. x \<noteq> CHR '' '') (py_lower c)"

definition fault_column :: "frame \<Rightarrow> string option" where
  "fault_column f = find (\<lambda>c. column_key c \<in> {''faultnumber'', ''fault_number''}) (fr_columns f)"

definition has_fault :: "int \<Rightarrow> string \<Rightarrow> frame_row \<Rightarrow> bool" where
  "has_fault n c row \<longleftrightarrow> map_of row c = Some (real_of_int n)"

definition no_fault_column :: "string \<Rightarrow> string \<Rightarrow> frame \<Rightarrow> exc" where
  "no_fault_column raw name f = OtherError
     (raw @ '':'' @ name @ '' has no fault number column; columns: ['' @
      py_join '', '' (map py_repr (take 10 (fr_columns f))) @ '']'')"

definition select_fault :: "string \<Rightarrow> string \<Rightarrow> int option \<Rightarrow> frame \<Rightarrow> frame result" where
  "select_fault raw name fault f =
     (case fault of
        None \<Rightarrow> Inr f
      | Some n \<Rightarrow>
          (case fault_column f of
             None \<Rightarrow> Inl (no_fault_column raw name f)
           | Some c \<Rightarrow> Inr (f\<lparr>fr_rows := filter (has_fault n c) (fr_rows f)\<rparr>)))"

definition is_run_column :: "string \<Rightarrow> bool" where
  "is_run_column c \<longleftrightarrow> column_key c = ''simulationrun''"

definition without_run :: "frame_row \<Rightarrow> frame_row" where
  "without_run row = filter (\<lambda>x. \<not> is_run_column (fst x)) row"

definition drop_runs :: "frame \<Rightarrow> frame" where
  "drop_runs f = f\<lparr>fr_columns := filter (\<lambda>c. \<not> is_run_column c) (fr_columns f), fr_rows := map without_run (fr_rows f)\<rparr>"

section \<open>Writing\<close>

text \<open>The files of the directory; a table of a workspace with more than one gets its name into the file name.\<close>

type_synonym csv_files = "string \<Rightarrow> frame option"

definition csv_target :: "string \<Rightarrow> bool \<Rightarrow> string \<Rightarrow> string" where
  "csv_target stem single name = (if single then csv_name stem else csv_name (stem @ ''__'' @ name))"

fun write_tables ::
  "string \<Rightarrow> string \<Rightarrow> bool \<Rightarrow> int option \<Rightarrow> (string \<times> frame) list \<Rightarrow> nat \<Rightarrow> csv_files \<Rightarrow> nat result \<times> csv_files" where
  "write_tables raw stem single fault [] k files = (Inr k, files)"
| "write_tables raw stem single fault ((name, f) # tables) k files =
     (case select_fault raw name fault f of
        Inl e \<Rightarrow> (Inl e, files)
      | Inr g \<Rightarrow> write_tables raw stem single fault tables (k + length (fr_rows g))
                 (files(csv_target stem single name \<mapsto> drop_runs g)))"

definition to_csv ::
  "string \<Rightarrow> string \<Rightarrow> int option \<Rightarrow> (string \<times> frame) list \<Rightarrow> csv_files \<Rightarrow> nat result \<times> csv_files" where
  "to_csv raw stem fault tables files = write_tables raw stem (length tables = 1) fault tables 0 files"

section \<open>Facts\<close>

lemma csv_target_names: "map (csv_target stem (length tables = 1)) tables = csv_names tables stem"
  by (simp add: csv_names_def csv_target_def)

lemma csv_target_inj: "csv_target stem single a = csv_target stem single b \<Longrightarrow> single \<or> a = b"
  by (auto simp: csv_target_def csv_name_def split: if_splits)

text \<open>The rows a table contributes.\<close>

definition kept_rows :: "int option \<Rightarrow> frame \<Rightarrow> frame_row list" where
  "kept_rows fault f =
     (case fault of
        None \<Rightarrow> fr_rows f
      | Some n \<Rightarrow> filter (\<lambda>r. \<exists>c. fault_column f = Some c \<and> has_fault n c r) (fr_rows f))"

lemma select_fault_rows: "select_fault raw name fault f = Inr g \<Longrightarrow> fr_rows g = kept_rows fault f \<and> fr_columns g = fr_columns f"
  by (auto simp: select_fault_def kept_rows_def split: option.splits)

lemma write_tables_other:
  "write_tables raw stem single fault tables k files = (r, out) \<Longrightarrow> n \<notin> csv_target stem single ` fst ` set tables \<Longrightarrow> out n = files n"
  by (induction raw stem single fault tables k files rule: write_tables.induct) (auto split: sum.splits)

lemma write_tables_ok:
  "write_tables raw stem single fault tables k files = (Inr m, out) \<Longrightarrow>
     distinct (map (csv_target stem single) (map fst tables)) \<Longrightarrow>
     m = k + sum_list (map (\<lambda>(n, f). length (kept_rows fault f)) tables) \<and>
     (\<forall>(n, f)\<in>set tables. \<exists>g. out (csv_target stem single n) = Some g \<and>
        fr_rows g = map without_run (kept_rows fault f) \<and> fr_columns g = filter (\<lambda>c. \<not> is_run_column c) (fr_columns f))"
proof (induction raw stem single fault tables k files rule: write_tables.induct)
  case (2 raw stem single fault name f tables k files)
  from 2(2) obtain g where g: "select_fault raw name fault f = Inr g"
    and rest: "write_tables raw stem single fault tables (k + length (fr_rows g))
      (files(csv_target stem single name \<mapsto> drop_runs g)) = (Inr m, out)"
    by (auto split: sum.splits)
  have "out (csv_target stem single name) = Some (drop_runs g)"
    using write_tables_other [OF rest, of "csv_target stem single name"] 2(3) by (simp add: image_image)
  then have "\<exists>h. out (csv_target stem single name) = Some h \<and> fr_rows h = map without_run (kept_rows fault f) \<and>
      fr_columns h = filter (\<lambda>c. \<not> is_run_column c) (fr_columns f)"
    using select_fault_rows [OF g] by (simp add: drop_runs_def)
  with 2(1) [OF g rest] 2(3) select_fault_rows [OF g] show ?case by simp
qed simp

section \<open>Properties\<close>

text \<open>
  A conversion that succeeds writes one file for each table, with the names the plan expects, and
  touches no other.  A file holds the rows of its table in their order, for a faulty workspace those of the fault
  only, without the column of the simulation run; the answer is their number.
\<close>

theorem conversion_writes_the_selected_rows:
  assumes "to_csv raw stem fault tables files = (Inr k, out)" "distinct (map fst tables)"
  shows "k = sum_list (map (\<lambda>(n, f). length (kept_rows fault f)) tables) \<and>
    (\<forall>(n, f)\<in>set tables. \<exists>g. out (csv_target stem (length tables = 1) n) = Some g \<and>
       fr_rows g = map without_run (kept_rows fault f) \<and> fr_columns g = filter (\<lambda>c. \<not> is_run_column c) (fr_columns f)) \<and>
    (\<forall>file. file \<notin> set (csv_names (map fst tables) stem) \<longrightarrow> out file = files file)"
proof -
  note run = assms(1) [unfolded to_csv_def]
  have "distinct (map (csv_target stem (length tables = 1)) (map fst tables))"
  proof (cases "length tables = 1")
    case True
    then show ?thesis by (auto simp: length_Suc_conv)
  next
    case False
    then have "inj (csv_target stem (length tables = 1))" by (intro injI) (auto dest: csv_target_inj)
    then show ?thesis unfolding distinct_map [of _ "map fst tables"] using assms(2) inj_on_subset by blast
  qed
  from write_tables_ok [OF run this] write_tables_other [OF run] show ?thesis
    using csv_target_names [of stem "map fst tables"] by (auto simp flip: set_map)
qed

definition two_runs :: frame where
  "two_runs = \<lparr>fr_columns = [''faultNumber'', ''simulationRun'', ''sample''],
     fr_rows = [[(''faultNumber'', 4), (''simulationRun'', 1), (''sample'', 1)], [(''faultNumber'', 5), (''simulationRun'', 1), (''sample'', 1)],
                [(''faultNumber'', 4), (''simulationRun'', 2), (''sample'', 1)]]\<rparr>"

theorem conversion_writes_the_selected_rows_witness:
  "\<exists>g. snd (to_csv ''f'' ''fault_4_training'' (Some 4) [(''faulty'', two_runs)] (\<lambda>_. None)) ''fault_4_training.csv'' = Some g \<and>
     length (fr_rows g) = 2"
proof -
  have "column_key ''faultNumber'' = ''faultnumber''" by code_simp
  then have col: "fault_column two_runs = Some ''faultNumber''" by (simp add: fault_column_def two_runs_def)
  then have "\<exists>k out. to_csv ''f'' ''fault_4_training'' (Some 4) [(''faulty'', two_runs)] (\<lambda>_. None) = (Inr k, out)"
    by (simp add: to_csv_def select_fault_def)
  then obtain k out where run: "to_csv ''f'' ''fault_4_training'' (Some 4) [(''faulty'', two_runs)] (\<lambda>_. None) = (Inr k, out)" by blast
  have "length (kept_rows (Some 4) two_runs) = 2"
    unfolding kept_rows_def col by (simp add: has_fault_def two_runs_def)
  with conversion_writes_the_selected_rows [OF run] run show ?thesis
    by (auto simp: csv_target_def csv_name_def)
qed

text \<open>
  The runs of a workspace are stacked: two runs with the same measurements become the same rows
  twice, one run after the other, and their samples start again in the middle of the file.
\<close>

theorem runs_are_stacked:
  "fr_rows (drop_runs (f\<lparr>fr_rows := map (Cons (''simulationRun'', x)) ms @ map (Cons (''simulationRun'', y)) ms\<rparr>)) =
     map without_run ms @ map without_run ms"
proof -
  have "is_run_column ''simulationRun''" by code_simp
  then have "without_run ((''simulationRun'', z) # m) = without_run m" for z m by (simp add: without_run_def)
  then show ?thesis by (simp add: drop_runs_def)
qed

end
