(* ===== verification/LoginPage.thy ===== *)
theory LoginPage
  imports OidcProvider
begin

text \<open>
  What the OpenID provider publishes and renders besides its endpoints: the key document with its
  base64url numbers and its fingerprint, the text of the login form, the probes and the helper that
  mints test tokens (\<open>oidc-provider/app/main.py\<close>).  The key pair, SHA-256 and the signature are
  parameters; the style sheet around the form is left out.
\<close>

section \<open>Numbers as base64url\<close>

fun bit_length :: "nat \<Rightarrow> nat" where
  "bit_length n = (if n = 0 then 0 else Suc (bit_length (n div 2)))"

declare bit_length.simps [simp del]

text \<open>\<open>value.to_bytes(k, "big")\<close> of a number that fits.\<close>

primrec to_bytes :: "nat \<Rightarrow> nat \<Rightarrow> nat list" where
  "to_bytes 0 n = []"
| "to_bytes (Suc k) n = to_bytes k (n div 256) @ [n mod 256]"

definition url_alphabet :: string where
  "url_alphabet = ''ABCDEFGHIJKLMNOPQRSTUVWXYZabcdefghijklmnopqrstuvwxyz0123456789-_''"

definition b64_char :: "nat \<Rightarrow> char" where
  "b64_char n = url_alphabet ! n"

fun b64encode :: "nat list \<Rightarrow> string" where
  "b64encode [] = []"
| "b64encode [a] = [b64_char (a div 4), b64_char (a mod 4 * 16), CHR ''='', CHR ''='']"
| "b64encode [a, b] = [b64_char (a div 4), b64_char (a mod 4 * 16 + b div 16), b64_char (b mod 16 * 4), CHR ''='']"
| "b64encode (a # b # c # bs) =
     [b64_char (a div 4), b64_char (a mod 4 * 16 + b div 16), b64_char (b mod 16 * 4 + c div 64), b64_char (c mod 64)] @
     b64encode bs"

definition rstrip_padding :: "string \<Rightarrow> string" where
  "rstrip_padding s = rev (dropWhile (\<lambda>c. c = CHR ''='') (rev s))"

definition b64url_uint :: "nat \<Rightarrow> string" where
  "b64url_uint n = rstrip_padding (b64encode (to_bytes ((bit_length n + 7) div 8) n))"

section \<open>The key document\<close>

record jwk =
  jk_kty :: string
  jk_kid :: string
  jk_use :: string
  jk_alg :: string
  jk_n :: string
  jk_e :: string

text \<open>\<open>json.dumps\<close> with sorted keys and without spaces; the texts are in the base64 alphabet.\<close>

definition thumb_text :: "string \<Rightarrow> string \<Rightarrow> string" where
  "thumb_text e n = [CHR 0x7B] @ json_str ''e'' @ '':'' @ json_str e @ '','' @ json_str ''kty'' @ '':'' @ json_str ''RSA'' @ '','' @
     json_str ''n'' @ '':'' @ json_str n @ [CHR 0x7D]"

definition key_id :: "(string \<Rightarrow> nat list) \<Rightarrow> string \<Rightarrow> string \<Rightarrow> string" where
  "key_id sha256 e n = ''demo-'' @ take 10 (rstrip_padding (b64encode (sha256 (thumb_text e n))))"

definition jwks :: "(string \<Rightarrow> nat list) \<Rightarrow> nat \<Rightarrow> nat \<Rightarrow> jwk" where
  "jwks sha256 modulus exponent =
     (let n = b64url_uint modulus; e = b64url_uint exponent in
      \<lparr>jk_kty = ''RSA'', jk_kid = key_id sha256 e n, jk_use = ''sig'', jk_alg = ''RS256'', jk_n = n, jk_e = e\<rparr>)"

section \<open>The login form\<close>

definition dq :: string where
  "dq = [CHR 0x22]"

definition hidden_field :: "string \<Rightarrow> string \<Rightarrow> string" where
  "hidden_field name v =
     ''      <input type='' @ dq @ ''hidden'' @ dq @ '' name='' @ dq @ name @ dq @ '' value='' @ dq @ v @ dq @ ''>'' @ newline"

definition hidden_fields :: "auth_request \<Rightarrow> string" where
  "hidden_fields q =
     hidden_field ''response_type'' (aq_response_type q) @ hidden_field ''client_id'' (aq_client_id q) @
     hidden_field ''redirect_uri'' (aq_redirect_uri q) @ hidden_field ''scope'' (aq_scope q) @
     hidden_field ''state'' (aq_state q) @ hidden_field ''nonce'' (aq_nonce q) @
     hidden_field ''code_challenge'' (aq_code_challenge q) @ hidden_field ''code_challenge_method'' (aq_method q)"

definition email_value :: "string \<Rightarrow> string" where
  "email_value email =
     (let safe = html_escape email in if safe = [] then [] else '' value='' @ dq @ safe @ dq)"

definition error_html :: "string option \<Rightarrow> string" where
  "error_html err =
     (if truthy_str err then ''<p class='' @ dq @ ''error'' @ dq @ ''>'' @ or_str err [] @ ''</p>'' else [])"

definition email_input :: "string \<Rightarrow> string" where
  "email_input email =
     ''      <input id='' @ dq @ ''email'' @ dq @ '' name='' @ dq @ ''email'' @ dq @ '' type='' @ dq @ ''email'' @ dq @
     '' autocomplete='' @ dq @ ''username'' @ dq @ '' required autofocus'' @ email_value email @ ''>'' @ newline"

text \<open>The form without its labels, the password field, the button and the hint, which do not depend on the request.\<close>

definition login_form :: "auth_request \<Rightarrow> string \<Rightarrow> string option \<Rightarrow> string" where
  "login_form q email err =
     ''    <form method='' @ dq @ ''post'' @ dq @ '' action='' @ dq @ dq @ ''>'' @ newline @ hidden_fields q @
     email_input email @ ''      '' @ error_html err @ newline @ ''    </form>''"

section \<open>Test tokens\<close>

record mint_request =
  mr_email :: "string option"
  mr_audience :: "string option"
  mr_claims :: "(token_payload \<Rightarrow> token_payload) option"

definition mint_payload :: "oidc_config \<Rightarrow> user \<Rightarrow> mint_request \<Rightarrow> time \<Rightarrow> token_payload" where
  "mint_payload cfg u r t =
     (let base =
        \<lparr>tp_typ = None, tp_iss = Some (oc_issuer cfg), tp_aud = Some (or_str (mr_audience r) (oc_client_id cfg)),
         tp_sub = Some (us_email u), tp_name = Some (us_name u), tp_preferred_username = Some (us_email u), tp_email = None,
         tp_roles = Some [us_role u], tp_site_id = Some (us_site u), tp_site_name = Some (site_name_of (us_site u)),
         tp_iat = seconds t, tp_nbf = Some (seconds t - 5), tp_exp = seconds t + oc_access_minutes cfg * 60,
         tp_oid = None, tp_nonce = None, tp_jti = None\<rparr>
      in case mr_claims r of None \<Rightarrow> base | Some f \<Rightarrow> f base)"

definition test_tokens :: "oidc_config \<Rightarrow> token_crypto \<Rightarrow> string \<Rightarrow> mint_request \<Rightarrow> time \<Rightarrow> string result" where
  "test_tokens cfg tc key r t =
     bindR (api_key_guard cfg key) (\<lambda>_.
       case find_user (case mr_email r of None \<Rightarrow> us_email (hd users) | Some e \<Rightarrow> e) of
         None \<Rightarrow> Inl (HttpError 404 ''unknown user'')
       | Some u \<Rightarrow> Inr (tc_encode tc (mint_payload cfg u r t)))"

section \<open>Facts\<close>

lemma bit_length_bound: "n < 2 ^ bit_length n"
proof (induction n rule: bit_length.induct)
  case (1 n)
  show ?case
  proof (cases "n = 0")
    case False
    with 1 have "n div 2 < 2 ^ bit_length (n div 2)" by simp
    with False show ?thesis by (simp add: bit_length.simps [of n])
  qed simp
qed

lemma byte_count: "n < 256 ^ ((bit_length n + 7) div 8)"
proof -
  have "bit_length n \<le> 8 * ((bit_length n + 7) div 8)" by arith
  then have "(2::nat) ^ bit_length n \<le> 2 ^ (8 * ((bit_length n + 7) div 8))" by (rule power_increasing) simp
  also have "\<dots> = 256 ^ ((bit_length n + 7) div 8)" by (simp add: power_mult)
  finally show ?thesis using bit_length_bound [of n] by simp
qed

text \<open>Reading base64url back: the reference the encoding is measured by.\<close>

definition b64_val :: "char \<Rightarrow> nat" where
  "b64_val c = length (takeWhile (\<lambda>x. x \<noteq> c) url_alphabet)"

fun b64decode :: "nat list \<Rightarrow> nat list" where
  "b64decode (x # y # z # w # r) = [x * 4 + y div 16, y mod 16 * 16 + z div 4, z mod 4 * 64 + w] @ b64decode r"
| "b64decode [x, y, z] = [x * 4 + y div 16, y mod 16 * 16 + z div 4]"
| "b64decode [x, y] = [x * 4 + y div 16]"
| "b64decode _ = []"

definition read_uint :: "string \<Rightarrow> nat" where
  "read_uint s = foldl (\<lambda>n b. 256 * n + b) 0 (b64decode (map b64_val s))"

lemma b64_val_char: "n < 64 \<Longrightarrow> b64_val (b64_char n) = n"
proof -
  have "list_all (\<lambda>n. b64_val (b64_char n) = n) [0..<64]" by code_simp
  then show "n < 64 \<Longrightarrow> b64_val (b64_char n) = n" by (simp add: list_all_iff)
qed

lemma b64_char_plain: "n < 64 \<Longrightarrow> b64_char n \<noteq> CHR ''=''"
proof -
  have "list_all (\<lambda>n. b64_char n \<noteq> CHR ''='') [0..<64]" by code_simp
  then show "n < 64 \<Longrightarrow> b64_char n \<noteq> CHR ''=''" by (simp add: list_all_iff)
qed

lemma b64_char_safe: "n < 64 \<Longrightarrow> url_safe (b64_char n)"
proof -
  assume "n < 64"
  moreover have "length url_alphabet = 64" by (simp add: url_alphabet_def)
  ultimately have "b64_char n \<in> set url_alphabet" unfolding b64_char_def by (intro nth_mem) simp
  moreover have "\<forall>c\<in>set url_alphabet. url_safe c" by (simp add: url_alphabet_def url_safe_def is_digit_def)
  ultimately show "url_safe (b64_char n)" by blast
qed

text \<open>The groups of six bits the encoding writes.\<close>

fun sixes :: "nat list \<Rightarrow> nat list" where
  "sixes [] = []"
| "sixes [a] = [a div 4, a mod 4 * 16]"
| "sixes [a, b] = [a div 4, a mod 4 * 16 + b div 16, b mod 16 * 4]"
| "sixes (a # b # c # bs) = [a div 4, a mod 4 * 16 + b div 16, b mod 16 * 4 + c div 64, c mod 64] @ sixes bs"

lemma sixes_below: "\<forall>b\<in>set bs. b < 256 \<Longrightarrow> \<forall>x\<in>set (sixes bs). x < 64"
  by (induction bs rule: sixes.induct) auto

lemma decode_sixes: "\<forall>b\<in>set bs. b < 256 \<Longrightarrow> b64decode (sixes bs) = bs"
  by (induction bs rule: sixes.induct) auto

lemma rstrip_append:
  assumes "p \<noteq> []" "last p \<noteq> CHR ''=''"
  shows "rstrip_padding (p @ s) = p @ rstrip_padding s"
proof (cases "\<forall>c\<in>set s. c = CHR ''=''")
  case True
  have "rstrip_padding s = []" using True by (simp add: rstrip_padding_def)
  moreover have "dropWhile (\<lambda>c. c = CHR ''='') (rev s @ rev p) = dropWhile (\<lambda>c. c = CHR ''='') (rev p)"
    using True by (intro dropWhile_append2) auto
  moreover have "dropWhile (\<lambda>c. c = CHR ''='') (rev p) = rev p"
    using assms by (cases "rev p") (auto simp: last_rev [symmetric])
  ultimately show ?thesis by (simp add: rstrip_padding_def)
next
  case False
  then obtain c where "c \<in> set (rev s)" "c \<noteq> CHR ''=''" by auto
  then have "dropWhile (\<lambda>c. c = CHR ''='') (rev s @ rev p) = dropWhile (\<lambda>c. c = CHR ''='') (rev s) @ rev p"
    by (rule dropWhile_append1)
  then show ?thesis by (simp add: rstrip_padding_def)
qed

lemma rstrip_encode: "\<forall>b\<in>set bs. b < 256 \<Longrightarrow> rstrip_padding (b64encode bs) = map b64_char (sixes bs)"
proof (induction bs rule: sixes.induct)
  case 1
  show ?case by (simp add: rstrip_padding_def)
next
  case (2 a)
  have "b64_char (a mod 4 * 16) \<noteq> CHR ''=''" by (rule b64_char_plain) simp
  then show ?case using rstrip_append [of "[b64_char (a div 4), b64_char (a mod 4 * 16)]" "''==''"]
    by (simp add: rstrip_padding_def)
next
  case (3 a b)
  have "b64_char (b mod 16 * 4) \<noteq> CHR ''=''" by (rule b64_char_plain) simp
  then show ?case
    using rstrip_append [of "[b64_char (a div 4), b64_char (a mod 4 * 16 + b div 16), b64_char (b mod 16 * 4)]" "''=''"]
    by (simp add: rstrip_padding_def)
next
  case (4 a b c bs)
  have "b64_char (c mod 64) \<noteq> CHR ''=''" by (rule b64_char_plain) simp
  with 4 show ?case
    using rstrip_append [of "[b64_char (a div 4), b64_char (a mod 4 * 16 + b div 16), b64_char (b mod 16 * 4 + c div 64),
      b64_char (c mod 64)]" "b64encode bs"] by simp
qed

lemma to_bytes_below: "\<forall>b\<in>set (to_bytes k n). b < 256"
  by (induction k arbitrary: n) auto

lemma fold_to_bytes: "foldl (\<lambda>n b. 256 * n + b) 0 (to_bytes k n) = n mod 256 ^ k"
proof (induction k arbitrary: n)
  case (Suc k)
  have "n mod (256 * 256 ^ k) = 256 * (n div 256 mod 256 ^ k) + n mod 256" by (rule mod_mult2_eq)
  with Suc show ?case by simp
qed simp

section \<open>Properties\<close>

text \<open>
  The key document gives the key: the modulus and the exponent read back from their texts are the
  key's, and the texts hold letters, digits, hyphens and underscores only, without padding.
\<close>

theorem published_key_reads_back:
  "read_uint (jk_n (jwks sha256 modulus exponent)) = modulus \<and> read_uint (jk_e (jwks sha256 modulus exponent)) = exponent \<and>
   list_all url_safe (jk_n (jwks sha256 modulus exponent))"
proof -
  have sixes: "b64url_uint n = map b64_char (sixes (to_bytes ((bit_length n + 7) div 8) n))" for n
    unfolding b64url_uint_def by (rule rstrip_encode) (rule to_bytes_below)
  have below: "\<forall>x\<in>set (sixes (to_bytes k n)). x < 64" for k n by (rule sixes_below) (rule to_bytes_below)
  have "read_uint (b64url_uint n) = n" for n
  proof -
    have "map b64_val (b64url_uint n) = sixes (to_bytes ((bit_length n + 7) div 8) n)"
      unfolding sixes map_map using below by (intro map_idI) (simp add: b64_val_char)
    then have "read_uint (b64url_uint n) = n mod 256 ^ ((bit_length n + 7) div 8)"
      by (simp only: read_uint_def decode_sixes [OF to_bytes_below] fold_to_bytes)
    with byte_count [of n] show ?thesis by simp
  qed
  moreover have "list_all url_safe (b64url_uint n)" for n
    unfolding sixes list_all_iff using below by (auto simp: b64_char_safe)
  ultimately show ?thesis by (simp add: jwks_def Let_def)
qed

text \<open>
  The form returns the request to the browser as it is: whatever the parameters \<open>state\<close>,
  \<open>nonce\<close>, \<open>scope\<close>, \<open>code_challenge\<close> and \<open>error\<close> hold is part of the page, markup
  included.  Only the email is escaped: its value holds no quote and no angle bracket of its own.
\<close>

theorem page_reflects_the_request:
  "py_in (aq_state q) (login_form q email err) \<and> py_in (aq_nonce q) (login_form q email err) \<and>
   py_in (aq_scope q) (login_form q email err) \<and> py_in (aq_code_challenge q) (login_form q email err) \<and>
   (truthy_str err \<longrightarrow> py_in (the err) (login_form q email err)) \<and>
   set (html_escape email) \<inter> {CHR 0x22, CHR 0x27, CHR ''<'', CHR ''>''} = {}"
proof -
  have left: "py_in p b \<Longrightarrow> py_in p (a @ b)" and right: "py_in p a \<Longrightarrow> py_in p (a @ b)" and here: "py_in p (p @ b)"
    for p a b :: string
    by (auto simp: py_in_iff) (metis append.assoc)+
  have field: "py_in v (hidden_field n v)" for n v
    unfolding hidden_field_def by (rule here | rule left)+
  have "py_in (aq_state q) (hidden_fields q)" "py_in (aq_nonce q) (hidden_fields q)"
    "py_in (aq_scope q) (hidden_fields q)" "py_in (aq_code_challenge q) (hidden_fields q)"
    unfolding hidden_fields_def by (rule right, rule field | rule left)+
  moreover have "py_in x (login_form q email err)" if "py_in x (hidden_fields q)" for x
    unfolding login_form_def by (rule right, rule that | rule left)+
  moreover have "py_in (the err) (login_form q email err)" if "truthy_str err"
  proof -
    have "or_str err [] = the err" using that by (cases err) (auto simp: or_str_def)
    then have err: "py_in (the err) (error_html err)" unfolding error_html_def using that by (simp only: if_True) (rule here | rule left)+
    show ?thesis unfolding login_form_def by (rule right, rule err | rule left)+
  qed
  moreover have "CHR 0x22 \<notin> set (html_escape email)" "CHR 0x27 \<notin> set (html_escape email)"
    "CHR ''<'' \<notin> set (html_escape email)" "CHR ''>'' \<notin> set (html_escape email)"
    by (auto simp: html_escape_def html_escape_char_def)
  ultimately show ?thesis by simp
qed

theorem page_reflects_the_request_witness:
  "py_in (aq_state (sample_auth\<lparr>aq_state := ''x<script>''\<rparr>)) (login_form (sample_auth\<lparr>aq_state := ''x<script>''\<rparr>) [] (Some ''<b>'')) \<and>
   py_in ''<b>'' (login_form (sample_auth\<lparr>aq_state := ''x<script>''\<rparr>) [] (Some ''<b>''))"
  using page_reflects_the_request [of "sample_auth\<lparr>aq_state := ''x<script>''\<rparr>" "[]" "Some ''<b>''"] by simp

text \<open>
  A test token needs the API key and a known user, and is then signed with whatever claims the caller
  asks for: the key of this helper is as strong as every role on every site.
\<close>

theorem test_token_takes_any_claims:
  "(is_ascii key \<and> is_ascii (oc_api_key cfg) \<and> key \<noteq> oc_api_key cfg \<longrightarrow>
      test_tokens cfg tc key r t = Inl (HttpError 401 ''invalid api key'')) \<and>
   (is_ascii (oc_api_key cfg) \<longrightarrow> (\<exists>r. test_tokens cfg tc (oc_api_key cfg) r t = Inr (tc_encode tc payload)))"
proof -
  have "find_user (us_email (hd users)) \<noteq> None" by code_simp
  then have "is_ascii (oc_api_key cfg) \<Longrightarrow>
      test_tokens cfg tc (oc_api_key cfg) \<lparr>mr_email = None, mr_audience = None, mr_claims = Some (\<lambda>_. payload)\<rparr> t =
        Inr (tc_encode tc payload)"
    by (auto simp: test_tokens_def api_key_guard_def compare_digest_def mint_payload_def Let_def split: option.split)
  moreover have "test_tokens cfg tc key r t = Inl (HttpError 401 ''invalid api key'')"
    if "is_ascii key \<and> is_ascii (oc_api_key cfg) \<and> key \<noteq> oc_api_key cfg"
    using that by (simp add: test_tokens_def api_key_guard_def compare_digest_def)
  ultimately show ?thesis by blast
qed

theorem test_token_takes_any_claims_witness:
  "\<exists>r. test_tokens default_oidc_config sample_tokens ''oidc-dev-key-change-me'' r 0 =
     Inr (tc_encode sample_tokens (access_payload default_oidc_config sample_tokens (hd users) [] [] 0))"
proof -
  have "is_ascii (oc_api_key default_oidc_config)" by code_simp
  with test_token_takes_any_claims [of "[]" default_oidc_config sample_tokens _ 0] show ?thesis
    by (simp add: default_oidc_config_def)
qed

end
