(* ===== verification/PublicDocs.thy ===== *)
theory PublicDocs
  imports Retrieval LlmClient
begin

text \<open>
  The generation of the public documents (\<open>scripts/prepare_public_docs.py\<close>): the cleaning of
  the extracted pages, the text of the pump sourcebook and the offline check.  The pages of the PDF
  are a parameter.
\<close>

section \<open>Cleaning a page\<close>

definition running_headers :: "string list" where
  "running_headers =
     [''A Sourcebook for Industry'', ''Improving Pumping System Performance'',
      ''Section 2: Performance Improvement Opportunity Roadmap'']"

text \<open>The patterns \<open>\d+\<close> and \<open>\d+ \|[^\n]*\<close> on a whole line.\<close>

definition bare_number :: "string \<Rightarrow> bool" where
  "bare_number line \<longleftrightarrow> line \<noteq> [] \<and> list_all is_digit line"

definition numbered_line :: "string \<Rightarrow> bool" where
  "numbered_line line \<longleftrightarrow>
     takeWhile is_digit line \<noteq> [] \<and> py_startswith (dropWhile is_digit line) '' |'' \<and>
     CHR 0x0A \<notin> set (dropWhile is_digit line)"

definition keep_line :: "string \<Rightarrow> bool" where
  "keep_line line \<longleftrightarrow>
     line \<noteq> [] \<and> line \<notin> set running_headers \<and> \<not> bare_number line \<and>
     \<not> (numbered_line line \<and> list_ex (\<lambda>h. py_in h line) running_headers)"

definition clean_page :: "string \<Rightarrow> string" where
  "clean_page page = py_join newline (filter keep_line (map py_strip (splitlines page)))"

section \<open>The document of the pump sourcebook\<close>

type_synonym page_range = "string \<times> nat \<times> nat"

text \<open>\<open>reader.pages[first:last]\<close>, each page with what \<open>extract_text() or ""\<close> gives.\<close>

definition section_text :: "string list \<Rightarrow> page_range \<Rightarrow> string result" where
  "section_text pages x =
     (case x of (heading, lo, hi) \<Rightarrow>
        (let body = clean_page (py_join newline (take (hi - lo) (drop lo pages))) in
         if length body < 1000 then
           Inl (OtherError (''section '' @ py_repr heading @ '' extracted too little text ('' @ nat_str (length body) @
             ''); the sourcebook page layout may have changed -- verify PUMP_EXTRACTS ranges''))
         else Inr (''## '' @ heading @ newline @ newline @ body @ newline)))"

fun section_texts :: "string list \<Rightarrow> page_range list \<Rightarrow> string list result" where
  "section_texts pages [] = Inr []"
| "section_texts pages (x # xs) =
     bindR (section_text pages x) (\<lambda>t. bindR (section_texts pages xs) (\<lambda>ts. Inr (t # ts)))"

definition build_document :: "string \<Rightarrow> string \<Rightarrow> string \<Rightarrow> string \<Rightarrow> page_range list \<Rightarrow> string list \<Rightarrow> string result" where
  "build_document url publisher title provenance extracts pages =
     bindR (section_texts pages extracts) (\<lambda>ts.
       Inr (py_join newline ((front_matter ''public_real'' url publisher @ ''# '' @ title @ newline @ newline @ provenance) # ts)))"

section \<open>The check\<close>

definition public_files :: "string list" where
  "public_files = [''PUB-DOE-FEMP-COOLING-TOWER.md'', ''PUB-DOE-PUMP-SOURCEBOOK.md'']"

definition provenance_ok :: "string \<Rightarrow> bool" where
  "provenance_ok file = py_in ''source_type: public_real'' (take 400 file)"

definition check_files :: "(string \<Rightarrow> string option) \<Rightarrow> nat" where
  "check_files files =
     length (filter (\<lambda>n. case files n of None \<Rightarrow> True | Some x \<Rightarrow> \<not> provenance_ok x) public_files)"

section \<open>Facts\<close>

definition kept_lines :: "string \<Rightarrow> string list" where
  "kept_lines page = filter keep_line (map py_strip (splitlines page))"

lemma kept_line:
  assumes "l \<in> set (kept_lines page)"
  shows "keep_line l" "py_strip l = l" "list_all (\<lambda>c. \<not> is_linebreak c) l" "l \<noteq> []"
proof -
  obtain x where x: "x \<in> set (splitlines page)" "l = py_strip x" and k: "keep_line l"
    using assms by (auto simp: kept_lines_def)
  from k show "keep_line l" "l \<noteq> []" by (simp_all add: keep_line_def)
  obtain c t where ct: "l = c # t" using \<open>l \<noteq> []\<close> by (cases l) auto
  have "\<not> is_space (hd l) \<and> \<not> is_space (last l)"
    using py_strip_no_outer_space [of x c t] unfolding x(2) [symmetric] ct by simp
  with \<open>l \<noteq> []\<close> show "py_strip l = l" by (intro py_strip_id) auto
  show "list_all (\<lambda>c. \<not> is_linebreak c) l"
    using set_py_strip [of x] splitlines_clean [OF x(1)] x(2) by (auto simp: list_all_iff)
qed

lemma clean_page_lines: "splitlines (clean_page page) = kept_lines page"
proof (cases "kept_lines page = []")
  case False
  then have "last (kept_lines page) \<noteq> []" using kept_line(4) [OF last_in_set] by blast
  with False show ?thesis
    unfolding clean_page_def kept_lines_def [symmetric]
    by (intro splitlines_join) (auto simp: list_all_iff dest: kept_line(3))
qed (simp add: clean_page_def kept_lines_def)

lemma section_texts_ok:
  "section_texts pages xs = Inr ts \<Longrightarrow> x \<in> set xs \<Longrightarrow> \<exists>t\<in>set ts. section_text pages x = Inr t"
  by (induction xs arbitrary: ts) (auto simp: bindR_Inr_iff)

lemma py_join_has: "x \<in> set xs \<Longrightarrow> py_in x (py_join sep xs)"
proof (induction sep xs rule: py_join.induct)
  case (3 sep s t r)
  then show ?case
  proof (cases "x = s")
    case True
    then show ?thesis by (simp add: py_in_iff) (metis append_Nil)
  next
    case False
    with 3 have "py_in x (py_join sep (t # r))" by simp
    then show ?thesis using py_in_append [of x "py_join sep (t # r)" "s @ sep" "[]"] by simp
  qed
qed (auto simp: py_in_iff intro: exI [of _ "[]"])

lemma provenance_of_front:
  assumes "doc = (''<!--'' @ newline @ ''source_type: '' @ ''public_real'') @ b"
  shows "provenance_ok doc"
proof -
  have "''<!--'' @ newline @ ''source_type: '' @ ''public_real'' = (''<!--'' @ newline) @ ''source_type: public_real''"
    by simp
  with assms have "take 400 doc = (''<!--'' @ newline) @ ''source_type: public_real'' @ take (400 - length (''<!--'' @ newline @ ''source_type: public_real'')) b"
    by (simp only: take_append append_assoc) (simp add: newline_def)
  then show ?thesis unfolding provenance_ok_def py_in_iff by blast
qed

lemma build_document_ok:
  assumes "build_document url publisher title provenance extracts pages = Inr doc"
  shows "provenance_ok doc"
proof -
  obtain ts where doc: "doc =
      py_join newline ((front_matter ''public_real'' url publisher @ ''# '' @ title @ newline @ newline @ provenance) # ts)"
    using assms by (auto simp: build_document_def bindR_Inr_iff)
  have split: "py_join newline (x # ts) = x @ (case ts of [] \<Rightarrow> [] | _ \<Rightarrow> newline @ py_join newline ts)" for x
    by (cases ts) simp_all
  have "\<exists>b. doc = (''<!--'' @ newline @ ''source_type: '' @ ''public_real'') @ b"
    unfolding doc split front_matter_def append.assoc by (intro exI) (rule refl)
  then show ?thesis using provenance_of_front by blast
qed

section \<open>Properties\<close>

text \<open>
  Cleaning a page leaves its lines, stripped and in their order, without blank lines, running headers
  and page numbers; and a clean page is left as it is.
\<close>

theorem cleaning_is_stable:
  "splitlines (clean_page page) = filter keep_line (map py_strip (splitlines page)) \<and>
   clean_page (clean_page page) = clean_page page"
proof -
  have "map py_strip (kept_lines page) = kept_lines page" by (rule map_idI) (rule kept_line(2))
  moreover have "filter keep_line (kept_lines page) = kept_lines page" by (simp add: kept_lines_def)
  ultimately have "clean_page (clean_page page) = py_join newline (kept_lines page)"
    by (simp add: clean_page_def [of "clean_page page"] clean_page_lines)
  then show ?thesis using clean_page_lines [of page] by (simp add: kept_lines_def clean_page_def)
qed

text \<open>
  A generated document passes the offline check, bears every section it was asked for under its
  heading, and has at least 1000 characters of cleaned text in each of them.
\<close>

theorem generated_document_passes_the_check:
  assumes "build_document url publisher title provenance extracts pages = Inr doc"
  shows "provenance_ok doc \<and>
    (\<forall>(heading, lo, hi)\<in>set extracts.
       let body = clean_page (py_join newline (take (hi - lo) (drop lo pages))) in
       1000 \<le> length body \<and> py_in (''## '' @ heading @ newline @ newline @ body @ newline) doc)"
proof -
  obtain ts where ts: "section_texts pages extracts = Inr ts" and doc: "doc =
      py_join newline ((front_matter ''public_real'' url publisher @ ''# '' @ title @ newline @ newline @ provenance) # ts)"
    using assms by (auto simp: build_document_def bindR_Inr_iff)
  have "provenance_ok doc" by (rule build_document_ok [OF assms])
  moreover have "1000 \<le> length body \<and> py_in (''## '' @ heading @ newline @ newline @ body @ newline) doc"
    if item: "(heading, lo, hi) \<in> set extracts" and body: "body = clean_page (py_join newline (take (hi - lo) (drop lo pages)))"
    for heading lo hi body
  proof -
    obtain t where t: "t \<in> set ts" "section_text pages (heading, lo, hi) = Inr t"
      using section_texts_ok [OF ts item] by blast
    then have "1000 \<le> length body" "t = ''## '' @ heading @ newline @ newline @ body @ newline"
      unfolding section_text_def prod.case Let_def body [symmetric] by (auto split: if_splits)
    with py_join_has [of t] t(1) show ?thesis unfolding doc by simp
  qed
  ultimately show ?thesis by (auto simp: Let_def)
qed

theorem generated_document_passes_the_check_witness:
  "\<exists>doc. build_document ''u'' ''p'' ''t'' ''v'' [(''h'', 0, 1)] [replicate 1000 CHR ''a''] = Inr doc \<and> provenance_ok doc"
proof -
  let ?line = "replicate 1000 CHR ''a''"
  have a: "\<not> is_linebreak (CHR ''a'')" "\<not> is_space (CHR ''a'')" "\<not> is_digit (CHR ''a'')" by code_simp+
  have lines: "splitlines ?line = [?line]"
    using splitlines_from_end [of ?line "[]"] a(1) by (simp add: splitlines_def list_all_iff)
  have strip: "py_strip ?line = ?line" by (rule py_strip_id) (simp_all add: a(2))
  have "keep_line (CHR ''a'' # r)" for r
    using a(3) by (simp add: keep_line_def running_headers_def bare_number_def numbered_line_def)
  moreover have "?line = CHR ''a'' # replicate 999 CHR ''a''" using replicate_Suc [of 999 "CHR ''a''"] by simp
  ultimately have "keep_line ?line" by metis
  then have "length (clean_page ?line) = 1000" by (simp add: clean_page_def lines strip)
  then obtain doc where doc: "build_document ''u'' ''p'' ''t'' ''v'' [(''h'', 0, 1)] [?line] = Inr doc"
    by (simp add: build_document_def section_text_def)
  from generated_document_passes_the_check [OF this] doc show ?thesis by blast
qed

end
