(* ===== verification/WebPage.thy ===== *)
theory WebPage
  imports PublicDocs
begin

text \<open>
  The rest of \<open>scripts/prepare_public_docs.py\<close>: the text of the federal web page, the download
  cache and the two documents that are written.  The network, the PDF reader and the decoding of a
  downloaded file are parameters.
\<close>

section \<open>The text of the web page\<close>

text \<open>\<open>\w\<close> on the characters of a byte, for the boundary after the name of the element.\<close>

definition is_word_char :: "char \<Rightarrow> bool" where
  "is_word_char c \<longleftrightarrow>
     (let n = of_char c :: nat in
      is_digit c \<or> c = CHR ''_'' \<or> (65 \<le> n \<and> n \<le> 90) \<or> (97 \<le> n \<and> n \<le> 122) \<or>
      n \<in> {170, 178, 179, 181, 185, 186, 188, 189, 190} \<or> (192 \<le> n \<and> n \<noteq> 215 \<and> n \<noteq> 247))"

text \<open>\<open>s[s.find(p):]\<close>, if \<open>p\<close> occurs.\<close>

fun from_first :: "string \<Rightarrow> string \<Rightarrow> string option" where
  "from_first p [] = (if p = [] then Some [] else None)"
| "from_first p (c # s) = (if py_startswith (c # s) p then Some (c # s) else from_first p s)"

text \<open>
  The first \<open>main\<close> element, to its first end tag, in any case.  If no end follows the first start, none follows a later
  one.
\<close>

fun main_element :: "string \<Rightarrow> string option" where
  "main_element [] = None"
| "main_element (c # s) =
     (let rest = drop 5 (c # s) in
      if py_startswith (py_lower (c # s)) ''<main'' \<and> (rest = [] \<or> \<not> is_word_char (hd rest)) then
        map_option (\<lambda>r. take (length (c # s) - length r + 7) (c # s)) (from_first ''</main>'' (py_lower rest))
      else main_element s)"

definition page_body :: "string \<Rightarrow> string" where
  "page_body raw =
     (let body = (case main_element raw of None \<Rightarrow> raw | Some x \<Rightarrow> x);
          started = (case from_first ''Cooling towers dissipate'' body of None \<Rightarrow> body | Some r \<Rightarrow> r)
      in case from_first ''Related Links'' started of
           None \<Rightarrow> started | Some r \<Rightarrow> take (length started - length r) started)"

text \<open>\<open>(?s)<[^>]+>\<close> replaced by a blank.\<close>

definition tag_at :: "string \<Rightarrow> bool" where
  "tag_at s \<longleftrightarrow>
     s \<noteq> [] \<and> hd s = CHR ''<'' \<and> takeWhile (\<lambda>c. c \<noteq> CHR ''>'') (tl s) \<noteq> [] \<and> dropWhile (\<lambda>c. c \<noteq> CHR ''>'') (tl s) \<noteq> []"

function strip_tags :: "string \<Rightarrow> string" where
  "strip_tags [] = []"
| "strip_tags (c # s) =
     (if tag_at (c # s) then CHR '' '' # strip_tags (tl (dropWhile (\<lambda>c. c \<noteq> CHR ''>'') s)) else c # strip_tags s)"
  by pat_completeness auto

termination
proof (relation "measure length")
  fix c s
  have "length (tl (dropWhile (\<lambda>c. c \<noteq> CHR ''>'') s)) \<le> length s"
    using length_dropWhile_le [of "\<lambda>c. c \<noteq> CHR ''>''" s] by simp
  then show "(tl (dropWhile (\<lambda>c. c \<noteq> CHR ''>'') s), c # s) \<in> measure length" by (simp add: less_Suc_eq_le)
qed auto

definition entities :: "string list" where
  "entities = [''&nbsp;'', ''&#160;'', ''&amp;'']"

function replace_entities :: "string \<Rightarrow> string" where
  "replace_entities [] = []"
| "replace_entities (c # s) =
     (case find (py_startswith (c # s)) entities of
        Some e \<Rightarrow> CHR '' '' # replace_entities (drop (length e - 1) s)
      | None \<Rightarrow> c # replace_entities s)"
  by pat_completeness auto

termination by (relation "measure length") auto

definition is_blank :: "char \<Rightarrow> bool" where
  "is_blank c \<longleftrightarrow> c = CHR '' '' \<or> c = CHR 0x09"

fun collapse_blanks :: "string \<Rightarrow> string" where
  "collapse_blanks [] = []"
| "collapse_blanks [c] = [if is_blank c then CHR '' '' else c]"
| "collapse_blanks (c # d # s) =
     (if is_blank c then (if is_blank d then collapse_blanks (d # s) else CHR '' '' # collapse_blanks (d # s))
      else c # collapse_blanks (d # s))"

definition navigation_lines :: "string list" where
  "navigation_lines = [''Skip to main content'', ''Lock'', ''Locked padlock'']"

definition banner_starts :: "string list" where
  "banner_starts =
     [''An official website'', ''Secure .gov websites'', ''A .gov website'', ''A lock'', '') or https://'']"

text \<open>The starts are looked for on the raw line, not on the stripped one.\<close>

definition keep_web_line :: "string \<Rightarrow> bool" where
  "keep_web_line x \<longleftrightarrow>
     py_strip x \<noteq> [] \<and> py_strip x \<notin> set navigation_lines \<and> \<not> list_ex (py_startswith x) banner_starts"

text \<open>\<open>re.sub(r"\n{3,}", "\n\n", s)\<close>\<close>

fun squeeze_newlines :: "nat \<Rightarrow> string \<Rightarrow> string" where
  "squeeze_newlines n [] = []"
| "squeeze_newlines n (c # s) =
     (if c = CHR 0x0A then (if n < 2 then c # squeeze_newlines (Suc n) s else squeeze_newlines n s)
      else c # squeeze_newlines 0 s)"

definition web_lines :: "string \<Rightarrow> string list" where
  "web_lines raw = map py_strip (filter keep_web_line
     (splitlines (collapse_blanks (replace_entities (strip_tags (page_body raw))))))"

definition html_to_text :: "string \<Rightarrow> string" where
  "html_to_text raw = py_strip (squeeze_newlines 0 (py_join newline (web_lines raw)))"

section \<open>The documents\<close>

definition femp_url :: string where
  "femp_url = ''https://www.energy.gov/femp/best-management-practice-10-cooling-tower-management''"

definition femp_title :: string where
  "femp_title = ''PUB-DOE-FEMP-COOLING-TOWER: DOE FEMP Best Management Practice #10 - Cooling Tower Management''"

definition femp_provenance :: string where
  "femp_provenance =
     ''> **Provenance: public_real.** Verbatim public-domain guidance from'' @ newline @
     ''> the U.S. Department of Energy, Federal Energy Management Program'' @ newline @
     ''> (FEMP). Source: '' @ femp_url @ newline @
     ''> Retrieved 2026-09-20. Lightly formatted (headings/bullets) for the'' @ newline @
     ''> retrieval index; wording preserved. Buckman/Ackumen-specific numbers'' @ newline @
     ''> are NOT in this document -- it is federal facility guidance.'' @ newline @ newline"

definition femp_document :: "string \<Rightarrow> string" where
  "femp_document page =
     front_matter ''public_real'' femp_url ''U.S. Department of Energy, Federal Energy Management Program'' @
     ''# '' @ femp_title @ newline @ newline @ femp_provenance @ html_to_text page @ newline"

definition pump_url :: string where
  "pump_url = ''https://www.energy.gov/sites/prod/files/2014/05/f16/pump.pdf''"

definition pump_title :: string where
  "pump_title = ''PUB-DOE-PUMP-SOURCEBOOK: DOE Improving Pumping System Performance - A Sourcebook for Industry (2nd ed.)''"

definition pump_provenance :: string where
  "pump_provenance =
     ''> **Provenance: public_real.** Excerpted verbatim from the U.S.'' @ newline @
     ''> Department of Energy industrial sourcebook (public domain), with'' @ newline @
     ''> the Alliance to Save Energy, Hydraulic Institute, and NASA.'' @ newline @
     ''> Full document: '' @ pump_url @ newline @
     ''> Retrieved 2026-09-20. Only the two operationally relevant sections'' @ newline @
     ''> are indexed here (the full 122 pages would bury retrieval under'' @ newline @
     ''> running-header boilerplate); wording preserved, running headers and'' @ newline @
     ''> page numbers removed.'' @ newline @ newline"

definition pump_extracts :: "page_range list" where
  "pump_extracts =
     [(''PUMP-PROBLEMS: Common Pumping System Problems (incl. cavitation, pump wear, seals, and indications of oversized pumps)'', 22, 31),
      (''PUMP-MAINTENANCE: Basic Pump Maintenance (incl. the Basic Maintenance Checklist and predictive maintenance)'', 36, 40)]"

definition pump_document :: "string list \<Rightarrow> string result" where
  "pump_document pages =
     build_document pump_url
       (''U.S. Department of Energy (Industrial Technologies Program), with the '' @
        ''Alliance to Save Energy, Hydraulic Institute, and NASA'')
       pump_title pump_provenance pump_extracts pages"

section \<open>Downloading and writing\<close>

text \<open>The two directories: the downloads by name, and the knowledge base.\<close>

record 'raw doc_state =
  ds_cache :: "string \<Rightarrow> 'raw option"
  ds_kb :: "string \<Rightarrow> string option"

record 'raw doc_env =
  dv_size :: "'raw \<Rightarrow> nat"
  dv_download :: "string \<Rightarrow> 'raw result"
  dv_html :: "'raw \<Rightarrow> string"
  dv_pages :: "'raw \<Rightarrow> string list result"

text \<open>A download of at most 10000 bytes is not trusted and fetched again.\<close>

definition fetch :: "'raw doc_env \<Rightarrow> string \<Rightarrow> string \<Rightarrow> 'raw doc_state \<Rightarrow> 'raw result \<times> 'raw doc_state" where
  "fetch env url name s =
     (case ds_cache s name of
        Some x \<Rightarrow> if 10000 < dv_size env x then (Inr x, s)
          else (case dv_download env url of
                  Inl e \<Rightarrow> (Inl e, s)
                | Inr y \<Rightarrow> (Inr y, s\<lparr>ds_cache := (ds_cache s)(name \<mapsto> y)\<rparr>))
      | None \<Rightarrow> (case dv_download env url of
                  Inl e \<Rightarrow> (Inl e, s)
                | Inr y \<Rightarrow> (Inr y, s\<lparr>ds_cache := (ds_cache s)(name \<mapsto> y)\<rparr>)))"

definition write_doc :: "string \<Rightarrow> string \<Rightarrow> 'raw doc_state \<Rightarrow> 'raw doc_state" where
  "write_doc name x s = s\<lparr>ds_kb := (ds_kb s)(name \<mapsto> x)\<rparr>"

definition femp_file :: string where
  "femp_file = ''PUB-DOE-FEMP-COOLING-TOWER.md''"

definition pump_file :: string where
  "pump_file = ''PUB-DOE-PUMP-SOURCEBOOK.md''"

definition build_femp_doc :: "'raw doc_env \<Rightarrow> 'raw doc_state \<Rightarrow> unit result \<times> 'raw doc_state" where
  "build_femp_doc env s =
     (case fetch env femp_url ''femp_bmp10_cooling_tower.html'' s of
        (Inl e, s1) \<Rightarrow> (Inl e, s1)
      | (Inr x, s1) \<Rightarrow> (Inr (), write_doc femp_file (femp_document (dv_html env x)) s1))"

definition build_pump_doc :: "'raw doc_env \<Rightarrow> 'raw doc_state \<Rightarrow> unit result \<times> 'raw doc_state" where
  "build_pump_doc env s =
     (case fetch env pump_url ''doe_pump_sourcebook.pdf'' s of
        (Inl e, s1) \<Rightarrow> (Inl e, s1)
      | (Inr x, s1) \<Rightarrow>
          (case bindR (dv_pages env x) pump_document of
             Inl e \<Rightarrow> (Inl e, s1)
           | Inr doc \<Rightarrow> (Inr (), write_doc pump_file doc s1)))"

text \<open>\<open>main\<close>: the exit code.\<close>

definition prepare_docs :: "'raw doc_env \<Rightarrow> bool \<Rightarrow> 'raw doc_state \<Rightarrow> nat result \<times> 'raw doc_state" where
  "prepare_docs env check_only s =
     (if check_only then (Inr (check_files (ds_kb s)), s)
      else case build_femp_doc env s of
        (Inl e, s1) \<Rightarrow> (Inl e, s1)
      | (Inr _, s1) \<Rightarrow>
          (case build_pump_doc env s1 of (Inl e, s2) \<Rightarrow> (Inl e, s2) | (Inr _, s2) \<Rightarrow> (Inr 0, s2)))"

section \<open>Facts\<close>

lemma web_line:
  assumes "l \<in> set (web_lines raw)"
  shows "py_strip l = l" "list_all (\<lambda>c. \<not> is_linebreak c) l" "l \<noteq> []" "l \<notin> set navigation_lines"
proof -
  obtain x where x: "x \<in> set (splitlines (collapse_blanks (replace_entities (strip_tags (page_body raw)))))"
    "l = py_strip x" "keep_web_line x"
    using assms by (auto simp: web_lines_def)
  from x(2,3) show "l \<noteq> []" "l \<notin> set navigation_lines" by (auto simp: keep_web_line_def)
  obtain c t where ct: "l = c # t" using \<open>l \<noteq> []\<close> by (cases l) auto
  have "\<not> is_space (hd l) \<and> \<not> is_space (last l)"
    using py_strip_no_outer_space [of x c t] unfolding x(2) [symmetric] ct by simp
  with \<open>l \<noteq> []\<close> show "py_strip l = l" by (intro py_strip_id) auto
  show "list_all (\<lambda>c. \<not> is_linebreak c) l"
    using set_py_strip [of x] splitlines_clean [OF x(1)] x(2) by (auto simp: list_all_iff)
qed

lemma nonspace_ends:
  assumes "py_strip l = l" "l \<noteq> []"
  shows "\<not> is_space (hd l)" "\<not> is_space (last l)"
  using assms py_strip_no_outer_space [of l "hd l" "tl l"] by simp_all

lemma squeeze_prefix:
  "list_all (\<lambda>c. c \<noteq> CHR 0x0A) x \<Longrightarrow> x \<noteq> [] \<Longrightarrow> squeeze_newlines n (x @ s) = x @ squeeze_newlines 0 s"
proof (induction x arbitrary: n)
  case (Cons c x)
  then show ?case by (cases "x = []") auto
qed simp

lemma squeeze_lines:
  "list_all (\<lambda>l. l \<noteq> [] \<and> list_all (\<lambda>c. \<not> is_linebreak c) l) ls \<Longrightarrow> n \<le> 1 \<Longrightarrow>
     squeeze_newlines n (py_join newline ls) = py_join newline ls"
proof (induction newline ls arbitrary: n rule: py_join.induct)
  case (2 s)
  have "list_all (\<lambda>c. c \<noteq> CHR 0x0A) s" using 2(1) by (auto simp: list_all_iff is_linebreak_def)
  with squeeze_prefix [of s n "[]"] 2(1) show ?case by simp
next
  case (3 s t r)
  have "list_all (\<lambda>c. c \<noteq> CHR 0x0A) s" using 3(2) by (auto simp: list_all_iff is_linebreak_def)
  with squeeze_prefix [of s n] 3 show ?case by (simp add: newline_def)
qed simp

lemma py_join_ends:
  "ls \<noteq> [] \<Longrightarrow> list_all (\<lambda>l. l \<noteq> []) ls \<Longrightarrow>
     py_join sep ls \<noteq> [] \<and> hd (py_join sep ls) = hd (hd ls) \<and> last (py_join sep ls) = last (last ls)"
proof (induction sep ls rule: py_join.induct)
  case (3 sep s t r)
  then show ?case by (cases s) auto
qed simp_all

lemma html_text_lines: "html_to_text raw = py_join newline (web_lines raw)"
proof (cases "web_lines raw = []")
  case True
  then show ?thesis by (simp add: html_to_text_def py_strip_def py_rstrip_def py_lstrip_def)
next
  case False
  let ?t = "py_join newline (web_lines raw)"
  have all: "list_all (\<lambda>l. l \<noteq> [] \<and> list_all (\<lambda>c. \<not> is_linebreak c) l) (web_lines raw)"
    using web_line(2,3) by (auto simp: list_all_iff)
  then have ends: "?t \<noteq> []" "hd ?t = hd (hd (web_lines raw))" "last ?t = last (last (web_lines raw))"
    using py_join_ends [OF False] by (auto simp: list_all_iff)
  have "\<not> is_space (hd l) \<and> \<not> is_space (last l)" if "l \<in> set (web_lines raw)" for l
    using nonspace_ends [of l] web_line(1,3) [OF that] by blast
  then have "\<not> is_space (hd ?t)" "\<not> is_space (last ?t)"
    unfolding ends(2,3) using False by simp_all
  then have "py_strip ?t = ?t" using ends(1) by (intro py_strip_id)
  then show ?thesis by (simp add: html_to_text_def squeeze_lines [OF all])
qed

lemma tag_at_mono: "tag_at (c # strip_tags s) \<Longrightarrow> CHR ''>'' \<in> set (strip_tags s)"
  by (auto simp: tag_at_def)

lemma set_after: "set (tl (dropWhile P s)) \<subseteq> set s"
  proof
  fix x assume "x \<in> set (tl (dropWhile P s))"
  then have "x \<in> set (dropWhile P s)" by (cases "dropWhile P s") (simp_all only: list.sel list.set insert_iff simp_thms)
  then show "x \<in> set s" by (rule set_dropWhileD)
qed

lemma set_strip_tags: "set (strip_tags s) \<subseteq> insert (CHR '' '') (set s)"
proof (induction s rule: strip_tags.induct)
  case (2 c s)
  let ?r = "tl (dropWhile (\<lambda>c. c \<noteq> CHR ''>'') s)"
  have "set ?r \<subseteq> set s" by (rule set_after)
  show ?case
  proof (cases "tag_at (c # s)")
    case True
    then have "strip_tags (c # s) = CHR '' '' # strip_tags ?r" by simp
    with 2(1) [OF True] \<open>set ?r \<subseteq> set s\<close> show ?thesis by (simp only: list.set) blast
  next
    case False
    then have "strip_tags (c # s) = c # strip_tags s" by simp
    with 2(2) [OF False] show ?thesis by (simp only: list.set) blast
  qed
qed simp

text \<open>A \<open><\<close> that is left has no \<open>>\<close> after it, or has it at once.\<close>

lemma no_tag_left: "strip_tags s = p @ q \<Longrightarrow> \<not> tag_at q"
proof (induction s arbitrary: p rule: strip_tags.induct)
  case (2 c s)
  show ?case
  proof (cases "tag_at (c # s)")
    case True
    with 2(1) [OF True] 2(3) show ?thesis by (cases p) (auto simp: tag_at_def)
  next
    case False
    show ?thesis
    proof (cases p)
      case Nil
      show ?thesis
      proof
        assume tag: "tag_at q"
        then have q: "q = c # strip_tags s" "c = CHR ''<''" using 2(3) Nil False by (auto simp: tag_at_def)
        then have "CHR ''>'' \<in> set (strip_tags s)" using tag_at_mono tag by metis
        then have "CHR ''>'' \<in> set s" using set_strip_tags [of s] by auto
        moreover have "takeWhile (\<lambda>c. c \<noteq> CHR ''>'') s = [] \<or> CHR ''>'' \<notin> set s"
          using False q(2) by (auto simp: tag_at_def)
        ultimately have "s \<noteq> [] \<and> hd s = CHR ''>''" by (cases s) (auto split: if_splits)
        then obtain s' where "s = CHR ''>'' # s'" by (cases s) auto
        then have "strip_tags s = CHR ''>'' # strip_tags s'" by (simp add: tag_at_def)
        with tag q show False by (simp add: tag_at_def)
      qed
    qed (use 2(2) [OF False] 2(3) False in auto)
  qed
qed (simp add: tag_at_def)

lemma fetch_kb: "fetch env url n s = (r, s1) \<Longrightarrow> ds_kb s1 = ds_kb s"
  by (auto simp: fetch_def split: option.splits sum.splits if_splits)

lemma femp_ok: "provenance_ok (femp_document page)"
proof -
  have "\<exists>b. femp_document page = (''<!--'' @ newline @ ''source_type: '' @ ''public_real'') @ b"
    unfolding femp_document_def front_matter_def append.assoc by (intro exI) (rule refl)
  then obtain b where "femp_document page = (''<!--'' @ newline @ ''source_type: '' @ ''public_real'') @ b" by blast
  then show ?thesis by (rule provenance_of_front)
qed

lemma pump_ok: "bindR (dv_pages env x) pump_document = Inr doc \<Longrightarrow> provenance_ok doc"
  by (auto simp: bindR_Inr_iff pump_document_def dest: build_document_ok)

section \<open>Properties\<close>

text \<open>
  The text of the web page is its kept lines: stripped, in their order, none of them blank or one of
  the navigation lines, joined by single newlines, so the last two clean-up steps change nothing; and
  no tag is left in what they are taken from.
\<close>

theorem web_text_is_its_kept_lines:
  "html_to_text raw = py_join newline (web_lines raw) \<and> splitlines (html_to_text raw) = web_lines raw \<and>
   (\<forall>l\<in>set (web_lines raw). l \<noteq> [] \<and> py_strip l = l \<and> l \<notin> set navigation_lines) \<and>
   (\<forall>p q. strip_tags (page_body raw) = p @ q \<longrightarrow> \<not> tag_at q)"
proof -
  have "splitlines (py_join newline (web_lines raw)) = web_lines raw"
  proof (cases "web_lines raw = []")
    case False
    then have "last (web_lines raw) \<noteq> []" using web_line(3) [OF last_in_set] by blast
    with False show ?thesis by (intro splitlines_join) (auto simp: list_all_iff dest: web_line(2))
  qed (simp add: splitlines_def)
  then show ?thesis unfolding html_text_lines using web_line(1,3,4) no_tag_left by blast
qed

text \<open>
  The banner of a federal site is dropped only where a raw line starts with it.  Every tag has become
  a blank by then, so the banner of a page that puts it into an element is kept.
\<close>

theorem banner_inside_an_element_is_kept:
  "html_to_text ''A lock'' = [] \<and> html_to_text ''<p>A lock</p>'' = ''A lock''"
  by code_simp

text \<open>
  A run that succeeds leaves two documents that pass the offline check, and touches no other file of
  the knowledge base; when it fails, the sourcebook is as it was.
\<close>

theorem prepared_documents_pass_the_check:
  assumes "prepare_docs env False s = (r, s1)"
  shows "(\<forall>n. r = Inr n \<longrightarrow> n = 0 \<and> prepare_docs env True s1 = (Inr 0, s1)) \<and>
    (\<forall>f. f \<noteq> femp_file \<and> f \<noteq> pump_file \<longrightarrow> ds_kb s1 f = ds_kb s f) \<and>
    (\<forall>e. r = Inl e \<longrightarrow> ds_kb s1 pump_file = ds_kb s pump_file)"
proof -
  have neq: "femp_file \<noteq> pump_file" by code_simp
  obtain a s2 where femp: "build_femp_doc env s = (a, s2)" by force
  have kb2: "a = Inr () \<Longrightarrow> \<exists>page. ds_kb s2 = (ds_kb s)(femp_file \<mapsto> femp_document page)" "\<And>e. a = Inl e \<Longrightarrow> ds_kb s2 = ds_kb s"
    using femp fetch_kb [of env femp_url "''femp_bmp10_cooling_tower.html''" s]
    by (auto simp: build_femp_doc_def write_doc_def split: prod.splits sum.splits)
  obtain b s3 where pump: "build_pump_doc env s2 = (b, s3)" by force
  have kb3: "b = Inr () \<Longrightarrow> \<exists>doc. provenance_ok doc \<and> ds_kb s3 = (ds_kb s2)(pump_file \<mapsto> doc)" "\<And>e. b = Inl e \<Longrightarrow> ds_kb s3 = ds_kb s2"
    using pump fetch_kb [of env pump_url "''doe_pump_sourcebook.pdf''" s2]
    by (auto simp: build_pump_doc_def write_doc_def split: prod.splits sum.splits dest: pump_ok)
  have ok: "check_files (ds_kb s3) = 0" if "a = Inr ()" "b = Inr ()"
    using kb2(1) [OF that(1)] kb3(1) [OF that(2)] neq femp_ok
    by (auto simp: check_files_def public_files_def femp_file_def [symmetric] pump_file_def [symmetric])
  show ?thesis
    using assms femp pump kb2 kb3 ok neq by (cases a; cases b) (auto simp: prepare_docs_def)
qed

end
