(* ===== verification/Observability.thy ===== *)
theory Observability
  imports Telemetry Config LlmClient
begin

text \<open>
  The metrics and the tracing of the agent service (\<open>app/core/observability.py\<close>): the catalogue of
  metrics, the one-time set-up of the tracer provider, the measured agent stages and the context
  variables that label the calls of the model.  The Prometheus and OpenTelemetry clients are not part
  of the repository: a metric is what the module declares, a provider is what it is built from.
\<close>

section \<open>The catalogue\<close>

datatype metric_kind = CounterMetric | HistogramMetric "real list" | GaugeMetric

record metric =
  me_kind :: metric_kind
  me_name :: string
  me_labels :: "string list"

definition http_metrics :: "metric list" where
  "http_metrics =
     [\<lparr>me_kind = CounterMetric, me_name = ''http_requests_total'', me_labels = [''method'', ''path'', ''status_code'']\<rparr>,
      \<lparr>me_kind = HistogramMetric [0.005, 0.01, 0.025, 0.05, 0.1, 0.25, 0.5, 1, 2.5, 5, 10, 30, 60],
       me_name = ''http_request_duration_seconds'', me_labels = [''method'', ''path'']\<rparr>]"

definition bus_metrics :: "metric list" where
  "bus_metrics =
     [\<lparr>me_kind = CounterMetric, me_name = ''pgai_eventbus_publish_total'', me_labels = [''topic'']\<rparr>,
      \<lparr>me_kind = CounterMetric, me_name = ''pgai_eventbus_consume_total'', me_labels = [''topic'']\<rparr>,
      \<lparr>me_kind = HistogramMetric [0.001, 0.005, 0.01, 0.05, 0.1, 0.5, 1, 2.5, 5, 10, 30],
       me_name = ''pgai_eventbus_consume_duration_seconds'', me_labels = [''topic'']\<rparr>,
      \<lparr>me_kind = CounterMetric, me_name = ''pgai_eventbus_handler_errors_total'', me_labels = [''topic'']\<rparr>,
      \<lparr>me_kind = GaugeMetric, me_name = ''pgai_redis_stream_lag'', me_labels = [''stream'', ''group'', ''consumer'']\<rparr>]"

definition call_label_names :: "string list" where
  "call_label_names = [''agent'', ''provider'', ''model'', ''incident_id'']"

definition agent_metrics :: "metric list" where
  "agent_metrics =
     [\<lparr>me_kind = CounterMetric, me_name = ''pgai_llm_tokens_total'', me_labels = call_label_names\<rparr>,
      \<lparr>me_kind = CounterMetric, me_name = ''pgai_llm_calls_total'', me_labels = call_label_names\<rparr>,
      \<lparr>me_kind = CounterMetric, me_name = ''pgai_llm_cost_usd_total'', me_labels = call_label_names\<rparr>,
      \<lparr>me_kind = CounterMetric, me_name = ''pgai_agent_outcomes_total'', me_labels = [''agent'', ''outcome'']\<rparr>,
      \<lparr>me_kind = HistogramMetric [0, 20, 40, 60, 80, 100], me_name = ''pgai_root_cause_confidence'', me_labels = []\<rparr>,
      \<lparr>me_kind = CounterMetric, me_name = ''pgai_hitl_decisions_total'', me_labels = [''decision'', ''hitl_level'']\<rparr>,
      \<lparr>me_kind = CounterMetric, me_name = ''pgai_incident_cost_usd_total'', me_labels = [''incident_id'']\<rparr>,
      \<lparr>me_kind = HistogramMetric [0.1, 0.5, 1, 2.5, 5, 10, 30, 60, 120, 300],
       me_name = ''pgai_agent_stage_duration_seconds'', me_labels = [''agent'', ''stage'']\<rparr>]"

definition metrics :: "metric list" where
  "metrics = http_metrics @ bus_metrics @ agent_metrics"

section \<open>The tracer provider\<close>

text \<open>The exporter is there when its package is installed.\<close>

record tracer_provider =
  tp_service :: string
  tp_instance :: string
  tp_endpoint :: "string option"

record telemetry_state =
  ts_initialized :: bool
  ts_provider :: "tracer_provider option"
  ts_instrumented :: bool

definition environ_get :: "environ \<Rightarrow> string \<Rightarrow> string \<Rightarrow> string" where
  "environ_get env name d = (case env name of None \<Rightarrow> d | Some v \<Rightarrow> v)"

definition init_telemetry ::
  "environ \<Rightarrow> bool \<Rightarrow> string \<Rightarrow> string option \<Rightarrow> telemetry_state \<Rightarrow> telemetry_state" where
  "init_telemetry env exporter service endpoint s =
     (if ts_initialized s then s
      else if py_lower (environ_get env ''PGAI_OTEL__DISABLE'' ''false'') = ''true'' then s
      else
        (let target = or_str endpoint (environ_get env ''PGAI_OTEL__EXPORTER_URL'' ''http://otel-collector:4317'') in
         s\<lparr>ts_provider := Some \<lparr>tp_service = service, tp_instance = environ_get env ''HOSTNAME'' ''unknown'',
             tp_endpoint = (if exporter then Some target else None)\<rparr>,
           ts_initialized := True\<rparr>))"

text \<open>The instrumentation package may be missing; its import error is swallowed.\<close>

definition instrument_fastapi_app ::
  "environ \<Rightarrow> bool \<Rightarrow> bool \<Rightarrow> string \<Rightarrow> telemetry_state \<Rightarrow> telemetry_state" where
  "instrument_fastapi_app env exporter package service s =
     (let s1 = init_telemetry env exporter service None s in
      if package then s1\<lparr>ts_instrumented := True\<rparr> else s1)"

section \<open>Stages and labels\<close>

text \<open>
  What the agents observe: the durations of their stages, and the agent and incident of the
  current context, which label the calls of the model.
\<close>

record observations =
  ob_stages :: "(string \<times> string \<times> real) list"
  ob_agent :: "string option"
  ob_incident :: "string option"

type_synonym ('a, 's) body = "observations \<Rightarrow> 's \<Rightarrow> 'a result \<times> observations \<times> 's"

text \<open>The block runs between two readings of the clock; the \<open>finally\<close> clause observes in any case.\<close>

definition record_agent_stage :: "string \<Rightarrow> string \<Rightarrow> real \<times> real \<Rightarrow> ('a, 's) body \<Rightarrow> ('a, 's) body" where
  "record_agent_stage agent stage clock body o1 s =
     (case body o1 s of
        (r, o2, s') \<Rightarrow> (r, o2\<lparr>ob_stages := ob_stages o2 @ [(agent, stage, snd clock - fst clock)]\<rparr>, s'))"

text \<open>\<open>set\<close> before the handler and \<open>reset\<close> in its \<open>finally\<close> clause.\<close>

definition under_labels :: "string \<Rightarrow> string \<Rightarrow> ('a, 's) body \<Rightarrow> ('a, 's) body" where
  "under_labels agent incident body o1 s =
     (case body (o1\<lparr>ob_agent := Some agent, ob_incident := Some incident\<rparr>) s of
        (r, o2, s') \<Rightarrow> (r, o2\<lparr>ob_agent := ob_agent o1, ob_incident := ob_incident o1\<rparr>, s'))"

definition labels_now :: "string \<Rightarrow> string \<Rightarrow> observations \<Rightarrow> call_labels" where
  "labels_now provider model ob = call_labels (ob_agent ob) provider model (ob_incident ob)"

text \<open>How both model agents wrap their work.\<close>

definition observed_handle :: "string \<Rightarrow> string \<Rightarrow> string \<Rightarrow> real \<times> real \<Rightarrow> ('a, 's) body \<Rightarrow> ('a, 's) body" where
  "observed_handle agent stage incident clock body = under_labels agent incident (record_agent_stage agent stage clock body)"

section \<open>Log lines\<close>

text \<open>
  \<open>core/logging_config.py\<close>: the object a record becomes, before \<open>json.dumps\<close>.  The service and the
  correlation identifier may be attributes of the record; otherwise the service name is the fixed
  one and the identifier is the one of the context.
\<close>

record log_record =
  rl_level :: string
  rl_logger :: string
  rl_message :: string
  rl_service :: "string option"
  rl_correlation :: "string option"
  rl_exception :: "string option"

definition service_name :: string where
  "service_name = ''processguard-agent-service''"

definition format_record :: "string \<Rightarrow> string \<Rightarrow> log_record \<Rightarrow> (string \<times> string) list" where
  "format_record now context r =
     [(''timestamp'', now), (''level'', rl_level r),
      (''service'', case rl_service r of None \<Rightarrow> service_name | Some x \<Rightarrow> x),
      (''logger'', rl_logger r), (''message'', rl_message r),
      (''correlation_id'', case rl_correlation r of None \<Rightarrow> context | Some x \<Rightarrow> x)] @
     (case rl_exception r of None \<Rightarrow> [] | Some x \<Rightarrow> [(''exception'', x)])"

text \<open>
  The logger adapter writes its own fields over the \<open>extra\<close> of a call: \<open>LoggerAdapter.process\<close>
  replaces it, so an identifier given with the call is lost and the context's one is printed.
\<close>

definition adapter_record :: "string \<Rightarrow> string \<Rightarrow> string \<Rightarrow> string option \<Rightarrow> log_record" where
  "adapter_record logger level message extra_correlation =
     \<lparr>rl_level = level, rl_logger = logger, rl_message = message, rl_service = Some service_name,
      rl_correlation = None, rl_exception = None\<rparr>"

text \<open>The handlers of the root logger: \<open>configure_logging\<close> puts the one JSON handler in their place.\<close>

record root_logger =
  rg_handlers :: "string list"
  rg_level :: string

definition configure_logging :: "string \<Rightarrow> root_logger \<Rightarrow> root_logger" where
  "configure_logging level g = g\<lparr>rg_handlers := [''json-stdout''], rg_level := level\<rparr>"

section \<open>Properties\<close>

text \<open>
  Every metric is declared once, and every counter under a name that ends in \<open>_total\<close>: the client
  exposes it under that name, so none of the three names the telemetry endpoints look for, which end
  in \<open>_total_total\<close>, belongs to a counter of the catalogue.
\<close>

definition counters :: "string list" where
  "counters = map me_name (filter (\<lambda>m. me_kind m = CounterMetric) metrics)"

theorem catalogue_is_consistent:
  "distinct (map me_name metrics)"
  "list_all (\<lambda>n. drop (length n - 6) n = ''_total'') counters"
  "set counters \<inter> {tokens_name, cost_name, incident_cost_name} = {}"
  "list_all (\<lambda>n. n @ ''_total'' \<in> {tokens_name, cost_name, incident_cost_name} \<longrightarrow> n \<in> set counters)
     [''pgai_llm_tokens_total'', ''pgai_llm_cost_usd_total'', ''pgai_incident_cost_usd_total'']"
  by (simp_all add: counters_def metrics_def http_metrics_def bus_metrics_def agent_metrics_def tokens_name_def
      cost_name_def incident_cost_name_def)

text \<open>
  The first set-up wins: once the provider is there, no later call changes it, whatever service name
  or endpoint it gives; with \<open>PGAI_OTEL__DISABLE\<close> set to \<open>true\<close> in any case, nothing is ever set up.
\<close>

theorem telemetry_is_set_up_once:
  "ts_initialized (init_telemetry env exporter service endpoint s) \<Longrightarrow>
     init_telemetry env' exporter' service' endpoint' (init_telemetry env exporter service endpoint s) =
     init_telemetry env exporter service endpoint s"
  "env ''PGAI_OTEL__DISABLE'' = Some v \<Longrightarrow> py_lower v = ''true'' \<Longrightarrow> init_telemetry env exporter service endpoint s = s"
  by (simp_all add: init_telemetry_def environ_get_def)

text \<open>
  A run of an agent is measured once and leaves no label behind, whether it returns or raises: the
  result and the state are those of the work, one duration is added, and the labels of the caller
  are back.  Inside, a call of the model carries the agent and the incident.
\<close>

theorem observed_handle_is_transparent:
  "\<exists>stages. observed_handle agent stage incident clock body ob s =
     (fst (body (ob\<lparr>ob_agent := Some agent, ob_incident := Some incident\<rparr>) s),
      (fst (snd (body (ob\<lparr>ob_agent := Some agent, ob_incident := Some incident\<rparr>) s)))
        \<lparr>ob_stages := stages @ [(agent, stage, snd clock - fst clock)], ob_agent := ob_agent ob, ob_incident := ob_incident ob\<rparr>,
      snd (snd (body (ob\<lparr>ob_agent := Some agent, ob_incident := Some incident\<rparr>) s))) \<and>
     stages = ob_stages (fst (snd (body (ob\<lparr>ob_agent := Some agent, ob_incident := Some incident\<rparr>) s))) \<and>
     labels_now p m (ob\<lparr>ob_agent := Some agent, ob_incident := Some incident\<rparr>) =
       (if agent = [] then ''unknown'' else agent, p, m, incident)"
  by (auto simp: observed_handle_def under_labels_def record_agent_stage_def labels_now_def call_labels_def or_str_def split: prod.split)

text \<open>
  Every line of the service carries the identifier of its context, whatever the call passes along,
  and configuring the logging twice leaves one handler.
\<close>

theorem lines_carry_the_context:
  "map_of (format_record now context (adapter_record logger level message x)) ''correlation_id'' = Some context"
  "map_of (format_record now context (adapter_record logger level message x)) ''service'' = Some service_name"
  "configure_logging l2 (configure_logging l1 g) = configure_logging l2 g"
  by (simp_all add: format_record_def adapter_record_def configure_logging_def)

end
