(* ===== verification/CmmsHttp.thy ===== *)
theory CmmsHttp
  imports Http CmmsService Config
begin

text \<open>
  The process around the endpoints of the enterprise system (\<open>mock-erp-cmms/main.py\<close>): the key it
  refuses to start without, its pool and schema, the correlation identifier of its log and its
  health probes; and the headers the client of the agent service sends
  (\<open>_request\<close> of \<open>app/core/cmms_client.py\<close>).
\<close>

section \<open>Start\<close>

definition environ_or :: "environ \<Rightarrow> string \<Rightarrow> string \<Rightarrow> string" where
  "environ_or env name d = (case env name of None \<Rightarrow> d | Some v \<Rightarrow> v)"

text \<open>The module raises \<open>SystemExit(1)\<close> while it is imported.\<close>

definition system_exit :: exc where
  "system_exit = OtherError ''1''"

definition cmms_key :: "environ \<Rightarrow> string result" where
  "cmms_key env = (let key = environ_or env ''CMMS_API_KEY'' [] in if key = [] then Inl system_exit else Inr key)"

definition cmms_dsn :: "environ \<Rightarrow> string" where
  "cmms_dsn env =
     ''postgres://'' @ environ_or env ''PGAI_DATABASE__USER'' ''pgai'' @ '':'' @
     environ_or env ''PGAI_DATABASE__PASSWORD'' ''pgai_dev_password'' @ ''@'' @
     environ_or env ''PGAI_DATABASE__HOST'' ''postgres'' @ '':'' @
     environ_or env ''PGAI_DATABASE__PORT'' ''5432'' @ ''/'' @ environ_or env ''PGAI_DATABASE__NAME'' ''processguard''"

record cmms_process =
  cp_key :: string
  cp_pool :: bool
  cp_tables :: cmms

text \<open>\<open>_pool()\<close>: opened at the first use and again after it was closed.\<close>

definition cmms_pool :: "exc option \<Rightarrow> cmms_process \<Rightarrow> unit result \<times> cmms_process" where
  "cmms_pool fault p =
     (if cp_pool p then (Inr (), p)
      else case fault of Some x \<Rightarrow> (Inl x, p) | None \<Rightarrow> (Inr (), p\<lparr>cp_pool := True\<rparr>))"

text \<open>
  The start: the key, then the tables, which are created and filled only when they are missing.
\<close>

definition cmms_start :: "environ \<Rightarrow> exc option \<Rightarrow> cmms \<Rightarrow> cmms_process result" where
  "cmms_start env fault tables =
     (case cmms_key env of
        Inl x \<Rightarrow> Inl x
      | Inr key \<Rightarrow>
          (case cmms_pool fault \<lparr>cp_key = key, cp_pool = False, cp_tables = tables\<rparr> of
             (Inl x, _) \<Rightarrow> Inl x
           | (Inr _, p) \<Rightarrow> Inr (p\<lparr>cp_tables := ensure_schema (cp_tables p)\<rparr>)))"

section \<open>Health\<close>

definition cmms_live :: "nat \<times> string" where
  "cmms_live = (200, ''ok'')"

text \<open>Code, status and what the key \<open>postgres\<close> says.\<close>

definition cmms_ready :: "exc option \<Rightarrow> exc option \<Rightarrow> cmms_process \<Rightarrow> (nat \<times> string \<times> string) \<times> cmms_process" where
  "cmms_ready open_fault query_fault p =
     (case cmms_pool open_fault p of
        (Inl x, p') \<Rightarrow> ((503, ''degraded'', take 200 (exc_str x)), p')
      | (Inr _, p') \<Rightarrow>
          (case query_fault of
             Some x \<Rightarrow> ((503, ''degraded'', take 200 (exc_str x)), p')
           | None \<Rightarrow> ((200, ''ok'', ''ok''), p')))"

section \<open>Headers\<close>

text \<open>The explicit identifier wins over the one of the context, which is a dash outside of a request.\<close>

definition outgoing_id :: "string option \<Rightarrow> string option \<Rightarrow> string" where
  "outgoing_id explicit ambient = or_str explicit (or_str ambient [])"

definition client_headers :: "string \<Rightarrow> string option \<Rightarrow> string option \<Rightarrow> (string \<times> string) list" where
  "client_headers key explicit ambient =
     (let cid = outgoing_id explicit ambient in
      [(''x-api-key'', key), (''content-type'', ''application/json'')] @
      (if cid = [] then [] else [(correlation_header, cid)]))"

definition client_request :: "string \<Rightarrow> string option \<Rightarrow> string option \<Rightarrow> cmms_request \<Rightarrow> http_request" where
  "client_request key explicit ambient req =
     \<lparr>rq_type = ''http'', rq_method = request_method req, rq_path = request_path req,
      rq_headers = client_headers key explicit ambient\<rparr>"

text \<open>An endpoint as an application: the key check reads the header, which defaults to the empty text.\<close>

definition cmms_answer ::
  "(cmms_body \<Rightarrow> string) \<Rightarrow> string \<Rightarrow> time \<Rightarrow> cmms_request \<Rightarrow> cmms \<Rightarrow> http_request \<Rightarrow> net_outcome \<times> cmms" where
  "cmms_answer raw key t req c r =
     serve raw key (case header_of ''x-api-key'' (rq_headers r) of None \<Rightarrow> [] | Some h \<Rightarrow> h) t req c"

definition cmms_endpoint :: "(cmms_body \<Rightarrow> string) \<Rightarrow> string \<Rightarrow> time \<Rightarrow> cmms_request \<Rightarrow> cmms \<Rightarrow> asgi_app" where
  "cmms_endpoint raw key t req c ctx r =
     (case fst (cmms_answer raw key t req c r) of
        Answer code _ shown \<Rightarrow> \<lparr>ar_lines = [], ar_sent = [ResponseStart (Some code) [], ResponseBody shown], ar_raised = None\<rparr>
      | NetError x \<Rightarrow> \<lparr>ar_lines = [], ar_sent = [], ar_raised = Some (OtherError x)\<rparr>)"

text \<open>\<open>_correlation\<close> does what the middleware of the agent service does, with the header name built in.\<close>

definition cmms_correlation :: "string \<Rightarrow> asgi_app \<Rightarrow> asgi_app" where
  "cmms_correlation fresh app = correlation_middleware fresh app"

text \<open>The object of a log line (\<open>JsonFormatter\<close>): the identifier is the one of the context.\<close>

definition cmms_log_object :: "string \<Rightarrow> string \<Rightarrow> log_line \<Rightarrow> (string \<times> string) list" where
  "cmms_log_object now level l =
     [(''timestamp'', now), (''level'', level), (''service'', ''mock-erp-cmms''), (''correlation_id'', snd l), (''message'', fst l)]"

section \<open>Facts\<close>

lemma header_of_client:
  "header_of ''x-api-key'' (client_headers key explicit ambient) = Some key"
  "header_of correlation_header (client_headers key explicit ambient) =
     (if outgoing_id explicit ambient = [] then None else Some (outgoing_id explicit ambient))"
  by (simp_all add: header_of_def client_headers_def correlation_header_def Let_def)

lemma serve_answers: "\<exists>code b shown. fst (serve raw key h t req c) = Answer code b shown"
  by (auto simp: serve_def split: option.split prod.split)

lemma endpoint_lines:
  "\<exists>code shown. ar_lines (cmms_endpoint raw key t req c ctx r) = [] \<and>
     ar_sent (cmms_endpoint raw key t req c ctx r) = [ResponseStart (Some code) [], ResponseBody shown]"
proof -
  obtain code b shown where "fst (cmms_answer raw key t req c r) = Answer code b shown"
    using serve_answers unfolding cmms_answer_def by blast
  then show ?thesis by (simp add: cmms_endpoint_def)
qed

section \<open>Properties\<close>

text \<open>
  One identifier through both services.  The identifier the agent service gave a request, handed on
  to a request to the enterprise system, is the identifier of both log lines written there and of
  the answer, provided it has no blank at its end (an incoming header cut at 128 characters can have
  one, and the second service strips it).  Outside of a request the context holds a dash, and the
  dash is what the enterprise system then logs.
\<close>

theorem correlation_reaches_the_cmms:
  assumes "x = correlation_id fresh incoming" "length fresh = 32" "py_strip x = x"
  shows "let run = cmms_correlation fresh' (cmms_endpoint raw key t req c) ''-'' (client_request key (Some x) ambient req)
     in map snd (ar_lines run) = [x, x] \<and>
        (\<exists>code shown. ar_sent run = [ResponseStart (Some code) [(correlation_header, x)], ResponseBody shown])"
    and "let run = cmms_correlation fresh' (cmms_endpoint raw key t req c) ''-'' (client_request key None (Some ''-'') req)
     in map snd (ar_lines run) = [''-'', ''-'']"
proof -
  have run: "let run = cmms_correlation fresh' (cmms_endpoint raw key t req c) ''-'' (client_request key e a req)
     in map snd (ar_lines run) = [y, y] \<and>
        (\<exists>code shown. ar_sent run = [ResponseStart (Some code) [(correlation_header, y)], ResponseBody shown])"
    if "outgoing_id e a = y" "y \<noteq> []" "py_strip y = y" "length y \<le> 128" for e a y
  proof -
    have y: "correlation_id fresh' (Some y) = y" using that by (simp add: correlation_id_def)
    obtain code shown where "ar_lines (cmms_endpoint raw key t req c y (client_request key e a req)) = []"
      "ar_sent (cmms_endpoint raw key t req c y (client_request key e a req)) = [ResponseStart (Some code) [], ResponseBody shown]"
      using endpoint_lines by blast
    then show ?thesis
      using that(1,2) y header_of_client(2) [of key e a]
      by (simp add: cmms_correlation_def correlation_middleware_def client_request_def Let_def)
  qed
  have x: "x \<noteq> []" "length x \<le> 128"
    using assms(1,2) by (auto simp: correlation_id_def Let_def)
  show "let run = cmms_correlation fresh' (cmms_endpoint raw key t req c) ''-'' (client_request key (Some x) ambient req)
     in map snd (ar_lines run) = [x, x] \<and>
        (\<exists>code shown. ar_sent run = [ResponseStart (Some code) [(correlation_header, x)], ResponseBody shown])"
    using x assms(3) by (intro run) (simp_all add: outgoing_id_def or_str_def)
  have "py_strip ''-'' = ''-''" by code_simp
  with run [of None "Some ''-''" "''-''"]
  show "let run = cmms_correlation fresh' (cmms_endpoint raw key t req c) ''-'' (client_request key None (Some ''-'') req)
     in map snd (ar_lines run) = [''-'', ''-'']"
    by (simp add: outgoing_id_def or_str_def Let_def)
qed

theorem correlation_reaches_the_cmms_witness:
  "let run = cmms_correlation (replicate 32 CHR ''f'') (cmms_endpoint (\<lambda>_. []) ''k'' 0 (GetInventory ''biocide'') sample_cmms) ''-''
     (client_request ''k'' (Some ''trace-7'') None (GetInventory ''biocide''))
   in map snd (ar_lines run) = [''trace-7'', ''trace-7'']"
proof -
  have a: "''trace-7'' = correlation_id (replicate 32 CHR ''0'') (Some '' trace-7 '')" by code_simp
  have b: "py_strip ''trace-7'' = ''trace-7''" by code_simp
  show ?thesis
    using correlation_reaches_the_cmms(1) [OF a _ b, of "replicate 32 CHR ''f''" "\<lambda>_. []" "''k''" 0 "GetInventory ''biocide''" sample_cmms None]
    by (simp add: Let_def)
qed

text \<open>
  The client's headers authenticate it: what an endpoint answers to them is what \<open>serve\<close>, the
  interpretation of the contract, answers to the client's key.
\<close>

theorem client_is_served_under_its_key:
  "cmms_answer raw key t req c (client_request key' explicit ambient req') = serve raw key key' t req c"
  by (simp add: cmms_answer_def client_request_def header_of_client)

text \<open>
  The service never runs without a key, and a start keeps what is there: it fails when the key is
  missing or empty, and otherwise runs with the key, with every order and reorder that was there and
  every product with the stock it had.
\<close>

theorem cmms_starts_only_with_a_key:
  "cmms_start env None tables = (case env ''CMMS_API_KEY'' of
     None \<Rightarrow> Inl system_exit
   | Some key \<Rightarrow> if key = [] then Inl system_exit
       else Inr \<lparr>cp_key = key, cp_pool = True, cp_tables = ensure_schema tables\<rparr>)"
  by (auto simp: cmms_start_def cmms_key_def environ_or_def cmms_pool_def Let_def split: option.split)

text \<open>The readiness probe never raises: it opens the pool if it must, and reports what went wrong.\<close>

theorem cmms_ready_reports:
  "fst (fst (cmms_ready f q p)) = 200 \<longleftrightarrow> (cp_pool p \<or> f = None) \<and> q = None"
  "cp_tables (snd (cmms_ready f q p)) = cp_tables p \<and> cp_key (snd (cmms_ready f q p)) = cp_key p"
  by (auto simp: cmms_ready_def cmms_pool_def split: option.split)

end
