(* ===== verification/Resources.thy ===== *)
theory Resources
  imports Security Config
begin

text \<open>
  What the processes share and open once: the connection pool of \<open>app/core/db.py\<close> with its health
  probe, and the role table and the key client that \<open>app/core/security.py\<close> keeps.  A pool is its
  number; \<open>asyncpg.create_pool\<close> gives a new one or raises, and a pool may also be closed from
  outside.
\<close>

section \<open>The connection pool\<close>

record pools =
  pl_current :: "nat option"
  pl_open :: "nat set"
  pl_next :: nat

definition no_pools :: pools where
  "no_pools = \<lparr>pl_current = None, pl_open = {}, pl_next = 0\<rparr>"

definition current_is_open :: "pools \<Rightarrow> bool" where
  "current_is_open s = (case pl_current s of None \<Rightarrow> False | Some p \<Rightarrow> p \<in> pl_open s)"

text \<open>\<open>if _pool is None or _pool._closed\<close>: a new one replaces a closed one.\<close>

definition init_db_pool :: "exc option \<Rightarrow> pools \<Rightarrow> nat result \<times> pools" where
  "init_db_pool fault s =
     (case pl_current s of
        Some p \<Rightarrow>
          if p \<in> pl_open s then (Inr p, s)
          else (case fault of
             Some x \<Rightarrow> (Inl x, s)
           | None \<Rightarrow> (Inr (pl_next s), s\<lparr>pl_current := Some (pl_next s), pl_open := insert (pl_next s) (pl_open s), pl_next := pl_next s + 1\<rparr>))
      | None \<Rightarrow>
          (case fault of
             Some x \<Rightarrow> (Inl x, s)
           | None \<Rightarrow> (Inr (pl_next s), s\<lparr>pl_current := Some (pl_next s), pl_open := insert (pl_next s) (pl_open s), pl_next := pl_next s + 1\<rparr>)))"

text \<open>When closing raises, the pool stays where it is, open or not.\<close>

definition close_db_pool :: "exc option \<Rightarrow> pools \<Rightarrow> unit result \<times> pools" where
  "close_db_pool fault s =
     (case pl_current s of
        Some p \<Rightarrow>
          if p \<in> pl_open s then
            (case fault of
               Some x \<Rightarrow> (Inl x, s)
             | None \<Rightarrow> (Inr (), s\<lparr>pl_current := None, pl_open := pl_open s - {p}\<rparr>))
          else (Inr (), s\<lparr>pl_current := None\<rparr>)
      | None \<Rightarrow> (Inr (), s\<lparr>pl_current := None\<rparr>))"

definition get_pool :: "pools \<Rightarrow> nat result" where
  "get_pool s =
     (case pl_current s of
        None \<Rightarrow> Inl (RuntimeError ''Database pool not initialized; lifespan startup did not run'')
      | Some p \<Rightarrow> Inr p)"

text \<open>
  The probe: one connection of its own, one query.  What \<open>except\<close> does not cover is the closing in
  the \<open>finally\<close> clause.
\<close>

record probe_faults =
  pf_connect :: "exc option"
  pf_query :: "exc option"
  pf_close :: "exc option"

definition check_postgres :: "probe_faults \<Rightarrow> bool result" where
  "check_postgres f =
     (case pf_connect f of
        Some _ \<Rightarrow> Inr False
      | None \<Rightarrow> (case pf_close f of Some x \<Rightarrow> Inl x | None \<Rightarrow> Inr (pf_query f = None)))"

text \<open>Everything that happens to the pools of a process.\<close>

inductive pool_use :: "pools \<Rightarrow> pools \<Rightarrow> bool" where
  init: "init_db_pool fault s = (r, s') \<Longrightarrow> pool_use s s'"
| close: "close_db_pool fault s = (r, s') \<Longrightarrow> pool_use s s'"
| outside: "pool_use s (s\<lparr>pl_open := pl_open s - {p}\<rparr>)"

section \<open>What \<open>security.py\<close> keeps\<close>

text \<open>The role table is read at the first use; a failed read is tried again.\<close>

definition get_rbac_policy :: "policy_file option \<Rightarrow> rbac_policy option \<Rightarrow> rbac_policy result \<times> rbac_policy option" where
  "get_rbac_policy file cached =
     (case cached of
        Some p \<Rightarrow> (Inr p, cached)
      | None \<Rightarrow> (case load_rbac_policy file of Inl x \<Rightarrow> (Inl x, None) | Inr p \<Rightarrow> (Inr p, Some p)))"

text \<open>The key client is its address.\<close>

definition jwks_url :: "settings \<Rightarrow> string" where
  "jwks_url st = or_str (Some (cf_oidc_jwks_url st)) (cf_oidc_internal_issuer st @ ''/jwks.json'')"

definition get_jwk_client :: "settings result \<Rightarrow> string option \<Rightarrow> string result \<times> string option" where
  "get_jwk_client settings cached =
     (case cached of
        Some u \<Rightarrow> (Inr u, cached)
      | None \<Rightarrow> (case settings of Inl x \<Rightarrow> (Inl x, None) | Inr st \<Rightarrow> (Inr (jwks_url st), Some (jwks_url st))))"

section \<open>Facts\<close>

definition pools_ok :: "pools \<Rightarrow> bool" where
  "pools_ok s \<longleftrightarrow> pl_open s \<subseteq> set_option (pl_current s) \<and> (\<forall>p\<in>set_option (pl_current s). p < pl_next s)"

lemma pools_ok_init: "pools_ok s \<Longrightarrow> pools_ok (snd (init_db_pool fault s))"
  by (auto simp: pools_ok_def init_db_pool_def split: option.split)

lemma pools_ok_close: "pools_ok s \<Longrightarrow> pools_ok (snd (close_db_pool fault s))"
  by (cases "pl_current s") (auto simp: pools_ok_def close_db_pool_def split: option.split)

lemma pools_ok_step: "pool_use s s' \<Longrightarrow> pools_ok s \<Longrightarrow> pools_ok s'"
proof (induction rule: pool_use.induct)
  case (init fault s r s')
  then show ?case using pools_ok_init [of s fault] by simp
next
  case (close fault s r s')
  then show ?case using pools_ok_close [of s fault] by simp
next
  case (outside s p)
  then show ?case by (auto simp: pools_ok_def)
qed

lemma pools_ok_reachable: "pool_use\<^sup>*\<^sup>* no_pools s \<Longrightarrow> pools_ok s"
proof (induction rule: rtranclp_induct)
  case base
  show ?case by (simp add: pools_ok_def no_pools_def)
qed (rule pools_ok_step)

section \<open>Properties\<close>

text \<open>
  A process has at most one open pool, the one everything uses: whatever sequence of set-ups,
  closings and interruptions led to it, an open pool is the current one, a set-up that succeeds
  returns the current pool, and it is new unless the current one was open.
\<close>

theorem one_open_pool:
  assumes "pool_use\<^sup>*\<^sup>* no_pools s"
  shows "(\<forall>p\<in>pl_open s. get_pool s = Inr p) \<and>
    (init_db_pool fault s = (Inr p, s') \<longrightarrow>
       get_pool s' = Inr p \<and> pl_open s' = {p} \<and> (if current_is_open s then s' = s else p = pl_next s))"
proof -
  have "pools_ok s" by (rule pools_ok_reachable [OF assms])
  then show ?thesis
    by (auto simp: pools_ok_def get_pool_def init_db_pool_def current_is_open_def split: option.splits if_splits)
qed

theorem one_open_pool_witness:
  "\<exists>s'. init_db_pool None no_pools = (Inr 0, s') \<and> pl_open s' = {0}"
  using one_open_pool [of no_pools None 0] by (auto simp: init_db_pool_def no_pools_def)

text \<open>
  The probe answers unless the connection cannot be closed: then its exception leaves the function,
  past the \<open>except\<close> clause, and the readiness endpoint fails instead of reporting.
\<close>

theorem probe_reports_or_raises:
  "check_postgres f = (if pf_connect f \<noteq> None then Inr False
     else case pf_close f of Some x \<Rightarrow> Inl x | None \<Rightarrow> Inr (pf_query f = None))"
  by (auto simp: check_postgres_def split: option.split)

text \<open>
  The role table is fixed at the first use: once it was read, later changes of the file, even its
  removal, change nothing for the process, and a failed first read leaves nothing behind.
\<close>

theorem role_table_is_read_once:
  "get_rbac_policy file None = (Inr p, c) \<Longrightarrow> get_rbac_policy file' c = (Inr p, c)"
  "get_rbac_policy None None = (Inl (RuntimeError ''RBAC policy file not found''), None)"
  by (auto simp: get_rbac_policy_def load_rbac_policy_def split: option.splits)

text \<open>The keys come from the configured address, or from the issuer inside the network.\<close>

theorem keys_come_from_the_internal_issuer:
  "fst (get_jwk_client (Inr st) None) =
     Inr (if cf_oidc_jwks_url st = [] then cf_oidc_internal_issuer st @ ''/jwks.json'' else cf_oidc_jwks_url st)"
  by (simp add: get_jwk_client_def jwks_url_def or_str_def)

end
