(* ===== verification/Producer.thy ===== *)
theory Producer
  imports TepReplay Startup
begin

text \<open>
  The sensor-data process (\<open>agent-service/simulator_main.py\<close>): it reads the settings, opens the
  pool, seeds the demonstration rows, reaches Redis and then runs one of the two producers, the
  synthetic simulator or the replay engine, on the sensors of the database.
\<close>

datatype producer = Replay tep_engine | Synthetic simulator

text \<open>
  What the process finds: the environment, the database, the faults of its I/O and the two CSV files.
\<close>

record producer_env =
  pe_environ :: environ
  pe_float :: "string \<Rightarrow> real option"
  pe_open :: "exc option"
  pe_seed :: "exc option"
  pe_redis :: "exc option"
  pe_sensors :: "exc option"
  pe_free_csv :: "csv_row list option"
  pe_fault_csv :: "csv_row list option"

definition io_result :: "exc option \<Rightarrow> 'a \<Rightarrow> 'a result" where
  "io_result fault x = (case fault of Some e \<Rightarrow> Inl e | None \<Rightarrow> Inr x)"

text \<open>The database after the seeding and the producer that \<open>run\<close> is called on.\<close>

definition start_producer :: "producer_env \<Rightarrow> db \<Rightarrow> (db \<times> producer) result" where
  "start_producer env d =
     bindR (load_settings (pe_float env) (pe_environ env)) (\<lambda>st.
     bindR (io_result (pe_open env) ()) (\<lambda>_.
     bindR (io_result (pe_seed env) (snd (seed_demo_data d))) (\<lambda>d1.
     bindR (io_result (pe_redis env) ()) (\<lambda>_.
     bindR (io_result (pe_sensors env) (load_sensors d1)) (\<lambda>ss.
       Inr (d1, if cf_data_source st = ''tep_replay''
                then Replay (load_data (pe_free_csv env) (pe_fault_csv env) (new_engine ss))
                else Synthetic (new_simulator ss)))))))"

definition producer_sensors :: "producer \<Rightarrow> sim_sensor list" where
  "producer_sensors p = (case p of Replay e \<Rightarrow> tp_sensors e | Synthetic s \<Rightarrow> sy_sensors s)"

text \<open>
  Both producers start in the normal mode on the same sensors, those of the seeded database, and the
  replay engine always has rows in both runs to play: the recorded ones when both files are there,
  the embedded excerpt otherwise.
\<close>

theorem producers_start_alike:
  assumes "start_producer env d = Inr (d1, p)"
  shows "d1 = snd (seed_demo_data d) \<and> producer_sensors p = load_sensors d1 \<and>
    (case p of
       Synthetic s \<Rightarrow> sy_mode s = ''normal''
     | Replay e \<Rightarrow> tp_mode e = ''normal'' \<and>
         (tp_free e, tp_fault e) =
           (if pe_free_csv env \<noteq> None \<and> pe_fault_csv env \<noteq> None
            then (the (pe_free_csv env), the (pe_fault_csv env)) else embedded_excerpt))"
  using assms
  by (auto simp: start_producer_def io_result_def bindR_Inr_iff producer_sensors_def new_engine_def new_simulator_def
      load_data_def split: option.splits if_splits)

theorem producers_start_alike_witness:
  "\<exists>e d1 p. start_producer \<lparr>pe_environ = sample_environ, pe_float = (\<lambda>_. Some 1), pe_open = None, pe_seed = None,
     pe_redis = None, pe_sensors = None, pe_free_csv = None, pe_fault_csv = None\<rparr> sample_db = Inr (d1, p) \<and>
     producer_sensors p = load_sensors d1"
proof -
  obtain st where "load_settings (\<lambda>_. Some 1) sample_environ = Inr st" using sample_loads by (auto simp: is_ok_iff)
  then obtain d1 p where "start_producer \<lparr>pe_environ = sample_environ, pe_float = (\<lambda>_. Some 1), pe_open = None, pe_seed = None,
     pe_redis = None, pe_sensors = None, pe_free_csv = None, pe_fault_csv = None\<rparr> sample_db = Inr (d1, p)"
    by (simp add: start_producer_def io_result_def)
  with producers_start_alike [OF this] show ?thesis by blast
qed

text \<open>The source is one of the two: a third value of \<open>SENSOR_DATA_SOURCE\<close> never starts anything.\<close>

theorem unknown_source_is_refused:
  assumes "pe_environ env ''SENSOR_DATA_SOURCE'' = Some v" "v \<noteq> []" "py_lower v \<notin> {''synthetic'', ''tep_replay''}"
  shows "\<exists>e. start_producer env d = Inl e"
proof -
  have "optional_var (pe_environ env) ''SENSOR_DATA_SOURCE'' ''synthetic'' = v" using assms(1,2) by (simp add: optional_var_def)
  with assms(3) have "\<not> is_ok (load_settings (pe_float env) (pe_environ env))" by (simp only: load_ok simp_thms)
  then show ?thesis by (cases "load_settings (pe_float env) (pe_environ env)") (simp_all add: start_producer_def is_ok_def)
qed

theorem unknown_source_is_refused_witness:
  "\<exists>e. start_producer \<lparr>pe_environ = [''SENSOR_DATA_SOURCE'' \<mapsto> ''opc''], pe_float = (\<lambda>_. None), pe_open = None, pe_seed = None,
     pe_redis = None, pe_sensors = None, pe_free_csv = None, pe_fault_csv = None\<rparr> sample_db = Inl e"
proof -
  have v: "py_lower ''opc'' \<notin> {''synthetic'', ''tep_replay''}" by code_simp
  show ?thesis by (rule unknown_source_is_refused [where v = "''opc''"]) (use v in simp_all)
qed

end
