(* ===== verification/Spec2Isabelle.thy ===== *)
theory Spec2Isabelle
  imports Platform OidcProvider Prompts Ask ApprovalGate TepReplay Telemetry Startup Http Workspaces LoginPage WebPage
    Observability CmmsHttp Resources Producer
begin

text \<open>
  A verification library of the ProcessGuard AI platform: the agent service
  (\<open>agent-service/app\<close>), the OpenID provider (\<open>oidc-provider/app\<close>), the mock enterprise
  system (\<open>mock-erp-cmms/main.py\<close>) and the data scripts (\<open>scripts\<close>).

  \<^bold>\<open>The program.\<close>  Sensor readings enter through a Redis stream, from the synthetic simulator or
  from the replay of recorded data.  The Detection Agent scores each reading against its band and a
  rolling baseline, correlates anomalies of one equipment in time and opens or extends an incident.
  The event it publishes starts the Knowledge Agent, which searches the indexed procedures and the
  incident history and stores the evidence; its nudge (or the anomaly itself) starts the Root-Cause
  Agent, which asks a language model for a diagnosis and refuses every answer with a point that
  cannot be traced to the evidence.  The Orchestrator reacts to the completion of each stage, drives
  the Risk Agent (severity, consequences, level of human involvement) and the Recommendation Agent
  (a planner loop with two tools), and moves the incident to the gate.  People approve or reject
  through the incident API, behind token validation and a role table; only then does the Action
  Agent create work orders and reorders at the enterprise system, and its poll closes the incident
  when the order is resolved there.

  \<^bold>\<open>The theories and the code they translate.\<close>
    \<^item> \<open>Prelude\<close>: exceptions and results, Python's truth values, the bounded retry loop and its
      contract \<open>atomic_write\<close>; \<open>PyText\<close>: the string operations of Python; \<open>Uuid\<close>:
      \<open>uuid.UUID\<close>; \<open>Domain\<close>: the data the parts exchange; \<open>Config\<close>:
      \<open>core/config.py\<close>.
    \<^item> \<open>Store\<close>, \<open>StoreReads\<close>, \<open>StoreFacts\<close>: \<open>core/db.py\<close>, one table per record list and
      one definition per helper; \<open>Resources\<close>: the shared connection pool of \<open>core/db.py\<close> and
      the cached role table and key client of \<open>core/security.py\<close>; \<open>EventBus\<close>:
      \<open>eventbus/base.py\<close>.
    \<^item> \<open>Scoring\<close>, \<open>Detection\<close>: \<open>agents/detection\<close>; \<open>Retrieval\<close>: \<open>rag\<close> and
      \<open>agents/knowledge/vector_store.py\<close>; \<open>Knowledge\<close>: \<open>agents/knowledge/agent.py\<close>.
    \<^item> \<open>Llm\<close>, \<open>LlmClient\<close>: \<open>core/llm_client.py\<close> and the cost of a call;
      \<open>RootCauseParser\<close>, \<open>RootCause\<close>: \<open>agents/root_cause/agent.py\<close>;
      \<open>RecommendationParser\<close>, \<open>Recommendation\<close>: \<open>agents/recommendation/agent.py\<close>;
      \<open>Prompts\<close>: the prompts of both agents and what the fake client reads back from them;
      \<open>Risk\<close>: \<open>agents/risk/agent.py\<close> with its configuration file; \<open>Orchestrator\<close>:
      \<open>agents/orchestrator/agent.py\<close>.
    \<^item> \<open>ActionMapping\<close>, \<open>ActionAgent\<close>, \<open>ActionLoop\<close>: \<open>agents/action\<close>;
      \<open>CmmsClient\<close>: \<open>core/cmms_client.py\<close>; \<open>CmmsService\<close>, \<open>CmmsHttp\<close>:
      \<open>mock-erp-cmms/main.py\<close>.
    \<^item> \<open>Security\<close>: \<open>core/security.py\<close>, \<open>api/auth.py\<close>; \<open>IncidentsApi\<close>:
      \<open>api/incidents.py\<close>; \<open>Ask\<close>: \<open>api/ask.py\<close>; \<open>Telemetry\<close>:
      \<open>api/telemetry.py\<close>; \<open>Http\<close>: \<open>api/metrics.py\<close>, \<open>api/middleware.py\<close>,
      \<open>core/logging_config.py\<close>; \<open>Observability\<close>: \<open>core/observability.py\<close>;
      \<open>Startup\<close>: \<open>main.py\<close>, \<open>core/runtime.py\<close>, \<open>api/health.py\<close> and the listener of
      the bus.
    \<^item> \<open>OidcProvider\<close>, \<open>LoginPage\<close>: \<open>oidc-provider/app\<close>.
    \<^item> \<open>Simulator\<close>: \<open>simulator/service.py\<close>, \<open>api/simulator.py\<close>; \<open>TepReplay\<close>:
      \<open>simulator/tep_replay.py\<close>; \<open>Producer\<close>: \<open>agent-service/simulator_main.py\<close>;
      \<open>TepData\<close>, \<open>Workspaces\<close>: \<open>scripts/download_tep_data.py\<close>; \<open>PublicDocs\<close>,
      \<open>WebPage\<close>: \<open>scripts/prepare_public_docs.py\<close>.
    \<^item> \<open>Platform\<close>: all agents, the decision endpoints and the people at the enterprise system as
      one transition system; \<open>ApprovalGate\<close>: its abstract contract and the simulation.

  \<^bold>\<open>How the code is translated.\<close>  A handler takes its environment (a record of parameters: the
  model, the network, the faults), the time and the state, and returns \<open>exc + 'a\<close> with the new
  state; every guard, early return and \<open>except\<close> is a branch.  The store is a record of row lists;
  a transaction is one definition.  The bus is the list of what was published; deliveries are the
  steps of \<open>Platform\<close>, in any order and any number.  Loops that the code bounds (retries, waits,
  tool rounds) recurse on the number of rounds left, with the constants of the code (3 attempts, 8
  and 5 waits, 4 tool rounds and one forced answer), so no fuel is chosen; all other recursion is
  structural or comes with a measure.

  \<^bold>\<open>Interfaces.\<close>  \<open>atomic_write\<close> is what a retried database write promises (three
  interpretations in \<open>StoreFacts\<close>); \<open>stage_agents\<close> what the Orchestrator needs of the two
  agents it drives (interpreted on the models of both); \<open>remote_cmms\<close> what the Action Agent needs
  of the enterprise system (interpreted on the endpoints of \<open>CmmsService\<close>);
  \<open>detection_relation\<close> and \<open>closing_invariant\<close> lift a relation over every path of the
  Detection Agent and of the resolution poll (interpreted on the relations and invariants the
  properties need).

  \<^bold>\<open>What is shown.\<close>
    \<^item> The gate.  The platform refines a contract of three rules (\<open>ApprovalGate\<close>); no effect
      reaches the outside without the approval of a verified person whose role and site allow it
      (\<open>Platform\<close>); decisions are guarded, recorded and taken once, and other sites are out of
      reach (\<open>IncidentsApi\<close>, \<open>Security\<close>); the Orchestrator never decides.
    \<^item> Grounding.  What a diagnosis or an answer cites leads back to the index, the history or the
      incident (\<open>RootCause\<close>, \<open>Knowledge\<close>, \<open>Ask\<close>); the prompts show the whole material line
      by line, and in the offline mode a run is accepted at its first attempt exactly if evidence was
      retrieved (\<open>Prompts\<close>).
    \<^item> Levels.  The level is the maximum of the applicable floors, a worse case is never gated
      lower under the shipped configuration (\<open>Risk\<close>), and a recommendation ends on the status
      its level demands (\<open>Recommendation\<close>).
    \<^item> The pipeline.  At most one open incident per equipment, anomalies are recorded or dead
      lettered (\<open>Detection\<close>), a diagnosed incident reaches the gate (\<open>Orchestrator\<close>), a
      successful startup wires every topic (\<open>Startup\<close>).
    \<^item> Execution.  What a run executed is what was mapped, recorded and settled; how many orders a
      call can add when answers get lost, and the crash window in which an order is created twice
      (\<open>CmmsService\<close>, \<open>ActionAgent\<close>); the loop closes an incident at most once.
    \<^item> Identity.  Tokens follow a login, codes are used once, and what the agent service makes of
      the issued tokens (\<open>OidcProvider\<close>).
    \<^item> Data.  Front matter, orders, identifiers and key material read back; simulator and replay
      against the thresholds of the Detection Agent; the converted data files hold the rows they
      claim (\<open>TepData\<close>, \<open>Workspaces\<close>), the generated documents pass their own check
      (\<open>PublicDocs\<close>, \<open>WebPage\<close>).

  \<^bold>\<open>Bounds of the model.\<close>  Strings are lists of code points below 256.  Floats are exact reals: no
  rounding of the arithmetic, no NaN, no infinity (\<open>round\<close> itself is modelled).  Time is an integer
  number of microseconds and one reading is taken per operation.  A handler run is atomic, except
  where the code waits and reads again: there the reads are a parameter (\<open>RootCause\<close>).  The text
  columns accept any text (a \<open>json\<close> column would refuse the cut details some statements write).
  Bodies of requests carry a string, or nothing, under the keys the handlers read.  Parameters stand
  for what is not in the repository: the language model, \<open>json.loads\<close> and \<open>json.dumps\<close> of
  model data, \<open>float\<close> of a text, TF-IDF and \<open>argsort\<close>, PyJWT and the key client, scrypt, SHA-256
  and RSA, the Prometheus and OpenTelemetry clients, Redis and PostgreSQL faults, random draws, the
  renderings of floats and dates.

  \<^bold>\<open>Not modelled.\<close>  The React frontend and its tests (JavaScript), the .NET middleware (C#), the
  infrastructure and dashboard files, the test suites and the load scripts: they are not Python
  implementation code.  Of the Python code: the layout of log lines, the style sheet of the login
  page, the CORS set-up, asyncio's tasks and sleeps (a loop is its rounds), the transport of HTTP,
  reading files and archives, the PDF reader and the R reader in the scripts (what they return is a
  parameter).
\<close>

end
